(* ===== verification/Prelude.thy ===== *)
theory Prelude
  imports Main
    "HOL-Library.List_Lexorder" "HOL-Library.Char_ord" "HOL-Library.Product_Lexorder"
    "HOL-Library.Multiset" "HOL-Library.Sublist"
begin

text \<open>
  Shared vocabulary of the development: the JavaScript string, array, \<open>Set\<close> and \<open>Map\<close>
  operations the modelled code uses, decimal numerals, and the interfaces (locales) that several
  components share. A JavaScript string is a \<open>char list\<close>: one \<open>char\<close> per UTF-16 code unit below
  256; \<open>Array.prototype.sort\<close> on strings is the lexicographic order of \<open>List_Lexorder\<close> over
  the code-unit order of \<open>Char_ord\<close>.
\<close>

named_theorems js_defs "definitions of the JavaScript library operations"

section \<open>Strings\<close>

definition starts_with :: "string \<Rightarrow> string \<Rightarrow> bool" where
  "starts_with s p \<longleftrightarrow> take (length p) s = p"

definition ends_with :: "string \<Rightarrow> string \<Rightarrow> bool" where
  "ends_with s p \<longleftrightarrow> length p \<le> length s \<and> drop (length s - length p) s = p"

lemma starts_with_iff: "starts_with s p \<longleftrightarrow> (\<exists>t. s = p @ t)"
  unfolding starts_with_def
proof
  assume h: "take (length p) s = p"
  have "s = take (length p) s @ drop (length p) s" by simp
  with h have "s = p @ drop (length p) s" by simp
  then show "\<exists>t. s = p @ t" ..
qed auto

lemma starts_with_append [simp]: "starts_with (p @ t) p"
  by (auto simp: starts_with_iff)

lemma starts_with_refl [simp]: "starts_with p p"
  by (simp add: starts_with_def)

fun js_join :: "string \<Rightarrow> string list \<Rightarrow> string" where
  "js_join sep [] = []"
| "js_join sep [x] = x"
| "js_join sep (x # y # ys) = x @ sep @ js_join sep (y # ys)"

fun split_on :: "'a \<Rightarrow> 'a list \<Rightarrow> 'a list list" where
  "split_on c [] = [[]]"
| "split_on c (x # xs) =
     (if x = c then [] # split_on c xs
      else (case split_on c xs of [] \<Rightarrow> [[x]] | w # ws \<Rightarrow> (x # w) # ws))"

lemma split_on_nonempty [simp]: "split_on c s \<noteq> []"
  by (induction s) (auto split: list.splits)

lemma js_join_Cons: "ws \<noteq> [] \<Longrightarrow> js_join sep (w # ws) = w @ sep @ js_join sep ws"
  by (cases ws) auto

lemma join_split [simp]: "js_join [c] (split_on c s) = s"
proof (induction s)
  case (Cons x s)
  show ?case
  proof (cases "split_on c s")
    case (Cons w ws)
    with Cons.IH show ?thesis by (cases ws) auto
  qed (simp)
qed simp

lemma split_on_no_sep: "c \<notin> set w \<Longrightarrow> split_on c w = [w]"
  by (induction w) auto

lemma split_on_append: "c \<notin> set w \<Longrightarrow> split_on c (w @ c # s) = w # split_on c s"
  by (induction w) auto

lemma split_join: "ws \<noteq> [] \<Longrightarrow> \<forall>w \<in> set ws. c \<notin> set w \<Longrightarrow> split_on c (js_join [c] ws) = ws"
proof (induction ws)
  case (Cons w ws)
  then show ?case
    by (cases "ws = []") (auto simp: js_join_Cons split_on_no_sep split_on_append)
qed simp

lemma split_on_no_sep_pieces: "w \<in> set (split_on c s) \<Longrightarrow> c \<notin> set w"
  by (induction s arbitrary: w) (auto split: list.splits if_splits)

lemma nul_split:
  assumes "CHR 0x00 \<notin> set a" "CHR 0x00 \<notin> set b" "a @ [CHR 0x00] @ r = b @ [CHR 0x00] @ s"
  shows "a = b \<and> r = s"
proof -
  have "split_on (CHR 0x00) (a @ [CHR 0x00] @ r) = a # split_on (CHR 0x00) r"
    "split_on (CHR 0x00) (b @ [CHR 0x00] @ s) = b # split_on (CHR 0x00) s"
    using assms(1,2) by (simp_all add: split_on_append)
  with assms(3) have "a = b" by simp
  with assms(3) show ?thesis by simp
qed

text \<open>\<open>s.replaceAll(c, r)\<close> for a one-character pattern.\<close>

fun replace_char :: "char \<Rightarrow> string \<Rightarrow> string \<Rightarrow> string" where
  "replace_char c r [] = []"
| "replace_char c r (x # xs) = (if x = c then r else [x]) @ replace_char c r xs"

text \<open>\<open>s.replaceAll(ab, r)\<close> for a two-character pattern, scanning left to right.\<close>

fun replace_pair :: "char \<Rightarrow> char \<Rightarrow> string \<Rightarrow> string \<Rightarrow> string" where
  "replace_pair a b r (x # y # s) =
     (if x = a \<and> y = b then r @ replace_pair a b r s else x # replace_pair a b r (y # s))"
| "replace_pair a b r s = s"

text \<open>\<open>toLowerCase\<close> on code units below 256.\<close>

definition lower_char :: "char \<Rightarrow> char" where
  "lower_char c = (let n = of_char c :: nat in
     if (65 \<le> n \<and> n \<le> 90) \<or> (192 \<le> n \<and> n \<le> 222 \<and> n \<noteq> 215) then char_of (n + 32) else c)"

definition to_lower :: "string \<Rightarrow> string" where
  "to_lower s = map lower_char s"

text \<open>\<open>s.includes(p)\<close>.\<close>

fun str_includes :: "string \<Rightarrow> string \<Rightarrow> bool" where
  "str_includes [] p = (p = [])"
| "str_includes (c # s) p = (starts_with (c # s) p \<or> str_includes s p)"

section \<open>Decimal numerals\<close>

definition digit_char :: "nat \<Rightarrow> char" where
  "digit_char n = char_of (48 + n mod 10)"

definition is_digit :: "char \<Rightarrow> bool" where
  "is_digit c \<longleftrightarrow> 48 \<le> (of_char c :: nat) \<and> (of_char c :: nat) \<le> 57"

definition digit_val :: "char \<Rightarrow> nat" where
  "digit_val c = of_char c - 48"

fun nat_str :: "nat \<Rightarrow> string" where
  "nat_str n = (if n < 10 then [digit_char n] else nat_str (n div 10) @ [digit_char n])"

declare nat_str.simps [simp del]

definition nat_of_str :: "string \<Rightarrow> nat" where
  "nat_of_str s = foldl (\<lambda>n c. 10 * n + digit_val c) 0 s"

definition int_str :: "int \<Rightarrow> string" where
  "int_str z = (if z < 0 then CHR ''-'' # nat_str (nat (- z)) else nat_str (nat z))"

lemma digit_char_is_digit [simp]: "is_digit (digit_char n)"
proof -
  have "n mod 10 < 10" by simp
  then have "48 + n mod 10 < 58" by linarith
  then show ?thesis by (simp add: digit_char_def is_digit_def)
qed

lemma digit_val_digit_char [simp]: "digit_val (digit_char n) = n mod 10"
proof -
  have "n mod 10 < 10" by simp
  then have "48 + n mod 10 < 256" by linarith
  then show ?thesis by (simp add: digit_char_def digit_val_def)
qed

lemma nat_str_nonempty [simp]: "nat_str n \<noteq> []"
  by (subst nat_str.simps) simp

lemma nat_str_digits: "c \<in> set (nat_str n) \<Longrightarrow> is_digit c"
proof (induction n rule: nat_str.induct)
  case (1 n)
  then show ?case by (subst (asm) (2) nat_str.simps) (auto split: if_splits)
qed

lemma nat_of_nat_str [simp]: "nat_of_str (nat_str n) = n"
proof (induction n rule: nat_str.induct)
  case (1 n)
  then show ?case
    by (subst nat_str.simps) (auto simp: nat_of_str_def)
qed

lemma minus_not_digit [simp]: "\<not> is_digit (CHR ''-'')"
  by (simp add: is_digit_def)

lemma nat_str_not_minus: "nat_str n \<noteq> CHR ''-'' # s"
  using nat_str_digits [of "CHR ''-''" n] by auto

lemma int_str_inj [simp]: "int_str a = int_str b \<longleftrightarrow> a = b"
proof
  assume h: "int_str a = int_str b"
  have n: "nat_str x = nat_str y \<Longrightarrow> x = y" for x y
    by (metis nat_of_nat_str)
  from h show "a = b"
    by (auto simp: int_str_def nat_str_not_minus nat_str_not_minus [symmetric]
        split: if_splits dest: n)
qed simp

lemma int_str_chars: "c \<in> set (int_str z) \<Longrightarrow> is_digit c \<or> c = CHR ''-''"
  by (auto simp: int_str_def dest: nat_str_digits split: if_splits)

lemma int_str_nonempty [simp]: "int_str z \<noteq> []"
  by (simp add: int_str_def)

section \<open>Arrays, sets and maps\<close>

text \<open>\<open>[...new Set(xs)]\<close>: first occurrences, in insertion order.\<close>

fun uniq_acc :: "'a list \<Rightarrow> 'a list \<Rightarrow> 'a list" where
  "uniq_acc seen [] = []"
| "uniq_acc seen (x # xs) =
     (if x \<in> set seen then uniq_acc seen xs else x # uniq_acc (x # seen) xs)"

definition uniq :: "'a list \<Rightarrow> 'a list" where
  "uniq xs = uniq_acc [] xs"

lemma uniq_acc_props:
  "set (uniq_acc seen xs) = set xs - set seen \<and> distinct (uniq_acc seen xs)"
  by (induction seen xs rule: uniq_acc.induct) auto

lemma set_uniq [simp]: "set (uniq xs) = set xs"
  by (simp add: uniq_def uniq_acc_props)

lemma distinct_uniq [simp]: "distinct (uniq xs)"
  by (simp add: uniq_def uniq_acc_props)

lemma uniq_acc_distinct: "distinct xs \<Longrightarrow> set xs \<inter> set seen = {} \<Longrightarrow> uniq_acc seen xs = xs"
  by (induction xs arbitrary: seen) auto

lemma uniq_distinct: "distinct xs \<Longrightarrow> uniq xs = xs"
  by (simp add: uniq_def uniq_acc_distinct)

text \<open>
  A JavaScript \<open>Map\<close>, or a plain object used as a dictionary with non-index keys, is the list of its
  entries in insertion order: setting an existing key keeps its place, a new key is appended.
\<close>

type_synonym ('k, 'v) jmap = "('k \<times> 'v) list"

abbreviation jm_get :: "('k, 'v) jmap \<Rightarrow> 'k \<Rightarrow> 'v option" where
  "jm_get \<equiv> map_of"

abbreviation jm_keys :: "('k, 'v) jmap \<Rightarrow> 'k list" where
  "jm_keys \<equiv> map fst"

fun jm_set :: "('k, 'v) jmap \<Rightarrow> 'k \<Rightarrow> 'v \<Rightarrow> ('k, 'v) jmap" where
  "jm_set [] k v = [(k, v)]"
| "jm_set ((k', v') # m) k v = (if k' = k then (k, v) # m else (k', v') # jm_set m k v)"

definition jm_delete :: "('k, 'v) jmap \<Rightarrow> 'k \<Rightarrow> ('k, 'v) jmap" where
  "jm_delete m k = filter (\<lambda>(k', v). k' \<noteq> k) m"

definition jm_has :: "('k, 'v) jmap \<Rightarrow> 'k \<Rightarrow> bool" where
  "jm_has m k \<longleftrightarrow> map_of m k \<noteq> None"

lemma jm_get_set [simp]: "jm_get (jm_set m k v) k' = (if k' = k then Some v else jm_get m k')"
  by (induction m k v rule: jm_set.induct) auto

lemma jm_get_delete [simp]: "jm_get (jm_delete m k) k' = (if k' = k then None else jm_get m k')"
  by (induction m) (auto simp: jm_delete_def)

lemma jm_keys_set: "jm_keys (jm_set m k v) = (if k \<in> set (jm_keys m) then jm_keys m else jm_keys m @ [k])"
  by (induction m k v rule: jm_set.induct) auto

lemma jm_keys_delete: "jm_keys (jm_delete m k) = filter (\<lambda>k'. k' \<noteq> k) (jm_keys m)"
  by (induction m) (auto simp: jm_delete_def)

lemma jm_has_iff [simp]: "jm_has m k \<longleftrightarrow> k \<in> set (jm_keys m)"
  by (simp add: jm_has_def map_of_eq_None_iff)

lemma distinct_jm_set [simp]: "distinct (jm_keys m) \<Longrightarrow> distinct (jm_keys (jm_set m k v))"
  by (simp add: jm_keys_set)

lemma distinct_jm_delete [simp]: "distinct (jm_keys m) \<Longrightarrow> distinct (jm_keys (jm_delete m k))"
  by (simp add: jm_keys_delete)

lemma jm_get_in_set: "distinct (jm_keys m) \<Longrightarrow> jm_get m k = Some v \<longleftrightarrow> (k, v) \<in> set m"
  by (rule map_of_eq_Some_iff)

lemma set_jm_set: "x \<in> set (jm_set m k v) \<Longrightarrow> x = (k, v) \<or> x \<in> set m"
  by (induction m k v rule: jm_set.induct) (auto split: if_splits)

lemma set_map_filter: "set (List.map_filter f xs) = {y. \<exists>x \<in> set xs. f x = Some y}"
  by (auto simp: map_filter_def) force

lemma list_update_at: "xs[i := x] ! j = (if i = j \<and> i < length xs then x else xs ! j)"
  by (cases "i < length xs") (auto simp: nth_list_update not_less list_update_beyond)

section \<open>Interfaces\<close>

text \<open>A dictionary: what a lookup returns after every update, and distinct enumerated keys.\<close>

locale dictionary =
  fixes get :: "'m \<Rightarrow> 'k \<Rightarrow> 'v option"
    and put :: "'m \<Rightarrow> 'k \<Rightarrow> 'v \<Rightarrow> 'm"
    and del :: "'m \<Rightarrow> 'k \<Rightarrow> 'm"
    and keys :: "'m \<Rightarrow> 'k list"
  assumes get_put: "get (put m k v) k' = (if k' = k then Some v else get m k')"
    and get_del: "get (del m k) k' = (if k' = k then None else get m k')"
    and keys_iff: "k \<in> set (keys m) \<longleftrightarrow> get m k \<noteq> None"
    and distinct_put: "distinct (keys m) \<Longrightarrow> distinct (keys (put m k v))"
    and distinct_del: "distinct (keys m) \<Longrightarrow> distinct (keys (del m k))"
begin

lemma set_keys_put: "set (keys (put m k v)) = insert k (set (keys m))"
  by (auto simp: keys_iff get_put split: if_splits)

lemma set_keys_del: "set (keys (del m k)) = set (keys m) - {k}"
  by (auto simp: keys_iff get_del split: if_splits)

lemma length_keys_put:
  "distinct (keys m) \<Longrightarrow> length (keys (put m k v)) = (if get m k = None then Suc (length (keys m)) else length (keys m))"
  by (simp add: distinct_card [symmetric] distinct_put set_keys_put keys_iff card_insert_if)

lemma length_keys_del:
  "distinct (keys m) \<Longrightarrow> length (keys (del m k)) = (if get m k = None then length (keys m) else length (keys m) - 1)"
  by (auto simp: distinct_card [symmetric] distinct_del set_keys_del keys_iff card_Diff_singleton_if)

end

interpretation js_map: dictionary jm_get jm_set jm_delete jm_keys
  by unfold_locales (auto simp: jm_keys_set jm_keys_delete map_of_eq_None_iff dest: map_of_SomeD)

text \<open>An encoding with a left inverse.\<close>

locale codec =
  fixes enc :: "'a \<Rightarrow> 'b" and dec :: "'b \<Rightarrow> 'a"
  assumes dec_enc: "dec (enc x) = x"
begin

lemma enc_eq_iff: "enc x = enc y \<longleftrightarrow> x = y"
  by (metis dec_enc)

lemma inj_enc: "inj enc"
  by (rule injI) (simp add: enc_eq_iff)

lemma distinct_map_enc: "distinct (map enc xs) \<longleftrightarrow> distinct xs"
  by (simp add: distinct_map inj_on_def enc_eq_iff)

end

interpretation numeral_text: codec nat_str nat_of_str
  by unfold_locales simp

text \<open>
  A machine that handles one event at a time. In a guarded machine the invariant is kept by the events
  its guard allows, so it holds after every sequence of allowed events; a machine without a guard is
  the instance whose guard allows everything.
\<close>

locale guarded_machine =
  fixes step :: "'e \<Rightarrow> 's \<Rightarrow> 's" and inv :: "'s \<Rightarrow> bool" and allowed :: "'e \<Rightarrow> 's \<Rightarrow> bool"
  assumes inv_allowed: "inv s \<Longrightarrow> allowed e s \<Longrightarrow> inv (step e s)"
begin

lemma inv_run:
  assumes "inv s" "\<And>pre e post. es = pre @ e # post \<Longrightarrow> allowed e (fold step pre s)"
  shows "inv (fold step es s)"
  using assms
proof (induction es arbitrary: s)
  case (Cons e es)
  have "allowed e s" using Cons.prems(2) [of "[]"] by simp
  then have "inv (step e s)" using Cons.prems(1) by (rule inv_allowed [rotated])
  moreover have "allowed e' (fold step pre (step e s))" if "es = pre @ e' # post" for pre e' post
    using Cons.prems(2) [of "e # pre" e' post] that by simp
  ultimately show ?case using Cons.IH by simp
qed simp

end

locale event_machine =
  fixes step :: "'e \<Rightarrow> 's \<Rightarrow> 's" and inv :: "'s \<Rightarrow> bool"
  assumes inv_step: "inv s \<Longrightarrow> inv (step e s)"
begin

lemma inv_fold: "inv s \<Longrightarrow> inv (fold step es s)"
  by (induction es arbitrary: s) (auto intro: inv_step)

end

sublocale event_machine \<subseteq> guarded_machine step inv "\<lambda>_ _. True"
  by unfold_locales (rule inv_step)

end
