(* ===== verification/JsValue.thy ===== *)
theory JsValue
  imports Prelude
begin

text \<open>
  JavaScript values as the application-graph code handles them (\<open>unknown\<close>, \<open>Record<string, unknown>\<close>,
  JSON scalars), property reads, object construction in property order, \<open>JSON.stringify\<close>, and the
  canonical forms of \<open>server/application-plan.ts\<close> (\<open>canonicalize\<close>, \<open>stableJson\<close>,
  \<open>semanticEqual\<close>). The main lemma is that the text of a canonical document determines the document.
\<close>

section \<open>Numbers\<close>

text \<open>
  A finite double is identified by the shortest decimal that reads back as it, which is what
  \<open>Number.prototype.toString\<close> prints: \<open>JInt z\<close>, or \<open>JFrac m k\<close> for \<open>m / 10 ^ k\<close> with \<open>0 < k\<close> and a
  last digit of \<open>m\<close> other than 0.
\<close>

datatype jsnum = JInt int | JFrac int nat | NegZero | NaN | PosInf | NegInf

fun num_finite :: "jsnum \<Rightarrow> bool" where
  "num_finite NaN = False"
| "num_finite PosInf = False"
| "num_finite NegInf = False"
| "num_finite _ = True"

text \<open>\<open>Number.isInteger\<close> and, for integers, the mathematical value.\<close>

fun num_int :: "jsnum \<Rightarrow> int option" where
  "num_int (JInt z) = Some z"
| "num_int NegZero = Some 0"
| "num_int _ = None"

definition max_safe_integer :: int where
  "max_safe_integer = 9007199254740991"

text \<open>\<open>left < right\<close> on numbers; false when either side is \<open>NaN\<close>.\<close>

fun num_mant :: "jsnum \<Rightarrow> int" where
  "num_mant (JInt z) = z"
| "num_mant (JFrac m k) = m"
| "num_mant _ = 0"

fun num_scale :: "jsnum \<Rightarrow> nat" where
  "num_scale (JFrac m k) = k"
| "num_scale _ = 0"

fun num_lt :: "jsnum \<Rightarrow> jsnum \<Rightarrow> bool" where
  "num_lt NaN _ = False"
| "num_lt _ NaN = False"
| "num_lt PosInf _ = False"
| "num_lt _ NegInf = False"
| "num_lt NegInf _ = True"
| "num_lt _ PosInf = True"
| "num_lt x y = (num_mant x * 10 ^ num_scale y < num_mant y * 10 ^ num_scale x)"

text \<open>\<open>Number.prototype.toString\<close> (ECMAScript 6.1.6.1.20), from the decimal digits and the position \<open>n\<close>
  of the decimal point after them.\<close>

fun strip_zeros :: "string \<Rightarrow> string" where
  "strip_zeros s = rev (dropWhile (\<lambda>c. c = CHR ''0'') (rev s))"

definition sci_text :: "string \<Rightarrow> int \<Rightarrow> string" where
  "sci_text ds e =
     (case ds of [] \<Rightarrow> [] | d # rest \<Rightarrow> [d] @ (if rest = [] then [] else CHR ''.'' # rest))
     @ ''e'' @ (if e < 0 then CHR ''-'' # nat_str (nat (- e)) else CHR ''+'' # nat_str (nat e))"

definition digits_text :: "string \<Rightarrow> int \<Rightarrow> string" where
  "digits_text ds n =
     (let k = int (length ds) in
      if k \<le> n \<and> n \<le> 21 then ds @ replicate (nat (n - k)) (CHR ''0'')
      else if 0 < n \<and> n \<le> 21 then take (nat n) ds @ ''.'' @ drop (nat n) ds
      else if -6 < n \<and> n \<le> 0 then ''0.'' @ replicate (nat (- n)) (CHR ''0'') @ ds
      else sci_text ds (n - 1))"

fun num_str :: "jsnum \<Rightarrow> string" where
  "num_str (JInt z) =
     (if \<bar>z\<bar> < 10 ^ 21 then int_str z
      else (let ds = nat_str (nat \<bar>z\<bar>) in
            (if z < 0 then ''-'' else '''') @ digits_text (strip_zeros ds) (int (length ds))))"
| "num_str (JFrac m k) =
     (let ds = nat_str (nat \<bar>m\<bar>) in
      (if m < 0 then ''-'' else '''') @ digits_text ds (int (length ds) - int k))"
| "num_str NegZero = ''0''"
| "num_str NaN = ''NaN''"
| "num_str PosInf = ''Infinity''"
| "num_str NegInf = ''-Infinity''"

section \<open>Values\<close>

datatype jsv =
    Undef | Null | Func
  | Bool bool
  | Num jsnum
  | Str string
  | Arr "jsv list"
  | Obj "(string \<times> jsv) list"

type_synonym fields = "(string \<times> jsv) list"

text \<open>Own enumerable keys of an object come integer indices first, ascending, then the others in the
  order of their creation. An integer index is a canonical numeral below \<open>2 ^ 32 - 1\<close>.\<close>

definition is_index :: "string \<Rightarrow> bool" where
  "is_index k \<longleftrightarrow> k \<noteq> [] \<and> list_all is_digit k \<and> (k = ''0'' \<or> hd k \<noteq> CHR ''0'')
      \<and> (length k < 10 \<or> length k = 10 \<and> k < ''4294967295'')"

definition js_order :: "(string \<times> 'a) list \<Rightarrow> (string \<times> 'a) list" where
  "js_order kvs =
     sort_key (\<lambda>kv. nat_of_str (fst kv)) (filter (\<lambda>kv. is_index (fst kv)) kvs)
     @ filter (\<lambda>kv. \<not> is_index (fst kv)) kvs"

abbreviation mk_obj :: "fields \<Rightarrow> jsv" where
  "mk_obj kvs \<equiv> Obj (js_order kvs)"

fun own_fields :: "jsv \<Rightarrow> fields" where
  "own_fields (Obj kvs) = kvs"
| "own_fields _ = []"

definition obj_keys :: "jsv \<Rightarrow> string list" where
  "obj_keys v = map fst (own_fields v)"

definition has_own :: "jsv \<Rightarrow> string \<Rightarrow> bool" where
  "has_own v k \<longleftrightarrow> k \<in> set (obj_keys v)"

text \<open>\<open>o[k]\<close>: a key that is not the object's own is looked up in \<open>Object.prototype\<close>.\<close>

definition proto_functions :: "string list" where
  "proto_functions =
     [''constructor'', ''hasOwnProperty'', ''isPrototypeOf'', ''propertyIsEnumerable'',
      ''toLocaleString'', ''toString'', ''valueOf'', ''__defineGetter__'', ''__defineSetter__'',
      ''__lookupGetter__'', ''__lookupSetter__'']"

definition fld :: "jsv \<Rightarrow> string \<Rightarrow> jsv" where
  "fld v k =
     (case v of
        Obj kvs \<Rightarrow>
          (case map_of kvs k of
             Some x \<Rightarrow> x
           | None \<Rightarrow> if k \<in> set proto_functions then Func
                     else if k = ''__proto__'' then Obj [] else Undef)
      | _ \<Rightarrow> Undef)"

fun is_record :: "jsv \<Rightarrow> bool" where
  "is_record (Obj kvs) = True"
| "is_record _ = False"

fun truthy :: "jsv \<Rightarrow> bool" where
  "truthy Undef = False"
| "truthy Null = False"
| "truthy (Bool b) = b"
| "truthy (Num (JInt z)) = (z \<noteq> 0)"
| "truthy (Num NegZero) = False"
| "truthy (Num NaN) = False"
| "truthy (Str s) = (s \<noteq> [])"
| "truthy _ = True"

text \<open>\<open>v ?? d\<close>\<close>

definition nullish :: "jsv \<Rightarrow> jsv \<Rightarrow> jsv" where
  "nullish v d = (if v = Undef \<or> v = Null then d else v)"

section \<open>\<open>JSON.stringify\<close>\<close>

definition hex_digit :: "nat \<Rightarrow> char" where
  "hex_digit n = (if n < 10 then char_of (48 + n) else char_of (87 + n))"

definition quote_char :: "char \<Rightarrow> string" where
  "quote_char c =
     (if c = CHR 0x22 then [CHR 0x5C, CHR 0x22]
      else if c = CHR 0x5C then [CHR 0x5C, CHR 0x5C]
      else if c = CHR 0x08 then [CHR 0x5C, CHR ''b'']
      else if c = CHR 0x0C then [CHR 0x5C, CHR ''f'']
      else if c = CHR 0x0A then [CHR 0x5C, CHR ''n'']
      else if c = CHR 0x0D then [CHR 0x5C, CHR ''r'']
      else if c = CHR 0x09 then [CHR 0x5C, CHR ''t'']
      else if (of_char c :: nat) < 32 then
        [CHR 0x5C, CHR ''u'', CHR ''0'', CHR ''0'',
         hex_digit (of_char c div 16), hex_digit (of_char c mod 16)]
      else [c])"

definition quote_str :: "string \<Rightarrow> string" where
  "quote_str s = CHR 0x22 # concat (map quote_char s) @ [CHR 0x22]"

fun json_text :: "jsv \<Rightarrow> string option" where
  "json_text Undef = None"
| "json_text Func = None"
| "json_text Null = Some ''null''"
| "json_text (Bool b) = Some (if b then ''true'' else ''false'')"
| "json_text (Num n) = Some (if num_finite n then num_str n else ''null'')"
| "json_text (Str s) = Some (quote_str s)"
| "json_text (Arr xs) =
     Some (''['' @ js_join '','' (map (\<lambda>x. case json_text x of None \<Rightarrow> ''null'' | Some t \<Rightarrow> t) xs) @ '']'')"
| "json_text (Obj kvs) =
     Some (''{'' @ js_join '',''
        (concat (map (\<lambda>(k, v). case json_text v of None \<Rightarrow> [] | Some t \<Rightarrow> [quote_str k @ '':'' @ t]) kvs)) @ ''}'')"

section \<open>Canonical form of the planner\<close>

text \<open>
  \<open>result[key] = canonicalize(value[key])\<close> over the sorted keys of an object. Assigning to
  \<open>__proto__\<close> calls the prototype setter and creates no key.
\<close>

fun canonicalize :: "jsv \<Rightarrow> jsv" where
  "canonicalize (Arr xs) = Arr (map canonicalize xs)"
| "canonicalize (Obj kvs) =
     mk_obj (filter (\<lambda>kv. fst kv \<noteq> ''__proto__'')
        (sort_key fst (map (\<lambda>(k, v). (k, canonicalize v)) kvs)))"
| "canonicalize v = v"

definition stable_json :: "jsv \<Rightarrow> string" where
  "stable_json v = (case json_text (canonicalize v) of None \<Rightarrow> ''undefined'' | Some t \<Rightarrow> t)"

definition semantic_equal :: "jsv \<Rightarrow> jsv \<Rightarrow> bool" where
  "semantic_equal l r \<longleftrightarrow> stable_json l = stable_json r"

section \<open>The text of a document determines it\<close>

lemma of_char_hex_digit: "n < 16 \<Longrightarrow> (of_char (hex_digit n) :: nat) = (if n < 10 then 48 + n else 87 + n)"
  by (auto simp: hex_digit_def)

lemma hex_digit_inj:
  assumes "m < 16" "n < 16" "hex_digit m = hex_digit n"
  shows "m = n"
proof -
  have "(if m < 10 then 48 + m else 87 + m) = (of_char (hex_digit n) :: nat)"
    using assms(1) by (simp add: assms(3) [symmetric] of_char_hex_digit del: of_char_eq_iff)
  also have "\<dots> = (if n < 10 then 48 + n else 87 + n)"
    using assms(2) by (rule of_char_hex_digit)
  finally show ?thesis using assms(1,2) by (simp split: if_splits)
qed

lemma quote_char_prefix: "quote_char c @ x = quote_char d @ y \<Longrightarrow> c = d \<and> x = y"
proof -
  assume h: "quote_char c @ x = quote_char d @ y"
  have hex: "c = d"
    if "(of_char c :: nat) < 32" "(of_char d :: nat) < 32"
      "hex_digit (of_char c div 16) = hex_digit (of_char d div 16)"
      "hex_digit (of_char c mod 16) = hex_digit (of_char d mod 16)"
  proof -
    from that have "(of_char c :: nat) div 16 = of_char d div 16"
      by (intro hex_digit_inj) (auto simp: less_mult_imp_div_less)
    moreover from that have "(of_char c :: nat) mod 16 = of_char d mod 16"
      by (intro hex_digit_inj) auto
    ultimately
    have "(of_char c :: nat) = of_char d" by (metis div_mult_mod_eq)
    then show ?thesis by simp
  qed
  from h show ?thesis
    by (auto simp: quote_char_def split: if_splits dest: hex)
qed

lemma quote_char_shape: "\<exists>d t. quote_char c = d # t \<and> d \<noteq> CHR 0x22"
  by (auto simp: quote_char_def)

lemma quote_str_prefix: "quote_str s @ x = quote_str t @ y \<Longrightarrow> s = t \<and> x = y"
proof -
  have body: "concat (map quote_char s) @ CHR 0x22 # x = concat (map quote_char t) @ CHR 0x22 # y \<Longrightarrow> s = t \<and> x = y" for s t
  proof (induction s arbitrary: t)
    case Nil
    then show ?case using quote_char_shape by (cases t) (auto, metis append_Cons list.inject)
  next
    case (Cons c s)
    show ?case
    proof (cases t)
      case Nil
      with Cons.prems show ?thesis using quote_char_shape [of c] by auto
    next
      case (Cons d t')
      with Cons.prems have "quote_char c @ (concat (map quote_char s) @ CHR 0x22 # x)
          = quote_char d @ (concat (map quote_char t') @ CHR 0x22 # y)" by simp
      from quote_char_prefix [OF this] Cons.IH Cons show ?thesis by auto
    qed
  qed
  assume "quote_str s @ x = quote_str t @ y"
  then show ?thesis by (intro body) (simp add: quote_str_def)
qed

text \<open>What may follow a value inside a document.\<close>

definition delimited :: "string \<Rightarrow> bool" where
  "delimited r \<longleftrightarrow> r = [] \<or> hd r \<in> {CHR '','', CHR '']'', CHR ''}''}"

lemma delimited_simps [simp]:
  "delimited []" "delimited (CHR '','' # r)" "delimited (CHR '']'' # r)" "delimited (CHR ''}'' # r)"
  by (auto simp: delimited_def)

lemma joined_prefix:
  assumes elem: "\<And>x y r s. x \<in> set xs \<Longrightarrow> y \<in> set ys \<Longrightarrow> delimited r \<Longrightarrow> delimited s \<Longrightarrow>
      f x @ r = f y @ s \<Longrightarrow> x = y \<and> r = s"
    and head: "\<And>z. z \<in> set xs \<union> set ys \<Longrightarrow> f z \<noteq> [] \<and> hd (f z) \<notin> {CHR '','', CHR '']'', CHR ''}''}"
    and c: "c = CHR '']'' \<or> c = CHR ''}''"
    and eq: "js_join '','' (map f xs) @ c # r = js_join '','' (map f ys) @ c # s"
  shows "xs = ys \<and> r = s"
  using elem head eq
proof (induction xs arbitrary: ys)
  case Nil
  then show ?case
  proof (cases ys)
    case (Cons y ys')
    with Nil.prems(2) [of y] obtain d t where "f y = d # t" "d \<notin> {CHR '','', CHR '']'', CHR ''}''}"
      by (cases "f y") auto
    with Nil.prems(3) Cons c show ?thesis by (cases ys') auto
  qed simp
next
  case (Cons x xs)
  show ?case
  proof (cases ys)
    case Nil
    with Cons.prems(2) [of x] obtain d t where "f x = d # t" "d \<notin> {CHR '','', CHR '']'', CHR ''}''}"
      by (cases "f x") auto
    with Cons.prems(3) Nil c show ?thesis by (cases xs) auto
  next
    case ys: (Cons y ys')
    define X where "X = (if xs = [] then c # r else CHR '','' # js_join '','' (map f xs) @ c # r)"
    define Y where "Y = (if ys' = [] then c # s else CHR '','' # js_join '','' (map f ys') @ c # s)"
    have "f x @ X = f y @ Y"
      using Cons.prems(3) ys by (cases xs; cases ys') (auto simp: X_def Y_def)
    moreover have "delimited X" "delimited Y"
      using c by (auto simp: X_def Y_def)
    ultimately have xy: "x = y" "X = Y"
      using Cons.prems(1) [of x y X Y] ys by auto
    have "xs = ys' \<and> r = s"
    proof (cases "xs = [] \<or> ys' = []")
      case True
      with xy(2) c show ?thesis by (auto simp: X_def Y_def split: if_splits)
    next
      case False
      with xy(2) have "js_join '','' (map f xs) @ c # r = js_join '','' (map f ys') @ c # s"
        by (simp add: X_def Y_def)
      with Cons.IH [of ys'] Cons.prems(1,2) ys show ?thesis by auto
    qed
    with xy ys show ?thesis by simp
  qed
qed

fun plain_num :: "jsnum \<Rightarrow> bool" where
  "plain_num (JInt z) = (\<bar>z\<bar> < 10 ^ 21)"
| "plain_num (JFrac m k) = (0 < k \<and> m mod 10 \<noteq> 0)"
| "plain_num _ = False"

fun plain :: "jsv \<Rightarrow> bool" where
  "plain Undef = False"
| "plain Func = False"
| "plain (Num n) = plain_num n"
| "plain (Arr xs) = list_all plain xs"
| "plain (Obj kvs) = list_all (\<lambda>kv. plain (snd kv)) kvs"
| "plain _ = True"

definition doc_text :: "jsv \<Rightarrow> string" where
  "doc_text v = (case json_text v of None \<Rightarrow> [] | Some t \<Rightarrow> t)"

definition member_text :: "string \<times> jsv \<Rightarrow> string" where
  "member_text kv = quote_str (fst kv) @ '':'' @ doc_text (snd kv)"

lemma plain_text: "plain v \<Longrightarrow> json_text v = Some (doc_text v)"
  by (cases v rule: json_text.cases) (auto simp: doc_text_def)

lemma txt_Arr: "plain (Arr xs) \<Longrightarrow> doc_text (Arr xs) = ''['' @ js_join '','' (map doc_text xs) @ '']''"
proof -
  assume p: "plain (Arr xs)"
  have "map (\<lambda>x. case json_text x of None \<Rightarrow> ''null'' | Some t \<Rightarrow> t) xs = map doc_text xs"
  proof (rule map_cong)
    fix x assume "x \<in> set xs"
    with p have "plain x" by (simp add: list_all_iff)
    then show "(case json_text x of None \<Rightarrow> ''null'' | Some t \<Rightarrow> t) = doc_text x"
      by (simp add: plain_text)
  qed simp
  then have "json_text (Arr xs) = Some (''['' @ js_join '','' (map doc_text xs) @ '']'')"
    by (simp only: json_text.simps)
  then show ?thesis by (simp only: doc_text_def [of "Arr xs"] option.case)
qed

lemma txt_Obj: "plain (Obj kvs) \<Longrightarrow> doc_text (Obj kvs) = ''{'' @ js_join '','' (map member_text kvs) @ ''}''"
proof -
  assume p: "plain (Obj kvs)"
  then have "concat (map (\<lambda>(k, v). case json_text v of None \<Rightarrow> [] | Some t \<Rightarrow> [quote_str k @ '':'' @ t]) kvs)
      = map member_text kvs"
    by (induction kvs) (auto simp: plain_text member_text_def)
  then show ?thesis by (simp add: doc_text_def)
qed

lemma span_unique:
  assumes "xs @ r = ys @ s" and "\<forall>c\<in>set xs. P c" and "\<forall>c\<in>set ys. P c"
    and "r = [] \<or> \<not> P (hd r)" and "s = [] \<or> \<not> P (hd s)"
  shows "xs = ys \<and> r = s"
  using assms
proof (induction xs arbitrary: ys)
  case Nil
  then show ?case by (cases ys) auto
next
  case (Cons x xs)
  then show ?case by (cases ys) auto
qed

text \<open>The decimal layouts of \<open>Number.prototype.toString\<close> tell the digits and the place of the point apart.\<close>

lemma digit_char_zero: "digit_char n = CHR ''0'' \<Longrightarrow> n mod 10 = 0"
proof -
  assume h: "digit_char n = CHR ''0''"
  have "n mod 10 = digit_val (digit_char n)" by simp
  also have "\<dots> = 0" unfolding h by (simp add: digit_val_def)
  finally show "n mod 10 = 0" .
qed

lemma nat_str_head: "0 < n \<Longrightarrow> \<exists>d t. nat_str n = d # t \<and> d \<noteq> CHR ''0''"
proof (induction n rule: nat_str.induct)
  case (1 n)
  show ?case
  proof (cases "n < 10")
    case True
    then show ?thesis using 1(2) using digit_char_zero [of n] by (subst nat_str.simps) auto
  next
    case False
    then have "0 < n div 10" by simp
    with 1(1) [OF False] False show ?thesis by (subst nat_str.simps) auto
  qed
qed

definition plain_digits :: "string \<Rightarrow> int \<Rightarrow> bool" where
  "plain_digits ds n \<longleftrightarrow> list_all is_digit ds \<and> ds \<noteq> [] \<and> hd ds \<noteq> CHR ''0'' \<and> n < int (length ds)"

lemma digits_layout:
  assumes "plain_digits ds n"
  shows "digits_text ds n = (if 0 < n \<and> n \<le> 21 then take (nat n) ds @ CHR ''.'' # drop (nat n) ds
    else if -6 < n \<and> n \<le> 0 then CHR ''0'' # CHR ''.'' # replicate (nat (- n)) (CHR ''0'') @ ds
    else (hd ds # (if tl ds = [] then [] else CHR ''.'' # tl ds)) @ CHR ''e'' #
      (if n - 1 < 0 then CHR ''-'' # nat_str (nat (- (n - 1))) else CHR ''+'' # nat_str (nat (n - 1))))"
  using assms by (cases ds) (auto simp: plain_digits_def digits_text_def sci_text_def Let_def)

lemma digit_facts: "is_digit c \<Longrightarrow> c \<noteq> CHR ''.'' \<and> c \<noteq> CHR ''e'' \<and> c \<noteq> CHR ''-'' \<and> c \<noteq> CHR ''+''"
  by (auto simp: is_digit_def)

lemma split_at: "xs @ c # r = ys @ c # s \<Longrightarrow> c \<notin> set xs \<Longrightarrow> c \<notin> set ys \<Longrightarrow> xs = ys \<and> r = s"
  using span_unique [of xs "c # r" ys "c # s" "\<lambda>x. x \<noteq> c"] by auto

lemma exponent_inj:
  "(if a < 0 then CHR ''-'' # nat_str (nat (- a)) else CHR ''+'' # nat_str (nat a)) =
   (if b < 0 then CHR ''-'' # nat_str (nat (- b)) else CHR ''+'' # nat_str (nat b)) \<Longrightarrow> a = (b :: int)"
proof -
  have inj: "nat_str x = nat_str y \<longleftrightarrow> x = y" for x y by (metis nat_of_nat_str)
  assume "(if a < 0 then CHR ''-'' # nat_str (nat (- a)) else CHR ''+'' # nat_str (nat a)) =
   (if b < 0 then CHR ''-'' # nat_str (nat (- b)) else CHR ''+'' # nat_str (nat b))"
  then show "a = b" by (auto simp: inj split: if_splits)
qed

lemma digits_text_inj:
  assumes p: "plain_digits ds n" "plain_digits es k" and eq: "digits_text ds n = digits_text es k"
  shows "ds = es \<and> n = k"
proof -
  have dig: "\<forall>c \<in> set ds. is_digit c" "\<forall>c \<in> set es. is_digit c" using p by (auto simp: plain_digits_def list_all_iff)
  have no: "x \<notin> set ds" "x \<notin> set es" if "\<not> is_digit x" for x using dig that by auto
  have nd: "\<not> is_digit (CHR ''.'')" "\<not> is_digit (CHR ''e'')" by (simp_all add: is_digit_def)
  have e_iff: "CHR ''e'' \<in> set (digits_text xs m) \<longleftrightarrow> \<not> (0 < m \<and> m \<le> 21) \<and> \<not> (-6 < m \<and> m \<le> 0)"
    if "plain_digits xs m" for xs m
    using that nd(2) unfolding digits_layout [OF that]
    by (auto simp: plain_digits_def list_all_iff dest: in_set_takeD in_set_dropD)
  have z_iff: "hd (digits_text xs m) = CHR ''0'' \<longleftrightarrow> -6 < m \<and> m \<le> 0" if "plain_digits xs m" for xs m
    using that unfolding digits_layout [OF that] by (cases xs) (auto simp: plain_digits_def take_Cons')
  consider (b) "0 < n" "n \<le> 21" "0 < k" "k \<le> 21" | (c) "-6 < n" "n \<le> 0" "-6 < k" "k \<le> 0"
    | (d) "\<not> (0 < n \<and> n \<le> 21)" "\<not> (-6 < n \<and> n \<le> 0)" "\<not> (0 < k \<and> k \<le> 21)" "\<not> (-6 < k \<and> k \<le> 0)"
    using e_iff [OF p(1)] e_iff [OF p(2)] z_iff [OF p(1)] z_iff [OF p(2)] eq by (metis linorder_not_less order_less_imp_le)
  then show ?thesis
  proof cases
    case b
    then have "take (nat n) ds @ CHR ''.'' # drop (nat n) ds = take (nat k) es @ CHR ''.'' # drop (nat k) es"
      using eq by (simp add: digits_layout p)
    moreover have "CHR ''.'' \<notin> set (take (nat n) ds)" "CHR ''.'' \<notin> set (take (nat k) es)"
      using no [OF nd(1)] by (auto dest: in_set_takeD)
    ultimately have t: "take (nat n) ds = take (nat k) es" "drop (nat n) ds = drop (nat k) es" by (blast dest: split_at)+
    then have "ds = es" by (metis append_take_drop_id)
    moreover have "length (take (nat n) ds) = nat n" "length (take (nat k) es) = nat k"
      using p by (auto simp: plain_digits_def)
    ultimately show ?thesis using t b by (metis eq_nat_nat_iff less_imp_le)
  next
    case c
    then have z: "replicate (nat (- n)) (CHR ''0'') @ ds = replicate (nat (- k)) (CHR ''0'') @ es"
      using eq by (simp add: digits_layout p)
    have "replicate (nat (- n)) (CHR ''0'') = replicate (nat (- k)) (CHR ''0'') \<and> ds = es"
      by (rule span_unique [OF z, where P = "\<lambda>x. x = CHR ''0''"]) (use p in \<open>auto simp: plain_digits_def\<close>)
    then show ?thesis using c by (auto simp: replicate_eq_replicate)
  next
    case d
    let ?m = "\<lambda>xs. hd xs # (if tl xs = [] then [] else CHR ''.'' # tl xs)"
    let ?x = "\<lambda>n. if n - 1 < 0 then CHR ''-'' # nat_str (nat (- (n - 1))) else CHR ''+'' # nat_str (nat (n - 1))"
    have "?m ds @ CHR ''e'' # ?x n = ?m es @ CHR ''e'' # ?x k"
      using eq d unfolding digits_layout [OF p(1)] digits_layout [OF p(2)] by simp
    moreover have "CHR ''e'' \<notin> set (?m ds)" "CHR ''e'' \<notin> set (?m es)"
      using no [OF nd(2)] p by (auto simp: plain_digits_def dest: list.set_sel hd_in_set)
    ultimately have t: "?m ds = ?m es" "?x n = ?x k" by (blast dest: split_at)+
    have "ds = es" using t(1) p by (cases ds; cases es) (auto simp: plain_digits_def split: if_splits)
    moreover have "n - 1 = k - 1" using t(2) by (rule exponent_inj)
    ultimately show ?thesis by simp
  qed
qed

lemma frac_digits:
  assumes "0 < k" "m mod 10 \<noteq> 0"
  shows "plain_digits (nat_str (nat \<bar>m\<bar>)) (int (length (nat_str (nat \<bar>m\<bar>))) - int k)"
proof -
  have "0 < nat \<bar>m\<bar>" using assms(2) by auto
  then obtain d t where "nat_str (nat \<bar>m\<bar>) = d # t" "d \<noteq> CHR ''0''" using nat_str_head by blast
  moreover have "list_all is_digit (nat_str (nat \<bar>m\<bar>))" by (simp add: list_all_iff nat_str_digits)
  ultimately show ?thesis using assms(1) by (simp add: plain_digits_def)
qed

lemma digits_text_chars:
  assumes "plain_digits ds n"
  shows "c \<in> set (digits_text ds n) \<Longrightarrow> is_digit c \<or> c \<in> {CHR ''.'', CHR ''e'', CHR ''-'', CHR ''+''}"
    and "\<exists>d t. digits_text ds n = d # t \<and> is_digit d"
    and "\<exists>c \<in> set (digits_text ds n). c = CHR ''.'' \<or> c = CHR ''e''"
proof -
  have dig: "\<forall>c \<in> set ds. is_digit c" "ds \<noteq> []" using assms by (auto simp: plain_digits_def list_all_iff)
  have z: "is_digit (CHR ''0'')" by (simp add: is_digit_def)
  show "c \<in> set (digits_text ds n) \<Longrightarrow> is_digit c \<or> c \<in> {CHR ''.'', CHR ''e'', CHR ''-'', CHR ''+''}"
    using dig z nat_str_digits unfolding digits_layout [OF assms]
    by (auto split: if_splits dest: in_set_takeD in_set_dropD list.set_sel)
  show "\<exists>d t. digits_text ds n = d # t \<and> is_digit d"
    using dig z unfolding digits_layout [OF assms] by (cases ds) (auto simp: take_Cons')
  show "\<exists>c \<in> set (digits_text ds n). c = CHR ''.'' \<or> c = CHR ''e''" unfolding digits_layout [OF assms] by auto
qed

lemma frac_head: "0 < k \<Longrightarrow> m mod 10 \<noteq> 0 \<Longrightarrow> \<exists>d t. num_str (JFrac m k) = d # t \<and> (is_digit d \<or> d = CHR ''-'')"
  using digits_text_chars(2) [OF frac_digits [of k m]] by (auto simp: Let_def)

lemma frac_chars: "0 < k \<Longrightarrow> m mod 10 \<noteq> 0 \<Longrightarrow> c \<in> set (num_str (JFrac m k)) \<Longrightarrow> is_digit c \<or> c \<in> {CHR ''.'', CHR ''e'', CHR ''-'', CHR ''+''}"
  using digits_text_chars(1) [OF frac_digits [of k m]] by (auto simp: Let_def split: if_splits)

lemma frac_not_int: "0 < k \<Longrightarrow> m mod 10 \<noteq> 0 \<Longrightarrow> num_str (JFrac m k) \<noteq> int_str z"
proof
  assume h: "0 < k" "m mod 10 \<noteq> 0" "num_str (JFrac m k) = int_str z"
  obtain c where "c \<in> set (num_str (JFrac m k))" "c = CHR ''.'' \<or> c = CHR ''e''"
    using digits_text_chars(3) [OF frac_digits [OF h(1,2)]] by (auto simp: Let_def)
  then show False unfolding h(3) by (auto dest!: int_str_chars simp: is_digit_def)
qed

lemma frac_inj:
  assumes "0 < k" "m mod 10 \<noteq> 0" "0 < k'" "m' mod 10 \<noteq> 0" "num_str (JFrac m k) = num_str (JFrac m' k')"
  shows "m = m' \<and> k = k'"
proof -
  let ?ds = "nat_str (nat \<bar>m\<bar>)" and ?es = "nat_str (nat \<bar>m'\<bar>)"
  note p = frac_digits [OF assms(1,2)] and q = frac_digits [OF assms(3,4)]
  have eq: "(if m < 0 then ''-'' else []) @ digits_text ?ds (int (length ?ds) - int k) =
    (if m' < 0 then ''-'' else []) @ digits_text ?es (int (length ?es) - int k')"
    using assms(5) by (simp add: Let_def)
  have nm: "digits_text ds n \<noteq> CHR ''-'' # t" if "plain_digits ds n" for ds n t
    using digits_text_chars(2) [OF that] by auto
  have s: "m < 0 \<longleftrightarrow> m' < 0" using eq nm [OF p] nm [OF q] nm [OF p, symmetric] nm [OF q, symmetric] by (auto split: if_splits)
  then have "digits_text ?ds (int (length ?ds) - int k) = digits_text ?es (int (length ?es) - int k')" using eq by simp
  from digits_text_inj [OF p q this] have d: "?ds = ?es" "int (length ?ds) - int k = int (length ?es) - int k'" by blast+
  then have "int k = int k'" by (metis diff_left_imp_eq)
  from d(1) have "nat \<bar>m\<bar> = nat \<bar>m'\<bar>" by (metis nat_of_nat_str)
  then show ?thesis using \<open>int k = int k'\<close> s by auto
qed

lemma num_head: "plain_num n \<Longrightarrow> \<exists>d t. num_str n = d # t \<and> (is_digit d \<or> d = CHR ''-'')"
proof (cases n)
  case (JInt z)
  assume "plain_num n"
  with JInt have "num_str n = int_str z" by simp
  moreover obtain d t where "int_str z = d # t"
    using int_str_nonempty by (cases "int_str z") blast+
  ultimately show ?thesis using int_str_chars [of d z] by auto
next
  case (JFrac m k)
  assume "plain_num n"
  with JFrac frac_head [of k m] show ?thesis by simp
qed auto

lemma num_chars: "plain_num n \<Longrightarrow> c \<in> set (num_str n) \<Longrightarrow> is_digit c \<or> c \<in> {CHR ''.'', CHR ''e'', CHR ''-'', CHR ''+''}"
  using frac_chars by (cases n) (auto dest: int_str_chars simp del: num_str.simps(2))

lemma num_str_inj: "plain_num m \<Longrightarrow> plain_num n \<Longrightarrow> num_str m = num_str n \<Longrightarrow> m = n"
proof (cases m; cases n)
  fix a j b k assume h: "plain_num m" "plain_num n" "num_str m = num_str n" "m = JFrac a j" "n = JFrac b k"
  with frac_inj [of j a k b] show "m = n" by (simp del: num_str.simps)
next
  fix a b k assume h: "plain_num m" "plain_num n" "num_str m = num_str n" "m = JInt a" "n = JFrac b k"
  with frac_not_int [of k b a] show "m = n" by (metis num_str.simps(1) plain_num.simps(1,2))
next
  fix a j b assume h: "plain_num m" "plain_num n" "num_str m = num_str n" "m = JFrac a j" "n = JInt b"
  with frac_not_int [of j a b] show "m = n" by (metis num_str.simps(1) plain_num.simps(1,2))
qed auto

lemma not_digits [simp]:
  "\<not> is_digit (CHR '','')" "\<not> is_digit (CHR '']'')" "\<not> is_digit (CHR ''}'')"
  "\<not> is_digit (CHR ''['')" "\<not> is_digit (CHR ''{'')" "\<not> is_digit (CHR 0x22)"
  "\<not> is_digit (CHR ''n'')" "\<not> is_digit (CHR ''t'')" "\<not> is_digit (CHR ''f'')"
  by (simp_all add: is_digit_def)

lemma num_prefix:
  assumes "plain_num m" "plain_num n" "num_str m @ r = num_str n @ s" "delimited r" "delimited s"
  shows "m = n \<and> r = s"
proof -
  let ?P = "\<lambda>c. is_digit c \<or> c \<in> {CHR ''.'', CHR ''e'', CHR ''-'', CHR ''+''}"
  have stop: "delimited q \<Longrightarrow> q = [] \<or> \<not> ?P (hd q)" for q
    by (auto simp: delimited_def)
  have "num_str m = num_str n \<and> r = s"
    by (rule span_unique [where P = ?P]) (use assms stop num_chars in blast)+
  with assms num_str_inj show ?thesis by blast
qed

text \<open>The first character of a value tells its kind.\<close>

fun kind_char :: "jsv \<Rightarrow> char \<Rightarrow> bool" where
  "kind_char Null d = (d = CHR ''n'')"
| "kind_char (Bool b) d = (d = (if b then CHR ''t'' else CHR ''f''))"
| "kind_char (Num n) d = (is_digit d \<or> d = CHR ''-'')"
| "kind_char (Str s) d = (d = CHR 0x22)"
| "kind_char (Arr xs) d = (d = CHR ''['')"
| "kind_char (Obj kvs) d = (d = CHR ''{'')"
| "kind_char _ d = False"

lemma doc_text_head: "plain v \<Longrightarrow> \<exists>d t. doc_text v = d # t \<and> kind_char v d"
proof (cases v)
  case (Num n)
  assume "plain v"
  with Num num_head [of n] show ?thesis by (auto simp: doc_text_def) (cases n; force)+
next
  case (Arr xs)
  assume "plain v"
  with Arr txt_Arr [of xs] show ?thesis by simp
next
  case (Obj kvs)
  assume "plain v"
  with Obj txt_Obj [of kvs] show ?thesis by simp
qed (auto simp: doc_text_def quote_str_def)

lemma kind_char_not_delim: "kind_char v d \<Longrightarrow> d \<notin> {CHR '','', CHR '']'', CHR ''}''}"
  by (cases v) (auto split: if_splits)

lemma doc_text_not_delim: "plain v \<Longrightarrow> doc_text v \<noteq> [] \<and> hd (doc_text v) \<notin> {CHR '','', CHR '']'', CHR ''}''}"
  using doc_text_head [of v] kind_char_not_delim [of v] by auto


lemma kind_char_unique: "kind_char v d \<Longrightarrow> kind_char w d \<Longrightarrow>
   (v = w \<and> (v = Null \<or> (\<exists>b. v = Bool b))) \<or> (\<exists>m n. v = Num m \<and> w = Num n) \<or> (\<exists>s t. v = Str s \<and> w = Str t)
   \<or> (\<exists>xs ys. v = Arr xs \<and> w = Arr ys) \<or> (\<exists>xs ys. v = Obj xs \<and> w = Obj ys)"
  by (cases v; cases w) (auto split: if_splits)

lemma doc_text_prefix:
  assumes "plain v" "plain w" "doc_text v @ r = doc_text w @ s" "delimited r" "delimited s"
  shows "v = w \<and> r = s"
  using assms
proof (induction v arbitrary: w r s)
  case (Num n)
  obtain d t where d: "doc_text (Num n) = d # t" "kind_char (Num n) d"
    using doc_text_head [OF Num.prems(1)] by blast
  obtain d' t' where d': "doc_text w = d' # t'" "kind_char w d'"
    using doc_text_head [OF Num.prems(2)] by blast
  with d Num.prems(3) obtain m where w: "w = Num m"
    using kind_char_unique [of "Num n" d w] by auto
  have t: "doc_text (Num k) = num_str k" if "plain_num k" for k
    using that by (cases k) (auto simp: doc_text_def)
  show ?case
    using Num.prems w num_prefix [of n m r s] by (simp add: t)
next
  case (Str a)
  obtain d t where d: "doc_text (Str a) = d # t" "kind_char (Str a) d"
    using doc_text_head [OF Str.prems(1)] by blast
  obtain d' t' where d': "doc_text w = d' # t'" "kind_char w d'"
    using doc_text_head [OF Str.prems(2)] by blast
  with d Str.prems(3) obtain b where w: "w = Str b"
    using kind_char_unique [of "Str a" d w] by auto
  with Str.prems(3) quote_str_prefix [of a r b s] show ?case by (simp add: doc_text_def)
next
  case (Arr xs)
  obtain d t where d: "doc_text (Arr xs) = d # t" "kind_char (Arr xs) d"
    using doc_text_head [OF Arr.prems(1)] by blast
  obtain d' t' where d': "doc_text w = d' # t'" "kind_char w d'"
    using doc_text_head [OF Arr.prems(2)] by blast
  with d Arr.prems(3) obtain ys where w: "w = Arr ys"
    using kind_char_unique [of "Arr xs" d w] by auto
  have p: "z \<in> set xs \<union> set ys \<Longrightarrow> plain z" for z
    using Arr.prems(1,2) w by (auto simp: list_all_iff)
  have "xs = ys \<and> r = s"
  proof (rule joined_prefix [where f = doc_text and c = "CHR '']''"])
    show "js_join '','' (map doc_text xs) @ CHR '']'' # r = js_join '','' (map doc_text ys) @ CHR '']'' # s"
      using Arr.prems w by (simp add: txt_Arr)
  next
    fix x y q u
    assume "x \<in> set xs" "y \<in> set ys" "delimited q" "delimited u" "doc_text x @ q = doc_text y @ u"
    then show "x = y \<and> q = u" using Arr.IH [of x y q u] p by blast
  qed (use p doc_text_not_delim in auto)
  with w show ?case by simp
next
  case (Obj xs)
  obtain d t where d: "doc_text (Obj xs) = d # t" "kind_char (Obj xs) d"
    using doc_text_head [OF Obj.prems(1)] by blast
  obtain d' t' where d': "doc_text w = d' # t'" "kind_char w d'"
    using doc_text_head [OF Obj.prems(2)] by blast
  with d Obj.prems(3) obtain ys where w: "w = Obj ys"
    using kind_char_unique [of "Obj xs" d w] by auto
  have p: "z \<in> set xs \<union> set ys \<Longrightarrow> plain (snd z)" for z
    using Obj.prems(1,2) w by (auto simp: list_all_iff)
  have "xs = ys \<and> r = s"
  proof (rule joined_prefix [where f = member_text and c = "CHR ''}''"])
    show "js_join '','' (map member_text xs) @ CHR ''}'' # r = js_join '','' (map member_text ys) @ CHR ''}'' # s"
      using Obj.prems w by (simp add: txt_Obj)
  next
    fix x y q u
    assume x: "x \<in> set xs" "y \<in> set ys" "delimited q" "delimited u"
      and eq: "member_text x @ q = member_text y @ u"
    from eq have "quote_str (fst x) @ ('':'' @ doc_text (snd x) @ q) = quote_str (fst y) @ ('':'' @ doc_text (snd y) @ u)"
      by (simp add: member_text_def)
    from quote_str_prefix [OF this] have k: "fst x = fst y" "doc_text (snd x) @ q = doc_text (snd y) @ u"
      by simp_all
    have "snd x = snd y \<and> q = u"
      by (rule Obj.IH [of x "snd x"]) (use x p k in \<open>auto simp: prod_set_simps intro: snds.intros\<close>)
    with k show "x = y \<and> q = u" by (simp add: prod_eq_iff)
  qed (auto simp: member_text_def quote_str_def)
  with w show ?case by simp
next
  case Null
  obtain d' t' where d': "doc_text w = d' # t'" "kind_char w d'"
    using doc_text_head [OF Null.prems(2)] by blast
  with Null.prems(3) have "w = Null"
    using kind_char_unique [of Null d' w] by (auto simp: doc_text_def)
  with Null.prems(3) show ?case by simp
next
  case (Bool b)
  obtain d t where d: "doc_text (Bool b) = d # t" "kind_char (Bool b) d"
    using doc_text_head [OF Bool.prems(1)] by blast
  obtain d' t' where d': "doc_text w = d' # t'" "kind_char w d'"
    using doc_text_head [OF Bool.prems(2)] by blast
  with d Bool.prems(3) have "w = Bool b"
    using kind_char_unique [of "Bool b" d w] by auto
  with Bool.prems(3) show ?case by simp
qed simp_all

lemma doc_text_inj: "plain v \<Longrightarrow> plain w \<Longrightarrow> json_text v = json_text w \<longleftrightarrow> v = w"
  using doc_text_prefix [of v w "[]" "[]"] by (auto simp: plain_text)


section \<open>Canonical documents\<close>

lemma set_js_order [simp]: "set (js_order kvs) = set kvs"
  by (auto simp: js_order_def)

lemma mset_js_order: "mset (js_order kvs) = mset kvs"
proof -
  have "mset (filter P kvs) + mset (filter (\<lambda>x. \<not> P x) kvs) = mset kvs" for P
    by (induction kvs) auto
  then show ?thesis by (simp add: js_order_def)
qed

lemma distinct_keys_js_order [simp]: "distinct (map fst (js_order kvs)) \<longleftrightarrow> distinct (map fst kvs)"
proof -
  have "mset (map fst (js_order kvs)) = mset (map fst kvs)"
    by (simp add: mset_js_order)
  then show ?thesis by (rule mset_eq_imp_distinct_iff)
qed

lemma map_of_perm:
  "distinct (map fst xs) \<Longrightarrow> distinct (map fst ys) \<Longrightarrow> set xs = set ys \<Longrightarrow> map_of xs = map_of ys"
  by (simp add: map_of_inject_set)

lemma map_of_js_order [simp]: "distinct (map fst kvs) \<Longrightarrow> map_of (js_order kvs) = map_of kvs"
  by (rule map_of_perm) auto

text \<open>Every object of the value has distinct keys, as JavaScript objects do.\<close>

fun js_wf :: "jsv \<Rightarrow> bool" where
  "js_wf (Arr xs) = list_all js_wf xs"
| "js_wf (Obj kvs) = (distinct (map fst kvs) \<and> list_all (\<lambda>kv. js_wf (snd kv)) kvs)"
| "js_wf _ = True"

definition canon_fields :: "fields \<Rightarrow> fields" where
  "canon_fields kvs =
     filter (\<lambda>kv. fst kv \<noteq> ''__proto__'') (sort_key fst (map (\<lambda>(k, v). (k, canonicalize v)) kvs))"

lemma canonicalize_Obj: "canonicalize (Obj kvs) = mk_obj (canon_fields kvs)"
  by (simp add: canon_fields_def)

lemma keys_map_snd [simp]: "map fst (map (\<lambda>(k, v). (k, f v)) kvs) = map fst kvs"
  by (induction kvs) auto

lemma keys_map_snd_comp [simp]: "map (fst \<circ> (\<lambda>(k, v). (k, f v))) kvs = map fst kvs"
  by (induction kvs) auto

lemma map_of_filter_key: "map_of (filter (\<lambda>kv. P (fst kv)) xs) k = (if P k then map_of xs k else None)"
  by (induction xs) auto

lemma distinct_sort_key: "distinct (map fst (sort_key fst xs)) \<longleftrightarrow> distinct (map fst xs)"
  by (rule mset_eq_imp_distinct_iff) simp

lemma map_of_sort_key: "distinct (map fst xs) \<Longrightarrow> map_of (sort_key fst xs) = map_of xs"
  by (rule map_of_perm) (simp_all add: distinct_sort_key)

lemma sorted_fields_unique:
  assumes "sorted (map fst xs)" "distinct (map fst xs)" "sorted (map fst ys)" "distinct (map fst ys)"
    and "set xs = set ys"
  shows "xs = ys"
  by (rule map_sorted_distinct_set_unique [where f = fst]) (use assms in \<open>auto simp: distinct_map\<close>)

lemma distinct_canon_fields: "distinct (map fst kvs) \<Longrightarrow> distinct (map fst (canon_fields kvs))"
  unfolding canon_fields_def
  by (intro distinct_map_filter) (simp add: distinct_sort_key)

lemma sorted_canon_fields: "sorted (map fst (canon_fields kvs))"
  by (simp add: canon_fields_def sorted_filter)

lemma map_of_canon_fields:
  assumes "distinct (map fst kvs)"
  shows "map_of (canon_fields kvs) k =
    (if k = ''__proto__'' then None else map_option canonicalize (map_of kvs k))"
  using assms
  by (simp add: canon_fields_def map_of_filter_key [where P = "\<lambda>k. k \<noteq> ''__proto__''"]
      map_of_sort_key map_of_map)

text \<open>The canonical form of an object depends on its lookups only.\<close>

lemma canon_fields_ext:
  assumes "distinct (map fst xs)" "distinct (map fst ys)"
    and "\<And>k. k \<noteq> ''__proto__'' \<Longrightarrow> map_option canonicalize (map_of xs k) = map_option canonicalize (map_of ys k)"
  shows "canon_fields xs = canon_fields ys"
proof -
  have "map_of (canon_fields xs) = map_of (canon_fields ys)"
    using assms by (auto simp: fun_eq_iff map_of_canon_fields)
  then have "set (canon_fields xs) = set (canon_fields ys)"
    using assms(1,2) by (simp add: map_of_inject_set distinct_canon_fields)
  then show ?thesis
    using assms(1,2) by (intro sorted_fields_unique) (simp_all add: sorted_canon_fields distinct_canon_fields)
qed

lemma canonicalize_Obj_eq_iff:
  assumes "distinct (map fst xs)" "distinct (map fst ys)"
  shows "canonicalize (Obj xs) = canonicalize (Obj ys) \<longleftrightarrow>
    (\<forall>k. k \<noteq> ''__proto__'' \<longrightarrow> map_option canonicalize (map_of xs k) = map_option canonicalize (map_of ys k))"
proof
  assume "canonicalize (Obj xs) = canonicalize (Obj ys)"
  then have "js_order (canon_fields xs) = js_order (canon_fields ys)"
    by (simp only: canonicalize_Obj jsv.inject)
  then have "map_of (canon_fields xs) = map_of (canon_fields ys)"
    using assms by (metis distinct_canon_fields map_of_js_order)
  then show "\<forall>k. k \<noteq> ''__proto__'' \<longrightarrow> map_option canonicalize (map_of xs k) = map_option canonicalize (map_of ys k)"
    using assms by (metis map_of_canon_fields)
next
  assume "\<forall>k. k \<noteq> ''__proto__'' \<longrightarrow> map_option canonicalize (map_of xs k) = map_option canonicalize (map_of ys k)"
  then have "canon_fields xs = canon_fields ys"
    using assms by (intro canon_fields_ext) auto
  then show "canonicalize (Obj xs) = canonicalize (Obj ys)"
    by (simp only: canonicalize_Obj)
qed

lemma plain_canonicalize [simp]: "plain v \<Longrightarrow> plain (canonicalize v)"
  by (induction v) (fastforce simp: list_all_iff)+

lemma js_wf_canonicalize: "js_wf v \<Longrightarrow> js_wf (canonicalize v)"
proof (induction v)
  case (Obj kvs)
  have "list_all (\<lambda>kv. js_wf (snd kv)) (canon_fields kvs)"
    using Obj by (fastforce simp: canon_fields_def list_all_iff)
  then show ?case
    using Obj.prems unfolding canonicalize_Obj
    by (simp add: distinct_canon_fields list_all_iff)
qed (auto simp: list_all_iff)

lemma semantic_equal_iff:
  "plain v \<Longrightarrow> plain w \<Longrightarrow> semantic_equal v w \<longleftrightarrow> canonicalize v = canonicalize w"
  using doc_text_inj [of "canonicalize v" "canonicalize w"]
  by (auto simp: semantic_equal_def stable_json_def plain_text)

lemma semantic_equal_refl [simp]: "semantic_equal v v"
  by (simp add: semantic_equal_def)

lemma semantic_equal_sym: "semantic_equal v w \<longleftrightarrow> semantic_equal w v"
  by (auto simp: semantic_equal_def)

lemma semantic_equal_trans: "semantic_equal u v \<Longrightarrow> semantic_equal v w \<Longrightarrow> semantic_equal u w"
  by (simp add: semantic_equal_def)

lemma canonicalize_idem: "js_wf v \<Longrightarrow> canonicalize (canonicalize v) = canonicalize v"
proof (induction v)
  case (Obj kvs)
  have d: "distinct (map fst kvs)" using Obj.prems by simp
  have "canonicalize (Obj (js_order (canon_fields kvs))) = canonicalize (Obj kvs)"
  proof (subst canonicalize_Obj_eq_iff)
    have "map_option canonicalize (map_option canonicalize (map_of kvs k)) = map_option canonicalize (map_of kvs k)" for k
      using Obj.IH Obj.prems by (cases "map_of kvs k") (auto simp: list_all_iff dest!: map_of_SomeD intro: snds.intros)
    then show "\<forall>k. k \<noteq> ''__proto__'' \<longrightarrow>
        map_option canonicalize (map_of (js_order (canon_fields kvs)) k) = map_option canonicalize (map_of kvs k)"
      using d by (simp add: distinct_canon_fields map_of_canon_fields)
  qed (use d in \<open>simp_all add: distinct_canon_fields\<close>)
  then show ?case by (simp only: canonicalize_Obj)
qed (auto simp: list_all_iff)


section \<open>Text conversions and checks shared by the graph code\<close>

definition dquote :: "string \<Rightarrow> string" where
  "dquote s = [CHR 0x22] @ s @ [CHR 0x22]"

text \<open>\<open>String(v)\<close>, as template literals and property keys use it.\<close>

fun js_string :: "jsv \<Rightarrow> string" where
  "js_string Undef = ''undefined''"
| "js_string Null = ''null''"
| "js_string Func = ''function''"
| "js_string (Bool b) = (if b then ''true'' else ''false'')"
| "js_string (Num n) = (if n = NegZero then ''0'' else num_str n)"
| "js_string (Str s) = s"
| "js_string (Arr xs) = js_join '','' (map (\<lambda>x. case x of Undef \<Rightarrow> [] | Null \<Rightarrow> [] | _ \<Rightarrow> js_string x) xs)"
| "js_string (Obj kvs) = ''[object Object]''"

fun is_str :: "jsv \<Rightarrow> bool" where
  "is_str (Str s) = True"
| "is_str _ = False"

fun is_bool :: "jsv \<Rightarrow> bool" where
  "is_bool (Bool b) = True"
| "is_bool _ = False"

fun is_arr :: "jsv \<Rightarrow> bool" where
  "is_arr (Arr xs) = True"
| "is_arr _ = False"

fun arr_items :: "jsv \<Rightarrow> jsv list" where
  "arr_items (Arr xs) = xs"
| "arr_items _ = []"

fun str_of :: "jsv \<Rightarrow> string" where
  "str_of (Str s) = s"
| "str_of _ = []"

fun int_of :: "jsv \<Rightarrow> int option" where
  "int_of (Num n) = num_int n"
| "int_of _ = None"

text \<open>\<open>Object.fromEntries(Object.entries(value).filter(...))\<close> of \<open>omitUndefined\<close> on an object literal.\<close>

definition omit_undefined :: "fields \<Rightarrow> jsv" where
  "omit_undefined kvs = Obj (filter (\<lambda>kv. snd kv \<noteq> Undef) kvs)"

text \<open>A dictionary filled by \<open>output[key] = value\<close> while its keys are enumerated.\<close>

definition build_map :: "fields \<Rightarrow> jsv" where
  "build_map kvs = Obj (filter (\<lambda>kv. fst kv \<noteq> ''__proto__'') kvs)"

lemma truthy_Undef_iff [simp]: "is_record v \<Longrightarrow> truthy v"
  by (cases v) auto

end
