(* ===== verification/SpecValidate.thy ===== *)
theory SpecValidate
  imports JsValue
begin

text \<open>
  The manifest validator of \<open>server/application-spec.ts\<close>: \<open>validateApplicationManifest\<close> and the
  checks below it. A check that pushes on \<open>issues\<close> returns the list of its issues, in order, beside
  its value; the manifest is accepted when the whole list is empty. The URL parser of the runtime is
  the parameter \<open>url\<close>: protocol and hostname of an absolute URL, \<open>None\<close> when the constructor throws.
\<close>

type_synonym 'a checked = "string list \<times> 'a"

type_synonym url_parser = "string \<Rightarrow> (string \<times> string) option"

section \<open>Scalar checks\<close>

definition is_lower :: "char \<Rightarrow> bool" where
  "is_lower c \<longleftrightarrow> CHR ''a'' \<le> c \<and> c \<le> CHR ''z''"

definition is_upper :: "char \<Rightarrow> bool" where
  "is_upper c \<longleftrightarrow> CHR ''A'' \<le> c \<and> c \<le> CHR ''Z''"

definition to_lower :: "char \<Rightarrow> char" where
  "to_lower c = (if is_upper c then char_of (of_char c + 32 :: nat) else c)"

definition name_pattern :: "string \<Rightarrow> bool" where
  "name_pattern s \<longleftrightarrow>
     (case s of [] \<Rightarrow> False
      | c # cs \<Rightarrow> is_lower c \<and> list_all (\<lambda>x. is_lower x \<or> is_digit x \<or> x = CHR ''-'') cs \<and> length cs \<le> 62)"

definition configuration_name_pattern :: "string \<Rightarrow> bool" where
  "configuration_name_pattern s \<longleftrightarrow>
     (case s of [] \<Rightarrow> False
      | c # cs \<Rightarrow> (is_lower c \<or> is_upper c)
          \<and> list_all (\<lambda>x. is_lower x \<or> is_upper x \<or> is_digit x \<or> x = CHR ''_'' \<or> x = CHR ''-'') cs
          \<and> length cs \<le> 63)"

definition environment_name_pattern :: "string \<Rightarrow> bool" where
  "environment_name_pattern s \<longleftrightarrow>
     (case s of [] \<Rightarrow> False
      | c # cs \<Rightarrow> (is_lower c \<or> is_upper c \<or> c = CHR ''_'')
          \<and> list_all (\<lambda>x. is_lower x \<or> is_upper x \<or> is_digit x \<or> x = CHR ''_'') cs)"

definition profile_char :: "char \<Rightarrow> bool" where
  "profile_char c \<longleftrightarrow> is_lower c \<or> is_digit c \<or> c = CHR ''.'' \<or> c = CHR ''-''"

definition profile_pattern :: "string \<Rightarrow> bool" where
  "profile_pattern s \<longleftrightarrow>
     (let a = takeWhile profile_char s; r = dropWhile profile_char s;
          b = takeWhile profile_char (tl r); v = dropWhile profile_char (tl r) in
      a \<noteq> [] \<and> r \<noteq> [] \<and> hd r = CHR ''/'' \<and> b \<noteq> [] \<and> v \<noteq> [] \<and> hd v = CHR ''@''
      \<and> tl v \<noteq> [] \<and> list_all is_digit (tl v))"

definition reserved_mapping_keys :: "string list" where
  "reserved_mapping_keys = [''__proto__'', ''constructor'', ''prototype'']"

text \<open>\<open>if (x !== undefined) check(x)\<close>\<close>

definition when_defined :: "jsv \<Rightarrow> (jsv \<Rightarrow> string list) \<Rightarrow> string list" where
  "when_defined v f = (if v = Undef then [] else f v)"

definition chk_record :: "jsv \<Rightarrow> string \<Rightarrow> jsv checked" where
  "chk_record v path = (if is_record v then ([], v) else ([path @ '' must be an object''], Obj []))"

definition unknown_fields :: "jsv \<Rightarrow> string list \<Rightarrow> string \<Rightarrow> string list" where
  "unknown_fields v allowed path =
     map (\<lambda>k. path @ '' has unknown field '' @ dquote k) (filter (\<lambda>k. k \<notin> set allowed) (obj_keys v))"

definition validate_name :: "jsv \<Rightarrow> string \<Rightarrow> string list" where
  "validate_name v path =
     (if is_str v \<and> name_pattern (str_of v) \<and> str_of v \<notin> set reserved_mapping_keys then []
      else [path @ '' must match /^[a-z][a-z0-9-]{0,62}$/''])"

definition chk_string :: "jsv \<Rightarrow> string \<Rightarrow> string list" where
  "chk_string v path = (if is_str v then [] else [path @ '' must be a string''])"

definition non_empty_string :: "jsv \<Rightarrow> string \<Rightarrow> string list" where
  "non_empty_string v path =
     (if is_str v \<and> str_of v \<noteq> [] then [] else [path @ '' must be a non-empty string''])"

definition absolute_path :: "jsv \<Rightarrow> string \<Rightarrow> string list" where
  "absolute_path v path =
     (if is_str v \<and> starts_with (str_of v) ''/'' then [] else [path @ '' must be an absolute path''])"

definition chk_boolean :: "jsv \<Rightarrow> string \<Rightarrow> string list" where
  "chk_boolean v path = (if is_bool v then [] else [path @ '' must be a boolean''])"

definition chk_integer :: "jsv \<Rightarrow> string \<Rightarrow> int \<Rightarrow> int \<Rightarrow> string list" where
  "chk_integer v path lo hi =
     (case int_of v of
        Some z \<Rightarrow> if z < lo \<or> z > hi
                  then [path @ '' must be an integer between '' @ int_str lo @ '' and '' @ int_str hi] else []
      | None \<Rightarrow> [path @ '' must be an integer between '' @ int_str lo @ '' and '' @ int_str hi])"

definition enumeration :: "jsv \<Rightarrow> string list \<Rightarrow> string \<Rightarrow> string list" where
  "enumeration v vals path =
     (if is_str v \<and> str_of v \<in> set vals then []
      else [path @ '' must be one of '' @ js_join '', '' (map quote_str vals)])"

definition item_path :: "string \<Rightarrow> nat \<Rightarrow> string" where
  "item_path path i = path @ ''['' @ nat_str i @ '']''"

text \<open>\<open>value.forEach((item, index) => ...)\<close>\<close>

definition each_item :: "(jsv \<Rightarrow> nat \<Rightarrow> string list) \<Rightarrow> jsv list \<Rightarrow> string list" where
  "each_item f xs = concat (map (\<lambda>(i, x). f x i) (enumerate 0 xs))"

definition string_array :: "jsv \<Rightarrow> string \<Rightarrow> bool \<Rightarrow> jsv checked" where
  "string_array v path allow_empty =
     (if \<not> is_arr v \<or> (\<not> allow_empty \<and> arr_items v = [])
      then ([path @ '' must be '' @ (if allow_empty then ''an'' else ''a non-empty'') @ '' array of strings''], Arr [])
      else (each_item (\<lambda>x i. non_empty_string x (item_path path i)) (arr_items v),
            Arr (filter is_str (arr_items v))))"

definition string_map :: "jsv \<Rightarrow> string \<Rightarrow> jsv checked" where
  "string_map v path =
     (let (iss, input) = chk_record v path;
          bad = (\<lambda>k. k = [] \<or> k \<in> set reserved_mapping_keys) in
      (iss @ concat (map (\<lambda>(k, x).
          if bad k then [path @ '' has invalid key '' @ dquote k]
          else if \<not> is_str x then [path @ ''.'' @ k @ '' must be a string''] else []) (own_fields input)),
       build_map (filter (\<lambda>(k, x). \<not> bad k \<and> is_str x) (own_fields input))))"

text \<open>\<open>for (const [key, raw] of Object.entries(input)) { ...; output[key] = ... }\<close>\<close>

definition each_entry :: "(string \<Rightarrow> jsv \<Rightarrow> jsv checked) \<Rightarrow> jsv \<Rightarrow> jsv checked" where
  "each_entry f input =
     (concat (map (\<lambda>(k, raw). fst (f k raw)) (own_fields input)),
      build_map (map (\<lambda>(k, raw). (k, snd (f k raw))) (own_fields input)))"

text \<open>A section validator returns \<open>undefined\<close> for an absent section.\<close>

definition optional_section :: "jsv \<Rightarrow> (jsv \<Rightarrow> jsv checked) \<Rightarrow> jsv checked" where
  "optional_section v f = (if v = Undef then ([], Undef) else f v)"

section \<open>Configuration declarations\<close>

definition validate_configuration_value :: "url_parser \<Rightarrow> jsv \<Rightarrow> jsv \<Rightarrow> string \<Rightarrow> string list" where
  "validate_configuration_value url v ty path =
     (if ty \<in> {Str ''string'', Str ''secret'', Str ''file'', Str ''enum''} \<and> \<not> is_str v
      then [path @ '' must be a string'']
      else if ty = Str ''url'' then
        (if \<not> is_str v then [path @ '' must be a URL string'']
         else (case url (str_of v) of
                 None \<Rightarrow> [path @ '' must be an absolute URL'']
               | Some (protocol, hostname) \<Rightarrow>
                   if protocol = [] \<or> hostname = [] then [path @ '' must be an absolute URL''] else []))
      else if ty = Str ''boolean'' \<and> \<not> is_bool v then [path @ '' must be a boolean'']
      else if ty = Str ''number'' \<and> \<not> (case v of Num n \<Rightarrow> num_finite n | _ \<Rightarrow> False)
      then [path @ '' must be a finite number'']
      else if ty = Str ''integer'' \<and> \<not> (case int_of v of Some z \<Rightarrow> \<bar>z\<bar> \<le> max_safe_integer | None \<Rightarrow> False)
      then [path @ '' must be a safe integer'']
      else [])"

text \<open>\<open>Object.is\<close>: objects parsed from a document are never identical to each other.\<close>

definition object_is :: "jsv \<Rightarrow> jsv \<Rightarrow> bool" where
  "object_is a b \<longleftrightarrow> a = b \<and> \<not> is_record a \<and> \<not> is_arr a"

definition validate_declaration :: "url_parser \<Rightarrow> string \<Rightarrow> string \<Rightarrow> jsv \<Rightarrow> jsv checked" where
  "validate_declaration url path key raw =
     (let i0 = (if configuration_name_pattern key then [] else [path @ '' has invalid configuration name '' @ dquote key])
             @ (if key \<in> set reserved_mapping_keys then [path @ '' uses reserved configuration name '' @ dquote key] else []);
          ip = path @ ''.'' @ key;
          (i1, d) = chk_record raw ip;
          i2 = unknown_fields d [''type'', ''required'', ''description'', ''default'', ''allowedValues'', ''scope''] ip;
          ty = fld d ''type'';
          i3 = enumeration ty [''string'', ''secret'', ''boolean'', ''number'', ''integer'', ''url'', ''enum'', ''file''] (ip @ ''.type'');
          i4 = when_defined (fld d ''required'') (\<lambda>v. chk_boolean v (ip @ ''.required''));
          i5 = when_defined (fld d ''description'') (\<lambda>v. non_empty_string v (ip @ ''.description''));
          i6 = when_defined (fld d ''scope'') (\<lambda>v. enumeration v [''application'', ''site''] (ip @ ''.scope''));
          dflt = fld d ''default'';
          i7 = when_defined dflt (\<lambda>v. if ty = Str ''secret''
                 then [ip @ ''.default is not allowed for secret configuration'']
                 else validate_configuration_value url v ty (ip @ ''.default''));
          av = fld d ''allowedValues'';
          (i8, allowed) =
            (if av = Undef then ([], Undef)
             else if ty = Str ''secret'' then ([ip @ ''.allowedValues is not allowed for secret configuration''], Undef)
             else if \<not> is_arr av \<or> arr_items av = [] then ([ip @ ''.allowedValues must be a non-empty array''], Undef)
             else (each_item (\<lambda>x i. validate_configuration_value url x ty (item_path (ip @ ''.allowedValues'') i)) (arr_items av)
                   @ (if distinct (map json_text (arr_items av)) then [] else [ip @ ''.allowedValues must not contain duplicates''])
                   @ (if dflt \<noteq> Undef \<and> \<not> list_ex (\<lambda>x. object_is x dflt) (arr_items av)
                      then [ip @ ''.default must be included in allowedValues''] else []),
                   av));
          i9 = (if ty = Str ''enum'' \<and> allowed = Undef then [ip @ ''.allowedValues is required for enum configuration''] else []) in
      (i0 @ i1 @ i2 @ i3 @ i4 @ i5 @ i6 @ i7 @ i8 @ i9,
       omit_undefined [(''type'', ty), (''required'', fld d ''required''), (''description'', fld d ''description''),
         (''default'', dflt), (''allowedValues'', allowed), (''scope'', fld d ''scope'')]))"

definition validate_configuration_map :: "url_parser \<Rightarrow> jsv \<Rightarrow> string \<Rightarrow> jsv checked" where
  "validate_configuration_map url v path = optional_section v (\<lambda>v.
     let (i, input) = chk_record v path; (j, out) = each_entry (validate_declaration url path) input in (i @ j, out))"

definition validate_metadata :: "jsv \<Rightarrow> string \<Rightarrow> jsv checked" where
  "validate_metadata v path = optional_section v (\<lambda>v.
     let (i0, input) = chk_record v path;
         i1 = unknown_fields input [''name'', ''description'', ''labels''] path;
         i2 = when_defined (fld input ''name'') (\<lambda>x. validate_name x (path @ ''.name''));
         i3 = when_defined (fld input ''description'') (\<lambda>x. non_empty_string x (path @ ''.description''));
         (i4, labels) = optional_section (fld input ''labels'') (\<lambda>x. string_map x (path @ ''.labels'')) in
     (i0 @ i1 @ i2 @ i3 @ i4,
      omit_undefined [(''name'', fld input ''name''), (''description'', fld input ''description''), (''labels'', labels)]))"

section \<open>Components\<close>

definition validate_rollout :: "jsv \<Rightarrow> string \<Rightarrow> int \<Rightarrow> jsv checked" where
  "validate_rollout v path instances = optional_section v (\<lambda>v.
     let (i0, input) = chk_record v path;
         i1 = unknown_fields input [''strategy'', ''maxSurge'', ''maxUnavailable'', ''schemaOverlap''] path;
         strategy = fld input ''strategy'';
         i2 = when_defined strategy (\<lambda>x. enumeration x [''rolling'', ''recreate'', ''maintenance''] (path @ ''.strategy''));
         i3 = when_defined (fld input ''maxSurge'') (\<lambda>x. chk_integer x (path @ ''.maxSurge'') 0 256);
         i4 = when_defined (fld input ''maxUnavailable'') (\<lambda>x. chk_integer x (path @ ''.maxUnavailable'') 0 instances);
         overlap = fld input ''schemaOverlap'';
         i5 = when_defined overlap (\<lambda>x. enumeration x [''compatible'', ''incompatible''] (path @ ''.schemaOverlap''));
         i6 = (if strategy = Str ''rolling'' \<and> overlap \<noteq> Str ''compatible''
               then [path @ ''.schemaOverlap must be '' @ dquote ''compatible''
                     @ '' for rolling releases because old and new revisions overlap''] else []);
         i7 = (if strategy = Str ''rolling'' \<and> int_of (fld input ''maxSurge'') = Some 0 \<and> int_of (fld input ''maxUnavailable'') = Some 0
               then [path @ '' rolling release must allow maxSurge or maxUnavailable''] else []) in
     (i0 @ i1 @ i2 @ i3 @ i4 @ i5 @ i6 @ i7,
      omit_undefined [(''strategy'', strategy), (''maxSurge'', fld input ''maxSurge''),
        (''maxUnavailable'', fld input ''maxUnavailable''), (''schemaOverlap'', overlap)]))"

definition validate_site_overrides :: "jsv \<Rightarrow> string \<Rightarrow> int \<Rightarrow> jsv checked" where
  "validate_site_overrides v path instances = optional_section v (\<lambda>v.
     let (i0, input) = chk_record v path;
         i1 = unknown_fields input [''allowed'', ''minimum'', ''maximum''] path;
         i2 = when_defined (fld input ''allowed'') (\<lambda>x. chk_boolean x (path @ ''.allowed''));
         i3 = when_defined (fld input ''minimum'') (\<lambda>x. chk_integer x (path @ ''.minimum'') 1 256);
         i4 = when_defined (fld input ''maximum'') (\<lambda>x. chk_integer x (path @ ''.maximum'') 1 256);
         minimum = (case fld input ''minimum'' of Num n \<Rightarrow> n | _ \<Rightarrow> JInt 1);
         maximum = (case fld input ''maximum'' of Num n \<Rightarrow> n | _ \<Rightarrow> JInt 256);
         i5 = (if num_lt maximum minimum then [path @ ''.minimum must not exceed maximum''] else []);
         i6 = (if num_lt (JInt instances) minimum \<or> num_lt maximum (JInt instances)
               then [path @ '' bounds must include the default instances count '' @ int_str instances] else []) in
     (i0 @ i1 @ i2 @ i3 @ i4 @ i5 @ i6,
      omit_undefined [(''allowed'', fld input ''allowed''), (''minimum'', fld input ''minimum''), (''maximum'', fld input ''maximum'')]))"

definition validate_capacity :: "jsv \<Rightarrow> string \<Rightarrow> jsv checked" where
  "validate_capacity v path = optional_section v (\<lambda>v.
     let (i0, input) = chk_record v path;
         i1 = unknown_fields input [''memoryBytes'', ''cpuMillicores'', ''ephemeralStorageBytes'', ''buildMemoryBytes''] path;
         i2 = concat (map (\<lambda>f. when_defined (fld input f) (\<lambda>x. chk_integer x (path @ ''.'' @ f) 1 max_safe_integer))
                [''memoryBytes'', ''ephemeralStorageBytes'', ''buildMemoryBytes'']);
         i3 = when_defined (fld input ''cpuMillicores'') (\<lambda>x. chk_integer x (path @ ''.cpuMillicores'') 1 1000000) in
     (i0 @ i1 @ i2 @ i3,
      omit_undefined [(''memoryBytes'', fld input ''memoryBytes''), (''cpuMillicores'', fld input ''cpuMillicores''),
        (''ephemeralStorageBytes'', fld input ''ephemeralStorageBytes''), (''buildMemoryBytes'', fld input ''buildMemoryBytes'')]))"

definition validate_placement :: "jsv \<Rightarrow> string \<Rightarrow> jsv checked" where
  "validate_placement v path = optional_section v (\<lambda>v.
     let (i0, input) = chk_record v path;
         i1 = unknown_fields input [''intent'', ''requiredLabels''] path;
         i2 = when_defined (fld input ''intent'') (\<lambda>x. enumeration x [''coLocate'', ''spread''] (path @ ''.intent''));
         (i3, labels) = optional_section (fld input ''requiredLabels'') (\<lambda>x. string_map x (path @ ''.requiredLabels'')) in
     (i0 @ i1 @ i2 @ i3, omit_undefined [(''intent'', fld input ''intent''), (''requiredLabels'', labels)]))"

definition validate_build :: "jsv \<Rightarrow> string \<Rightarrow> jsv checked" where
  "validate_build v path = optional_section v (\<lambda>v.
     let (i0, input) = chk_record v path;
         i1 = unknown_fields input [''context'', ''dockerfile'', ''target'', ''ignore''] path;
         i2 = non_empty_string (fld input ''context'') (path @ ''.context'');
         i3 = when_defined (fld input ''dockerfile'') (\<lambda>x. non_empty_string x (path @ ''.dockerfile''));
         i4 = when_defined (fld input ''target'') (\<lambda>x. non_empty_string x (path @ ''.target''));
         (i5, ignore) = optional_section (fld input ''ignore'') (\<lambda>x. string_array x (path @ ''.ignore'') True) in
     (i0 @ i1 @ i2 @ i3 @ i4 @ i5,
      omit_undefined [(''context'', fld input ''context''), (''dockerfile'', fld input ''dockerfile''),
        (''target'', fld input ''target''), (''ignore'', ignore)]))"

definition validate_interface_map :: "jsv \<Rightarrow> string \<Rightarrow> jsv checked" where
  "validate_interface_map v path = optional_section v (\<lambda>v.
     let (i, input) = chk_record v path;
         (j, out) = each_entry (\<lambda>key raw.
           let ip = path @ ''.'' @ key; (i1, item) = chk_record raw ip in
           (validate_name (Str key) (path @ '' key'') @ i1 @ unknown_fields item [''port'', ''protocol''] ip
              @ chk_integer (fld item ''port'') (ip @ ''.port'') 1 65535
              @ enumeration (fld item ''protocol'') [''http'', ''https'', ''tcp'', ''udp'', ''postgres'', ''redis''] (ip @ ''.protocol''),
            Obj [(''port'', fld item ''port''), (''protocol'', fld item ''protocol'')])) input in
     (i @ j, out))"

definition validate_reference_map :: "jsv \<Rightarrow> string \<Rightarrow> jsv checked" where
  "validate_reference_map v path = optional_section v (\<lambda>v.
     let (i, input) = chk_record v path;
         (j, out) = each_entry (\<lambda>key raw.
           let ip = path @ ''.'' @ key; (i1, item) = chk_record raw ip in
           ((if \<not> environment_name_pattern key \<or> key \<in> set reserved_mapping_keys
             then [path @ '' has invalid variable name '' @ dquote key] else [])
              @ i1 @ unknown_fields item [''from''] ip @ non_empty_string (fld item ''from'') (ip @ ''.from''),
            Obj [(''from'', fld item ''from'')])) input in
     (i @ j, out))"

definition validate_configuration_file_map :: "jsv \<Rightarrow> string \<Rightarrow> jsv checked" where
  "validate_configuration_file_map v path = optional_section v (\<lambda>v.
     let (i, input) = chk_record v path;
         (j, out) = each_entry (\<lambda>target raw.
           let ip = path @ ''['' @ quote_str target @ '']''; (i1, item) = chk_record raw ip; from = fld item ''from'' in
           (absolute_path (Str target) (path @ '' key'')
              @ (if target = ''/'' \<or> ends_with target ''/''
                 then [path @ '' target '' @ quote_str target @ '' must name a file''] else [])
              @ i1 @ unknown_fields item [''from''] ip @ non_empty_string from (ip @ ''.from'')
              @ (if is_str from \<and> \<not> starts_with (str_of from) ''configuration.''
                 then [ip @ ''.from must reference declared configuration''] else []),
            Obj [(''from'', from)])) input in
     (i @ j, out))"

definition validate_mount_map :: "jsv \<Rightarrow> string \<Rightarrow> jsv checked" where
  "validate_mount_map v path = optional_section v (\<lambda>v.
     let (i, input) = chk_record v path;
         (j, out) = each_entry (\<lambda>key raw.
           let ip = path @ ''['' @ quote_str key @ '']''; (i1, item) = chk_record raw ip in
           ((if starts_with key ''/'' then [] else [path @ '' mount path '' @ dquote key @ '' must be absolute''])
              @ i1 @ unknown_fields item [''resource'', ''readOnly''] ip
              @ validate_name (fld item ''resource'') (ip @ ''.resource'')
              @ when_defined (fld item ''readOnly'') (\<lambda>x. chk_boolean x (ip @ ''.readOnly'')),
            omit_undefined [(''resource'', fld item ''resource''), (''readOnly'', fld item ''readOnly'')])) input in
     (i @ j, out))"

definition validate_health :: "jsv \<Rightarrow> string \<Rightarrow> jsv checked" where
  "validate_health v path = optional_section v (\<lambda>v.
     let (i0, input) = chk_record v path in
     (i0 @ unknown_fields input [''interface'', ''path''] path
        @ validate_name (fld input ''interface'') (path @ ''.interface'')
        @ when_defined (fld input ''path'') (\<lambda>x. absolute_path x (path @ ''.path'')),
      omit_undefined [(''interface'', fld input ''interface''), (''path'', fld input ''path'')]))"

section \<open>Runtime options\<close>

definition safe_runtime_run_args :: "(string \<times> nat) list" where
  "safe_runtime_run_args =
     [(''--dns'', 1), (''--dns-search'', 1), (''--dns-option'', 1), (''--label'', 1), (''-l'', 1),
      (''--read-only'', 0), (''--init'', 0), (''--stop-signal'', 1), (''--stop-timeout'', 1)]"

text \<open>
  The loop over the run arguments. An argument that takes a value and carries none after \<open>=\<close> reads
  the next argument and skips it, unless that one is missing, empty or looks like a flag.
\<close>

fun validate_run_args :: "string list \<Rightarrow> string \<Rightarrow> string list" where
  "validate_run_args [] path = []"
| "validate_run_args (a # rest) path =
     (let has_sep = (CHR ''='' \<in> set a);
          flag = (if has_sep then takeWhile (\<lambda>c. c \<noteq> CHR ''='') a else a) in
      case map_of safe_runtime_run_args flag of
        None \<Rightarrow> (path @ '' cannot use Docker argument '' @ quote_str flag
                  @ ''; use typed runtime fields for ports, mounts, networks, environment, devices, privilege, GPU, and resource limits'')
                # validate_run_args rest path
      | Some arity \<Rightarrow>
          if arity = 0 then
            (if has_sep then [path @ '' argument '' @ quote_str flag @ '' takes no value''] else [])
            @ validate_run_args rest path
          else
            (let val = (if has_sep then Some (tl (dropWhile (\<lambda>c. c \<noteq> CHR ''='') a))
                        else case rest of [] \<Rightarrow> None | b # _ \<Rightarrow> Some b) in
             case val of
               None \<Rightarrow> (path @ '' argument '' @ quote_str flag @ '' requires a value'') # validate_run_args rest path
             | Some w \<Rightarrow>
                 if w = [] \<or> (\<not> has_sep \<and> starts_with w ''-'') then
                   (path @ '' argument '' @ quote_str flag @ '' requires a value'') # validate_run_args rest path
                 else
                   (let key = hd (split_on (CHR ''='') w) in
                    (if (flag = ''--label'' \<or> flag = ''-l'') \<and> starts_with (map to_lower key) ''deploy-sh.''
                     then [path @ '' cannot override reserved Docker label '' @ quote_str key] else [])
                    @ validate_run_args (if has_sep then rest else tl rest) path)))"

definition validate_device :: "string \<Rightarrow> nat \<Rightarrow> jsv \<Rightarrow> jsv checked" where
  "validate_device path index raw =
     (let ip = item_path (path @ ''.devices'') index; (i1, item) = chk_record raw ip in
      (i1 @ unknown_fields item [''hostPath'', ''containerPath'', ''permissions''] ip
         @ absolute_path (fld item ''hostPath'') (ip @ ''.hostPath'')
         @ when_defined (fld item ''containerPath'') (\<lambda>x. absolute_path x (ip @ ''.containerPath''))
         @ when_defined (fld item ''permissions'') (\<lambda>x. enumeration x [''r'', ''rw'', ''rwm''] (ip @ ''.permissions'')),
       omit_undefined [(''hostPath'', fld item ''hostPath''), (''containerPath'', fld item ''containerPath''),
         (''permissions'', fld item ''permissions'')]))"

definition validate_network :: "string \<Rightarrow> nat \<Rightarrow> jsv \<Rightarrow> jsv checked" where
  "validate_network path index raw =
     (let ip = item_path (path @ ''.networks'') index; (i1, item) = chk_record raw ip;
          (i2, labels) = optional_section (fld item ''labels'') (\<lambda>x. string_map x (ip @ ''.labels'')) in
      (i1 @ unknown_fields item [''name'', ''driver'', ''subnet'', ''labels''] ip
         @ non_empty_string (fld item ''name'') (ip @ ''.name'')
         @ when_defined (fld item ''driver'') (\<lambda>x. non_empty_string x (ip @ ''.driver''))
         @ when_defined (fld item ''subnet'') (\<lambda>x. non_empty_string x (ip @ ''.subnet''))
         @ i2,
       omit_undefined [(''name'', fld item ''name''), (''driver'', fld item ''driver''),
         (''subnet'', fld item ''subnet''), (''labels'', labels)]))"

definition map_items :: "(nat \<Rightarrow> jsv \<Rightarrow> jsv checked) \<Rightarrow> jsv \<Rightarrow> string \<Rightarrow> jsv checked" where
  "map_items f v path =
     (if v = Undef then ([], Undef)
      else if \<not> is_arr v then ([path @ '' must be an array''], Undef)
      else (concat (map (\<lambda>(i, x). fst (f i x)) (enumerate 0 (arr_items v))),
            Arr (map (\<lambda>(i, x). snd (f i x)) (enumerate 0 (arr_items v)))))"

definition validate_runtime :: "jsv \<Rightarrow> string \<Rightarrow> jsv checked" where
  "validate_runtime v path = optional_section v (\<lambda>v.
     let (i0, input) = chk_record v path;
         i1 = unknown_fields input [''gpus'', ''privileged'', ''privilegedDocker'', ''networkMode'', ''devices'', ''runArgs'', ''networks''] path;
         i2 = when_defined (fld input ''gpus'') (\<lambda>x. chk_boolean x (path @ ''.gpus''));
         i3 = when_defined (fld input ''privileged'') (\<lambda>x. chk_boolean x (path @ ''.privileged''));
         i4 = when_defined (fld input ''privilegedDocker'') (\<lambda>x. chk_boolean x (path @ ''.privilegedDocker''));
         i5 = when_defined (fld input ''networkMode'') (\<lambda>x. enumeration x [''private'', ''host''] (path @ ''.networkMode''));
         (i6, devices) = map_items (validate_device path) (fld input ''devices'') (path @ ''.devices'');
         (i7, run_args) = optional_section (fld input ''runArgs'') (\<lambda>x. string_array x (path @ ''.runArgs'') True);
         i8 = validate_run_args (map str_of (arr_items run_args)) (path @ ''.runArgs'');
         (i9, networks) = map_items (validate_network path) (fld input ''networks'') (path @ ''.networks'') in
     (i0 @ i1 @ i2 @ i3 @ i4 @ i5 @ i6 @ i7 @ i8 @ i9,
      omit_undefined [(''gpus'', fld input ''gpus''), (''privileged'', fld input ''privileged''),
        (''privilegedDocker'', fld input ''privilegedDocker''), (''networkMode'', fld input ''networkMode''),
        (''devices'', devices), (''runArgs'', run_args), (''networks'', networks)]))"

section \<open>The component map\<close>

definition component_fields :: "string list" where
  "component_fields =
     [''displayName'', ''image'', ''build'', ''role'', ''instances'', ''minimumReady'', ''rollout'', ''siteOverrides'',
      ''capacity'', ''placement'', ''profile'', ''command'', ''interfaces'', ''environment'', ''configurationFiles'',
      ''mounts'', ''dependsOn'', ''health'', ''runtime'']"

definition drop_trailing_slash :: "string \<Rightarrow> string" where
  "drop_trailing_slash s = (if s \<noteq> [] \<and> last s = CHR ''/'' then butlast s else s)"

definition overlap_issues :: "string \<Rightarrow> jsv \<Rightarrow> jsv \<Rightarrow> string list" where
  "overlap_issues ip files mounts =
     concat (map (\<lambda>fp. concat (map (\<lambda>mp.
       if fp = mp \<or> starts_with fp (drop_trailing_slash mp @ ''/'') \<or> starts_with mp (drop_trailing_slash fp @ ''/'')
       then [ip @ '' configuration file '' @ quote_str fp @ '' overlaps volume mount '' @ quote_str mp] else [])
       (obj_keys mounts))) (obj_keys files))"

definition validate_component :: "string \<Rightarrow> string \<Rightarrow> jsv \<Rightarrow> jsv checked" where
  "validate_component path key raw =
     (let ip = path @ ''.'' @ key; (i1, c) = chk_record raw ip;
          desired = (case int_of (fld c ''instances'') of Some z \<Rightarrow> z | None \<Rightarrow> 1);
          (b, build) = validate_build (fld c ''build'') (ip @ ''.build'');
          (ro, rollout) = validate_rollout (fld c ''rollout'') (ip @ ''.rollout'') desired;
          (so, overrides) = validate_site_overrides (fld c ''siteOverrides'') (ip @ ''.siteOverrides'') desired;
          (ca, capacity) = validate_capacity (fld c ''capacity'') (ip @ ''.capacity'');
          (pl, placement) = validate_placement (fld c ''placement'') (ip @ ''.placement'');
          profile = fld c ''profile'';
          (co, command) = optional_section (fld c ''command'') (\<lambda>x. string_array x (ip @ ''.command'') False);
          (itf, interfaces) = validate_interface_map (fld c ''interfaces'') (ip @ ''.interfaces'');
          (en, environment) = validate_reference_map (fld c ''environment'') (ip @ ''.environment'');
          (cf, files) = validate_configuration_file_map (fld c ''configurationFiles'') (ip @ ''.configurationFiles'');
          (mo, mounts) = validate_mount_map (fld c ''mounts'') (ip @ ''.mounts'');
          (de, depends) = optional_section (fld c ''dependsOn'') (\<lambda>x. string_array x (ip @ ''.dependsOn'') True);
          (he, health) = validate_health (fld c ''health'') (ip @ ''.health'');
          (ru, runtime) = validate_runtime (fld c ''runtime'') (ip @ ''.runtime'') in
      (validate_name (Str key) (path @ '' key'')
         @ (if key = ''configuration'' then [path @ '' uses reserved component name '' @ dquote ''configuration''] else [])
         @ i1 @ unknown_fields c component_fields ip
         @ when_defined (fld c ''displayName'') (\<lambda>x. non_empty_string x (ip @ ''.displayName''))
         @ (if (fld c ''image'' = Undef) = (fld c ''build'' = Undef)
            then [ip @ '' must define exactly one of image or build''] else [])
         @ when_defined (fld c ''image'') (\<lambda>x. non_empty_string x (ip @ ''.image''))
         @ b
         @ when_defined (fld c ''role'') (\<lambda>x. enumeration x [''web'', ''worker'', ''service''] (ip @ ''.role''))
         @ when_defined (fld c ''instances'') (\<lambda>x. chk_integer x (ip @ ''.instances'') 1 256)
         @ when_defined (fld c ''minimumReady'') (\<lambda>x. chk_integer x (ip @ ''.minimumReady'') 0 desired)
         @ ro @ so @ ca @ pl
         @ when_defined profile (\<lambda>x. non_empty_string x (ip @ ''.profile'')
             @ (if is_str x \<and> \<not> profile_pattern (str_of x)
                then [ip @ ''.profile must use the form '' @ dquote ''provider/profile@version''] else []))
         @ co @ itf @ en @ cf @ mo
         @ (if files \<noteq> Undef \<and> mounts \<noteq> Undef then overlap_issues ip files mounts else [])
         @ de
         @ (if depends \<noteq> Undef \<and> \<not> distinct (arr_items depends)
            then [ip @ ''.dependsOn must not contain duplicates''] else [])
         @ he @ ru,
       omit_undefined [(''displayName'', fld c ''displayName''), (''image'', fld c ''image''), (''build'', build),
         (''role'', fld c ''role''), (''instances'', fld c ''instances''), (''minimumReady'', fld c ''minimumReady''),
         (''rollout'', rollout), (''siteOverrides'', overrides), (''capacity'', capacity), (''placement'', placement),
         (''profile'', profile), (''command'', command), (''interfaces'', interfaces), (''environment'', environment),
         (''configurationFiles'', files), (''mounts'', mounts), (''dependsOn'', depends), (''health'', health),
         (''runtime'', runtime)]))"

definition validate_component_map :: "jsv \<Rightarrow> string \<Rightarrow> jsv checked" where
  "validate_component_map v path =
     (let (i, input) = chk_record v path; (j, out) = each_entry (validate_component path) input in
      (i @ (if obj_keys input = [] then [path @ '' must define at least one component''] else []) @ j, out))"

section \<open>Resources, routes and jobs\<close>

definition suitcase_data_modes :: "string list" where
  "suitcase_data_modes = [''syncs-across-sites'', ''follows-one-site'', ''site-local'']"

definition validate_backup :: "jsv \<Rightarrow> string \<Rightarrow> jsv checked" where
  "validate_backup v path = optional_section v (\<lambda>v.
     let (i0, c) = chk_record v path in
     (i0 @ unknown_fields c [''policy'', ''retentionCopies''] path
        @ when_defined (fld c ''policy'') (\<lambda>x. enumeration x [''include'', ''exclude'', ''required''] (path @ ''.policy''))
        @ when_defined (fld c ''retentionCopies'') (\<lambda>x. chk_integer x (path @ ''.retentionCopies'') 0 1024)
        @ (if fld c ''policy'' = Str ''required'' \<and> int_of (fld c ''retentionCopies'') = Some 0
           then [path @ ''.retentionCopies must be positive when backup is required''] else []),
      omit_undefined [(''policy'', fld c ''policy''), (''retentionCopies'', fld c ''retentionCopies'')]))"

text \<open>\<open>new Set(xs).size === xs.length\<close>: \<open>Set\<close> compares objects by identity and does not tell \<open>-0\<close> from \<open>0\<close>.\<close>

definition distinct_members :: "jsv list \<Rightarrow> bool" where
  "distinct_members xs \<longleftrightarrow>
     distinct (map (\<lambda>x. if x = Num NegZero then Num (JInt 0) else x)
       (filter (\<lambda>x. \<not> is_record x \<and> \<not> is_arr x) xs))"

definition validate_suitcase :: "jsv \<Rightarrow> string \<Rightarrow> jsv checked" where
  "validate_suitcase v path = optional_section v (\<lambda>v.
     let (i0, c) = chk_record v path;
         modes = fld c ''allowedDataModes''; mp = path @ ''.allowedDataModes'';
         (i1, allowed) =
           (if modes = Undef then ([], Undef)
            else if \<not> is_arr modes \<or> arr_items modes = [] then ([mp @ '' must be a non-empty array''], Undef)
            else (each_item (\<lambda>x i. enumeration x suitcase_data_modes (item_path mp i)) (arr_items modes)
                  @ (if distinct_members (arr_items modes) then [] else [mp @ '' must not contain duplicates'']), modes)) in
     (i0 @ unknown_fields c [''allowedDataModes''] path @ i1, omit_undefined [(''allowedDataModes'', allowed)]))"

definition validate_source :: "jsv \<Rightarrow> string \<Rightarrow> jsv checked" where
  "validate_source v path = optional_section v (\<lambda>v.
     let (i0, s) = chk_record v path in
     (i0 @ unknown_fields s [''type'', ''hostPath''] path
        @ enumeration (fld s ''type'') [''bind''] (path @ ''.type'')
        @ absolute_path (fld s ''hostPath'') (path @ ''.hostPath''),
      Obj [(''type'', Str ''bind''), (''hostPath'', fld s ''hostPath'')]))"

definition validate_reconciliation :: "jsv \<Rightarrow> string \<Rightarrow> jsv checked" where
  "validate_reconciliation v path = optional_section v (\<lambda>v.
     let (i0, g) = chk_record v path;
         (i1, tables) = optional_section (fld g ''excludeTables'') (\<lambda>x. string_array x (path @ ''.excludeTables'') True);
         (i2, paths) = optional_section (fld g ''excludePaths'') (\<lambda>x. string_array x (path @ ''.excludePaths'') True);
         i3 = each_item (\<lambda>x i. if starts_with (str_of x) ''/'' \<or> ''..'' \<in> set (split_on (CHR ''/'') (str_of x))
                then [item_path (path @ ''.excludePaths'') i @ '' must be a relative path without '' @ dquote ''..''] else [])
                (arr_items paths) in
     (i0 @ unknown_fields g [''excludeTables'', ''excludePaths'', ''conflictPolicy''] path @ i1 @ i2 @ i3
        @ when_defined (fld g ''conflictPolicy'') (\<lambda>x. enumeration x [''collect'', ''prefer-home'', ''prefer-suitcase''] (path @ ''.conflictPolicy'')),
      omit_undefined [(''excludeTables'', tables), (''excludePaths'', paths), (''conflictPolicy'', fld g ''conflictPolicy'')]))"

definition validate_resource :: "string \<Rightarrow> string \<Rightarrow> jsv \<Rightarrow> jsv checked" where
  "validate_resource path key raw =
     (let ip = path @ ''.'' @ key; (i1, item) = chk_record raw ip;
          (ba, backup) = validate_backup (fld item ''backup'') (ip @ ''.backup'');
          (su, suitcase) = validate_suitcase (fld item ''suitcase'') (ip @ ''.suitcase'');
          (so, source) = validate_source (fld item ''source'') (ip @ ''.source'');
          (re, reconciliation) = validate_reconciliation (fld item ''reconciliation'') (ip @ ''.reconciliation'');
          external = (fld item ''ownership'' = Str ''external'') in
      (validate_name (Str key) (path @ '' key'') @ i1
         @ unknown_fields item [''type'', ''displayName'', ''durability'', ''dataRole'', ''access'', ''consistencyGroup'',
             ''ownership'', ''backup'', ''suitcase'', ''source'', ''reconciliation''] ip
         @ enumeration (fld item ''type'') [''volume''] (ip @ ''.type'')
         @ when_defined (fld item ''displayName'') (\<lambda>x. non_empty_string x (ip @ ''.displayName''))
         @ when_defined (fld item ''durability'') (\<lambda>x. enumeration x [''durable'', ''ephemeral'', ''rebuildable''] (ip @ ''.durability''))
         @ when_defined (fld item ''dataRole'') (\<lambda>x. enumeration x [''files'', ''database'', ''cache''] (ip @ ''.dataRole''))
         @ when_defined (fld item ''access'') (\<lambda>x. enumeration x [''singleWriter'', ''multipleReaders'', ''sharedWriters''] (ip @ ''.access''))
         @ when_defined (fld item ''consistencyGroup'') (\<lambda>x. validate_name x (ip @ ''.consistencyGroup''))
         @ when_defined (fld item ''ownership'') (\<lambda>x. enumeration x [''application'', ''external''] (ip @ ''.ownership''))
         @ ba @ su @ so
         @ (if external \<and> source = Undef then [ip @ ''.ownership '' @ dquote ''external'' @ '' requires an explicit bind source''] else [])
         @ (if external \<and> fld backup ''policy'' = Str ''required''
            then [ip @ ''.backup cannot be required for externally owned data''] else [])
         @ re,
       omit_undefined [(''type'', Str ''volume''), (''displayName'', fld item ''displayName''),
         (''durability'', fld item ''durability''), (''dataRole'', fld item ''dataRole''), (''access'', fld item ''access''),
         (''consistencyGroup'', fld item ''consistencyGroup''), (''ownership'', fld item ''ownership''), (''backup'', backup),
         (''suitcase'', suitcase), (''source'', source), (''reconciliation'', reconciliation)]))"

definition validate_resource_map :: "jsv \<Rightarrow> string \<Rightarrow> jsv checked" where
  "validate_resource_map v path = optional_section v (\<lambda>v.
     let (i, input) = chk_record v path; (j, out) = each_entry (validate_resource path) input in (i @ j, out))"

definition validate_cache :: "jsv \<Rightarrow> string \<Rightarrow> jsv checked" where
  "validate_cache v path = optional_section v (\<lambda>v.
     let (i0, input) = chk_record v path;
         (i1, paths) = optional_section (fld input ''paths'') (\<lambda>x. string_array x (path @ ''.paths'') True) in
     (i0 @ unknown_fields input [''enabled'', ''maxAge'', ''paths'', ''maxObjectBytes''] path
        @ when_defined (fld input ''enabled'') (\<lambda>x. chk_boolean x (path @ ''.enabled''))
        @ when_defined (fld input ''maxAge'') (\<lambda>x. chk_integer x (path @ ''.maxAge'') 1 86400)
        @ i1
        @ each_item (\<lambda>x i. absolute_path x (item_path (path @ ''.paths'') i)) (arr_items paths)
        @ when_defined (fld input ''maxObjectBytes'') (\<lambda>x. chk_integer x (path @ ''.maxObjectBytes'') 1024 (16 * 1024 * 1024)),
      omit_undefined [(''enabled'', fld input ''enabled''), (''maxAge'', fld input ''maxAge''), (''paths'', paths),
        (''maxObjectBytes'', fld input ''maxObjectBytes'')]))"

definition validate_route :: "string \<Rightarrow> string \<Rightarrow> jsv \<Rightarrow> jsv checked" where
  "validate_route path key raw =
     (let ip = path @ ''.'' @ key; (i1, item) = chk_record raw ip;
          (ca, cache) = validate_cache (fld item ''cache'') (ip @ ''.cache'') in
      (validate_name (Str key) (path @ '' key'') @ i1
         @ unknown_fields item [''to'', ''hostname'', ''path'', ''discoverable'', ''cache''] ip
         @ non_empty_string (fld item ''to'') (ip @ ''.to'')
         @ when_defined (fld item ''hostname'') (\<lambda>x. non_empty_string x (ip @ ''.hostname''))
         @ when_defined (fld item ''path'') (\<lambda>x. absolute_path x (ip @ ''.path''))
         @ when_defined (fld item ''discoverable'') (\<lambda>x. chk_boolean x (ip @ ''.discoverable''))
         @ ca,
       omit_undefined [(''to'', fld item ''to''), (''hostname'', fld item ''hostname''), (''path'', fld item ''path''),
         (''discoverable'', fld item ''discoverable''), (''cache'', cache)]))"

definition validate_route_map :: "jsv \<Rightarrow> string \<Rightarrow> jsv checked" where
  "validate_route_map v path = optional_section v (\<lambda>v.
     let (i, input) = chk_record v path; (j, out) = each_entry (validate_route path) input in (i @ j, out))"

definition validate_job :: "string \<Rightarrow> string \<Rightarrow> jsv \<Rightarrow> jsv checked" where
  "validate_job path key raw =
     (let ip = path @ ''.'' @ key; (i1, item) = chk_record raw ip;
          (co, command) = string_array (fld item ''command'') (ip @ ''.command'') False;
          (en, environment) = validate_reference_map (fld item ''environment'') (ip @ ''.environment'') in
      (validate_name (Str key) (path @ '' key'') @ i1
         @ unknown_fields item [''component'', ''command'', ''environment'', ''execution'', ''beforeTraffic''] ip
         @ validate_name (fld item ''component'') (ip @ ''.component'')
         @ co @ en
         @ when_defined (fld item ''execution'') (\<lambda>x. enumeration x [''perInstance'', ''perSite'', ''writerSite''] (ip @ ''.execution''))
         @ when_defined (fld item ''beforeTraffic'') (\<lambda>x. chk_boolean x (ip @ ''.beforeTraffic'')),
       omit_undefined [(''component'', fld item ''component''), (''command'', command), (''environment'', environment),
         (''execution'', fld item ''execution''), (''beforeTraffic'', fld item ''beforeTraffic'')]))"

definition validate_job_map :: "jsv \<Rightarrow> string \<Rightarrow> jsv checked" where
  "validate_job_map v path = optional_section v (\<lambda>v.
     let (i, input) = chk_record v path; (j, out) = each_entry (validate_job path) input in (i @ j, out))"

section \<open>References between graph nodes\<close>

text \<open>\<open>x ?? {}\<close> and \<open>x ?? []\<close> on optional sections.\<close>

definition entries_of :: "jsv \<Rightarrow> string \<Rightarrow> fields" where
  "entries_of v k = own_fields (nullish (fld v k) (Obj []))"

definition depends_on :: "jsv \<Rightarrow> string \<Rightarrow> string list" where
  "depends_on components name = map str_of (arr_items (nullish (fld (fld components name) ''dependsOn'') (Arr [])))"

definition value_reference_issues :: "jsv \<Rightarrow> jsv \<Rightarrow> jsv \<Rightarrow> string \<Rightarrow> string list" where
  "value_reference_issues configuration components reference path =
     (let from = fld reference ''from''; parts = split_on (CHR ''.'') (str_of from) in
      if \<not> is_str from then []
      else if length parts \<noteq> 2 then
        [path @ ''.from must reference '' @ dquote ''configuration.name'' @ '' or '' @ dquote ''component.interface'']
      else (let owner = parts ! 0; member = parts ! 1 in
        if owner = ''configuration'' then
          (if has_own configuration member then [] else [path @ ''.from references unknown configuration '' @ dquote member])
        else if \<not> has_own components owner then [path @ ''.from references unknown component '' @ dquote owner]
        else if \<not> has_own (nullish (fld (fld components owner) ''interfaces'') (Obj [])) member then
          [path @ ''.from references unknown interface '' @ dquote (str_of from)]
        else []))"

definition resolve_interface_reference :: "string \<Rightarrow> jsv \<Rightarrow> jsv option" where
  "resolve_interface_reference reference components =
     (let parts = split_on (CHR ''.'') reference in
      if length parts \<noteq> 2 then None
      else if \<not> has_own components (parts ! 0) then None
      else (let interfaces = nullish (fld (fld components (parts ! 0)) ''interfaces'') (Obj []) in
        if has_own interfaces (parts ! 1) then Some (fld interfaces (parts ! 1)) else None))"

text \<open>
  \<open>visitComponent\<close>: \<open>visiting\<close> holds the components of \<open>path\<close>; the visited names and the issues are
  the state every call returns. A call for a name that is on no deeper path ends because the names
  still outside \<open>visiting\<close> run out.
\<close>

type_synonym visit_state = "string list \<times> string list"

function visit_component ::
  "jsv \<Rightarrow> string \<Rightarrow> string list \<Rightarrow> string list \<Rightarrow> string \<Rightarrow> visit_state \<Rightarrow> visit_state" where
  "visit_component components source_name visiting path name (visited, issues) =
     (if name \<in> set visiting then
        (visited, issues @ [source_name @ ''.components contains a dependency cycle: ''
           @ js_join '' -> '' (dropWhile (\<lambda>p. p \<noteq> name) path @ [name])])
      else if name \<in> set visited then (visited, issues)
      else
        (let (visited', issues') =
           fold (\<lambda>dependency st.
               if has_own components dependency
               then visit_component components source_name (name # visiting) (path @ [name]) dependency st
               else st)
             (depends_on components name) (visited, issues)
         in (visited' @ [name], issues')))"
  by pat_completeness auto

lemma depends_on_own: "d \<in> set (depends_on components name) \<Longrightarrow> has_own components name"
proof -
  assume d: "d \<in> set (depends_on components name)"
  have "fld (Obj []) ''dependsOn'' = Undef" by (simp add: fld_def proto_functions_def)
  with d show ?thesis
    by (cases components)
       (auto simp: depends_on_def fld_def has_own_def obj_keys_def nullish_def proto_functions_def
          split: option.splits if_splits dest!: map_of_SomeD intro: rev_image_eqI)
qed

termination visit_component
proof (relation "measure (\<lambda>(components, _, visiting, _). card (set (obj_keys components) - set visiting))")
  fix components :: jsv and source_name :: string and visiting path :: "string list" and name :: string
    and visited issues :: "string list" and d :: string and st :: visit_state
  assume "name \<notin> set visiting" "d \<in> set (depends_on components name)"
  then have "name \<in> set (obj_keys components) - set visiting"
    using depends_on_own by (auto simp: has_own_def)
  then have "set (obj_keys components) - set (name # visiting) \<subset> set (obj_keys components) - set visiting"
    by auto
  then show "((components, source_name, name # visiting, path @ [name], d, st),
      (components, source_name, visiting, path, name, visited, issues))
      \<in> measure (\<lambda>(components, _, visiting, _). card (set (obj_keys components) - set visiting))"
    by (simp add: psubset_card_mono)
qed simp

declare visit_component.simps [simp del]

definition validate_dependency_cycles :: "jsv \<Rightarrow> string \<Rightarrow> string list" where
  "validate_dependency_cycles components source_name =
     snd (fold (visit_component components source_name [] []) (obj_keys components) ([], []))"

definition component_reference_issues :: "jsv \<Rightarrow> jsv \<Rightarrow> jsv \<Rightarrow> string \<Rightarrow> string \<Rightarrow> jsv \<Rightarrow> string list" where
  "component_reference_issues configuration components resources source_name name c =
     (let cp = source_name @ ''.components.'' @ name in
      concat (map (\<lambda>(k, r). value_reference_issues configuration components r (cp @ ''.environment.'' @ k)) (entries_of c ''environment''))
      @ concat (map (\<lambda>(k, r). value_reference_issues configuration components r (cp @ ''.configurationFiles['' @ quote_str k @ '']''))
          (entries_of c ''configurationFiles''))
      @ concat (map (\<lambda>d.
          if \<not> has_own components d then [cp @ ''.dependsOn references unknown component '' @ dquote d]
          else if d = name then [cp @ '' cannot depend on itself''] else []) (depends_on components name))
      @ concat (map (\<lambda>(mp, m).
          if has_own resources (js_string (fld m ''resource'')) then []
          else [cp @ ''.mounts['' @ quote_str mp @ ''] references unknown resource '' @ dquote (js_string (fld m ''resource''))])
          (entries_of c ''mounts''))
      @ (let health = fld c ''health'' in
         if truthy health \<and> \<not> has_own (nullish (fld c ''interfaces'') (Obj [])) (js_string (fld health ''interface''))
         then [cp @ ''.health references unknown local interface '' @ dquote (js_string (fld health ''interface''))] else []))"

definition route_reference_issues :: "jsv \<Rightarrow> string \<Rightarrow> string \<Rightarrow> jsv \<Rightarrow> string list" where
  "route_reference_issues components source_name name r =
     (let to_ref = fld r ''to''; rp = source_name @ ''.routes.'' @ name @ ''.to'' in
      if \<not> is_str to_ref then []
      else (case resolve_interface_reference (str_of to_ref) components of
              None \<Rightarrow> [rp @ '' references unknown interface '' @ dquote (str_of to_ref)]
            | Some t \<Rightarrow>
                if fld t ''protocol'' \<noteq> Str ''http'' \<and> fld t ''protocol'' \<noteq> Str ''https''
                then [rp @ '' must reference an HTTP or HTTPS interface''] else []))"

definition job_reference_issues :: "jsv \<Rightarrow> jsv \<Rightarrow> string \<Rightarrow> string \<Rightarrow> jsv \<Rightarrow> string list" where
  "job_reference_issues configuration components source_name name j =
     (let jp = source_name @ ''.jobs.'' @ name; c = js_string (fld j ''component'') in
      (if has_own components c then [] else [jp @ ''.component references unknown component '' @ dquote c])
      @ concat (map (\<lambda>(k, r). value_reference_issues configuration components r (jp @ ''.environment.'' @ k))
          (entries_of j ''environment'')))"

definition validate_graph_references :: "jsv \<Rightarrow> jsv \<Rightarrow> jsv \<Rightarrow> jsv \<Rightarrow> jsv \<Rightarrow> string \<Rightarrow> string list" where
  "validate_graph_references configuration components resources routes jobs source_name =
     (let cfg = nullish configuration (Obj []); res = nullish resources (Obj []) in
      concat (map (\<lambda>(n, c). component_reference_issues cfg components res source_name n c) (own_fields components))
      @ concat (map (\<lambda>(n, r). route_reference_issues components source_name n r) (own_fields (nullish routes (Obj []))))
      @ concat (map (\<lambda>(n, j). job_reference_issues cfg components source_name n j) (own_fields (nullish jobs (Obj []))))
      @ validate_dependency_cycles components source_name)"

section \<open>The manifest\<close>

definition validate_application_manifest :: "url_parser \<Rightarrow> jsv \<Rightarrow> string \<Rightarrow> jsv checked" where
  "validate_application_manifest url v source_name =
     (let (i0, root) = chk_record v source_name;
          i1 = unknown_fields root [''$schema'', ''apiVersion'', ''kind'', ''metadata'', ''configuration'', ''components'',
                 ''resources'', ''routes'', ''jobs''] source_name;
          i2 = (if fld root ''apiVersion'' = Str ''deploy.local/v1'' then []
                else [source_name @ ''.apiVersion must be '' @ dquote ''deploy.local/v1'']);
          i3 = (if fld root ''kind'' = Str ''Application'' then [] else [source_name @ ''.kind must be '' @ dquote ''Application'']);
          i4 = when_defined (fld root ''$schema'') (\<lambda>x. chk_string x (source_name @ ''.$schema''));
          (i5, metadata) = validate_metadata (fld root ''metadata'') (source_name @ ''.metadata'');
          (i6, configuration) = validate_configuration_map url (fld root ''configuration'') (source_name @ ''.configuration'');
          (i7, components) = validate_component_map (fld root ''components'') (source_name @ ''.components'');
          (i8, resources) = validate_resource_map (fld root ''resources'') (source_name @ ''.resources'');
          (i9, routes) = validate_route_map (fld root ''routes'') (source_name @ ''.routes'');
          (i10, jobs) = validate_job_map (fld root ''jobs'') (source_name @ ''.jobs'');
          i11 = validate_graph_references configuration components resources routes jobs source_name in
      (i0 @ i1 @ i2 @ i3 @ i4 @ i5 @ i6 @ i7 @ i8 @ i9 @ i10 @ i11,
       omit_undefined [(''$schema'', fld root ''$schema''), (''apiVersion'', Str ''deploy.local/v1''),
         (''kind'', Str ''Application''), (''metadata'', metadata), (''configuration'', configuration),
         (''components'', components), (''resources'', resources), (''routes'', routes), (''jobs'', jobs)]))"

text \<open>The manifest, or the issues the \<open>ApplicationManifestError\<close> carries.\<close>

definition accepted_manifest :: "url_parser \<Rightarrow> jsv \<Rightarrow> string \<Rightarrow> string list + jsv" where
  "accepted_manifest url v source_name =
     (let (issues, manifest) = validate_application_manifest url v source_name in
      if issues = [] then Inr manifest else Inl issues)"

end
