(* ===== verification/SpecCycles.thy ===== *)
theory SpecCycles
  imports SpecValidate
begin

text \<open>
  The dependency-cycle check of the validator (\<open>validateDependencyCycles\<close>) decides acyclicity: a depth-first
  search that pushes no issue lists the components in an order in which dependencies come first, and on
  an acyclic graph no path closes.
\<close>

section \<open>The cycle check decides acyclicity\<close>

definition depends_rel :: "jsv \<Rightarrow> (string \<times> string) set" where
  "depends_rel components = {(a, b). b \<in> set (depends_on components a) \<and> has_own components b}"

fun post_ordered :: "(string \<times> string) set \<Rightarrow> string list \<Rightarrow> bool" where
  "post_ordered E [] = True"
| "post_ordered E (n # rev_before) = (E `` {n} \<subseteq> set rev_before \<and> post_ordered E rev_before)"

lemma post_ordered_closed: "post_ordered E xs \<Longrightarrow> a \<in> set xs \<Longrightarrow> E `` {a} \<subseteq> set xs"
  by (induction xs) auto

lemma post_ordered_acyclic: "post_ordered E xs \<Longrightarrow> acyclic (E \<inter> set xs \<times> UNIV)"
proof (induction xs)
  case Nil
  then show ?case by (simp add: acyclic_def)
next
  case (Cons n xs)
  show ?case
  proof (cases "n \<in> set xs")
    case True
    with Cons show ?thesis by (simp add: insert_absorb)
  next
    case False
    let ?E = "E \<inter> set (n # xs) \<times> UNIV"
    have into: "(a, b) \<in> ?E\<^sup>+ \<Longrightarrow> b \<in> set xs \<and> (a \<in> set xs \<longrightarrow> (a, b) \<in> (E \<inter> set xs \<times> UNIV)\<^sup>+)" for a b
    proof (induction rule: trancl_induct)
      case (base b)
      then show ?case using Cons.prems post_ordered_closed [of E xs] by auto
    next
      case (step b c)
      then have bc: "(b, c) \<in> E \<inter> set xs \<times> UNIV" by auto
      with Cons.prems have "c \<in> set xs" using post_ordered_closed [of E xs b] by auto
      with step bc show ?case by (meson trancl.trancl_into_trancl)
    qed
    have "(a, a) \<notin> ?E\<^sup>+" for a
      using into [of a a] Cons by (auto simp: acyclic_def)
    then show ?thesis by (simp add: acyclic_def)
  qed
qed

lemma fold_prefix_mono:
  assumes "\<And>d st. d \<in> set ds \<Longrightarrow> prefix (snd st) (snd (f d st)) \<and> set (fst st) \<subseteq> set (fst (f d st))"
  shows "prefix (snd st) (snd (fold f ds st)) \<and> set (fst st) \<subseteq> set (fst (fold f ds st))"
  using assms
proof (induction ds arbitrary: st)
  case (Cons d ds)
  have "prefix (snd st) (snd (f d st)) \<and> set (fst st) \<subseteq> set (fst (f d st))"
    using Cons.prems by simp
  moreover have "prefix (snd (f d st)) (snd (fold f ds (f d st))) \<and> set (fst (f d st)) \<subseteq> set (fst (fold f ds (f d st)))"
    using Cons.prems by (intro Cons.IH) simp
  ultimately show ?case by (simp, meson prefix_order.trans subset_trans)
qed simp

lemma visit_mono:
  "prefix (snd st) (snd (visit_component cs src vis path n st))
   \<and> set (fst st) \<subseteq> set (fst (visit_component cs src vis path n st))"
proof (induction cs src vis path n st rule: visit_component.induct)
  case (1 cs src vis path n visited issues)
  let ?f = "\<lambda>d st. if has_own cs d then visit_component cs src (n # vis) (path @ [n]) d st else st"
  show ?case
  proof (cases "n \<in> set vis \<or> n \<in> set visited")
    case True
    then show ?thesis by (subst (1 2) visit_component.simps) auto
  next
    case False
    then have "prefix (snd (visited, issues)) (snd (fold ?f (depends_on cs n) (visited, issues)))
        \<and> set (fst (visited, issues)) \<subseteq> set (fst (fold ?f (depends_on cs n) (visited, issues)))"
      using "1.IH" by (intro fold_prefix_mono) auto
    with False show ?thesis
      by (subst (1 2) visit_component.simps) (auto simp: Let_def split: prod.split)
  qed
qed

lemma fold_no_issue:
  assumes mono: "\<And>d st. prefix (snd st) (snd (f d st)) \<and> set (fst st) \<subseteq> set (fst (f d st))"
    and step: "\<And>d st. d \<in> set ds \<Longrightarrow> snd (f d st) = snd st \<Longrightarrow> post_ordered E (rev (fst st)) \<Longrightarrow>
        post_ordered E (rev (fst (f d st))) \<and> (Q d \<longrightarrow> d \<in> set (fst (f d st)))"
    and no: "snd (fold f ds st) = snd st" and ord: "post_ordered E (rev (fst st))"
  shows "post_ordered E (rev (fst (fold f ds st))) \<and> (\<forall>d \<in> set ds. Q d \<longrightarrow> d \<in> set (fst (fold f ds st)))"
  using step no ord
proof (induction ds arbitrary: st)
  case (Cons d ds)
  have "prefix (snd (f d st)) (snd (fold f ds (f d st)))" "prefix (snd st) (snd (f d st))"
    using mono fold_prefix_mono [of ds f] by blast+
  with Cons.prems(2) have same: "snd (f d st) = snd st"
    by (auto intro: prefix_order.antisym)
  with Cons.prems(1) [of d st] Cons.prems(3)
  have d: "post_ordered E (rev (fst (f d st)))" "Q d \<longrightarrow> d \<in> set (fst (f d st))" by simp_all
  have "set (fst (f d st)) \<subseteq> set (fst (fold f ds (f d st)))"
    using mono fold_prefix_mono [of ds f] by blast
  moreover have "post_ordered E (rev (fst (fold f ds (f d st)))) \<and> (\<forall>e \<in> set ds. Q e \<longrightarrow> e \<in> set (fst (fold f ds (f d st))))"
  proof (rule Cons.IH)
    show "snd (fold f ds (f d st)) = snd (f d st)" using Cons.prems(2) same by simp
  qed (use Cons.prems(1) d in auto)
  ultimately show ?case using d by auto
qed simp

lemma visit_no_issue:
  "snd (visit_component cs src vis path n st) = snd st \<Longrightarrow> post_ordered (depends_rel cs) (rev (fst st)) \<Longrightarrow>
   post_ordered (depends_rel cs) (rev (fst (visit_component cs src vis path n st)))
   \<and> n \<in> set (fst (visit_component cs src vis path n st))"
proof (induction cs src vis path n st rule: visit_component.induct)
  case (1 cs src vis path n visited issues)
  let ?f = "\<lambda>d st. if has_own cs d then visit_component cs src (n # vis) (path @ [n]) d st else st"
  have notvis: "n \<notin> set vis"
    using "1.prems"(1) by (subst (asm) visit_component.simps) (auto split: if_splits)
  show ?case
  proof (cases "n \<in> set visited")
    case True
    with notvis "1.prems" show ?thesis by (subst (1 2) visit_component.simps) auto
  next
    case False
    obtain v' i' where r: "fold ?f (depends_on cs n) (visited, issues) = (v', i')" by fastforce
    have eq: "visit_component cs src vis path n (visited, issues) = (v' @ [n], i')"
      using notvis False r by (subst visit_component.simps) simp
    have "post_ordered (depends_rel cs) (rev (fst (fold ?f (depends_on cs n) (visited, issues))))
       \<and> (\<forall>d \<in> set (depends_on cs n). has_own cs d \<longrightarrow> d \<in> set (fst (fold ?f (depends_on cs n) (visited, issues))))"
    proof (rule fold_no_issue)
      show "snd (fold ?f (depends_on cs n) (visited, issues)) = snd (visited, issues)"
        using "1.prems"(1) eq r by simp
      show "post_ordered (depends_rel cs) (rev (fst (visited, issues)))" using "1.prems"(2) .
    qed (use "1.IH" notvis False visit_mono in auto)
    with r have "post_ordered (depends_rel cs) (rev v')" "depends_rel cs `` {n} \<subseteq> set v'"
      by (auto simp: depends_rel_def)
    with eq show ?thesis by auto
  qed
qed

text \<open>Conversely an issue is only pushed when the path closes a cycle.\<close>

fun edge_path :: "(string \<times> string) set \<Rightarrow> string list \<Rightarrow> bool" where
  "edge_path E (a # b # xs) = ((a, b) \<in> E \<and> edge_path E (b # xs))"
| "edge_path E xs = True"

lemma edge_path_snoc: "edge_path E (xs @ [a]) \<Longrightarrow> (a, b) \<in> E \<Longrightarrow> edge_path E (xs @ [a, b])"
  by (induction E xs rule: edge_path.induct) (auto split: list.splits)

lemma edge_path_closes: "edge_path E (xs @ a # ys @ [a]) \<Longrightarrow> (a, a) \<in> E\<^sup>+"
proof -
  have reach: "edge_path E (a # ys @ [b]) \<Longrightarrow> (a, b) \<in> E\<^sup>+" for a b and ys :: "string list"
    by (induction ys arbitrary: a) (auto intro: trancl_into_trancl2)
  have drop: "edge_path E (xs @ zs) \<Longrightarrow> edge_path E zs" for zs
    by (induction E xs rule: edge_path.induct) (auto elim: edge_path.elims)
  assume "edge_path E (xs @ a # ys @ [a])"
  from reach [OF drop [OF this]] show ?thesis .
qed

lemma visit_acyclic_silent:
  "acyclic (depends_rel cs) \<Longrightarrow> edge_path (depends_rel cs) (path @ [n]) \<Longrightarrow> set vis = set path \<Longrightarrow>
   snd (visit_component cs src vis path n st) = snd st"
proof (induction cs src vis path n st rule: visit_component.induct)
  case (1 cs src vis path n visited issues)
  let ?f = "\<lambda>d st. if has_own cs d then visit_component cs src (n # vis) (path @ [n]) d st else st"
  have notvis: "n \<notin> set vis"
  proof
    assume "n \<in> set vis"
    then obtain xs ys where "path = xs @ n # ys" using "1.prems"(3) by (auto simp: in_set_conv_decomp)
    with "1.prems" edge_path_closes [of "depends_rel cs" xs n ys] show False by (auto simp: acyclic_def)
  qed
  show ?case
  proof (cases "n \<in> set visited")
    case True
    with notvis show ?thesis by (subst visit_component.simps) auto
  next
    case False
    have "snd (fold ?f (depends_on cs n) (visited, issues)) = issues"
    proof (rule fold_invariant [where P = "\<lambda>st. snd st = issues" and Q = "\<lambda>d. d \<in> set (depends_on cs n)"])
      fix d and st :: visit_state assume d: "d \<in> set (depends_on cs n)" "snd st = issues"
      show "snd (?f d st) = issues"
      proof (cases "has_own cs d")
        case True
        with d have "(n, d) \<in> depends_rel cs" by (simp add: depends_rel_def)
        with "1.prems" have "edge_path (depends_rel cs) ((path @ [n]) @ [d])"
          using edge_path_snoc [of "depends_rel cs" path n d] by simp
        with "1.IH" notvis False d True "1.prems" show ?thesis by simp
      qed (use d in simp)
    qed auto
    with notvis False show ?thesis
      by (subst visit_component.simps) (auto simp: Let_def split: prod.split)
  qed
qed

text \<open>The depth-first search reports no cycle exactly when the dependency relation between declared
  components is acyclic.\<close>

lemma cycle_check_decides:
  "validate_dependency_cycles components src = [] \<longleftrightarrow> acyclic (depends_rel components)"
proof
  let ?f = "visit_component components src [] []"
  assume no: "validate_dependency_cycles components src = []"
  have "post_ordered (depends_rel components) (rev (fst (fold ?f (obj_keys components) ([], []))))
     \<and> (\<forall>d \<in> set (obj_keys components). True \<longrightarrow> d \<in> set (fst (fold ?f (obj_keys components) ([], []))))"
  proof (rule fold_no_issue)
    show "snd (fold ?f (obj_keys components) ([], [])) = snd ([], [])"
      using no by (simp add: validate_dependency_cycles_def)
  qed (use visit_no_issue visit_mono in auto)
  then have ac: "acyclic (depends_rel components \<inter> set (fst (fold ?f (obj_keys components) ([], []))) \<times> UNIV)"
    and all: "set (obj_keys components) \<subseteq> set (fst (fold ?f (obj_keys components) ([], [])))"
    using post_ordered_acyclic by fastforce+
  have "depends_rel components \<subseteq> set (obj_keys components) \<times> UNIV"
    using depends_on_own by (auto simp: depends_rel_def has_own_def)
  with all have "depends_rel components \<inter> set (fst (fold ?f (obj_keys components) ([], []))) \<times> UNIV = depends_rel components"
    by blast
  with ac show "acyclic (depends_rel components)" by simp
next
  assume ac: "acyclic (depends_rel components)"
  have "snd (fold (visit_component components src [] []) (obj_keys components) ([], [])) = []"
    by (rule fold_invariant [where P = "\<lambda>st. snd st = []" and Q = "\<lambda>_. True"])
      (use visit_acyclic_silent [OF ac, of "[]"] in auto)
  then show "validate_dependency_cycles components src = []"
    by (simp add: validate_dependency_cycles_def)
qed

end
