(* ===== verification/SpecCompile.thy ===== *)
theory SpecCompile
  imports SpecValidate
begin

text \<open>
  The compiler of \<open>server/application-spec.ts\<close>: \<open>compileApplicationManifest\<close> fills every default of an
  accepted manifest and sorts its maps, and \<open>canonicalApplicationJson\<close> / \<open>applicationSpecDigest\<close> give the
  normalized graph its identity. The SHA-256 hex digest of the runtime is the parameter \<open>sha256\<close>.
\<close>

section \<open>Sorted sections\<close>

definition sorted_record :: "(jsv \<Rightarrow> jsv) \<Rightarrow> jsv \<Rightarrow> jsv" where
  "sorted_record f v =
     mk_obj (filter (\<lambda>kv. fst kv \<noteq> ''__proto__'') (sort_key fst (map (\<lambda>(k, x). (k, f x)) (own_fields v))))"

definition sorted_string_map :: "jsv \<Rightarrow> jsv" where
  "sorted_string_map = sorted_record (\<lambda>x. x)"

definition sort_strings :: "jsv \<Rightarrow> jsv" where
  "sort_strings v = Arr (map Str (sort (map str_of (arr_items v))))"

definition or_empty_obj :: "jsv \<Rightarrow> jsv" where
  "or_empty_obj v = nullish v (Obj [])"

definition or_empty_arr :: "jsv \<Rightarrow> jsv" where
  "or_empty_arr v = nullish v (Arr [])"

definition scalar_text :: "jsv \<Rightarrow> string" where
  "scalar_text v = (case json_text v of None \<Rightarrow> ''undefined'' | Some t \<Rightarrow> t)"

section \<open>Per-node compilation\<close>

definition compile_declaration :: "jsv \<Rightarrow> jsv" where
  "compile_declaration d =
     omit_undefined
       [(''type'', fld d ''type''),
        (''required'', nullish (fld d ''required'') (Bool False)),
        (''description'', fld d ''description''),
        (''default'', fld d ''default''),
        (''allowedValues'', if truthy (fld d ''allowedValues'') then Arr (sort_key scalar_text (arr_items (fld d ''allowedValues''))) else Undef),
        (''scope'', nullish (fld d ''scope'') (Str ''application''))]"

definition compile_rollout :: "jsv \<Rightarrow> jsv \<Rightarrow> jsv" where
  "compile_rollout r instances =
     (let strategy = nullish (fld r ''strategy'') (Str ''rolling''); rolling = (strategy = Str ''rolling'') in
      Obj [(''strategy'', strategy),
           (''maxSurge'', nullish (fld r ''maxSurge'') (Num (JInt (if rolling then 1 else 0)))),
           (''maxUnavailable'', nullish (fld r ''maxUnavailable'') (if rolling then Num (JInt 0) else instances)),
           (''schemaOverlap'', nullish (fld r ''schemaOverlap'') (Str (if rolling then ''compatible'' else ''incompatible'')))])"

definition compile_build :: "jsv \<Rightarrow> jsv" where
  "compile_build b =
     omit_undefined [(''context'', fld b ''context''), (''dockerfile'', fld b ''dockerfile''), (''target'', fld b ''target''),
       (''ignore'', or_empty_arr (fld b ''ignore''))]"

definition compile_device :: "jsv \<Rightarrow> jsv" where
  "compile_device d =
     Obj [(''hostPath'', fld d ''hostPath''), (''containerPath'', nullish (fld d ''containerPath'') (fld d ''hostPath'')),
       (''permissions'', nullish (fld d ''permissions'') (Str ''rwm''))]"

definition compile_network :: "jsv \<Rightarrow> jsv" where
  "compile_network n =
     omit_undefined [(''name'', fld n ''name''), (''driver'', fld n ''driver''), (''subnet'', fld n ''subnet''),
       (''labels'', sorted_string_map (or_empty_obj (fld n ''labels'')))]"

definition compile_runtime :: "jsv \<Rightarrow> jsv" where
  "compile_runtime r =
     Obj [(''gpus'', nullish (fld r ''gpus'') (Bool False)),
       (''privileged'', nullish (fld r ''privileged'') (Bool False)),
       (''privilegedDocker'', nullish (fld r ''privilegedDocker'') (Bool False)),
       (''networkMode'', nullish (fld r ''networkMode'') (Str ''private'')),
       (''devices'', Arr (map compile_device (arr_items (or_empty_arr (fld r ''devices''))))),
       (''runArgs'', or_empty_arr (fld r ''runArgs'')),
       (''networks'', Arr (map compile_network (arr_items (or_empty_arr (fld r ''networks'')))))]"

definition compile_mount :: "jsv \<Rightarrow> jsv" where
  "compile_mount m = Obj [(''resource'', fld m ''resource''), (''readOnly'', nullish (fld m ''readOnly'') (Bool False))]"

definition compile_component :: "jsv \<Rightarrow> jsv" where
  "compile_component c =
     (let instances = nullish (fld c ''instances'') (Num (JInt 1)) in
      omit_undefined
       [(''displayName'', fld c ''displayName''),
        (''image'', fld c ''image''),
        (''build'', if truthy (fld c ''build'') then compile_build (fld c ''build'') else Undef),
        (''role'', nullish (fld c ''role'') (Str ''service'')),
        (''instances'', instances),
        (''minimumReady'', nullish (fld c ''minimumReady'') (Num (JInt 1))),
        (''rollout'', compile_rollout (fld c ''rollout'') instances),
        (''siteOverrides'', Obj [(''allowed'', nullish (fld (fld c ''siteOverrides'') ''allowed'') (Bool False)),
           (''minimum'', nullish (fld (fld c ''siteOverrides'') ''minimum'') (Num (JInt 1))),
           (''maximum'', nullish (fld (fld c ''siteOverrides'') ''maximum'') (Num (JInt 256)))]),
        (''capacity'', omit_undefined (map (\<lambda>f. (f, fld (fld c ''capacity'') f))
           [''memoryBytes'', ''cpuMillicores'', ''ephemeralStorageBytes'', ''buildMemoryBytes''])),
        (''placement'', Obj [(''intent'', nullish (fld (fld c ''placement'') ''intent'') (Str ''coLocate'')),
           (''requiredLabels'', sorted_string_map (or_empty_obj (fld (fld c ''placement'') ''requiredLabels'')))]),
        (''profile'', fld c ''profile''),
        (''command'', fld c ''command''),
        (''interfaces'', sorted_record (\<lambda>x. x) (or_empty_obj (fld c ''interfaces''))),
        (''environment'', sorted_record (\<lambda>x. x) (or_empty_obj (fld c ''environment''))),
        (''configurationFiles'', sorted_record (\<lambda>x. x) (or_empty_obj (fld c ''configurationFiles''))),
        (''mounts'', sorted_record compile_mount (or_empty_obj (fld c ''mounts''))),
        (''dependsOn'', sort_strings (or_empty_arr (fld c ''dependsOn''))),
        (''health'', fld c ''health''),
        (''runtime'', compile_runtime (fld c ''runtime''))])"

definition compile_resource :: "jsv \<Rightarrow> jsv" where
  "compile_resource r =
     (let durability = nullish (fld r ''durability'') (Str ''durable'') in
      omit_undefined
       [(''type'', Str ''volume''),
        (''displayName'', fld r ''displayName''),
        (''durability'', durability),
        (''dataRole'', nullish (fld r ''dataRole'') (Str ''files'')),
        (''access'', nullish (fld r ''access'') (Str ''singleWriter'')),
        (''consistencyGroup'', nullish (fld r ''consistencyGroup'') (Str ''application'')),
        (''ownership'', nullish (fld r ''ownership'') (Str ''application'')),
        (''backup'', Obj
           [(''policy'', nullish (fld (fld r ''backup'') ''policy'') (Str (if durability = Str ''durable'' then ''include'' else ''exclude''))),
            (''retentionCopies'', nullish (fld (fld r ''backup'') ''retentionCopies'') (Num (JInt 1)))]),
        (''suitcase'', Obj [(''allowedDataModes'',
            sort_strings (nullish (fld (fld r ''suitcase'') ''allowedDataModes'') (Arr (map Str suitcase_data_modes))))]),
        (''source'', fld r ''source''),
        (''reconciliation'',
           let g = fld r ''reconciliation'' in
           if truthy g then
             Obj [(''excludeTables'', sort_strings (or_empty_arr (fld g ''excludeTables''))),
                  (''excludePaths'', sort_strings (or_empty_arr (fld g ''excludePaths''))),
                  (''conflictPolicy'', nullish (fld g ''conflictPolicy'') (Str ''collect''))]
           else Undef)])"

definition compile_route :: "jsv \<Rightarrow> jsv" where
  "compile_route r =
     omit_undefined
       [(''to'', fld r ''to''),
        (''hostname'', fld r ''hostname''),
        (''path'', nullish (fld r ''path'') (Str ''/'')),
        (''discoverable'', nullish (fld r ''discoverable'') (Bool False)),
        (''cache'',
           let c = fld r ''cache'' in
           if truthy c then
             Obj [(''enabled'', nullish (fld c ''enabled'') (Bool True)),
                  (''maxAge'', nullish (fld c ''maxAge'') (Num (JInt 60))),
                  (''paths'', sort_strings (or_empty_arr (fld c ''paths''))),
                  (''maxObjectBytes'', nullish (fld c ''maxObjectBytes'') (Num (JInt 2097152)))]
           else Undef)]"

definition compile_job :: "jsv \<Rightarrow> jsv" where
  "compile_job j =
     Obj [(''component'', fld j ''component''),
       (''command'', fld j ''command''),
       (''environment'', sorted_record (\<lambda>x. x) (or_empty_obj (fld j ''environment''))),
       (''execution'', nullish (fld j ''execution'') (Str ''perSite'')),
       (''beforeTraffic'', nullish (fld j ''beforeTraffic'') (Bool False))]"

definition compile_spec :: "jsv \<Rightarrow> jsv" where
  "compile_spec m =
     (let metadata = or_empty_obj (fld m ''metadata'') in
      Obj [(''apiVersion'', Str ''deploy.local/v1''),
        (''kind'', Str ''Application''),
        (''metadata'', omit_undefined [(''name'', fld metadata ''name''), (''description'', fld metadata ''description''),
           (''labels'', sorted_string_map (or_empty_obj (fld metadata ''labels'')))]),
        (''configuration'', sorted_record compile_declaration (or_empty_obj (fld m ''configuration''))),
        (''components'', sorted_record compile_component (fld m ''components'')),
        (''resources'', sorted_record compile_resource (or_empty_obj (fld m ''resources''))),
        (''routes'', sorted_record compile_route (or_empty_obj (fld m ''routes''))),
        (''jobs'', sorted_record compile_job (or_empty_obj (fld m ''jobs'')))])"

section \<open>Canonical JSON and digest\<close>

text \<open>\<open>canonicalize\<close> of the specification: \<open>None\<close> where it throws a \<open>TypeError\<close>.\<close>

fun spec_canonicalize :: "jsv \<Rightarrow> jsv option" where
  "spec_canonicalize Undef = None"
| "spec_canonicalize Func = None"
| "spec_canonicalize (Num n) =
     (if num_finite n then Some (Num (if n = NegZero then JInt 0 else n)) else None)"
| "spec_canonicalize (Arr xs) =
     (if list_all (\<lambda>x. spec_canonicalize x \<noteq> None) xs
      then Some (Arr (map (\<lambda>x. case spec_canonicalize x of Some y \<Rightarrow> y | None \<Rightarrow> Undef) xs)) else None)"
| "spec_canonicalize (Obj kvs) =
     (if list_all (\<lambda>kv. spec_canonicalize (snd kv) \<noteq> None) kvs
      then Some (mk_obj (filter (\<lambda>kv. fst kv \<noteq> ''__proto__'') (sort_key fst
             (map (\<lambda>(k, x). (k, case spec_canonicalize x of Some y \<Rightarrow> y | None \<Rightarrow> Undef)) kvs))))
      else None)"
| "spec_canonicalize v = Some v"

definition canonical_application_json :: "jsv \<Rightarrow> string option" where
  "canonical_application_json spec = Option.bind (spec_canonicalize spec) json_text"

definition application_spec_digest :: "(string \<Rightarrow> string) \<Rightarrow> jsv \<Rightarrow> string option" where
  "application_spec_digest sha256 spec = map_option (\<lambda>t. ''sha256:'' @ sha256 t) (canonical_application_json spec)"

datatype compile_error = ManifestError "string list" | CanonicalTypeError

record compiled_spec =
  spec_of :: jsv
  canonical_json :: string
  digest_of :: string

definition compile_application_manifest ::
  "url_parser \<Rightarrow> (string \<Rightarrow> string) \<Rightarrow> jsv \<Rightarrow> compile_error + compiled_spec" where
  "compile_application_manifest url sha256 m =
     (case accepted_manifest url m ''application manifest'' of
        Inl issues \<Rightarrow> Inl (ManifestError issues)
      | Inr input \<Rightarrow>
          (let spec = compile_spec input in
           case canonical_application_json spec of
             None \<Rightarrow> Inl CanonicalTypeError
           | Some t \<Rightarrow> Inr \<lparr>spec_of = spec, canonical_json = t, digest_of = ''sha256:'' @ sha256 t\<rparr>))"

end
