(* ===== verification/Placement.thy ===== *)
theory Placement
  imports SpecCompile
begin

text \<open>
  Admission of a compiled graph onto one node: \<open>server/application-placement.ts\<close> (node labels and
  required-label placement) and \<open>server/volume-attachments.ts\<close> (how many writers each volume gets).
  The collation of \<open>localeCompare\<close> is the parameter \<open>ck\<close>; \<open>JSON.parse\<close> is the parameter \<open>json_parse\<close>,
  \<open>None\<close> when it throws.
\<close>

section \<open>Findings\<close>

datatype severity = Error_severity | Warning_severity

record finding =
  rf_code :: string
  rf_severity :: severity
  rf_path :: string
  rf_message :: string

definition error_finding :: "string \<Rightarrow> string \<Rightarrow> string \<Rightarrow> finding" where
  "error_finding c p m = \<lparr>rf_code = c, rf_severity = Error_severity, rf_path = p, rf_message = m\<rparr>"

definition is_error :: "finding \<Rightarrow> bool" where
  "is_error f \<longleftrightarrow> rf_severity f = Error_severity"

lemma error_finding_select [simp]:
  "rf_code (error_finding c p m) = c" "rf_path (error_finding c p m) = p" "is_error (error_finding c p m)"
  by (simp_all add: error_finding_def is_error_def)

definition pointer_part :: "string \<Rightarrow> string" where
  "pointer_part s = replace_char (CHR ''/'') ''~1'' (replace_char (CHR ''~'') ''~0'' s)"

definition entries_by :: "(string \<Rightarrow> nat list) \<Rightarrow> jsv \<Rightarrow> fields" where
  "entries_by ck v = sort_key (\<lambda>kv. ck (fst kv)) (own_fields v)"

section \<open>Node labels\<close>

text \<open>\<open>stringMap\<close>: the labels sorted by name, or the error it throws.\<close>

definition label_map :: "(string \<Rightarrow> nat list) \<Rightarrow> jsv \<Rightarrow> string \<Rightarrow> string + fields" where
  "label_map ck v source =
     (if v = Undef \<or> v = Null \<or> v = Str [] then Inr []
      else if \<not> is_record v then Inl (source @ '' must be a JSON object containing string values'')
      else (case find (\<lambda>(k, x). k = [] \<or> \<not> is_str x \<or> x = Str []) (own_fields v) of
              Some (k, x) \<Rightarrow> Inl (source @ ''.'' @ (if k = [] then ''<empty>'' else k) @ '' must be a non-empty string'')
            | None \<Rightarrow> Inr (js_order (entries_by ck (build_map (own_fields v))))))"

text \<open>\<open>!value.trim()\<close>: only white space and line terminators.\<close>

definition js_blank :: "string \<Rightarrow> bool" where
  "js_blank s \<longleftrightarrow> list_all (\<lambda>c. (of_char c :: nat) \<in> {9, 10, 11, 12, 13, 32, 160}) s"

definition configured_placement_labels ::
  "(string \<Rightarrow> nat list) \<Rightarrow> (string \<Rightarrow> jsv option) \<Rightarrow> string option \<Rightarrow> string + fields" where
  "configured_placement_labels ck json_parse v =
     (case v of
        None \<Rightarrow> Inr []
      | Some s \<Rightarrow>
          if js_blank s then Inr []
          else (case json_parse s of
                  None \<Rightarrow> Inl ''DEPLOY_NODE_LABELS must be a JSON object containing string values''
                | Some parsed \<Rightarrow> label_map ck parsed ''DEPLOY_NODE_LABELS''))"

datatype node_kind = Coordinator | Agent | Suitcase_node | Unknown_node

fun kind_text :: "node_kind \<Rightarrow> string" where
  "kind_text Coordinator = ''coordinator''"
| "kind_text Agent = ''agent''"
| "kind_text Suitcase_node = ''suitcase''"
| "kind_text Unknown_node = ''unknown''"

definition kind_of :: "string option \<Rightarrow> node_kind" where
  "kind_of k =
     (if k = Some ''coordinator'' then Coordinator else if k = Some ''agent'' then Agent
      else if k = Some ''suitcase'' then Suitcase_node else Unknown_node)"

record placement_target =
  pt_node :: string
  pt_kind :: node_kind
  pt_labels :: fields
  pt_source :: string
  pt_observed :: "string option"

record node_facts =
  nf_node :: string
  nf_kind :: "string option"
  nf_platform :: "string option"
  nf_architecture :: "string option"
  nf_capabilities :: jsv
  nf_observed :: "string option"
  nf_source :: string

definition reserved_label :: "string \<Rightarrow> bool" where
  "reserved_label k \<longleftrightarrow> k = ''platform'' \<or> k = ''architecture'' \<or> starts_with k ''deploy.local/''"

definition present_entry :: "string \<times> string option \<Rightarrow> fields" where
  "present_entry e = (case snd e of None \<Rightarrow> [] | Some s \<Rightarrow> if s = [] then [] else [(fst e, Str s)])"

definition built_in_labels :: "node_facts \<Rightarrow> fields" where
  "built_in_labels f =
     concat (map present_entry
       [(''deploy.local/node-id'', Some (nf_node f)), (''deploy.local/site-id'', Some (nf_node f)),
        (''deploy.local/node-kind'', Some (kind_text (kind_of (nf_kind f)))),
        (''deploy.local/platform'', nf_platform f), (''deploy.local/architecture'', nf_architecture f),
        (''platform'', nf_platform f), (''architecture'', nf_architecture f)])"

definition capabilities_of :: "(string \<Rightarrow> jsv option) \<Rightarrow> jsv \<Rightarrow> jsv" where
  "capabilities_of json_parse c =
     (let parsed = (if is_str c then (case json_parse (str_of c) of None \<Rightarrow> Undef | Some v \<Rightarrow> v) else c) in
      if is_record parsed then parsed else Obj [])"

text \<open>\<open>{ ...custom, ...builtIn }\<close>: a key of both takes the value of the second.\<close>

definition spread :: "fields \<Rightarrow> fields \<Rightarrow> fields" where
  "spread xs ys = fold (\<lambda>(k, v) m. jm_set m k v) ys xs"

definition placement_target_from_facts ::
  "(string \<Rightarrow> nat list) \<Rightarrow> (string \<Rightarrow> jsv option) \<Rightarrow> node_facts \<Rightarrow> string + placement_target" where
  "placement_target_from_facts ck json_parse f =
     (case label_map ck (fld (capabilities_of json_parse (nf_capabilities f)) ''labels'') (nf_source f @ ''.capabilities.labels'') of
        Inl e \<Rightarrow> Inl e
      | Inr labels \<Rightarrow>
          Inr \<lparr>pt_node = nf_node f, pt_kind = kind_of (nf_kind f),
               pt_labels = js_order (sort_key (\<lambda>kv. ck (fst kv))
                  (js_order (spread (filter (\<lambda>kv. \<not> reserved_label (fst kv)) labels) (built_in_labels f)))),
               pt_source = nf_source f, pt_observed = nf_observed f\<rparr>)"

section \<open>Placement of a component\<close>

record placement_evidence =
  ev_component :: string
  ev_node :: "string option"
  ev_intent :: jsv
  ev_instances :: int
  ev_required :: jsv
  ev_labels :: fields
  ev_blocked :: bool
  ev_source :: string
  ev_detail :: string
  ev_observed :: "string option"

definition instances_of :: "jsv \<Rightarrow> int" where
  "instances_of c = (case int_of (fld c ''instances'') of None \<Rightarrow> 0 | Some z \<Rightarrow> z)"

definition desired_count :: "(string, int) jmap \<Rightarrow> string \<Rightarrow> jsv \<Rightarrow> int" where
  "desired_count counts name c = (case jm_get counts name of None \<Rightarrow> instances_of c | Some z \<Rightarrow> z)"

definition label_mismatch :: "string \<Rightarrow> placement_target \<Rightarrow> string \<times> jsv \<Rightarrow> finding list" where
  "label_mismatch name t kv =
     (let actual = fld (Obj (pt_labels t)) (fst kv) in
      if actual = snd kv then []
      else [error_finding ''PLACEMENT_REQUIRED_LABEL_MISMATCH''
              (''/components/'' @ pointer_part name @ ''/placement/requiredLabels/'' @ pointer_part (fst kv))
              (''Component '' @ quote_str name @ '' requires node label '' @ quote_str (fst kv) @ ''='' @ scalar_text (snd kv)
               @ '', but '' @ pt_node t @ '' reports '' @ (if actual = Undef then ''no value'' else scalar_text actual))])"

definition placement_findings :: "placement_target option \<Rightarrow> string \<Rightarrow> jsv \<Rightarrow> finding list" where
  "placement_findings target name c =
     (let required = fld (fld c ''placement'') ''requiredLabels'' in
      (if fld (fld c ''placement'') ''intent'' = Str ''spread''
       then [error_finding ''PLACEMENT_SPREAD_REQUIRES_CROSS_NODE_SCHEDULER''
               (''/components/'' @ pointer_part name @ ''/placement/intent'')
               (''Component '' @ quote_str name @ '' requests spread placement, but v1 materializes one node-local private dependency closure; cross-node scheduling and service discovery are not implemented'')]
       else [])
      @ (case target of
           None \<Rightarrow>
             if own_fields required = [] then []
             else [error_finding ''PLACEMENT_TARGET_EVIDENCE_UNAVAILABLE''
                     (''/components/'' @ pointer_part name @ ''/placement/requiredLabels'')
                     (''Component '' @ quote_str name @ '' requires node labels, but the selected local node has no authenticated placement evidence'')]
         | Some t \<Rightarrow> concat (map (label_mismatch name t) (own_fields required))))"

definition component_evidence ::
  "placement_target option \<Rightarrow> (string, int) jmap \<Rightarrow> string \<Rightarrow> jsv \<Rightarrow> placement_evidence" where
  "component_evidence target counts name c =
     (let blockers = map rf_message (placement_findings target name c);
          required = fld (fld c ''placement'') ''requiredLabels'';
          labels = (case target of None \<Rightarrow> Obj [] | Some t \<Rightarrow> Obj (pt_labels t)) in
      \<lparr>ev_component = name, ev_node = map_option pt_node target, ev_intent = fld (fld c ''placement'') ''intent'',
       ev_instances = desired_count counts name c, ev_required = required,
       ev_labels = js_order (map (\<lambda>k. (k, if target = None then Null else nullish (fld labels k) Null)) (sort (obj_keys required))),
       ev_blocked = (blockers \<noteq> []),
       ev_source = (case target of None \<Rightarrow> ''selected-local-node'' | Some t \<Rightarrow> pt_source t),
       ev_detail = (if js_join ''; '' blockers \<noteq> [] then js_join ''; '' blockers
          else ''Component is admitted into the node-local private closure on ''
            @ (case target of None \<Rightarrow> ''the selected node'' | Some t \<Rightarrow> pt_node t)),
       ev_observed = Option.bind target pt_observed\<rparr>)"

definition evaluate_application_placement ::
  "(string \<Rightarrow> nat list) \<Rightarrow> jsv \<Rightarrow> (string, int) jmap \<Rightarrow> placement_target option \<Rightarrow> bool \<times> finding list \<times> placement_evidence list" where
  "evaluate_application_placement ck spec counts target =
     (let entries = entries_by ck (fld spec ''components'');
          findings = concat (map (\<lambda>(name, c). placement_findings target name c) entries) in
      (\<not> list_ex is_error findings, findings,
       map (\<lambda>(name, c). component_evidence target counts name c) entries))"

section \<open>Volume attachments\<close>

record volume_group =
  vg_resource :: string
  vg_component :: string
  vg_paths :: "string list"
  vg_read_only :: bool
  vg_instances :: int

definition mount_resource :: "jsv \<Rightarrow> string" where
  "mount_resource m = js_string (fld m ''resource'')"

text \<open>One mount of one component: the finding for an unknown resource, or the group it joins.\<close>

definition add_mount ::
  "jsv \<Rightarrow> (string, int) jmap \<Rightarrow> string \<Rightarrow> jsv \<Rightarrow> string \<times> jsv
   \<Rightarrow> finding list \<times> (string, volume_group) jmap \<Rightarrow> finding list \<times> (string, volume_group) jmap" where
  "add_mount spec counts name c pm st =
     (let (path, m) = pm; (findings, groups) = st; res = mount_resource m in
      if \<not> truthy (fld (fld spec ''resources'') res) then
        (findings @ [error_finding ''VOLUME_RESOURCE_UNKNOWN'' (''/components/'' @ name @ ''/mounts/'' @ pointer_part path)
           (''Mount references unknown volume resource '' @ quote_str res)], groups)
      else (let key = name @ [CHR 0x00] @ res; ro = truthy (fld m ''readOnly'') in
        (findings, jm_set groups key
          (case jm_get groups key of
             Some g \<Rightarrow> g\<lparr>vg_paths := vg_paths g @ [path], vg_read_only := vg_read_only g \<and> ro\<rparr>
           | None \<Rightarrow> \<lparr>vg_resource = res, vg_component = name, vg_paths = [path], vg_read_only = ro,
                      vg_instances = desired_count counts name c\<rparr>))))"

definition group_mounts :: "jsv \<Rightarrow> (string, int) jmap \<Rightarrow> finding list \<times> (string, volume_group) jmap" where
  "group_mounts spec counts =
     fold (\<lambda>(name, c). fold (add_mount spec counts name c) (own_fields (fld c ''mounts'')))
       (own_fields (fld spec ''components'')) ([], [])"

record attachment =
  at_resource :: string
  at_consistency_group :: jsv
  at_ownership :: jsv
  at_backup :: jsv
  at_suitcase :: jsv
  at_component :: string
  at_mount_paths :: "string list"
  at_read_only :: bool
  at_instances :: int

definition attachment_of :: "jsv \<Rightarrow> volume_group \<Rightarrow> attachment" where
  "attachment_of spec g =
     (let r = fld (fld spec ''resources'') (vg_resource g) in
      \<lparr>at_resource = vg_resource g, at_consistency_group = fld r ''consistencyGroup'', at_ownership = fld r ''ownership'',
       at_backup = fld r ''backup'', at_suitcase = fld r ''suitcase'', at_component = vg_component g,
       at_mount_paths = sort (vg_paths g), at_read_only = vg_read_only g, at_instances = vg_instances g\<rparr>)"

definition writer_slots :: "attachment list \<Rightarrow> string \<Rightarrow> int" where
  "writer_slots ats r = sum_list (map at_instances (filter (\<lambda>a. at_resource a = r \<and> \<not> at_read_only a) ats))"

definition access_findings :: "string list option \<Rightarrow> attachment list \<Rightarrow> string \<times> jsv \<Rightarrow> finding list" where
  "access_findings shared ats kv =
     (let name = fst kv; access = fld (snd kv) ''access''; writers = writer_slots ats name; path = ''/resources/'' @ name @ ''/access'' in
      (if access = Str ''multipleReaders'' \<and> writers > 0
       then [error_finding ''READ_ONLY_VOLUME_HAS_WRITER'' path
               (''Volume '' @ quote_str name @ '' is multipleReaders but has '' @ int_str writers @ '' desired writable attachment''
                @ (if writers = 1 then [] else ''s''))] else [])
      @ (if access = Str ''singleWriter'' \<and> writers > 1
         then [error_finding ''SINGLE_WRITER_VOLUME_HAS_MULTIPLE_WRITERS'' path
                 (''Volume '' @ quote_str name @ '' is singleWriter but the desired graph creates '' @ int_str writers @ '' writers'')] else [])
      @ (if access = Str ''sharedWriters'' \<and> writers > 1
            \<and> \<not> (case shared of None \<Rightarrow> False | Some s \<Rightarrow> name \<in> set s)
         then [error_finding ''SHARED_WRITER_PROVIDER_UNPROVEN'' path
                 (''Volume '' @ quote_str name @ '' requests sharedWriters, but its provider has not proven concurrent-writer safety'')] else []))"

definition plan_volume_attachments ::
  "(string \<Rightarrow> nat list) \<Rightarrow> jsv \<Rightarrow> string list option \<Rightarrow> (string, int) jmap \<Rightarrow> attachment list \<times> finding list" where
  "plan_volume_attachments ck spec shared counts =
     (let (findings, groups) = group_mounts spec counts;
          ats = map (attachment_of spec) (sort_key (\<lambda>g. (ck (vg_resource g), ck (vg_component g))) (map snd groups)) in
      (ats, findings @ concat (map (access_findings shared ats) (own_fields (fld spec ''resources'')))))"

end
