(* ===== verification/Execution.thy ===== *)
theory Execution
  imports Placement SpecCycles
begin

text \<open>
  The execution planner \<open>server/application-execution.ts\<close>: \<open>planApplicationExecution\<close> turns a compiled
  specification into the ordered component plans, services and routes a node materializes, and lists
  the admission findings that block it. A lifecycle profile is a function of the registry the caller
  supplies; its plan type is the type variable \<open>'p\<close>.
\<close>

section \<open>Site instance counts\<close>

record exec_options =
  unresolved_configuration :: "string list option"
  exec_target_site :: "string option"
  instance_overrides :: "(string, jsnum) jmap option"

definition is_safe_integer :: "jsnum \<Rightarrow> bool" where
  "is_safe_integer n \<longleftrightarrow> (case num_int n of None \<Rightarrow> False | Some z \<Rightarrow> \<bar>z\<bar> \<le> max_safe_integer)"

definition override_of :: "exec_options \<Rightarrow> string \<Rightarrow> jsnum option" where
  "override_of opts name = (case instance_overrides opts of None \<Rightarrow> None | Some m \<Rightarrow> jm_get m name)"

definition components_path :: "string \<Rightarrow> string \<Rightarrow> string" where
  "components_path name rest = ''/components/'' @ name @ rest"

definition site_count :: "exec_options \<Rightarrow> string \<Rightarrow> jsv \<Rightarrow> finding list \<times> int" where
  "site_count opts name c =
     (case override_of opts name of
        None \<Rightarrow> ([], instances_of c)
      | Some n \<Rightarrow>
          (let so = fld c ''siteOverrides''; lo = fld so ''minimum''; hi = fld so ''maximum'';
               below = (case lo of Num m \<Rightarrow> num_lt n m | _ \<Rightarrow> False);
               above = (case hi of Num m \<Rightarrow> num_lt m n | _ \<Rightarrow> False);
               bad = (\<not> is_safe_integer n \<or> below \<or> above) in
           ((if (case exec_target_site opts of None \<Rightarrow> True | Some s \<Rightarrow> s = [])
             then [error_finding ''SITE_OVERRIDE_TARGET_REQUIRED'' (components_path name ''/siteOverrides'')
                     (''Component '' @ quote_str name @ '' has an instance override without an explicit target site'')] else [])
            @ (if \<not> truthy (fld so ''allowed'')
               then [error_finding ''SITE_OVERRIDE_NOT_ALLOWED'' (components_path name ''/siteOverrides/allowed'')
                       (''Component '' @ quote_str name @ '' does not allow site-specific instance counts'')] else [])
            @ (if bad
               then [error_finding ''SITE_OVERRIDE_OUT_OF_BOUNDS'' (components_path name ''/siteOverrides'')
                       (''Component '' @ quote_str name @ '' site count must be between '' @ js_string lo @ '' and '' @ js_string hi)] else []),
            if bad then instances_of c else (case num_int n of Some z \<Rightarrow> z | None \<Rightarrow> 0))))"

definition resolve_site_instance_counts :: "jsv \<Rightarrow> exec_options \<Rightarrow> finding list \<times> (string, int) jmap" where
  "resolve_site_instance_counts spec opts =
     (let entries = own_fields (fld spec ''components'') in
      (concat (map (\<lambda>(name, c). fst (site_count opts name c)) entries)
       @ concat (map (\<lambda>(name, _).
           if truthy (fld (fld spec ''components'') name) then []
           else [error_finding ''SITE_OVERRIDE_COMPONENT_UNKNOWN'' (components_path name [])
                   (''Site instance override references unknown component '' @ quote_str name)])
           (case instance_overrides opts of None \<Rightarrow> [] | Some m \<Rightarrow> m)),
       map (\<lambda>(name, c). (name, snd (site_count opts name c))) entries))"

section \<open>Dependencies\<close>

definition stable_service_id :: "string \<Rightarrow> string \<Rightarrow> string \<Rightarrow> string" where
  "stable_service_id app c i = app @ ''/'' @ c @ ''/'' @ i"

definition configuration_prefix :: string where
  "configuration_prefix = ''configuration.''"

definition reference_from :: "jsv \<Rightarrow> string" where
  "reference_from r = str_of (fld r ''from'')"

definition infer_step :: "jsv \<Rightarrow> string \<Rightarrow> jsv \<Rightarrow> finding list \<times> string list \<Rightarrow> finding list \<times> string list" where
  "infer_step spec name r st =
     (let (findings, inferred) = st; from = reference_from r; d = hd (split_on (CHR ''.'') from) in
      if starts_with from configuration_prefix then st
      else if d = name then st
      else if \<not> truthy (fld (fld spec ''components'') d) then st
      else if d \<in> set inferred then st
      else (findings @ [\<lparr>rf_code = ''IMPLICIT_SERVICE_DEPENDENCY'', rf_severity = Warning_severity,
               rf_path = components_path name ''/environment'',
               rf_message = ''Binding '' @ quote_str from @ '' adds an implicit dependency on component '' @ quote_str d\<rparr>],
            inferred @ [d]))"

definition component_dependencies :: "jsv \<Rightarrow> string \<Rightarrow> jsv \<Rightarrow> finding list \<times> string list" where
  "component_dependencies spec name c =
     (let (findings, inferred) = fold (\<lambda>kv. infer_step spec name (snd kv)) (own_fields (fld c ''environment''))
            ([], uniq (map str_of (arr_items (fld c ''dependsOn'')))) in
      (findings, sort inferred))"

definition infer_dependencies :: "jsv \<Rightarrow> finding list \<times> (string, string list) jmap" where
  "infer_dependencies spec =
     (let entries = own_fields (fld spec ''components'') in
      (concat (map (\<lambda>(name, c). fst (component_dependencies spec name c)) entries),
       map (\<lambda>(name, c). (name, snd (component_dependencies spec name c))) entries))"

section \<open>Order\<close>

definition dependencies_of :: "(string, string list) jmap \<Rightarrow> string \<Rightarrow> string list" where
  "dependencies_of deps name = (case jm_get deps name of None \<Rightarrow> [] | Some ds \<Rightarrow> ds)"

text \<open>The body of \<open>for (const name of ready)\<close>: order the name and drop it everywhere.\<close>

definition release :: "string \<Rightarrow> string list \<times> (string, string list) jmap \<Rightarrow> string list \<times> (string, string list) jmap" where
  "release name st =
     (fst st @ [name],
      map (\<lambda>(n, pending). (n, filter (\<lambda>p. p \<noteq> name) pending)) (jm_delete (snd st) name))"

definition ready_names :: "(string, string list) jmap \<Rightarrow> string list" where
  "ready_names remaining = sort (map fst (filter (\<lambda>(n, pending). pending = []) remaining))"

lemma release_keys: "map fst (snd (release name st)) = filter (\<lambda>n. n \<noteq> name) (map fst (snd st))"
  unfolding release_def snd_conv keys_map_snd by (rule jm_keys_delete)

lemma release_all_keys:
  "map fst (snd (fold release names st)) = filter (\<lambda>n. n \<notin> set names) (map fst (snd st))"
  by (induction names arbitrary: st) (auto simp: release_keys intro: filter_cong)

lemma release_all_shrinks:
  assumes "ready_names remaining \<noteq> []"
  shows "length (snd (fold release (ready_names remaining) (ordered, remaining))) < length remaining"
proof -
  obtain n where "n \<in> set (ready_names remaining)" using assms by (cases "ready_names remaining") auto
  moreover have "set (ready_names remaining) \<subseteq> set (map fst remaining)" by (auto simp: ready_names_def)
  ultimately have "\<exists>n \<in> set (map fst remaining). \<not> n \<notin> set (ready_names remaining)" by blast
  then have "length (filter (\<lambda>n. n \<notin> set (ready_names remaining)) (map fst remaining)) < length (map fst remaining)"
    by (metis length_filter_less)
  moreover have "map fst (snd (fold release (ready_names remaining) (ordered, remaining)))
      = filter (\<lambda>n. n \<notin> set (ready_names remaining)) (map fst remaining)"
    by (simp only: release_all_keys snd_conv)
  ultimately show ?thesis by (metis length_map)
qed

function topo_loop :: "string list \<Rightarrow> (string, string list) jmap \<Rightarrow> finding list \<times> string list" where
  "topo_loop ordered remaining =
     (if remaining = [] then ([], ordered)
      else if ready_names remaining = [] then
        (let cycle = sort (map fst remaining) in
         ([error_finding ''COMPONENT_DEPENDENCY_CYCLE'' ''/components''
             (''Component dependency graph contains a cycle involving: '' @ js_join '', '' cycle)], ordered @ cycle))
      else (case fold release (ready_names remaining) (ordered, remaining) of
              (ordered', remaining') \<Rightarrow> topo_loop ordered' remaining'))"
  by pat_completeness auto
termination
proof (relation "measure (\<lambda>(_, remaining). length remaining)")
  fix ordered :: "string list" and remaining :: "(string, string list) jmap" and xa y
  assume "remaining \<noteq> []" "ready_names remaining \<noteq> []" "(xa, y) = fold release (ready_names remaining) (ordered, remaining)"
  then show "((xa, y), (ordered, remaining)) \<in> measure (\<lambda>(_, remaining). length remaining)"
    using release_all_shrinks [of remaining ordered] by (metis case_prod_conv in_measure snd_conv)
qed simp

declare topo_loop.simps [simp del]

definition known_dependencies :: "jsv \<Rightarrow> (string, string list) jmap \<Rightarrow> string \<Rightarrow> string list" where
  "known_dependencies spec deps name =
     uniq (filter (\<lambda>d. truthy (fld (fld spec ''components'') d)) (dependencies_of deps name))"

definition unknown_dependency_findings :: "jsv \<Rightarrow> (string, string list) jmap \<Rightarrow> string \<Rightarrow> finding list" where
  "unknown_dependency_findings spec deps name =
     map (\<lambda>d. error_finding ''COMPONENT_DEPENDENCY_UNKNOWN'' (components_path name ''/dependsOn'')
           (''Component '' @ quote_str name @ '' depends on unknown component '' @ quote_str d))
       (filter (\<lambda>d. \<not> truthy (fld (fld spec ''components'') d)) (dependencies_of deps name))"

definition topological_order :: "jsv \<Rightarrow> (string, string list) jmap \<Rightarrow> finding list \<times> string list" where
  "topological_order spec deps =
     (let names = obj_keys (fld spec ''components'');
          (cyclic, ordered) = topo_loop [] (map (\<lambda>n. (n, known_dependencies spec deps n)) names) in
      (concat (map (unknown_dependency_findings spec deps) names) @ cyclic, ordered))"

section \<open>Services, components and routes\<close>

record stable_service =
  sv_id :: string
  sv_application :: string
  sv_component :: string
  sv_interface :: string
  sv_protocol :: jsv
  sv_port :: jsv

definition application_services :: "string \<Rightarrow> jsv \<Rightarrow> (string, stable_service) jmap" where
  "application_services app spec =
     fold (\<lambda>(name, c). fold (\<lambda>(i, endpoint) m. jm_set m (name @ ''.'' @ i)
         \<lparr>sv_id = stable_service_id app name i, sv_application = app, sv_component = name, sv_interface = i,
          sv_protocol = fld endpoint ''protocol'', sv_port = fld endpoint ''port''\<rparr>)
         (own_fields (fld c ''interfaces'')))
       (own_fields (fld spec ''components'')) []"

datatype executable_source =
    Image_source jsv
  | Build_source jsv jsv jsv jsv

datatype binding_kind = Configuration_binding | Service_binding

record environment_binding =
  eb_variable :: string
  eb_reference :: string
  eb_kind :: binding_kind
  eb_service :: "string option"

definition environment_binding_of :: "string \<Rightarrow> string \<Rightarrow> jsv \<Rightarrow> environment_binding" where
  "environment_binding_of app variable r =
     (let from = reference_from r; parts = split_on (CHR ''.'') from in
      if starts_with from configuration_prefix
      then \<lparr>eb_variable = variable, eb_reference = from, eb_kind = Configuration_binding, eb_service = None\<rparr>
      else \<lparr>eb_variable = variable, eb_reference = from, eb_kind = Service_binding,
            eb_service = Some (stable_service_id app (parts ! 0)
              (if length parts > 1 then parts ! 1 else ''undefined''))\<rparr>)"

record 'p component_plan =
  cp_name :: string
  cp_display :: jsv
  cp_source :: executable_source
  cp_role :: jsv
  cp_desired :: int
  cp_default :: int
  cp_minimum_ready :: int
  cp_rollout :: jsv
  cp_site_overrides :: jsv
  cp_capacity :: jsv
  cp_placement :: jsv
  cp_slots :: "string list"
  cp_dependencies :: "string list"
  cp_explicit :: jsv
  cp_command :: jsv
  cp_environment :: "environment_binding list"
  cp_files :: jsv
  cp_interfaces :: jsv
  cp_mounts :: jsv
  cp_health :: jsv
  cp_runtime :: jsv
  cp_profile :: "'p option"
  cp_blocked :: bool
  cp_findings :: "finding list"

text \<open>A registry entry: component, node of the graph and graph to its plan and findings.\<close>

type_synonym 'p profile_registry = "(string, string \<Rightarrow> string \<Rightarrow> jsv \<Rightarrow> jsv \<Rightarrow> 'p \<times> finding list) jmap"

definition component_graph_findings :: "string \<Rightarrow> finding list \<Rightarrow> attachment list \<Rightarrow> finding list" where
  "component_graph_findings name findings ats =
     (let prefix = components_path name [];
          resources = uniq (map at_resource (filter (\<lambda>a. at_component a = name) ats));
          under = (\<lambda>p f. rf_path f = p \<or> starts_with (rf_path f) (p @ ''/'')) in
      filter (\<lambda>f. rf_path f = ''/components'' \<or> under prefix f
          \<or> list_ex (\<lambda>r. under (''/resources/'' @ r) f) resources) findings)"

definition profile_findings ::
  "'p profile_registry \<Rightarrow> string \<Rightarrow> jsv \<Rightarrow> string \<Rightarrow> jsv \<Rightarrow> finding list \<times> 'p option" where
  "profile_findings registry app spec name c =
     (let profile = fld c ''profile'' in
      if \<not> truthy profile then ([], None)
      else (case jm_get registry (js_string profile) of
              None \<Rightarrow> ([error_finding ''COMPONENT_PROFILE_UNKNOWN'' (components_path name ''/profile'')
                        (''Lifecycle profile '' @ scalar_text profile @ '' is not installed; available profiles: ''
                         @ (let ids = js_join '', '' (sort (jm_keys registry)) in if ids = [] then ''none'' else ids))], None)
            | Some handler \<Rightarrow> (let (plan, found) = handler app name c spec in (found, Some plan))))"

definition is_unresolved :: "exec_options \<Rightarrow> string \<Rightarrow> bool" where
  "is_unresolved opts key \<longleftrightarrow> (case unresolved_configuration opts of None \<Rightarrow> False | Some ks \<Rightarrow> key \<in> set ks)"

definition configuration_findings :: "exec_options \<Rightarrow> string \<Rightarrow> jsv \<Rightarrow> environment_binding list \<Rightarrow> finding list" where
  "configuration_findings opts name c bindings =
     concat (map (\<lambda>b.
       if eb_kind b = Configuration_binding \<and> is_unresolved opts (drop (length configuration_prefix) (eb_reference b))
       then [error_finding ''COMPONENT_CONFIGURATION_UNRESOLVED'' (components_path name (''/environment/'' @ eb_variable b))
               (''Required server-side value '' @ quote_str (eb_reference b) @ '' is unresolved for this site'')] else []) bindings)
     @ concat (map (\<lambda>(target, r).
         if is_unresolved opts (drop (length configuration_prefix) (reference_from r))
         then [error_finding ''COMPONENT_CONFIGURATION_FILE_UNRESOLVED'' (components_path name (''/configurationFiles/'' @ target))
                 (''Required server-side file value '' @ quote_str (reference_from r) @ '' is unresolved for this site'')] else [])
         (own_fields (nullish (fld c ''configurationFiles'') (Obj []))))"

definition component_slots :: "string \<Rightarrow> string \<Rightarrow> int \<Rightarrow> string list" where
  "component_slots app name n = map (\<lambda>i. app @ ''/'' @ name @ ''/'' @ nat_str (Suc i)) [0..<nat n]"

definition plan_component ::
  "(string \<Rightarrow> nat list) \<Rightarrow> 'p profile_registry \<Rightarrow> string \<Rightarrow> jsv \<Rightarrow> exec_options \<Rightarrow> (string, int) jmap
   \<Rightarrow> (string, string list) jmap \<Rightarrow> attachment list \<Rightarrow> finding list \<Rightarrow> string \<Rightarrow> finding list \<times> 'p component_plan" where
  "plan_component ck registry app spec opts counts deps ats graph_findings name =
     (let c = fld (fld spec ''components'') name;
          inherited = component_graph_findings name graph_findings ats;
          (profiled, profile) = profile_findings registry app spec name c;
          bindings = map (\<lambda>(v, r). environment_binding_of app v r) (entries_by ck (fld c ''environment''));
          own = profiled @ configuration_findings opts name c bindings;
          desired = desired_count counts name c; build = fld c ''build'' in
      (own,
       \<lparr>cp_name = name, cp_display = nullish (fld c ''displayName'') (Str name),
        cp_source = (if truthy (fld c ''image'') then Image_source (fld c ''image'')
          else Build_source (fld build ''context'') (fld build ''dockerfile'') (fld build ''target'') (fld build ''ignore'')),
        cp_role = fld c ''role'', cp_desired = desired, cp_default = instances_of c,
        cp_minimum_ready = min (case int_of (fld c ''minimumReady'') of None \<Rightarrow> 0 | Some z \<Rightarrow> z) desired,
        cp_rollout = fld c ''rollout'', cp_site_overrides = fld c ''siteOverrides'', cp_capacity = fld c ''capacity'',
        cp_placement = fld c ''placement'', cp_slots = component_slots app name desired,
        cp_dependencies = dependencies_of deps name, cp_explicit = fld c ''dependsOn'', cp_command = fld c ''command'',
        cp_environment = bindings, cp_files = nullish (fld c ''configurationFiles'') (Obj []),
        cp_interfaces = fld c ''interfaces'', cp_mounts = fld c ''mounts'', cp_health = fld c ''health'',
        cp_runtime = fld c ''runtime'', cp_profile = profile,
        cp_blocked = list_ex is_error (inherited @ own), cp_findings = inherited @ own\<rparr>))"

record route_plan =
  rp_name :: string
  rp_service :: string
  rp_hostname :: jsv
  rp_path :: jsv
  rp_discoverable :: jsv
  rp_cache :: jsv

definition plan_route :: "(string, stable_service) jmap \<Rightarrow> string \<Rightarrow> jsv \<Rightarrow> finding list + route_plan" where
  "plan_route services name r =
     (case jm_get services (js_string (fld r ''to'')) of
        None \<Rightarrow> Inl [error_finding ''ROUTE_SERVICE_UNKNOWN'' (''/routes/'' @ name @ ''/to'')
                 (''Route references unknown component interface '' @ scalar_text (fld r ''to''))]
      | Some s \<Rightarrow> Inr \<lparr>rp_name = name, rp_service = sv_id s, rp_hostname = fld r ''hostname'', rp_path = fld r ''path'',
                   rp_discoverable = fld r ''discoverable'', rp_cache = fld r ''cache''\<rparr>)"

section \<open>The execution plan\<close>

definition host_network :: "jsv \<Rightarrow> bool" where
  "host_network c \<longleftrightarrow> fld (fld c ''runtime'') ''networkMode'' = Str ''host''"

definition host_findings :: "(string, int) jmap \<Rightarrow> string \<times> jsv \<Rightarrow> finding list" where
  "host_findings counts kv =
     (if host_network (snd kv) \<and> jm_get counts (fst kv) \<noteq> Some 1
      then [error_finding ''HOST_NETWORK_REQUIRES_SINGLE_INSTANCE'' (components_path (fst kv) ''/instances'')
              (''Host-network component '' @ quote_str (fst kv) @ '' must have exactly one instance because its ports cannot be isolated per replica'')]
      else [])"

definition rollout_findings :: "(string, int) jmap \<Rightarrow> string \<times> jsv \<Rightarrow> finding list" where
  "rollout_findings counts kv =
     (let name = fst kv; c = snd kv; rollout = fld c ''rollout'' in
      (if fld rollout ''strategy'' = Str ''rolling'' \<and> fld rollout ''schemaOverlap'' \<noteq> Str ''compatible''
       then [error_finding ''ROLLING_SCHEMA_OVERLAP_UNSAFE'' (components_path name ''/rollout/schemaOverlap'')
               (''Rolling component '' @ quote_str name @ '' must declare that old and new releases can safely overlap their shared schema'')]
       else [])
      @ (if (case int_of (fld c ''minimumReady'') of None \<Rightarrow> False | Some z \<Rightarrow> z > desired_count counts name c)
         then [error_finding ''MINIMUM_READY_EXCEEDS_SITE_COUNT'' (components_path name ''/minimumReady'')
                 (''Component '' @ quote_str name @ '' minimumReady exceeds its target-site fixed count'')]
         else []))"

record 'p execution_plan =
  xp_application :: string
  xp_digest :: "string option"
  xp_order :: "string list"
  xp_components :: "(string, 'p component_plan) jmap"
  xp_services :: "(string, stable_service) jmap"
  xp_routes :: "(string, route_plan) jmap"
  xp_attachments :: "attachment list"
  xp_evidence :: "placement_evidence list"
  xp_findings :: "finding list"
  xp_blocked :: bool

definition graph_findings ::
  "(string \<Rightarrow> nat list) \<Rightarrow> jsv \<Rightarrow> exec_options \<Rightarrow> string list option \<Rightarrow> placement_target option \<Rightarrow> finding list" where
  "graph_findings ck spec opts shared target =
     (let (f1, counts) = resolve_site_instance_counts spec opts;
          (f3, deps) = infer_dependencies spec;
          entries = own_fields (fld spec ''components'') in
      f1 @ fst (snd (evaluate_application_placement ck spec counts target)) @ f3
      @ fst (topological_order spec deps)
      @ snd (plan_volume_attachments ck spec shared counts)
      @ concat (map (host_findings counts) entries)
      @ concat (map (rollout_findings counts) entries)
      @ (if list_ex (\<lambda>kv. host_network (snd kv)) entries \<and> length entries > 1
         then [error_finding ''HOST_NETWORK_GRAPH_MIXED_UNSUPPORTED'' ''/components''
                 ''Host networking is supported only for a standalone component in v1; mixed private/host graphs do not share private service discovery safely'']
         else []))"

definition plan_application_execution ::
  "(string \<Rightarrow> nat list) \<Rightarrow> (jsv \<Rightarrow> string option) \<Rightarrow> 'p profile_registry \<Rightarrow> string \<Rightarrow> jsv \<Rightarrow> exec_options
   \<Rightarrow> string option \<Rightarrow> string list option \<Rightarrow> placement_target option \<Rightarrow> 'p execution_plan" where
  "plan_application_execution ck digest registry app spec opts spec_digest shared target =
     (let counts = snd (resolve_site_instance_counts spec opts);
          deps = snd (infer_dependencies spec);
          ats = fst (plan_volume_attachments ck spec shared counts);
          graph = graph_findings ck spec opts shared target;
          services = application_services app spec;
          planned = map (plan_component ck registry app spec opts counts deps ats graph)
            (sort (obj_keys (fld spec ''components'')));
          routed = map (\<lambda>(name, r). plan_route services name r) (own_fields (fld spec ''routes''));
          findings = graph @ concat (map fst planned)
            @ concat (map (\<lambda>x. case x of Inl f \<Rightarrow> f | Inr _ \<Rightarrow> []) routed) in
      \<lparr>xp_application = app,
       xp_digest = (case spec_digest of None \<Rightarrow> digest spec | Some d \<Rightarrow> Some d),
       xp_order = snd (topological_order spec deps),
       xp_components = map (\<lambda>(_, p). (cp_name p, p)) planned,
       xp_services = services,
       xp_routes = concat (map (\<lambda>x. case x of Inl _ \<Rightarrow> [] | Inr r \<Rightarrow> [(rp_name r, r)]) routed),
       xp_attachments = ats,
       xp_evidence = snd (snd (evaluate_application_placement ck spec counts target)),
       xp_findings = findings,
       xp_blocked = list_ex is_error findings\<rparr>)"

end
