(* ===== verification/PlacementFacts.thy ===== *)
theory PlacementFacts
  imports Placement
begin

text \<open>
  What node admission guarantees: custom labels never replace the facts of the node, and the volume
  planner reports no finding exactly when every mount names a resource and every access mode is
  respected by the number of writing instances of the graph.
\<close>


section \<open>Reserved labels\<close>

lemma label_map_fields:
  assumes "label_map ck v source = Inr fs" "(k, x) \<in> set fs"
  shows "is_str x \<and> x \<noteq> Str [] \<and> k \<noteq> []"
  using assms
  by (fastforce simp: label_map_def entries_by_def build_map_def find_None_iff split: if_splits option.splits)

lemma jm_get_spread: "jm_get (spread xs ys) k = (case jm_get (rev ys) k of None \<Rightarrow> jm_get xs k | Some v \<Rightarrow> Some v)"
  unfolding spread_def
  by (induction ys arbitrary: xs) (auto simp: map_add_def split: option.split)

lemma distinct_spread: "distinct (jm_keys xs) \<Longrightarrow> distinct (jm_keys (spread xs ys))"
  unfolding spread_def by (induction ys arbitrary: xs) (auto simp del: distinct_map)

lemma distinct_sort_by: "distinct (map fst (sort_key f xs)) \<longleftrightarrow> distinct (map fst xs)"
  by (rule mset_eq_imp_distinct_iff) simp

lemma map_of_sort_by: "distinct (map fst xs) \<Longrightarrow> map_of (sort_key f xs) = map_of xs"
  by (rule map_of_perm) (simp_all add: distinct_sort_by)

lemma label_map_distinct:
  assumes "label_map ck v source = Inr fs" "js_wf v"
  shows "distinct (jm_keys fs)"
proof -
  have "distinct (map fst (sort_key (\<lambda>kv. ck (fst kv)) (filter (\<lambda>kv. fst kv \<noteq> ''__proto__'') (own_fields v))))"
  proof -
    have "distinct (map fst (filter (\<lambda>kv. fst kv \<noteq> ''__proto__'') (own_fields v)))"
      using assms(2) by (cases v) (auto intro: distinct_map_filter)
    then show ?thesis by (simp only: distinct_sort_by)
  qed
  with assms(1) show ?thesis
    by (auto simp: label_map_def entries_by_def build_map_def split: if_splits option.splits)
qed

lemma present_labels:
  "set (map fst (concat (map present_entry ls))) \<subseteq> set (map fst ls)
   \<and> (distinct (map fst ls) \<longrightarrow> distinct (map fst (concat (map present_entry ls))))"
proof (induction ls)
  case (Cons l ls)
  have "map fst (present_entry l) \<in> {[], [fst l]}" by (simp add: present_entry_def split: option.split)
  then have "map fst (present_entry l) = [] \<or> map fst (present_entry l) = [fst l]" by simp
  moreover have c: "map fst (concat (map present_entry (l # ls))) = map fst (present_entry l) @ map fst (concat (map present_entry ls))"
    by simp
  ultimately show ?case using Cons.IH unfolding c by (elim disjE) (simp_all add: subset_insertI2, blast)
qed simp

lemma distinct_built_in: "distinct (map fst (built_in_labels f))"
  unfolding built_in_labels_def by (rule present_labels [THEN conjunct2, THEN mp]) simp

text \<open>A custom label of a node never overrides a reserved one: every reserved key of the target reads
  as the built-in fact, whatever the capabilities document says.\<close>

lemma reserved_labels_are_facts:
  assumes "placement_target_from_facts ck json_parse f = Inr t"
    and "js_wf (fld (capabilities_of json_parse (nf_capabilities f)) ''labels'')"
    and "reserved_label k"
  shows "jm_get (pt_labels t) k = jm_get (built_in_labels f) k"
proof -
  from assms(1) obtain ls where l: "label_map ck (fld (capabilities_of json_parse (nf_capabilities f)) ''labels'') (nf_source f @ ''.capabilities.labels'') = Inr ls"
    and t: "pt_labels t = js_order (sort_key (\<lambda>kv. ck (fst kv))
        (js_order (spread (filter (\<lambda>kv. \<not> reserved_label (fst kv)) ls) (built_in_labels f))))"
    by (auto simp: placement_target_from_facts_def split: sum.splits)
  have d: "distinct (jm_keys (spread (filter (\<lambda>kv. \<not> reserved_label (fst kv)) ls) (built_in_labels f)))"
    by (intro distinct_spread distinct_map_filter label_map_distinct [OF l assms(2)])
  have "distinct (jm_keys (sort_key (\<lambda>kv. ck (fst kv)) (js_order (spread (filter (\<lambda>kv. \<not> reserved_label (fst kv)) ls) (built_in_labels f)))))"
    using d by (simp only: distinct_sort_by distinct_keys_js_order)
  then have "map_of (pt_labels t) = map_of (spread (filter (\<lambda>kv. \<not> reserved_label (fst kv)) ls) (built_in_labels f))"
    unfolding t using d by (simp add: map_of_sort_by)
  moreover have "jm_get (filter (\<lambda>kv. \<not> reserved_label (fst kv)) ls) k = None"
    using assms(3) map_of_filter_key [of "\<lambda>k. \<not> reserved_label k" ls k] by simp
  moreover have "map_of (rev (built_in_labels f)) k = map_of (built_in_labels f) k"
    using distinct_built_in by (intro fun_cong [OF map_of_perm]) (simp_all add: rev_map [symmetric])
  ultimately show ?thesis by (simp add: jm_get_spread split: option.split)
qed

lemma reserved_labels_are_facts_witness:
  "\<exists>t. placement_target_from_facts (\<lambda>_. []) (\<lambda>_. None)
      \<lparr>nf_node = ''n1'', nf_kind = Some ''agent'', nf_platform = Some ''linux'', nf_architecture = None,
       nf_capabilities = Obj [(''labels'', Obj [(''platform'', Str ''forged'')])], nf_observed = None, nf_source = ''s''\<rparr> = Inr t
     \<and> jm_get (pt_labels t) ''platform'' = Some (Str ''linux'')"
proof -
  let ?f = "\<lparr>nf_node = ''n1'', nf_kind = Some ''agent'', nf_platform = Some ''linux'', nf_architecture = None,
       nf_capabilities = Obj [(''labels'', Obj [(''platform'', Str ''forged'')])], nf_observed = None, nf_source = ''s''\<rparr> :: node_facts"
  have "\<not> isl (placement_target_from_facts (\<lambda>_. []) (\<lambda>_. None) ?f)" by code_simp
  then obtain t where t: "placement_target_from_facts (\<lambda>_. []) (\<lambda>_. None) ?f = Inr t"
    by (cases "placement_target_from_facts (\<lambda>_. []) (\<lambda>_. None) ?f") auto
  have "js_wf (fld (capabilities_of (\<lambda>_. None) (nf_capabilities ?f)) ''labels'')" "reserved_label ''platform''" by (code_simp+)
  from reserved_labels_are_facts [OF t this] have "jm_get (pt_labels t) ''platform'' = jm_get (built_in_labels ?f) ''platform''" .
  also have "\<dots> = Some (Str ''linux'')" by code_simp
  finally show ?thesis using t by blast
qed

section \<open>Writers of a volume\<close>

text \<open>Every mount of every component, in the order the planner meets them.\<close>

definition mount_triples :: "jsv \<Rightarrow> (string \<times> jsv \<times> string \<times> jsv) list" where
  "mount_triples spec =
     concat (map (\<lambda>(name, c). map (\<lambda>pm. (name, c, pm)) (own_fields (fld c ''mounts''))) (own_fields (fld spec ''components'')))"

definition add_triple :: "jsv \<Rightarrow> (string, int) jmap \<Rightarrow> string \<times> jsv \<times> string \<times> jsv
    \<Rightarrow> finding list \<times> (string, volume_group) jmap \<Rightarrow> finding list \<times> (string, volume_group) jmap" where
  "add_triple spec counts t = add_mount spec counts (fst t) (fst (snd t)) (snd (snd t))"

lemma fold_concat_map: "fold f (concat (map g xs)) s = fold (\<lambda>x. fold f (g x)) xs s"
  by (induction xs arbitrary: s) simp_all

lemma group_mounts_fold: "group_mounts spec counts = fold (add_triple spec counts) (mount_triples spec) ([], [])"
proof -
  have "fold (\<lambda>x. fold (add_triple spec counts) (case x of (name, c) \<Rightarrow> map (\<lambda>pm. (name, c, pm)) (own_fields (fld c ''mounts'')))) xs s
    = fold (\<lambda>(name, c). fold (add_mount spec counts name c) (own_fields (fld c ''mounts''))) xs s" for xs s
    by (rule fold_cong) (auto simp: fold_map add_triple_def comp_def)
  then show ?thesis by (simp only: group_mounts_def mount_triples_def fold_concat_map)
qed

definition group_key :: "string \<Rightarrow> string \<Rightarrow> string" where
  "group_key name res = name @ [CHR 0x00] @ res"

lemma group_key_inj:
  "CHR 0x00 \<notin> set a \<Longrightarrow> CHR 0x00 \<notin> set b \<Longrightarrow> group_key a r = group_key b s \<longleftrightarrow> a = b \<and> r = s"
  using nul_split [of a b r s] by (auto simp: group_key_def)

definition known_resource :: "jsv \<Rightarrow> string \<Rightarrow> bool" where
  "known_resource spec r \<longleftrightarrow> truthy (fld (fld spec ''resources'') r)"

definition writable :: "jsv \<Rightarrow> bool" where
  "writable m \<longleftrightarrow> \<not> truthy (fld m ''readOnly'')"

text \<open>What the group of a component and a resource holds after some of the mounts.\<close>

definition mounts_for :: "string \<Rightarrow> string \<Rightarrow> (string \<times> jsv \<times> string \<times> jsv) list \<Rightarrow> (string \<times> jsv \<times> string \<times> jsv) list" where
  "mounts_for n r ts = filter (\<lambda>t. fst t = n \<and> mount_resource (snd (snd (snd t))) = r) ts"

definition group_for ::
  "jsv \<Rightarrow> (string, int) jmap \<Rightarrow> (string \<times> jsv \<times> string \<times> jsv) list \<Rightarrow> string \<Rightarrow> string \<Rightarrow> volume_group option" where
  "group_for spec counts ts n r =
     (let ms = mounts_for n r ts in
      if ms = [] \<or> \<not> known_resource spec r then None
      else Some \<lparr>vg_resource = r, vg_component = n, vg_paths = map (\<lambda>t. fst (snd (snd t))) ms,
                 vg_read_only = list_all (\<lambda>t. \<not> writable (snd (snd (snd t)))) ms,
                 vg_instances = desired_count counts n (fst (snd (hd ms)))\<rparr>)"

definition groups_match ::
  "jsv \<Rightarrow> (string, int) jmap \<Rightarrow> (string \<times> jsv \<times> string \<times> jsv) list \<Rightarrow> (string, volume_group) jmap \<Rightarrow> bool" where
  "groups_match spec counts ts groups \<longleftrightarrow>
     distinct (jm_keys groups)
     \<and> (\<forall>k \<in> set (jm_keys groups). \<exists>n r. n \<in> fst ` set ts \<and> k = group_key n r)
     \<and> (\<forall>n r. CHR 0x00 \<notin> set n \<longrightarrow> jm_get groups (group_key n r) = group_for spec counts ts n r)"

lemma group_for_other: "(fst t, mount_resource (snd (snd (snd t)))) \<noteq> (n, r) \<Longrightarrow>
    group_for spec counts (ts @ [t]) n r = group_for spec counts ts n r"
  by (auto simp: group_for_def mounts_for_def Let_def)

lemma add_triple_groups:
  "snd (add_triple spec counts (n, c, p, m) st) =
     (if \<not> known_resource spec (mount_resource m) then snd st
      else jm_set (snd st) (group_key n (mount_resource m))
        (case jm_get (snd st) (group_key n (mount_resource m)) of
           Some g \<Rightarrow> g\<lparr>vg_paths := vg_paths g @ [p], vg_read_only := vg_read_only g \<and> \<not> writable m\<rparr>
         | None \<Rightarrow> \<lparr>vg_resource = mount_resource m, vg_component = n, vg_paths = [p], vg_read_only = \<not> writable m,
                    vg_instances = desired_count counts n c\<rparr>))"
  unfolding add_triple_def add_mount_def known_resource_def writable_def group_key_def Let_def fst_conv snd_conv
    not_not split_beta by (simp split: option.split)

lemma groups_match_step:
  assumes inv: "groups_match spec counts ts (snd st)" and nul: "\<forall>t \<in> set (ts @ [t]). CHR 0x00 \<notin> set (fst t)"
  shows "groups_match spec counts (ts @ [t]) (snd (add_triple spec counts t st))"
proof -
  obtain n c p m where t: "t = (n, c, p, m)" by (cases t) auto
  let ?r = "mount_resource m" and ?g = "snd (add_triple spec counts t st)"
  have n: "CHR 0x00 \<notin> set n" using nul t by simp
  have get: "jm_get (snd st) (group_key n' r') = group_for spec counts ts n' r'" if "CHR 0x00 \<notin> set n'" for n' r'
    using inv that by (simp add: groups_match_def)
  show ?thesis
  proof (cases "known_resource spec ?r")
    case False
    then have "group_for spec counts (ts @ [t]) n' r' = group_for spec counts ts n' r'" for n' r'
      by (cases "(n, ?r) = (n', r')") (auto simp: t group_for_other, simp add: group_for_def Let_def)
    moreover have "?g = snd st" using False by (simp add: t add_triple_groups)
    ultimately show ?thesis using inv unfolding groups_match_def by (metis UnCI image_Un set_append)
  next
    case True
    have here: "(case jm_get (snd st) (group_key n ?r) of
           Some g \<Rightarrow> g\<lparr>vg_paths := vg_paths g @ [p], vg_read_only := vg_read_only g \<and> \<not> writable m\<rparr>
         | None \<Rightarrow> \<lparr>vg_resource = ?r, vg_component = n, vg_paths = [p], vg_read_only = \<not> writable m,
                    vg_instances = desired_count counts n c\<rparr>) = the (group_for spec counts (ts @ [t]) n ?r)"
      using True by (auto simp: get [OF n] group_for_def mounts_for_def Let_def t hd_append)
    have some: "group_for spec counts (ts @ [t]) n ?r = Some (the (group_for spec counts (ts @ [t]) n ?r))"
      using True by (simp add: group_for_def mounts_for_def Let_def t)
    have g: "?g = jm_set (snd st) (group_key n ?r) (the (group_for spec counts (ts @ [t]) n ?r))"
      using True here by (simp add: t add_triple_groups)
    have "jm_get ?g (group_key n' r') = group_for spec counts (ts @ [t]) n' r'" if "CHR 0x00 \<notin> set n'" for n' r'
    proof (cases "(n', r') = (n, ?r)")
      case True
      then show ?thesis using some by (simp add: g)
    next
      case False
      then have "group_key n' r' \<noteq> group_key n ?r" using group_key_inj [OF that n] by auto
      then have "jm_get ?g (group_key n' r') = group_for spec counts ts n' r'" unfolding g using get [OF that] by simp
      also have "\<dots> = group_for spec counts (ts @ [t]) n' r'"
        by (rule group_for_other [symmetric]) (use False in \<open>auto simp: t\<close>)
      finally show ?thesis .
    qed
    moreover have "set (jm_keys ?g) = insert (group_key n ?r) (set (jm_keys (snd st)))"
      unfolding g by (rule js_map.set_keys_put)
    moreover have "distinct (jm_keys ?g)" using inv by (simp add: g groups_match_def)
    moreover have "\<exists>n' r'. n' \<in> fst ` set (ts @ [t]) \<and> k = group_key n' r'" if "k \<in> insert (group_key n ?r) (set (jm_keys (snd st)))" for k
    proof (cases "k = group_key n ?r")
      case True
      then show ?thesis by (auto simp: t)
    next
      case False
      with that have "k \<in> set (jm_keys (snd st))" by simp
      with inv obtain n' r' where "n' \<in> fst ` set ts" "k = group_key n' r'" unfolding groups_match_def by blast
      then show ?thesis by auto
    qed
    ultimately show ?thesis unfolding groups_match_def by auto
  qed
qed

lemma groups_match_all:
  assumes "\<forall>t \<in> set ts. CHR 0x00 \<notin> set (fst t)"
  shows "groups_match spec counts ts (snd (fold (add_triple spec counts) ts ([], [])))"
  using assms
proof (induction ts rule: rev_induct)
  case Nil
  show ?case by (simp add: groups_match_def group_for_def mounts_for_def)
next
  case (snoc t ts)
  then show ?case by (simp add: groups_match_step)
qed

section \<open>The writers the admission counts\<close>

definition component_writes :: "string \<Rightarrow> jsv \<Rightarrow> bool" where
  "component_writes r c \<longleftrightarrow> list_ex (\<lambda>(p, m). mount_resource m = r \<and> writable m) (own_fields (fld c ''mounts''))"

lemma sum_list_distinct_map: "distinct xs \<Longrightarrow> sum_list (map f xs) = sum f (set xs)" for f :: "'a \<Rightarrow> int"
  by (simp add: sum_list_distinct_conv_sum_set)

lemma triples_of_component:
  assumes "distinct (map fst kvs)" "(n, c) \<in> set kvs"
  shows "filter (\<lambda>t. fst t = n \<and> P t) (concat (map (\<lambda>(name, c). map (\<lambda>pm. (name, c, pm)) (h c)) kvs))
       = filter P (map (\<lambda>pm. (n, c, pm)) (h c))"
  using assms
proof (induction kvs)
  case (Cons kv kvs)
  obtain k d where kv: "kv = (k, d)" by fastforce
  have none: "filter (\<lambda>t. fst t = n \<and> P t) (concat (map (\<lambda>(name, c). map (\<lambda>pm. (name, c, pm)) (h c)) xs)) = []"
    if "n \<notin> fst ` set xs" for xs
    using that by (force simp: filter_empty_conv)
  show ?case
  proof (cases "k = n")
    case True
    with Cons.prems kv have "d = c" "n \<notin> fst ` set kvs" by (auto simp: rev_image_eqI)
    with True kv none [of kvs] show ?thesis by (simp add: comp_def filter_map)
  next
    case False
    with Cons kv show ?thesis by (simp add: filter_empty_conv)
  qed
qed simp

lemma group_for_component:
  assumes "distinct (map fst (own_fields (fld spec ''components'')))" "(n, c) \<in> set (own_fields (fld spec ''components''))"
    and "known_resource spec r"
  shows "(case group_for spec counts (mount_triples spec) n r of None \<Rightarrow> 0 | Some g \<Rightarrow> if vg_read_only g then 0 else vg_instances g)
       = (if component_writes r c then desired_count counts n c else 0)"
proof -
  have m: "mounts_for n r (mount_triples spec)
      = map (\<lambda>pm. (n, c, pm)) (filter (\<lambda>pm. mount_resource (snd pm) = r) (own_fields (fld c ''mounts'')))"
    unfolding mounts_for_def mount_triples_def triples_of_component [OF assms(1,2)] by (simp add: filter_map comp_def)
  show ?thesis
    using assms(3) unfolding group_for_def m
    by (cases "filter (\<lambda>pm. mount_resource (snd pm) = r) (own_fields (fld c ''mounts''))")
       (auto simp: Let_def component_writes_def list_all_iff list_ex_iff filter_empty_conv filter_eq_Cons_iff)
qed

definition group_writers :: "volume_group option \<Rightarrow> int" where
  "group_writers og = (case og of None \<Rightarrow> 0 | Some g \<Rightarrow> if vg_read_only g then 0 else vg_instances g)"

lemma sum_list_sorted: "sum_list (map h (filter P (sort_key f xs))) = sum_list (map h (filter P xs))" for h :: "'a \<Rightarrow> int"
proof -
  have "mset (map h (filter P (sort_key f xs))) = mset (map h (filter P xs))" by simp
  then show ?thesis by (metis sum_mset_sum_list)
qed

lemma writer_slots_groups:
  assumes "groups = snd (group_mounts spec counts)" "distinct (jm_keys groups)"
  shows "writer_slots (fst (plan_volume_attachments ck spec shared counts)) r
       = (\<Sum>kg \<in> {kg \<in> set groups. vg_resource (snd kg) = r}. group_writers (Some (snd kg)))"
proof -
  let ?f = "\<lambda>g. if vg_resource g = r then group_writers (Some g) else 0"
  have "writer_slots (fst (plan_volume_attachments ck spec shared counts)) r
      = sum_list (map vg_instances (filter (\<lambda>g. vg_resource g = r \<and> \<not> vg_read_only g) (map snd groups)))"
    by (simp add: plan_volume_attachments_def split_beta Let_def assms(1) writer_slots_def filter_map comp_def
        attachment_of_def sum_list_sorted)
  also have "\<dots> = sum_list (map ?f (map snd groups))"
    by (induction groups) (auto simp: group_writers_def)
  also have "\<dots> = sum_list (map (\<lambda>kg. ?f (snd kg)) groups)" by (simp add: comp_def)
  also have "\<dots> = (\<Sum>kg \<in> set groups. ?f (snd kg))"
    using assms(2) by (intro sum_list_distinct_map) (simp add: distinct_map)
  also have "\<dots> = (\<Sum>kg \<in> {kg \<in> set groups. vg_resource (snd kg) = r}. group_writers (Some (snd kg)))"
    by (simp add: sum.inter_filter)
  finally show ?thesis .
qed

lemma writer_slots_count:
  assumes d: "distinct (map fst (own_fields (fld spec ''components'')))"
    and nul: "\<forall>n \<in> set (map fst (own_fields (fld spec ''components''))). CHR 0x00 \<notin> set n"
    and k: "known_resource spec r"
  shows "writer_slots (fst (plan_volume_attachments ck spec shared counts)) r
       = sum_list (map (\<lambda>(n, c). if component_writes r c then desired_count counts n c else 0) (own_fields (fld spec ''components'')))"
proof -
  let ?G = "snd (group_mounts spec counts)" and ?T = "mount_triples spec" and ?C = "own_fields (fld spec ''components'')"
  let ?gf = "\<lambda>n. group_for spec counts ?T n r"
  have names: "fst ` set ?T \<subseteq> fst ` set ?C" by (force simp: mount_triples_def)
  then have tn: "\<forall>t \<in> set ?T. CHR 0x00 \<notin> set (fst t)" using nul by fastforce
  have inv: "groups_match spec counts ?T ?G"
    unfolding group_mounts_fold by (rule groups_match_all [OF tn])
  then have get: "jm_get ?G (group_key n r') = group_for spec counts ?T n r'" if "n \<in> fst ` set ?C" for n r'
    using that nul by (auto simp: groups_match_def)
  have dg: "distinct (jm_keys ?G)" using inv by (simp add: groups_match_def)
  let ?N = "{n \<in> fst ` set ?C. ?gf n \<noteq> None}" and ?h = "\<lambda>n. (group_key n r, the (?gf n))"
  have img: "?h ` ?N = {kg \<in> set ?G. vg_resource (snd kg) = r}"
  proof
    show "?h ` ?N \<subseteq> {kg \<in> set ?G. vg_resource (snd kg) = r}"
    proof
      fix x assume "x \<in> ?h ` ?N"
      then obtain n where n: "n \<in> fst ` set ?C" "?gf n \<noteq> None" "x = ?h n" by blast
      then have "(group_key n r, the (?gf n)) \<in> set ?G" using get [OF n(1), of r] by (auto intro: map_of_SomeD)
      moreover have "vg_resource (the (?gf n)) = r" using n(2) by (auto simp: group_for_def Let_def split: if_splits)
      ultimately show "x \<in> {kg \<in> set ?G. vg_resource (snd kg) = r}" using n(3) by simp
    qed
    show "{kg \<in> set ?G. vg_resource (snd kg) = r} \<subseteq> ?h ` ?N"
    proof
      fix x assume "x \<in> {kg \<in> set ?G. vg_resource (snd kg) = r}"
      then obtain key g where x: "x = (key, g)" "(key, g) \<in> set ?G" "vg_resource g = r" by (cases x) auto
      then have "key \<in> set (jm_keys ?G)" by (metis fst_conv image_eqI list.set_map)
      with inv obtain n r' where n: "n \<in> fst ` set ?T" "key = group_key n r'" unfolding groups_match_def by blast
      then have nc: "n \<in> fst ` set ?C" using names by blast
      have "jm_get ?G key = Some g" using dg x(2) by simp
      then have gf: "group_for spec counts ?T n r' = Some g" using get [OF nc, of r'] n(2) by simp
      then have "r' = r" using x(3) by (auto simp: group_for_def Let_def split: if_splits)
      with gf n(2) nc x(1) show "x \<in> ?h ` ?N" by (auto intro!: image_eqI [of _ _ n])
    qed
  qed
  have inj: "inj_on ?h ?N" by (auto simp: inj_on_def group_key_def)
  have "writer_slots (fst (plan_volume_attachments ck spec shared counts)) r
      = (\<Sum>kg \<in> ?h ` ?N. group_writers (Some (snd kg)))"
    unfolding img by (rule writer_slots_groups [OF refl dg])
  also have "\<dots> = (\<Sum>n \<in> ?N. group_writers (?gf n))"
    unfolding sum.reindex [OF inj] comp_def by (rule sum.cong) auto
  also have "\<dots> = (\<Sum>n \<in> fst ` set ?C. group_writers (?gf n))"
    by (rule sum.mono_neutral_left) (auto simp: group_writers_def)
  also have "\<dots> = sum_list (map (\<lambda>nc. group_writers (?gf (fst nc))) ?C)"
    using d sum_list_distinct_map [of "map fst ?C" "\<lambda>n. group_writers (?gf n)"] by (simp add: comp_def)
  also have "\<dots> = sum_list (map (\<lambda>(n, c). if component_writes r c then desired_count counts n c else 0) ?C)"
    using group_for_component [OF d _ k] by (intro arg_cong [where f = sum_list] map_cong) (auto simp: group_writers_def)
  finally show ?thesis .
qed

lemma add_triple_findings:
  "fst (add_triple spec counts (n, c, p, m) st) = [] \<longleftrightarrow> fst st = [] \<and> known_resource spec (mount_resource m)"
  by (cases st) (simp add: add_triple_def add_mount_def known_resource_def Let_def)

lemma group_mounts_findings:
  "fst (group_mounts spec counts) = [] \<longleftrightarrow> (\<forall>(n, c, p, m) \<in> set (mount_triples spec). known_resource spec (mount_resource m))"
proof -
  have "fst (fold (add_triple spec counts) ts st) = [] \<longleftrightarrow>
      fst st = [] \<and> (\<forall>(n, c, p, m) \<in> set ts. known_resource spec (mount_resource m))" for ts st
  proof (induction ts arbitrary: st)
    case (Cons t ts)
    then show ?case by (cases t) (auto simp: add_triple_findings)
  qed simp
  then show ?thesis by (simp add: group_mounts_fold)
qed

text \<open>The instances of the components that mount a resource writable.\<close>

definition writer_instances :: "jsv \<Rightarrow> (string, int) jmap \<Rightarrow> string \<Rightarrow> int" where
  "writer_instances spec counts r =
     sum_list (map (\<lambda>(n, c). if component_writes r c then desired_count counts n c else 0) (own_fields (fld spec ''components'')))"

definition access_respected :: "string list option \<Rightarrow> string \<Rightarrow> jsv \<Rightarrow> int \<Rightarrow> bool" where
  "access_respected shared r access writers \<longleftrightarrow>
     (access = Str ''multipleReaders'' \<longrightarrow> writers \<le> 0)
     \<and> (access = Str ''singleWriter'' \<longrightarrow> writers \<le> 1)
     \<and> (access = Str ''sharedWriters'' \<longrightarrow> writers \<le> 1 \<or> (\<exists>s. shared = Some s \<and> r \<in> set s))"

lemma access_findings_nil:
  "access_findings shared ats (r, res) = [] \<longleftrightarrow> access_respected shared r (fld res ''access'') (writer_slots ats r)"
  by (auto simp: access_findings_def access_respected_def Let_def split: option.splits)


end
