(* ===== verification/ChangePlan.thy ===== *)
theory ChangePlan
  imports SpecCompile
begin

text \<open>
  The semantic change planner \<open>server/application-plan.ts\<close>: \<open>planApplicationChange\<close> compares two
  normalized specifications and lists the classified actions and their impacts. A specification is a
  JavaScript object (\<open>jsv\<close>) as \<open>compileApplicationManifest\<close> builds it; a record section that a
  normalized specification always has reads as an empty section when it is missing. The collation of
  \<open>localeCompare\<close> is the parameter \<open>ck\<close>, a sort key.
\<close>

section \<open>JSON pointers\<close>

definition escape_part :: "string \<Rightarrow> string" where
  "escape_part s = replace_char (CHR ''/'') ''~1'' (replace_char (CHR ''~'') ''~0'' s)"

definition unescape_part :: "string \<Rightarrow> string" where
  "unescape_part s = replace_pair (CHR ''~'') (CHR ''0'') ''~'' (replace_pair (CHR ''~'') (CHR ''1'') ''/'' s)"

definition pointer :: "string list \<Rightarrow> string" where
  "pointer path = (if path = [] then ''/'' else ''/'' @ js_join ''/'' (map escape_part path))"

definition pointer_key :: "string \<Rightarrow> string \<Rightarrow> string option" where
  "pointer_key address collection =
     (let prefix = ''/'' @ collection @ ''/'' in
      if \<not> starts_with address prefix then None
      else Some (unescape_part (hd (split_on (CHR ''/'') (drop (length prefix) address)))))"

section \<open>Differences\<close>

definition union_keys :: "jsv \<Rightarrow> jsv \<Rightarrow> string list" where
  "union_keys l r = sort (uniq (obj_keys l @ obj_keys r))"

definition changed_top_level_fields :: "jsv \<Rightarrow> jsv \<Rightarrow> string list" where
  "changed_top_level_fields l r = filter (\<lambda>k. \<not> semantic_equal (fld l k) (fld r k)) (union_keys l r)"

lemma size_own_field: "has_own v k \<Longrightarrow> size (fld v k) < size v"
proof (cases v)
  case (Obj kvs)
  assume "has_own v k"
  with Obj obtain x where x: "map_of kvs k = Some x"
    by (auto simp: has_own_def obj_keys_def) (metis map_of_eq_None_iff not_None_eq rev_image_eqI fst_conv)
  then have m: "(k, x) \<in> set kvs" by (rule map_of_SomeD)
  have "size_prod (\<lambda>_. 0) size (k, x) \<le> size_list (size_prod (\<lambda>_. 0) size) kvs"
    using m by (rule size_list_estimation') simp
  with x Obj show ?thesis by (simp add: fld_def)
qed (auto simp: has_own_def obj_keys_def)

function diff_addresses :: "jsv \<Rightarrow> jsv \<Rightarrow> string list \<Rightarrow> string list" where
  "diff_addresses l r path =
     (if semantic_equal l r then []
      else if is_record l \<and> is_record r then
        sort (concat (map (\<lambda>k.
          if \<not> has_own l k \<or> \<not> has_own r k then [pointer (path @ [k])]
          else diff_addresses (fld l k) (fld r k) (path @ [k])) (union_keys l r)))
      else [pointer path])"
  by pat_completeness auto
termination
  by (relation "measure (\<lambda>(l, r, path). size l)") (auto simp: size_own_field)

declare diff_addresses.simps [simp del]

definition format_addresses :: "string list \<Rightarrow> string" where
  "format_addresses = js_join '', ''"

section \<open>Actions\<close>

datatype change_class =
    No_op | Metadata_update | Configuration_declaration_change
  | Component_create | Component_remove | Component_recreate | Component_rolling_restart | Component_scale
  | Route_update | Job_update
  | Resource_create | Resource_remove | Resource_recreate | Resource_incompatible_change
  | Unsupported_change

fun class_text :: "change_class \<Rightarrow> string" where
  "class_text No_op = ''no-op''"
| "class_text Metadata_update = ''metadata-update''"
| "class_text Configuration_declaration_change = ''configuration-declaration-change''"
| "class_text Component_create = ''component-create''"
| "class_text Component_remove = ''component-remove''"
| "class_text Component_recreate = ''component-recreate''"
| "class_text Component_rolling_restart = ''component-rolling-restart''"
| "class_text Component_scale = ''component-scale''"
| "class_text Route_update = ''route-update''"
| "class_text Job_update = ''job-update''"
| "class_text Resource_create = ''resource-create''"
| "class_text Resource_remove = ''resource-remove''"
| "class_text Resource_recreate = ''resource-recreate''"
| "class_text Resource_incompatible_change = ''resource-incompatible-change''"
| "class_text Unsupported_change = ''unsupported-change''"

lemma class_text_inj [simp]: "class_text a = class_text b \<longleftrightarrow> a = b"
  by (cases a; cases b) simp_all

text \<open>Classifications are ordered as their names are compared.\<close>

instantiation change_class :: linorder
begin

definition less_eq_change_class :: "change_class \<Rightarrow> change_class \<Rightarrow> bool" where
  "less_eq_change_class a b \<longleftrightarrow> class_text a \<le> class_text b"

definition less_change_class :: "change_class \<Rightarrow> change_class \<Rightarrow> bool" where
  "less_change_class a b \<longleftrightarrow> class_text a < class_text b"

instance
  by standard (auto simp: less_eq_change_class_def less_change_class_def less_le_not_le dest: antisym)

end

datatype change_effect =
    No_effect | Configuration_effect | In_place | Restart_effect | Rolling_effect | Creation
  | Migration | Retention | Quarantine_effect | Destructive | Unsupported

record action =
  act_class :: change_class
  act_effect :: change_effect
  act_address :: string
  act_changed :: "string list"
  act_reason :: string
  act_approval :: bool
  act_destructive :: bool
  act_restart :: bool
  act_blocked :: bool

definition effect_for_classification :: "change_class \<Rightarrow> change_effect" where
  "effect_for_classification c =
     (if c = No_op then No_effect
      else if c = Configuration_declaration_change then Configuration_effect
      else if c = Component_create \<or> c = Resource_create then Creation
      else if c = Component_rolling_restart then Rolling_effect
      else if c = Component_recreate \<or> c = Resource_recreate then Restart_effect
      else if c = Resource_remove \<or> c = Resource_incompatible_change then Destructive
      else if c = Unsupported_change then Unsupported
      else In_place)"

text \<open>\<open>action({...})\<close> with its defaults; the optional inputs are record updates of it.\<close>

definition mk_action :: "change_class \<Rightarrow> string \<Rightarrow> string list \<Rightarrow> string \<Rightarrow> action" where
  "mk_action c address changed reason =
     \<lparr>act_class = c, act_effect = effect_for_classification c, act_address = address,
      act_changed = sort changed, act_reason = reason, act_approval = False,
      act_destructive = False, act_restart = False, act_blocked = False\<rparr>"

definition blocked_action :: "string \<Rightarrow> string \<Rightarrow> action" where
  "blocked_action address reason =
     (mk_action Unsupported_change address [address] reason)\<lparr>act_approval := True, act_blocked := True\<rparr>"

section \<open>Shapes the planner does not know\<close>

definition root_fields :: "string list" where
  "root_fields = [''apiVersion'', ''kind'', ''metadata'', ''configuration'', ''components'', ''resources'', ''routes'', ''jobs'']"

definition metadata_fields :: "string list" where
  "metadata_fields = [''name'', ''description'', ''labels'']"

definition configuration_fields :: "string list" where
  "configuration_fields = [''type'', ''required'', ''description'', ''default'', ''allowedValues'', ''scope'']"

definition component_spec_fields :: "string list" where
  "component_spec_fields =
     [''displayName'', ''image'', ''build'', ''role'', ''instances'', ''minimumReady'', ''rollout'', ''siteOverrides'',
      ''capacity'', ''placement'', ''profile'', ''command'', ''interfaces'', ''environment'', ''configurationFiles'',
      ''mounts'', ''dependsOn'', ''health'', ''runtime'']"

definition resource_spec_fields :: "string list" where
  "resource_spec_fields =
     [''type'', ''displayName'', ''durability'', ''dataRole'', ''access'', ''consistencyGroup'', ''ownership'',
      ''backup'', ''suitcase'', ''source'', ''reconciliation'']"

definition runtime_spec_fields :: "string list" where
  "runtime_spec_fields =
     [''gpus'', ''privileged'', ''privilegedDocker'', ''networkMode'', ''devices'', ''runArgs'', ''networks'']"

type_synonym shape_finding = "string \<times> string"

definition check_fields :: "jsv \<Rightarrow> string list \<Rightarrow> string list \<Rightarrow> shape_finding list" where
  "check_fields v supported path =
     map (\<lambda>k. (pointer (path @ [k]), ''unknown field '' @ quote_str k))
       (filter (\<lambda>k. k \<notin> set supported) (sort (obj_keys v)))"

definition sorted_entries :: "(string \<Rightarrow> nat list) \<Rightarrow> jsv \<Rightarrow> fields" where
  "sorted_entries ck v = sort_key (\<lambda>kv. ck (fst kv)) (own_fields v)"

definition check_component :: "(string \<Rightarrow> nat list) \<Rightarrow> string list \<Rightarrow> jsv \<Rightarrow> shape_finding list" where
  "check_component ck base c =
     check_fields c component_spec_fields base
     @ check_fields (fld c ''rollout'') [''strategy'', ''maxSurge'', ''maxUnavailable'', ''schemaOverlap''] (base @ [''rollout''])
     @ check_fields (fld c ''siteOverrides'') [''allowed'', ''minimum'', ''maximum''] (base @ [''siteOverrides''])
     @ check_fields (fld c ''capacity'')
         [''memoryBytes'', ''cpuMillicores'', ''ephemeralStorageBytes'', ''buildMemoryBytes''] (base @ [''capacity''])
     @ check_fields (fld c ''placement'') [''intent'', ''requiredLabels''] (base @ [''placement''])
     @ (if truthy (fld c ''build'')
        then check_fields (fld c ''build'') [''context'', ''dockerfile'', ''target'', ''ignore''] (base @ [''build'']) else [])
     @ concat (map (\<lambda>(name, x). check_fields x [''port'', ''protocol''] (base @ [''interfaces'', name]))
         (sorted_entries ck (fld c ''interfaces'')))
     @ concat (map (\<lambda>(name, x). check_fields x [''from''] (base @ [''environment'', name]))
         (sorted_entries ck (fld c ''environment'')))
     @ concat (map (\<lambda>(name, x). check_fields x [''resource'', ''readOnly''] (base @ [''mounts'', name]))
         (sorted_entries ck (fld c ''mounts'')))
     @ (if truthy (fld c ''health'')
        then check_fields (fld c ''health'') [''interface'', ''path''] (base @ [''health'']) else [])
     @ check_fields (fld c ''runtime'') runtime_spec_fields (base @ [''runtime''])
     @ concat (map (\<lambda>(i, n). check_fields n [''name'', ''driver'', ''subnet'', ''labels'']
           (base @ [''runtime'', ''networks'', nat_str i]))
         (enumerate 0 (arr_items (fld (fld c ''runtime'') ''networks''))))"

definition check_resource :: "string list \<Rightarrow> jsv \<Rightarrow> shape_finding list" where
  "check_resource base r =
     check_fields r resource_spec_fields base
     @ check_fields (fld r ''backup'') [''policy'', ''retentionCopies''] (base @ [''backup''])
     @ check_fields (fld r ''suitcase'') [''allowedDataModes''] (base @ [''suitcase''])
     @ (if truthy (fld r ''source'')
        then check_fields (fld r ''source'') [''type'', ''hostPath''] (base @ [''source'']) else [])
     @ (if truthy (fld r ''reconciliation'')
        then check_fields (fld r ''reconciliation'') [''excludeTables'', ''excludePaths'', ''conflictPolicy'']
               (base @ [''reconciliation'']) else [])"

definition check_route :: "string list \<Rightarrow> jsv \<Rightarrow> shape_finding list" where
  "check_route base r =
     check_fields r [''to'', ''hostname'', ''path'', ''discoverable'', ''cache''] base
     @ (if truthy (fld r ''cache'')
        then check_fields (fld r ''cache'') [''enabled'', ''maxAge'', ''paths'', ''maxObjectBytes''] (base @ [''cache'']) else [])"

definition check_job :: "(string \<Rightarrow> nat list) \<Rightarrow> string list \<Rightarrow> jsv \<Rightarrow> shape_finding list" where
  "check_job ck base j =
     check_fields j [''component'', ''command'', ''environment'', ''execution'', ''beforeTraffic''] base
     @ concat (map (\<lambda>(name, x). check_fields x [''from''] (base @ [''environment'', name]))
         (sorted_entries ck (fld j ''environment'')))"

definition collect_unsupported_shape :: "(string \<Rightarrow> nat list) \<Rightarrow> jsv \<Rightarrow> shape_finding list" where
  "collect_unsupported_shape ck spec =
     check_fields spec root_fields []
     @ check_fields (fld spec ''metadata'') metadata_fields [''metadata'']
     @ concat (map (\<lambda>(k, x). check_fields x configuration_fields [''configuration'', k])
         (sorted_entries ck (fld spec ''configuration'')))
     @ concat (map (\<lambda>(k, x). check_component ck [''components'', k] x) (sorted_entries ck (fld spec ''components'')))
     @ concat (map (\<lambda>(k, x). check_resource [''resources'', k] x) (sorted_entries ck (fld spec ''resources'')))
     @ concat (map (\<lambda>(k, x). check_route [''routes'', k] x) (sorted_entries ck (fld spec ''routes'')))
     @ concat (map (\<lambda>(k, x). check_job ck [''jobs'', k] x) (sorted_entries ck (fld spec ''jobs'')))"

text \<open>The map from address to the set of details, both in insertion order.\<close>

definition add_finding :: "string \<Rightarrow> shape_finding \<Rightarrow> (string, string list) jmap \<Rightarrow> (string, string list) jmap" where
  "add_finding side f m =
     (let details = (case jm_get m (fst f) of None \<Rightarrow> [] | Some ds \<Rightarrow> ds); d = side @ '': '' @ snd f in
      jm_set m (fst f) (if d \<in> set details then details else details @ [d]))"

definition unsupported_shape_actions :: "(string \<Rightarrow> nat list) \<Rightarrow> jsv \<Rightarrow> jsv \<Rightarrow> action list" where
  "unsupported_shape_actions ck current desired =
     map (\<lambda>(address, details).
        blocked_action address
          (''The planner cannot safely classify '' @ address @ '' ('' @ js_join ''; '' (sort details)
           @ ''); planning is blocked until this field is supported''))
       (fold (add_finding ''desired'') (collect_unsupported_shape ck desired)
         (fold (add_finding ''current'') (collect_unsupported_shape ck current) []))"

section \<open>Section by section\<close>

text \<open>\<open>left === right\<close> on the scalars of a normalized specification.\<close>

fun strict_eq :: "jsv \<Rightarrow> jsv \<Rightarrow> bool" where
  "strict_eq (Num m) (Num n) =
     (m \<noteq> NaN \<and> n \<noteq> NaN \<and> (if m = NegZero then JInt 0 else m) = (if n = NegZero then JInt 0 else n))"
| "strict_eq v w = (v = w)"

definition identity_actions :: "jsv \<Rightarrow> jsv \<Rightarrow> action list" where
  "identity_actions current desired =
     concat (map (\<lambda>f.
       if strict_eq (fld current f) (fld desired f) then []
       else [blocked_action (''/'' @ f)
               (''Changing '' @ f @ '' from '' @ scalar_text (fld current f) @ '' to '' @ scalar_text (fld desired f)
                @ '' is not supported by this planner'')]) [''apiVersion'', ''kind''])"

definition metadata_actions :: "jsv \<Rightarrow> jsv \<Rightarrow> action list" where
  "metadata_actions current desired =
     (let changes = diff_addresses (fld current ''metadata'') (fld desired ''metadata'') [''metadata''] in
      if changes = [] then []
      else [mk_action Metadata_update ''/metadata'' changes (''Update application metadata at '' @ format_addresses changes)])"

text \<open>The shape the configuration, route and job sections share: one action for each changed key.\<close>

definition change_reason :: "jsv \<Rightarrow> jsv \<Rightarrow> string \<Rightarrow> string \<Rightarrow> string \<Rightarrow> string \<Rightarrow> string \<Rightarrow> string list \<Rightarrow> string" where
  "change_reason before after add remove update noun key changes =
     (if \<not> truthy before then add @ noun @ quote_str key
      else if \<not> truthy after then remove @ noun @ quote_str key
      else update @ noun @ quote_str key @ '' at '' @ format_addresses changes)"

definition configuration_action :: "jsv \<Rightarrow> jsv \<Rightarrow> string \<Rightarrow> action list" where
  "configuration_action current desired key =
     (let before = fld (fld current ''configuration'') key; after = fld (fld desired ''configuration'') key in
      if semantic_equal before after then []
      else (let changes = diff_addresses before after [''configuration'', key] in
        [(mk_action Configuration_declaration_change (pointer [''configuration'', key]) changes
            (change_reason before after ''Add '' ''Remove '' ''Update '' ''configuration declaration '' key changes))
           \<lparr>act_effect := Configuration_effect\<rparr>]))"

definition route_action :: "jsv \<Rightarrow> jsv \<Rightarrow> string \<Rightarrow> action list" where
  "route_action current desired key =
     (let before = fld (fld current ''routes'') key; after = fld (fld desired ''routes'') key in
      if semantic_equal before after then []
      else (let changes = diff_addresses before after [''routes'', key] in
        [mk_action Route_update (pointer [''routes'', key]) changes
           (change_reason before after ''Publish '' ''Withdraw '' ''Update '' ''route '' key changes)]))"

definition job_action :: "jsv \<Rightarrow> jsv \<Rightarrow> string \<Rightarrow> action list" where
  "job_action current desired key =
     (let before = fld (fld current ''jobs'') key; after = fld (fld desired ''jobs'') key in
      if semantic_equal before after then []
      else (let changes = diff_addresses before after [''jobs'', key] in
        [(mk_action Job_update (pointer [''jobs'', key]) changes
            (change_reason before after ''Add '' ''Remove '' ''Update '' ''lifecycle job '' key changes))
           \<lparr>act_effect := (if truthy (fld before ''beforeTraffic'') \<or> truthy (fld after ''beforeTraffic'')
                           then Migration else In_place)\<rparr>]))"

definition desired_instances_text :: "jsv \<Rightarrow> string" where
  "desired_instances_text c =
     js_string (fld c ''instances'') @ '' desired instance''
     @ (if strict_eq (fld c ''instances'') (Num (JInt 1)) then [] else ''s'')"

definition passive_fields :: "string list" where
  "passive_fields = [''displayName'', ''minimumReady'', ''rollout'', ''siteOverrides'']"

definition recreate_fields :: "string list" where
  "recreate_fields = [''role'', ''profile'', ''interfaces'', ''configurationFiles'', ''mounts'', ''runtime'', ''capacity'', ''placement'']"

definition touches :: "string \<Rightarrow> string list \<Rightarrow> string \<Rightarrow> bool" where
  "touches key fs address \<longleftrightarrow> list_ex (\<lambda>f. starts_with address (pointer [''components'', key, f])) fs"

definition component_change_actions :: "string \<Rightarrow> jsv \<Rightarrow> jsv \<Rightarrow> action list" where
  "component_change_actions key before after =
     (let address = pointer [''components'', key];
          instances_address = pointer [''components'', key, ''instances''];
          non_scale = filter (\<lambda>f. f \<noteq> ''instances'') (changed_top_level_fields before after);
          all_changes = filter (\<lambda>a. a \<noteq> instances_address) (diff_addresses before after [''components'', key]);
          passive = filter (\<lambda>f. f \<in> set passive_fields) non_scale;
          executable = filter (\<lambda>f. f \<notin> set passive_fields) non_scale;
          passive_changes = filter (touches key passive) all_changes;
          changes = filter (touches key executable) all_changes;
          strategy = fld (fld after ''rollout'') ''strategy'';
          recreate = (strategy \<noteq> Str ''rolling'' \<or> list_ex (\<lambda>f. f \<in> set recreate_fields) executable)
      in (if strict_eq (fld before ''instances'') (fld after ''instances'') then []
          else [mk_action Component_scale address [instances_address]
                  (''Scale component '' @ quote_str key @ '' from '' @ js_string (fld before ''instances'')
                   @ '' to '' @ js_string (fld after ''instances'') @ '' desired instances'')])
         @ (if passive = [] then []
            else [mk_action Metadata_update address passive_changes
                    (''Update component presentation or rollout policy for '' @ quote_str key @ '' at ''
                     @ format_addresses passive_changes)])
         @ (if executable = [] then []
            else [(mk_action (if recreate then Component_recreate else Component_rolling_restart) address changes
                    (if recreate then
                       (if strategy = Str ''maintenance'' then ''Enter maintenance and recreate'' else ''Recreate'')
                       @ '' component '' @ quote_str key
                       @ '' because its executable or placement contract changed at '' @ format_addresses changes
                     else ''Roll component '' @ quote_str key
                       @ '' because its executable configuration changed at '' @ format_addresses changes))
                    \<lparr>act_effect := (if recreate then Restart_effect else Rolling_effect), act_restart := True\<rparr>]))"

definition component_actions :: "jsv \<Rightarrow> jsv \<Rightarrow> string \<Rightarrow> action list" where
  "component_actions current desired key =
     (let before = fld (fld current ''components'') key; after = fld (fld desired ''components'') key;
          address = pointer [''components'', key] in
      if \<not> truthy before \<and> truthy after then
        [(mk_action Component_create address [address]
            (''Create component '' @ quote_str key @ '' with '' @ desired_instances_text after))\<lparr>act_effect := Creation\<rparr>]
      else if truthy before \<and> \<not> truthy after then
        [(mk_action Component_remove address [address]
            (''Remove component '' @ quote_str key @ '' and stop its '' @ desired_instances_text before))
           \<lparr>act_effect := Restart_effect\<rparr>]
      else if \<not> truthy before \<or> \<not> truthy after \<or> semantic_equal before after then []
      else component_change_actions key before after)"

datatype removal_policy = Delete | Retain | Quarantine

definition resource_actions :: "removal_policy \<Rightarrow> jsv \<Rightarrow> jsv \<Rightarrow> string \<Rightarrow> action list" where
  "resource_actions policy current desired key =
     (let before = fld (fld current ''resources'') key; after = fld (fld desired ''resources'') key;
          address = pointer [''resources'', key] in
      if \<not> truthy before \<and> truthy after then
        [(mk_action Resource_create address [address]
            (''Create '' @ js_string (fld after ''durability'') @ '' volume resource '' @ quote_str key
             @ ''. Logical keys are stable identities; this does not preserve data from a removed resource''))
           \<lparr>act_effect := Creation\<rparr>]
      else if truthy before \<and> \<not> truthy after then
        [(mk_action Resource_remove address [address]
            (if policy = Delete then
               ''Remove '' @ js_string (fld before ''durability'') @ '' volume resource '' @ quote_str key
               @ ''. An explicit future move declaration is required to preserve state when changing a resource key''
             else (if policy = Retain then ''Retain'' else ''Quarantine'') @ '' '' @ js_string (fld before ''durability'')
               @ '' volume resource '' @ quote_str key @ '' after withdrawing it from the active graph''))
           \<lparr>act_effect := (case policy of Retain \<Rightarrow> Retention | Quarantine \<Rightarrow> Quarantine_effect | Delete \<Rightarrow> Destructive),
            act_approval := True, act_destructive := (policy = Delete)\<rparr>]
      else if \<not> truthy before \<or> \<not> truthy after \<or> semantic_equal before after then []
      else (let changes = diff_addresses before after [''resources'', key];
                durable = (fld before ''durability'' = Str ''durable'' \<or> fld after ''durability'' = Str ''durable'') in
        [(mk_action (if durable then Resource_incompatible_change else Resource_recreate) address changes
            (if durable then
               ''Durable volume resource '' @ quote_str key @ '' changed incompatibly at '' @ format_addresses changes
               @ ''; state preservation must be planned and verified explicitly''
             else ''Recreate non-durable volume resource '' @ quote_str key @ '' because it changed at '' @ format_addresses changes))
           \<lparr>act_effect := (if durable then Destructive else Restart_effect), act_approval := durable,
            act_destructive := durable, act_restart := True\<rparr>]))"

definition each_key :: "string \<Rightarrow> (jsv \<Rightarrow> jsv \<Rightarrow> string \<Rightarrow> action list) \<Rightarrow> jsv \<Rightarrow> jsv \<Rightarrow> action list" where
  "each_key collection f current desired =
     concat (map (f current desired) (union_keys (fld current collection) (fld desired collection)))"

definition all_actions :: "(string \<Rightarrow> nat list) \<Rightarrow> removal_policy \<Rightarrow> jsv \<Rightarrow> jsv \<Rightarrow> action list" where
  "all_actions ck policy current desired =
     unsupported_shape_actions ck current desired
     @ identity_actions current desired
     @ metadata_actions current desired
     @ each_key ''configuration'' configuration_action current desired
     @ each_key ''components'' component_actions current desired
     @ each_key ''routes'' route_action current desired
     @ each_key ''jobs'' job_action current desired
     @ each_key ''resources'' (resource_actions policy) current desired"

section \<open>Deduplication and order\<close>

definition action_identity :: "action \<Rightarrow> string" where
  "action_identity a = act_address a @ [CHR 0x00] @ class_text (act_class a) @ [CHR 0x00] @ act_reason a"

fun first_by :: "('a \<Rightarrow> 'k) \<Rightarrow> 'k list \<Rightarrow> 'a list \<Rightarrow> 'a list" where
  "first_by f seen [] = []"
| "first_by f seen (x # xs) =
     (if f x \<in> set seen then first_by f seen xs else x # first_by f (f x # seen) xs)"

definition deduplicate_and_sort :: "action list \<Rightarrow> action list" where
  "deduplicate_and_sort xs =
     sort_key (\<lambda>a. (act_address a, act_class a, act_reason a)) (first_by action_identity [] xs)"

section \<open>Impacts\<close>

record plan_context =
  ctx_source :: "string option"
  target_site_id :: "string option"
  target_site_kind :: "string option"
  suitcase_site_ids :: "string list option"
  verified_backup :: "bool option"
  resource_removal_policy :: "removal_policy option"

definition removal_policy_of :: "plan_context \<Rightarrow> removal_policy" where
  "removal_policy_of ctx = (case resource_removal_policy ctx of None \<Rightarrow> Delete | Some p \<Rightarrow> p)"

datatype downtime = No_downtime | Rolling_downtime | Required_downtime
datatype backup_disposition = Backup_not_required | Backup_recommended | Backup_required
datatype data_effect = Data_none | Data_create | Data_preserve | Data_retain | Data_quarantine | Data_destructive
datatype suitcase_disposition = Suitcase_none | Suitcase_unknown | Suitcase_revalidation

record impacts =
  current_instances :: int
  desired_instances :: int
  added_instances :: int
  removed_instances :: int
  rolling_surge_instances :: int
  peak_instances :: int
  revalidation_required :: bool
  downtime_expectation :: downtime
  downtime_components :: "string list"
  downtime_reason_of :: string
  backup_disposition_of :: backup_disposition
  backup_resources :: "string list"
  backup_verified :: "bool option"
  data_effect_of :: data_effect
  preserved_resources :: "string list"
  created_resources :: "string list"
  removed_resources :: "string list"
  recreated_resources :: "string list"
  suitcase_disposition_of :: suitcase_disposition
  suitcase_sites :: "string list"
  suitcase_reasons_of :: "string list"

definition count_of :: "jsv \<Rightarrow> int" where
  "count_of v = (case int_of v of None \<Rightarrow> 0 | Some z \<Rightarrow> z)"

definition total_instances :: "jsv \<Rightarrow> int" where
  "total_instances spec = sum_list (map (\<lambda>kv. count_of (fld (snd kv) ''instances'')) (own_fields (fld spec ''components'')))"

text \<open>\<open>map(pointerKey).filter(Boolean)\<close>: the non-empty keys the actions name in the collection.\<close>

definition action_keys :: "string \<Rightarrow> action list \<Rightarrow> string list" where
  "action_keys collection xs =
     concat (map (\<lambda>a. case pointer_key (act_address a) collection of None \<Rightarrow> [] | Some k \<Rightarrow> if k = [] then [] else [k]) xs)"

definition resource_keys :: "action list \<Rightarrow> change_class list \<Rightarrow> string list" where
  "resource_keys xs cs = sort (action_keys ''resources'' (filter (\<lambda>a. act_class a \<in> set cs) xs))"

definition strategy_of :: "jsv \<Rightarrow> string \<Rightarrow> jsv" where
  "strategy_of spec c = fld (fld (fld (fld spec ''components'') c) ''rollout'') ''strategy''"

definition is_durable :: "jsv \<Rightarrow> string \<Rightarrow> bool" where
  "is_durable spec r \<longleftrightarrow> fld (fld (fld spec ''resources'') r) ''durability'' = Str ''durable''"

definition withdraws :: "jsv \<Rightarrow> jsv \<Rightarrow> action \<Rightarrow> bool" where
  "withdraws current desired a =
     (case pointer_key (act_address a) ''components'' of
        None \<Rightarrow> False
      | Some c \<Rightarrow> c \<noteq> [] \<and>
          (act_class a = Component_remove
           \<or> act_class a = Component_recreate
             \<and> (strategy_of desired c \<noteq> Str ''rolling''
                \<or> max (count_of (fld (fld (fld current ''components'') c) ''instances''))
                      (count_of (fld (fld (fld desired ''components'') c) ''instances'')) \<le> 1)))"

definition destructive_resources :: "jsv \<Rightarrow> jsv \<Rightarrow> action list \<Rightarrow> string list" where
  "destructive_resources current desired xs =
     filter (\<lambda>r. is_durable current r \<or> is_durable desired r)
       (resource_keys xs [Resource_remove] @ resource_keys xs [Resource_recreate, Resource_incompatible_change])"

definition known_suitcase_sites :: "plan_context \<Rightarrow> string list" where
  "known_suitcase_sites ctx =
     uniq ((case suitcase_site_ids ctx of None \<Rightarrow> [] | Some ids \<Rightarrow> ids)
       @ (case target_site_id ctx of
            None \<Rightarrow> []
          | Some s \<Rightarrow> if target_site_kind ctx = Some ''suitcase'' \<and> s \<noteq> [] then [s] else []))"

fun downtime_reason :: "downtime \<Rightarrow> string" where
  "downtime_reason Required_downtime = ''A singleton runtime or durable data boundary must be withdrawn during this change.''"
| "downtime_reason Rolling_downtime = ''Affected replicated components can rotate behind their stable service identities.''"
| "downtime_reason No_downtime = ''No runtime withdrawal is implied by this graph change.''"

fun suitcase_reasons :: "suitcase_disposition \<Rightarrow> string list" where
  "suitcase_reasons Suitcase_revalidation =
     [''Revalidate runtime, build, capacity, data, and access readiness on affected suitcases.'']"
| "suitcase_reasons Suitcase_unknown = [''Suitcase replica inventory was not supplied to this preview.'']"
| "suitcase_reasons Suitcase_none = []"

definition application_change_impacts :: "jsv \<Rightarrow> jsv \<Rightarrow> action list \<Rightarrow> plan_context \<Rightarrow> impacts" where
  "application_change_impacts current desired xs ctx =
     (let cur = total_instances current; des = total_instances desired;
          rolling = action_keys ''components''
            (filter (\<lambda>a. act_class a \<in> {Component_rolling_restart, Component_recreate}) xs);
          surge = sum_list (map (\<lambda>c. if strategy_of desired c = Str ''rolling''
             then count_of (fld (fld (fld (fld desired ''components'') c) ''rollout'') ''maxSurge'') else 0) rolling);
          capacity = filter (\<lambda>a. act_class a \<in> {Component_create, Component_remove, Component_scale}) xs;
          created = resource_keys xs [Resource_create];
          removed = resource_keys xs [Resource_remove];
          recreated = resource_keys xs [Resource_recreate, Resource_incompatible_change];
          preserved = sort (filter (\<lambda>r. truthy (fld (fld desired ''resources'') r) \<and> r \<notin> set removed \<and> r \<notin> set recreated)
             (obj_keys (fld current ''resources'')));
          destructive = destructive_resources current desired xs;
          policy = removal_policy_of ctx;
          effective = list_ex (\<lambda>a. act_effect a \<noteq> No_effect) xs;
          touched = (removed \<noteq> [] \<or> preserved \<noteq> [] \<and> effective);
          components = sort (action_keys ''components''
             (filter (\<lambda>a. act_class a \<in> {Component_remove, Component_recreate, Component_rolling_restart}) xs));
          required = (destructive \<noteq> [] \<or> list_ex (withdraws current desired) xs);
          durable = sort (map fst (filter (\<lambda>kv. fld (snd kv) ''durability'' = Str ''durable'') (own_fields (fld current ''resources''))));
          backup = (if destructive \<noteq> [] \<and> policy = Delete then Backup_required
             else if durable \<noteq> [] \<and> list_ex (\<lambda>a. act_restart a \<or> act_effect a = Migration) xs then Backup_recommended
             else Backup_not_required);
          relevant = list_ex (\<lambda>a. act_effect a \<noteq> No_effect \<and> act_class a \<noteq> Metadata_update) xs;
          sites = known_suitcase_sites ctx;
          expectation = (if required then Required_downtime else if components \<noteq> [] then Rolling_downtime else No_downtime);
          suitcase = (if \<not> relevant then Suitcase_none else if sites \<noteq> [] then Suitcase_revalidation
             else if suitcase_site_ids ctx \<noteq> None then Suitcase_none else Suitcase_unknown)
      in \<lparr>current_instances = cur, desired_instances = des,
          added_instances = max 0 (des - cur), removed_instances = max 0 (cur - des),
          rolling_surge_instances = surge, peak_instances = max cur des + surge,
          revalidation_required = (capacity \<noteq> [] \<or> surge > 0),
          downtime_expectation = expectation, downtime_components = components,
          downtime_reason_of = downtime_reason expectation,
          backup_disposition_of = backup,
          backup_resources =
            (case backup of Backup_required \<Rightarrow> sort destructive | Backup_recommended \<Rightarrow> durable | Backup_not_required \<Rightarrow> []),
          backup_verified = (if backup = Backup_not_required then None else verified_backup ctx),
          data_effect_of =
            (if policy = Retain \<and> touched then Data_retain
             else if policy = Quarantine \<and> touched then Data_quarantine
             else if destructive \<noteq> [] then Data_destructive
             else if created \<noteq> [] then Data_create
             else if preserved \<noteq> [] \<and> effective then Data_preserve else Data_none),
          preserved_resources = preserved, created_resources = created,
          removed_resources = removed, recreated_resources = recreated,
          suitcase_disposition_of = suitcase, suitcase_sites = sort sites,
          suitcase_reasons_of = suitcase_reasons suitcase\<rparr>)"

section \<open>The plan\<close>

record change_plan =
  plan_actions :: "action list"
  plan_source :: string
  plan_requires_approval :: bool
  plan_destructive :: bool
  plan_restart_required :: bool
  plan_blocked :: bool
  plan_impacts :: impacts

definition no_op_action :: action where
  "no_op_action = mk_action No_op ''/'' [] ''Current and desired application specifications are semantically identical''"

definition plan_application_change :: "(string \<Rightarrow> nat list) \<Rightarrow> jsv \<Rightarrow> jsv \<Rightarrow> plan_context \<Rightarrow> change_plan" where
  "plan_application_change ck current desired ctx =
     (let found = deduplicate_and_sort (all_actions ck (removal_policy_of ctx) current desired);
          xs = (if found = [] then [no_op_action] else found) in
      \<lparr>plan_actions = xs,
       plan_source = (case ctx_source ctx of None \<Rightarrow> ''yaml'' | Some s \<Rightarrow> s),
       plan_requires_approval = list_ex act_approval xs,
       plan_destructive = list_ex act_destructive xs,
       plan_restart_required = list_ex act_restart xs,
       plan_blocked = list_ex act_blocked xs,
       plan_impacts = application_change_impacts current desired xs ctx\<rparr>)"

definition empty_application_spec :: "string \<Rightarrow> jsv" where
  "empty_application_spec name =
     Obj [(''apiVersion'', Str ''deploy.local/v1''), (''kind'', Str ''Application''),
       (''metadata'', Obj [(''name'', Str name), (''labels'', Obj [])]),
       (''configuration'', Obj []), (''components'', Obj []), (''resources'', Obj []),
       (''routes'', Obj []), (''jobs'', Obj [])]"

end
