(* ===== verification/PlanFacts.thy ===== *)
theory PlanFacts
  imports ChangePlan
begin

text \<open>
  What the change planner guarantees: addresses round-trip through JSON pointers, the component actions
  account for every changed address, the plan is the single no-op exactly when the specifications are
  semantically equal, destructive and blocked plans need approval, and a durable resource is never
  changed or removed without the destructive, backup and downtime impacts being announced.
\<close>



section \<open>JSON pointers\<close>

lemma replace_pair_skip: "x \<noteq> a \<Longrightarrow> replace_pair a b r (x # s) = x # replace_pair a b r s"
  by (cases s) auto

lemma escape_part_simps [simp]:
  "escape_part [] = []"
  "escape_part (c # s) = (if c = CHR ''~'' then ''~0'' else if c = CHR ''/'' then ''~1'' else [c]) @ escape_part s"
  by (simp_all add: escape_part_def)

lemma unescape_escape [simp]: "unescape_part (escape_part s) = s"
  unfolding unescape_part_def
proof (induction s)
  case (Cons c s)
  then show ?case by (auto simp: replace_pair_skip)
qed simp

interpretation json_pointer: codec escape_part unescape_part
  by unfold_locales simp

lemma escape_no_slash: "CHR ''/'' \<notin> set (escape_part s)"
  by (induction s) auto

lemma escape_plain: "CHR ''/'' \<notin> set s \<Longrightarrow> CHR ''~'' \<notin> set s \<Longrightarrow> escape_part s = s"
  by (induction s) auto

lemma pointer_Cons: "pointer (k # ks) = ''/'' @ escape_part k @ (if ks = [] then [] else pointer ks)"
  by (cases ks) (simp_all add: pointer_def)

lemma pointer_key_pointer:
  assumes "CHR ''/'' \<notin> set coll" "CHR ''~'' \<notin> set coll"
  shows "pointer_key (pointer (coll # key # rest)) coll = Some key"
proof -
  have "pointer (coll # key # rest) = (''/'' @ coll @ ''/'') @ escape_part key @ (if rest = [] then [] else pointer rest)"
    using assms by (simp add: pointer_Cons escape_plain)
  moreover have "hd (split_on (CHR ''/'') (escape_part key @ (if rest = [] then [] else pointer rest))) = escape_part key"
    using escape_no_slash [of key]
    by (cases rest) (simp_all add: pointer_Cons split_on_no_sep split_on_append)
  ultimately show ?thesis
    by (simp add: pointer_key_def Let_def starts_with_iff)
qed

lemma pointer_snoc: "path \<noteq> [] \<Longrightarrow> pointer (path @ [k]) = pointer path @ ''/'' @ escape_part k"
  by (induction path) (auto simp: pointer_Cons)

lemma pointer_append: "path \<noteq> [] \<Longrightarrow> q \<noteq> [] \<Longrightarrow> pointer (path @ q) = pointer path @ pointer q"
  by (induction path) (auto simp: pointer_Cons)

lemma pointer_inj: "p \<noteq> [] \<Longrightarrow> q \<noteq> [] \<Longrightarrow> pointer p = pointer q \<longleftrightarrow> p = q"
proof -
  assume ne: "p \<noteq> []" "q \<noteq> []"
  have s: "split_on (CHR ''/'') (tl (pointer x)) = map escape_part x" if "x \<noteq> []" for x
    using that escape_no_slash by (simp add: pointer_def split_join)
  show ?thesis
    using s [OF ne(1)] s [OF ne(2)] by (metis inj_map_eq_map json_pointer.inj_enc)
qed

section \<open>Differences\<close>

lemma fld_Obj: "map_of kvs k = Some x \<Longrightarrow> fld (Obj kvs) k = x"
  by (simp add: fld_def)

lemma stable_json_plain: "plain v \<Longrightarrow> stable_json v = doc_text (canonicalize v)"
  by (simp add: stable_json_def plain_text)

lemma stable_json_not_undefined:
  assumes "plain v"
  shows "stable_json v \<noteq> ''undefined''"
proof -
  obtain d t where "doc_text (canonicalize v) = d # t" "kind_char (canonicalize v) d"
    using assms doc_text_head [of "canonicalize v"] by auto
  with assms show ?thesis
    by (cases "canonicalize v") (auto simp: stable_json_plain is_digit_def split: if_splits)
qed

lemma stable_json_absent [simp]: "stable_json Undef = ''undefined''" "stable_json Func = ''undefined''"
  by (simp_all add: stable_json_def)

lemma set_union_keys [simp]: "set (union_keys l r) = set (obj_keys l) \<union> set (obj_keys r)"
  by (simp add: union_keys_def)

lemma plain_own: "plain (Obj kvs) \<Longrightarrow> map_of kvs k = Some x \<Longrightarrow> plain x"
  by (auto simp: list_all_iff dest!: map_of_SomeD)

lemma wf_own: "js_wf (Obj kvs) \<Longrightarrow> map_of kvs k = Some x \<Longrightarrow> js_wf x"
  by (auto simp: list_all_iff dest!: map_of_SomeD)

lemma semantic_equal_Obj:
  assumes "plain (Obj xs)" "plain (Obj ys)" "js_wf (Obj xs)" "js_wf (Obj ys)"
  shows "semantic_equal (Obj xs) (Obj ys) \<longleftrightarrow>
    (\<forall>k. k \<noteq> ''__proto__'' \<longrightarrow> map_option canonicalize (map_of xs k) = map_option canonicalize (map_of ys k))"
  using assms canonicalize_Obj_eq_iff [of xs ys] semantic_equal_iff [of "Obj xs" "Obj ys"] by simp

lemma own_iff: "has_own (Obj kvs) k \<longleftrightarrow> map_of kvs k \<noteq> None"
  by (simp add: has_own_def obj_keys_def map_of_eq_None_iff)

lemma in_union_keys:
  "k \<in> set (union_keys (Obj xs) (Obj ys)) \<longleftrightarrow> map_of xs k \<noteq> None \<or> map_of ys k \<noteq> None"
  using own_iff [of xs k] own_iff [of ys k] by (simp add: has_own_def del: not_None_eq)

lemma fld_absent: "k \<noteq> ''__proto__'' \<Longrightarrow> \<not> has_own v k \<Longrightarrow> stable_json (fld v k) = ''undefined''"
  by (cases v) (auto simp: own_iff fld_def)

lemma one_sided_differs:
  assumes "plain v" "has_own v k" "\<not> has_own w k" "k \<noteq> ''__proto__''"
  shows "\<not> semantic_equal (fld v k) (fld w k)" "\<not> semantic_equal (fld w k) (fld v k)"
proof -
  from assms(2) obtain xs x where x: "v = Obj xs" "map_of xs k = Some x"
    by (cases v) (auto simp: own_iff, auto simp: has_own_def obj_keys_def)
  with assms(1) have "plain x" using plain_own by blast
  then have "stable_json (fld v k) \<noteq> ''undefined''" using x by (simp add: fld_Obj stable_json_not_undefined)
  moreover have "stable_json (fld w k) = ''undefined''" using assms(3,4) by (simp add: fld_absent)
  ultimately show "\<not> semantic_equal (fld v k) (fld w k)" "\<not> semantic_equal (fld w k) (fld v k)"
    by (metis semantic_equal_def)+
qed

lemma semantic_equal_fields:
  assumes v: "plain v" "js_wf v" "is_record v" "\<not> has_own v ''__proto__''"
    and w: "plain w" "js_wf w" "is_record w" "\<not> has_own w ''__proto__''"
  shows "semantic_equal v w \<longleftrightarrow> (\<forall>k \<in> set (union_keys v w). semantic_equal (fld v k) (fld w k))"
proof -
  obtain xs ys where o: "v = Obj xs" "w = Obj ys" using v w by (cases v; cases w) auto
  have one: "map_option canonicalize (map_of xs k) = map_option canonicalize (map_of ys k) \<longleftrightarrow>
      (k \<in> set (union_keys v w) \<longrightarrow> semantic_equal (fld v k) (fld w k))" if k: "k \<noteq> ''__proto__''" for k
  proof -
    have px: "plain x" if "map_of xs k = Some x" for x using that v(1) plain_own unfolding o by blast
    have py: "plain x" if "map_of ys k = Some x" for x using that w(1) plain_own unfolding o by blast
    show ?thesis
  proof (cases "map_of xs k"; cases "map_of ys k")
    fix x y assume xy: "map_of xs k = Some x" "map_of ys k = Some y"
    with px py have "plain x" "plain y" by blast+
    with xy show ?thesis unfolding o by (simp add: fld_Obj in_union_keys semantic_equal_iff del: set_union_keys)
  next
    fix x assume x: "map_of xs k = Some x" "map_of ys k = None"
    with k o v(1) have "\<not> semantic_equal (fld v k) (fld w k)" by (intro one_sided_differs(1)) (auto simp: own_iff)
    moreover have "k \<in> set (union_keys v w)" using x unfolding o in_union_keys by simp
    ultimately show ?thesis using x by simp
  next
    fix x assume x: "map_of ys k = Some x" "map_of xs k = None"
    with k o w(1) have "\<not> semantic_equal (fld v k) (fld w k)" by (intro one_sided_differs(2)) (auto simp: own_iff)
    moreover have "k \<in> set (union_keys v w)" using x unfolding o in_union_keys by simp
    ultimately show ?thesis using x by simp
  next
    assume "map_of xs k = None" "map_of ys k = None"
    with o show ?thesis by (simp add: in_union_keys del: set_union_keys)
  qed
  qed
  have p: "''__proto__'' \<notin> set (union_keys v w)" using v w by (simp add: has_own_def)
  have "semantic_equal v w \<longleftrightarrow>
      (\<forall>k. k \<noteq> ''__proto__'' \<longrightarrow> map_option canonicalize (map_of xs k) = map_option canonicalize (map_of ys k))"
    using v w semantic_equal_Obj [of xs ys] unfolding o by simp
  also have "\<dots> \<longleftrightarrow> (\<forall>k \<in> set (union_keys v w). semantic_equal (fld v k) (fld w k))"
    using one p by metis
  finally show ?thesis .
qed

lemma diff_cases:
  assumes "a \<in> set (diff_addresses l r path)"
  obtains (whole) "a = pointer path" "\<not> (is_record l \<and> is_record r)"
  | (missing) k where "is_record l" "is_record r" "k \<in> set (union_keys l r)" "\<not> has_own l k \<or> \<not> has_own r k"
      "a = pointer (path @ [k])"
  | (deeper) k where "is_record l" "is_record r" "has_own l k" "has_own r k"
      "a \<in> set (diff_addresses (fld l k) (fld r k) (path @ [k]))"
  using assms by (subst (asm) diff_addresses.simps) (auto split: if_splits)

lemma diff_equal [simp]: "semantic_equal l r \<Longrightarrow> diff_addresses l r path = []"
  by (subst diff_addresses.simps) simp

lemma diff_below: "a \<in> set (diff_addresses l r path) \<Longrightarrow> \<exists>q. a = pointer (path @ q)"
proof (induction l r path arbitrary: a rule: diff_addresses.induct)
  case (1 l r path)
  have ne: "\<not> semantic_equal l r" using "1.prems" by auto
  from "1.prems" show ?case
  proof (cases rule: diff_cases)
    case whole
    then show ?thesis by (metis append_Nil2)
  next
    case (deeper k)
    then have "\<exists>q. a = pointer ((path @ [k]) @ q)" using ne "1.IH" [of k a] by (auto simp: has_own_def)
    then show ?thesis by (metis append.assoc)
  qed auto
qed

lemma diff_record:
  assumes "a \<in> set (diff_addresses l r path)" "is_record l" "is_record r"
  obtains k q where "k \<in> set (union_keys l r)" "a = pointer (path @ k # q)"
    "\<not> has_own l k \<or> \<not> has_own r k \<or> a \<in> set (diff_addresses (fld l k) (fld r k) (path @ [k]))"
  using assms(1)
proof (cases rule: diff_cases)
  case (missing k)
  with that [of k "[]"] show ?thesis by auto
next
  case (deeper k)
  then obtain q where "a = pointer ((path @ [k]) @ q)" using diff_below by blast
  with deeper that [of k q] show ?thesis by (auto simp: has_own_def)
qed (use assms in auto)

lemma diff_own:
  assumes "\<not> semantic_equal l r" "is_record l" "is_record r" "has_own l k" "has_own r k"
  shows "set (diff_addresses (fld l k) (fld r k) (path @ [k])) \<subseteq> set (diff_addresses l r path)"
  using assms by (subst (2) diff_addresses.simps) (auto simp: has_own_def)

lemma diff_nil_iff:
  "plain l \<Longrightarrow> plain r \<Longrightarrow> js_wf l \<Longrightarrow> js_wf r \<Longrightarrow> diff_addresses l r path = [] \<longleftrightarrow> semantic_equal l r"
proof (induction l r path rule: diff_addresses.induct)
  case (1 l r path)
  show ?case
  proof (cases "semantic_equal l r \<or> \<not> is_record l \<or> \<not> is_record r")
    case True
    then show ?thesis by (subst diff_addresses.simps) auto
  next
    case False
    then obtain xs ys where o: "l = Obj xs" "r = Obj ys" by (cases l; cases r) auto
    obtain k where k: "map_option canonicalize (map_of xs k) \<noteq> map_option canonicalize (map_of ys k)"
      using False "1.prems" semantic_equal_Obj [of xs ys] unfolding o by auto
    then have u: "k \<in> set (union_keys l r)" unfolding o in_union_keys by auto
    have "(if \<not> has_own l k \<or> \<not> has_own r k then [pointer (path @ [k])]
          else diff_addresses (fld l k) (fld r k) (path @ [k])) \<noteq> []"
    proof (cases "has_own l k \<and> has_own r k")
      case True
      then obtain x y where xy: "map_of xs k = Some x" "map_of ys k = Some y"
        unfolding o by (auto simp: own_iff)
      with "1.prems" have p: "plain x" "plain y" "js_wf x" "js_wf y"
        using plain_own wf_own unfolding o by blast+
      with k xy have "\<not> semantic_equal x y" by (simp add: semantic_equal_iff)
      then have "diff_addresses (fld l k) (fld r k) (path @ [k]) \<noteq> []"
        using "1.IH" [of k] False True u p xy unfolding o by (simp add: fld_Obj)
      with True show ?thesis by simp
    qed auto
    then have "concat (map (\<lambda>k. if \<not> has_own l k \<or> \<not> has_own r k then [pointer (path @ [k])]
          else diff_addresses (fld l k) (fld r k) (path @ [k])) (union_keys l r)) \<noteq> []"
      using u by fastforce
    moreover have "sort xs = [] \<longleftrightarrow> xs = []" for xs :: "string list"
      by (metis length_0_conv length_sort)
    ultimately show ?thesis
      using False by (subst diff_addresses.simps) simp
  qed
qed

section \<open>Component actions account for every change\<close>

lemma scalar_semantic_equal: "semantic_equal (Num (JInt m)) (Num (JInt n)) \<longleftrightarrow> m = n"
  if "\<bar>m\<bar> < 10 ^ 21" "\<bar>n\<bar> < 10 ^ 21"
  using that by (simp add: semantic_equal_iff)

lemma own_fld_defined: "k \<notin> set proto_functions \<Longrightarrow> k \<noteq> ''__proto__'' \<Longrightarrow> fld v k \<noteq> Undef \<Longrightarrow> has_own v k"
  by (cases v) (auto simp: fld_def own_iff split: option.splits)

definition component_changes :: "string \<Rightarrow> jsv \<Rightarrow> jsv \<Rightarrow> string list" where
  "component_changes key before after = diff_addresses before after [''components'', key]"

lemma touches_field: "f \<in> set fs \<Longrightarrow> touches key fs (pointer ([''components'', key, f] @ q))"
  by (cases "q = []") (auto simp: touches_def list_ex_iff pointer_append [of "[''components'', key, f]" q] simp del: append_Cons intro!: bexI [of _ f])

lemma component_actions_cover:
  assumes v: "plain before" "js_wf before" "is_record before" "\<not> has_own before ''__proto__''"
    and w: "plain after" "js_wf after" "is_record after" "\<not> has_own after ''__proto__''"
    and i: "fld before ''instances'' = Num (JInt m)" "fld after ''instances'' = Num (JInt n)"
      "\<bar>m\<bar> < 10 ^ 21" "\<bar>n\<bar> < 10 ^ 21"
  shows "(\<Union>a \<in> set (component_change_actions key before after). set (act_changed a))
       = set (component_changes key before after)"
proof -
  let ?base = "[''components'', key]" and ?ia = "pointer [''components'', key, ''instances'']"
  let ?non_scale = "filter (\<lambda>f. f \<noteq> ''instances'') (changed_top_level_fields before after)"
  let ?all = "filter (\<lambda>a. a \<noteq> ?ia) (diff_addresses before after ?base)"
  let ?passive = "filter (\<lambda>f. f \<in> set passive_fields) ?non_scale"
  let ?exec = "filter (\<lambda>f. f \<notin> set passive_fields) ?non_scale"
  have own: "has_own before ''instances''" "has_own after ''instances''"
    by (rule own_fld_defined; simp add: i proto_functions_def)+
  have se: "strict_eq (fld before ''instances'') (fld after ''instances'') \<longleftrightarrow> m = n" by (simp add: i)
  have acts: "(\<Union>a \<in> set (component_change_actions key before after). set (act_changed a))
     = (if m = n then {} else {?ia})
       \<union> (if ?passive = [] then {} else set (filter (touches key ?passive) ?all))
       \<union> (if ?exec = [] then {} else set (filter (touches key ?exec) ?all))"
    unfolding component_change_actions_def Let_def se by (simp add: mk_action_def)
  have touched: "touches key ?passive a \<or> touches key ?exec a" if a: "a \<in> set ?all" for a
  proof -
    from a have a': "a \<in> set (diff_addresses before after ?base)" "a \<noteq> ?ia" by auto
    from a'(1) v(3) w(3) obtain k q where k: "k \<in> set (union_keys before after)" "a = pointer (?base @ k # q)"
      "\<not> has_own before k \<or> \<not> has_own after k \<or> a \<in> set (diff_addresses (fld before k) (fld after k) (?base @ [k]))"
      by (rule diff_record)
    have ne: "k \<noteq> ''instances''"
    proof
      assume ki: "k = ''instances''"
      with k(3) own i have "a \<in> set (diff_addresses (Num (JInt m)) (Num (JInt n)) (?base @ [''instances'']))" by simp
      then have "a = ?ia" by (cases rule: diff_cases) auto
      with a'(2) show False ..
    qed
    have "k \<noteq> ''__proto__''" using k(1) v(4) w(4) by (auto simp: has_own_def)
    then have "\<not> semantic_equal (fld before k) (fld after k)"
      using k(1,3) one_sided_differs [OF v(1), of k after] one_sided_differs [OF w(1), of k before]
      by (auto simp: has_own_def)
    with k(1) ne have "k \<in> set ?non_scale" by (simp add: changed_top_level_fields_def)
    then have "k \<in> set ?passive \<or> k \<in> set ?exec" by auto
    then show ?thesis using touches_field [of k _ key q] k(2) by auto
  qed
  have scale: "?ia \<in> set (diff_addresses before after ?base) \<longleftrightarrow> m \<noteq> n"
  proof
    assume "?ia \<in> set (diff_addresses before after ?base)"
    then show "m \<noteq> n"
      using v(3) w(3)
    proof (rule diff_record)
      fix k q assume k: "?ia = pointer (?base @ k # q)"
        "\<not> has_own before k \<or> \<not> has_own after k \<or> ?ia \<in> set (diff_addresses (fld before k) (fld after k) (?base @ [k]))"
      from k(1) have "k = ''instances''" by (subst (asm) pointer_inj) auto
      with k(2) own i show "m \<noteq> n" by auto
    qed
  next
    assume "m \<noteq> n"
    then have d: "\<not> semantic_equal (fld before ''instances'') (fld after ''instances'')"
      using i by (simp add: scalar_semantic_equal)
    then have "\<not> semantic_equal before after"
      using semantic_equal_fields [OF v w] own by (auto simp: has_own_def)
    from diff_own [OF this v(3) w(3) own, of ?base] d show "?ia \<in> set (diff_addresses before after ?base)"
      by (subst (asm) diff_addresses.simps) (simp add: i)
  qed
  have if_touch: "(if fs = [] then {} else set (filter (touches key fs) ys)) = {a \<in> set ys. touches key fs a}" for fs ys
    by (auto simp: touches_def)
  show ?thesis
    unfolding acts if_touch component_changes_def using touched scale
    by (cases "m = n") (auto simp del: filter_filter)
qed

section \<open>When nothing changes\<close>

text \<open>The shape every compiled specification has.\<close>

definition has_count :: "jsv \<Rightarrow> bool" where
  "has_count c \<longleftrightarrow> (case fld c ''instances'' of Num (JInt z) \<Rightarrow> True | _ \<Rightarrow> False)"

definition node_section :: "jsv \<Rightarrow> bool" where
  "node_section v \<longleftrightarrow> is_record v \<and> list_all (\<lambda>(k, x). is_record x \<and> \<not> has_own x ''__proto__''
      \<and> k \<notin> set proto_functions \<and> k \<noteq> ''__proto__'') (own_fields v)"

definition section_keys :: "jsv \<Rightarrow> string list" where
  "section_keys s =
     concat (map (\<lambda>f. obj_keys (fld s f)) [''configuration'', ''components'', ''resources'', ''routes'', ''jobs''])"

definition normalized_spec :: "jsv \<Rightarrow> bool" where
  "normalized_spec s \<longleftrightarrow> is_record s \<and> plain s \<and> js_wf s \<and> \<not> has_own s ''__proto__''
     \<and> is_str (fld s ''apiVersion'') \<and> is_str (fld s ''kind'')
     \<and> list_all (\<lambda>k. k \<noteq> [] \<and> CHR 0x00 \<notin> set k) (section_keys s)
     \<and> list_all (\<lambda>f. is_record (fld s f) \<and> \<not> has_own (fld s f) ''__proto__'')
         [''metadata'', ''configuration'', ''components'', ''resources'', ''routes'', ''jobs'']
     \<and> node_section (fld s ''components'') \<and> node_section (fld s ''resources'')
     \<and> list_all (\<lambda>kv. has_count (snd kv)) (own_fields (fld s ''components''))"

lemma own_entry: "has_own v k \<Longrightarrow> (k, fld v k) \<in> set (own_fields v)"
  by (cases v) (auto simp: own_iff fld_Obj dest: map_of_SomeD, auto simp: has_own_def obj_keys_def)

lemma each_key_nil: "each_key coll f current desired = [] \<longleftrightarrow>
   (\<forall>k \<in> set (union_keys (fld current coll) (fld desired coll)). f current desired k = [])"
  by (auto simp: each_key_def)

lemma fld_plain: "plain v \<Longrightarrow> has_own v k \<Longrightarrow> plain (fld v k)"
  by (cases v) (auto simp: own_iff fld_Obj plain_own simp del: plain.simps, auto simp: has_own_def obj_keys_def)

lemma fld_wf: "js_wf v \<Longrightarrow> has_own v k \<Longrightarrow> js_wf (fld v k)"
  by (cases v) (auto simp: own_iff fld_Obj wf_own simp del: js_wf.simps, auto simp: has_own_def obj_keys_def)

lemma node_truthy:
  assumes "node_section v" "has_own w k" "node_section w"
  shows "truthy (fld v k) \<longleftrightarrow> has_own v k"
proof (cases "has_own v k")
  case True
  then obtain kvs x where "v = Obj kvs" "map_of kvs k = Some x" "(k, x) \<in> set kvs"
    using assms(1) by (cases v) (auto simp: node_section_def own_iff dest: map_of_SomeD)
  with True assms(1) show ?thesis by (auto simp: node_section_def list_all_iff fld_Obj)
next
  case False
  obtain kvs x where "w = Obj kvs" "(k, x) \<in> set kvs"
    using assms(2,3) by (cases w) (auto simp: node_section_def own_iff dest: map_of_SomeD)
  with assms(3) have "k \<notin> set proto_functions" "k \<noteq> ''__proto__''"
    by (auto simp: node_section_def list_all_iff)
  with False show ?thesis by (cases v) (auto simp: fld_def own_iff)
qed

lemma node_entry:
  assumes "node_section v" "has_own v k"
  shows "is_record (fld v k) \<and> \<not> has_own (fld v k) ''__proto__''"
proof -
  from assms obtain kvs x where "v = Obj kvs" "map_of kvs k = Some x" "(k, x) \<in> set kvs"
    by (cases v) (auto simp: node_section_def own_iff dest: map_of_SomeD)
  with assms(1) show ?thesis by (auto simp: node_section_def list_all_iff fld_Obj)
qed

lemma section_facts:
  assumes "normalized_spec s" "f \<in> {''metadata'', ''configuration'', ''components'', ''resources'', ''routes'', ''jobs''}"
  shows "is_record (fld s f)" "plain (fld s f)" "js_wf (fld s f)" "\<not> has_own (fld s f) ''__proto__''" "has_own s f"
proof -
  show r: "is_record (fld s f)" "\<not> has_own (fld s f) ''__proto__''"
    using assms by (auto simp: normalized_spec_def)
  have "f \<notin> set proto_functions" "f \<noteq> ''__proto__''" using assms(2) by (auto simp: proto_functions_def)
  then show o: "has_own s f" using r(1) by (intro own_fld_defined) auto
  show "plain (fld s f)" "js_wf (fld s f)"
    using assms(1) o by (auto simp: normalized_spec_def fld_plain fld_wf)
qed

lemma sections_equal_iff:
  assumes "normalized_spec s" "normalized_spec t"
    and "f \<in> {''metadata'', ''configuration'', ''components'', ''resources'', ''routes'', ''jobs''}"
  shows "semantic_equal (fld s f) (fld t f) \<longleftrightarrow>
    (\<forall>k \<in> set (union_keys (fld s f) (fld t f)). semantic_equal (fld (fld s f) k) (fld (fld t f) k))"
  using section_facts [OF assms(1,3)] section_facts [OF assms(2,3)] by (intro semantic_equal_fields) auto

lemma configuration_silent: "configuration_action s t k = [] \<longleftrightarrow>
    semantic_equal (fld (fld s ''configuration'') k) (fld (fld t ''configuration'') k)"
  by (simp add: configuration_action_def Let_def)

lemma route_silent: "route_action s t k = [] \<longleftrightarrow> semantic_equal (fld (fld s ''routes'') k) (fld (fld t ''routes'') k)"
  by (simp add: route_action_def Let_def)

lemma job_silent: "job_action s t k = [] \<longleftrightarrow> semantic_equal (fld (fld s ''jobs'') k) (fld (fld t ''jobs'') k)"
  by (simp add: job_action_def Let_def)

lemma entry_count:
  assumes "normalized_spec s" "has_own (fld s ''components'') k"
  shows "\<exists>m. fld (fld (fld s ''components'') k) ''instances'' = Num (JInt m) \<and> \<bar>m\<bar> < 10 ^ 21"
proof -
  let ?c = "fld (fld s ''components'') k"
  from assms own_entry have "has_count ?c" by (fastforce simp: normalized_spec_def list_all_iff)
  then obtain m where m: "fld ?c ''instances'' = Num (JInt m)"
    by (auto simp: has_count_def split: jsv.splits jsnum.splits)
  then have "has_own ?c ''instances''" by (intro own_fld_defined) (simp_all add: proto_functions_def)
  moreover have "plain ?c"
    by (rule fld_plain) (use assms section_facts(2) [OF assms(1)] in auto)
  ultimately have "plain (fld ?c ''instances'')" by (metis fld_plain)
  with m show ?thesis by simp
qed

lemma component_silent:
  assumes s: "normalized_spec s" and t: "normalized_spec t"
    and k: "k \<in> set (union_keys (fld s ''components'') (fld t ''components''))"
  shows "component_actions s t k = [] \<longleftrightarrow>
    semantic_equal (fld (fld s ''components'') k) (fld (fld t ''components'') k)"
proof -
  let ?b = "fld (fld s ''components'') k" and ?a = "fld (fld t ''components'') k"
  have n: "node_section (fld s ''components'')" "node_section (fld t ''components'')"
    using s t by (auto simp: normalized_spec_def)
  have kk: "has_own (fld s ''components'') k \<or> has_own (fld t ''components'') k"
    using k by (simp add: has_own_def)
  then have tr: "truthy ?b \<longleftrightarrow> has_own (fld s ''components'') k" "truthy ?a \<longleftrightarrow> has_own (fld t ''components'') k"
    using node_truthy n by blast+
  note fs = section_facts [OF s, of "''components''"] and ft = section_facts [OF t, of "''components''"]
  have np: "k \<noteq> ''__proto__''" using kk fs(4) ft(4) by auto
  show ?thesis
  proof (cases "has_own (fld s ''components'') k \<and> has_own (fld t ''components'') k")
    case True
    obtain m n' where mn: "fld ?b ''instances'' = Num (JInt m)" "\<bar>m\<bar> < 10 ^ 21"
      "fld ?a ''instances'' = Num (JInt n')" "\<bar>n'\<bar> < 10 ^ 21"
      using entry_count [OF s] entry_count [OF t] True by metis
    have cover: "(\<Union>a \<in> set (component_change_actions k ?b ?a). set (act_changed a)) = set (component_changes k ?b ?a)"
      by (rule component_actions_cover [OF _ _ _ _ _ _ _ _ mn(1,3,2,4)])
         (use True fs ft n node_entry fld_plain fld_wf in auto)
    have "component_change_actions k ?b ?a = [] \<Longrightarrow> semantic_equal ?b ?a"
    proof -
      assume "component_change_actions k ?b ?a = []"
      with cover have "component_changes k ?b ?a = []" by simp
      then show ?thesis
        unfolding component_changes_def
        by (subst (asm) diff_nil_iff) (use True fs ft fld_plain fld_wf in auto)
    qed
    then show ?thesis using True tr by (auto simp: component_actions_def Let_def)
  next
    case False
    then have "\<not> semantic_equal ?b ?a"
      using kk np one_sided_differs [OF fs(2), of k "fld t ''components''"]
        one_sided_differs [OF ft(2), of k "fld s ''components''"] by auto
    with False kk tr show ?thesis by (auto simp: component_actions_def Let_def)
  qed
qed

lemma resource_silent:
  assumes s: "normalized_spec s" and t: "normalized_spec t"
    and k: "k \<in> set (union_keys (fld s ''resources'') (fld t ''resources''))"
  shows "resource_actions p s t k = [] \<longleftrightarrow>
    semantic_equal (fld (fld s ''resources'') k) (fld (fld t ''resources'') k)"
proof -
  let ?b = "fld (fld s ''resources'') k" and ?a = "fld (fld t ''resources'') k"
  have n: "node_section (fld s ''resources'')" "node_section (fld t ''resources'')"
    using s t by (auto simp: normalized_spec_def)
  have kk: "has_own (fld s ''resources'') k \<or> has_own (fld t ''resources'') k"
    using k by (simp add: has_own_def)
  then have tr: "truthy ?b \<longleftrightarrow> has_own (fld s ''resources'') k" "truthy ?a \<longleftrightarrow> has_own (fld t ''resources'') k"
    using node_truthy n by blast+
  note fs = section_facts [OF s, of "''resources''"] and ft = section_facts [OF t, of "''resources''"]
  have np: "k \<noteq> ''__proto__''" using kk fs(4) ft(4) by auto
  have "\<not> semantic_equal ?b ?a" if "\<not> (has_own (fld s ''resources'') k \<and> has_own (fld t ''resources'') k)"
    using that kk np one_sided_differs [OF fs(2), of k "fld t ''resources''"]
      one_sided_differs [OF ft(2), of k "fld s ''resources''"] by auto
  with kk tr show ?thesis by (auto simp: resource_actions_def Let_def)
qed

lemma first_by_nil [simp]: "first_by f [] xs = [] \<longleftrightarrow> xs = []"
  by (cases xs) auto

lemma sort_key_nil [simp]: "sort_key f xs = [] \<longleftrightarrow> xs = []"
  by (metis length_0_conv length_sort)

lemma set_first_by: "set (first_by f seen xs) \<subseteq> set xs"
  by (induction f seen xs rule: first_by.induct) auto

lemma add_finding_keys: "set (jm_keys (add_finding side f m)) = insert (fst f) (set (jm_keys m))"
  unfolding add_finding_def Let_def by (rule js_map.set_keys_put)

lemma fold_finding_keys:
  "set (jm_keys (fold (add_finding side) fs m)) = set (jm_keys m) \<union> fst ` set fs"
proof (induction fs arbitrary: m)
  case (Cons f fs)
  show ?case unfolding fold_Cons comp_apply Cons.IH add_finding_keys by auto
qed simp

lemma shape_silent: "unsupported_shape_actions ck s t = [] \<longleftrightarrow>
    collect_unsupported_shape ck s = [] \<and> collect_unsupported_shape ck t = []"
proof -
  let ?m = "fold (add_finding ''desired'') (collect_unsupported_shape ck t)
        (fold (add_finding ''current'') (collect_unsupported_shape ck s) [])"
  have "unsupported_shape_actions ck s t = [] \<longleftrightarrow> set (jm_keys ?m) = {}"
    by (simp add: unsupported_shape_actions_def)
  then show ?thesis unfolding fold_finding_keys by auto
qed

lemma supported_root: "collect_unsupported_shape ck s = [] \<Longrightarrow> set (obj_keys s) \<subseteq> set root_fields"
  by (auto simp: collect_unsupported_shape_def check_fields_def filter_empty_conv)

lemma identity_silent: "identity_actions s t = [] \<longleftrightarrow>
    strict_eq (fld s ''apiVersion'') (fld t ''apiVersion'') \<and> strict_eq (fld s ''kind'') (fld t ''kind'')"
  by (simp add: identity_actions_def)

lemma int_str_zero [simp]: "int_str 0 = ''0''"
  by code_simp

lemma strict_eq_semantic: "strict_eq v w \<Longrightarrow> semantic_equal v w"
  by (cases v; cases w) (auto simp: semantic_equal_def stable_json_def split: if_splits)

lemma semantic_strict_eq:
  "is_str v \<Longrightarrow> is_str w \<Longrightarrow> semantic_equal v w \<Longrightarrow> strict_eq v w"
  by (cases v; cases w) (auto simp: semantic_equal_iff)

lemma metadata_silent: "normalized_spec s \<Longrightarrow> normalized_spec t \<Longrightarrow>
    metadata_actions s t = [] \<longleftrightarrow> semantic_equal (fld s ''metadata'') (fld t ''metadata'')"
  using section_facts [of s "''metadata''"] section_facts [of t "''metadata''"]
  by (simp add: metadata_actions_def Let_def diff_nil_iff)

lemmas sections_silent = each_key_nil configuration_silent route_silent job_silent

lemma all_actions_silent:
  assumes s: "normalized_spec s" and t: "normalized_spec t"
  shows "all_actions ck p s t = [] \<longleftrightarrow>
    collect_unsupported_shape ck s = [] \<and> collect_unsupported_shape ck t = [] \<and>
    strict_eq (fld s ''apiVersion'') (fld t ''apiVersion'') \<and> strict_eq (fld s ''kind'') (fld t ''kind'') \<and>
    (\<forall>f \<in> {''metadata'', ''configuration'', ''components'', ''resources'', ''routes'', ''jobs''}.
       semantic_equal (fld s f) (fld t f))"
proof -
  have c: "each_key ''components'' component_actions s t = [] \<longleftrightarrow> semantic_equal (fld s ''components'') (fld t ''components'')"
    unfolding each_key_nil by (subst sections_equal_iff [OF s t]) (auto simp: component_silent [OF s t])
  have r: "each_key ''resources'' (resource_actions p) s t = [] \<longleftrightarrow> semantic_equal (fld s ''resources'') (fld t ''resources'')"
    unfolding each_key_nil by (subst sections_equal_iff [OF s t]) (auto simp: resource_silent [OF s t])
  have o: "each_key ''configuration'' configuration_action s t = [] \<longleftrightarrow> semantic_equal (fld s ''configuration'') (fld t ''configuration'')"
    "each_key ''routes'' route_action s t = [] \<longleftrightarrow> semantic_equal (fld s ''routes'') (fld t ''routes'')"
    "each_key ''jobs'' job_action s t = [] \<longleftrightarrow> semantic_equal (fld s ''jobs'') (fld t ''jobs'')"
    unfolding sections_silent by (subst sections_equal_iff [OF s t]; simp)+
  show ?thesis
    unfolding all_actions_def append_is_Nil_conv c r o shape_silent identity_silent metadata_silent [OF s t]
    by auto
qed

lemma root_semantic_equal:
  assumes s: "normalized_spec s" and t: "normalized_spec t"
    and c: "collect_unsupported_shape ck s = []" "collect_unsupported_shape ck t = []"
  shows "semantic_equal s t \<longleftrightarrow>
    strict_eq (fld s ''apiVersion'') (fld t ''apiVersion'') \<and> strict_eq (fld s ''kind'') (fld t ''kind'') \<and>
    (\<forall>f \<in> {''metadata'', ''configuration'', ''components'', ''resources'', ''routes'', ''jobs''}.
       semantic_equal (fld s f) (fld t f))"
proof -
  have "semantic_equal s t \<longleftrightarrow> (\<forall>k \<in> set (union_keys s t). semantic_equal (fld s k) (fld t k))"
    using s t by (intro semantic_equal_fields) (auto simp: normalized_spec_def)
  moreover have "set (union_keys s t) = set root_fields"
  proof
    show "set (union_keys s t) \<subseteq> set root_fields" using c supported_root by auto
    have "has_own s f" if f: "f \<in> {''apiVersion'', ''kind''}" for f
      using f s by (intro own_fld_defined) (auto simp: proto_functions_def normalized_spec_def)
    moreover have "has_own s f"
      if "f \<in> {''metadata'', ''configuration'', ''components'', ''resources'', ''routes'', ''jobs''}" for f
      using section_facts(5) [OF s that] .
    ultimately show "set root_fields \<subseteq> set (union_keys s t)" by (auto simp: root_fields_def has_own_def)
  qed
  moreover have "semantic_equal (fld s f) (fld t f) \<longleftrightarrow> strict_eq (fld s f) (fld t f)"
    if "f \<in> {''apiVersion'', ''kind''}" for f
    using that s t strict_eq_semantic semantic_strict_eq by (auto simp: normalized_spec_def)
  ultimately show ?thesis by (auto simp: root_fields_def)
qed

section \<open>What the actions of a section look like\<close>

lemma resource_action_cases:
  assumes "a \<in> set (resource_actions p s t k)"
  shows "act_address a = pointer [''resources'', k]"
    "act_class a \<in> {Resource_create, Resource_remove, Resource_recreate, Resource_incompatible_change}"
    "act_destructive a \<Longrightarrow> act_approval a" "\<not> act_blocked a"
    "act_class a = Resource_incompatible_change \<Longrightarrow> act_destructive a"
    "act_class a = Resource_remove \<Longrightarrow> act_destructive a \<longleftrightarrow> p = Delete"
  using assms by (auto simp: resource_actions_def mk_action_def Let_def split: if_splits)

lemma mk_action_select [simp]:
  "act_class (mk_action c ad ch r) = c" "act_address (mk_action c ad ch r) = ad"
  "act_destructive (mk_action c ad ch r) = False" "act_blocked (mk_action c ad ch r) = False"
  "act_approval (mk_action c ad ch r) = False" "act_restart (mk_action c ad ch r) = False"
  by (simp_all add: mk_action_def)

definition component_change_shape :: "string \<Rightarrow> action \<Rightarrow> bool" where
  "component_change_shape k a \<longleftrightarrow> act_address a = pointer [''components'', k]
     \<and> act_class a \<in> {Component_scale, Metadata_update, Component_recreate, Component_rolling_restart}
     \<and> \<not> act_destructive a \<and> \<not> act_blocked a"

lemma component_change_cases: "list_all (component_change_shape k) (component_change_actions k b c)"
  unfolding component_change_actions_def Let_def
  by (simp add: component_change_shape_def del: not_None_eq)

lemma component_action_cases:
  assumes "a \<in> set (component_actions s t k)"
  shows "act_address a = pointer [''components'', k]"
    "act_class a \<in> {Component_create, Component_remove, Component_scale, Metadata_update, Component_recreate, Component_rolling_restart}"
    "\<not> act_destructive a" "\<not> act_blocked a"
proof -
  consider "a \<in> set (component_change_actions k (fld (fld s ''components'') k) (fld (fld t ''components'') k))"
    | "act_address a = pointer [''components'', k]" "act_class a \<in> {Component_create, Component_remove}"
      "\<not> act_destructive a" "\<not> act_blocked a"
    using assms by (auto simp: component_actions_def mk_action_def Let_def split: if_splits)
  then show "act_address a = pointer [''components'', k]"
    "act_class a \<in> {Component_create, Component_remove, Component_scale, Metadata_update, Component_recreate, Component_rolling_restart}"
    "\<not> act_destructive a" "\<not> act_blocked a"
    using component_change_cases [of k "fld (fld s ''components'') k" "fld (fld t ''components'') k"]
    by (cases; auto simp: list_all_iff component_change_shape_def)+
qed

lemma small_section_cases:
  "a \<in> set (configuration_action s t k) \<Longrightarrow> act_address a = pointer [''configuration'', k]
     \<and> act_class a = Configuration_declaration_change \<and> \<not> act_destructive a \<and> \<not> act_blocked a"
  "a \<in> set (route_action s t k) \<Longrightarrow> act_address a = pointer [''routes'', k]
     \<and> act_class a = Route_update \<and> \<not> act_destructive a \<and> \<not> act_blocked a"
  "a \<in> set (job_action s t k) \<Longrightarrow> act_address a = pointer [''jobs'', k]
     \<and> act_class a = Job_update \<and> \<not> act_destructive a \<and> \<not> act_blocked a"
  "a \<in> set (metadata_actions s t) \<Longrightarrow> act_address a = ''/metadata''
     \<and> act_class a = Metadata_update \<and> \<not> act_destructive a \<and> \<not> act_blocked a"
  "a \<in> set (identity_actions s t) \<Longrightarrow> act_address a \<in> {''/apiVersion'', ''/kind''}
     \<and> act_class a = Unsupported_change \<and> \<not> act_destructive a \<and> act_approval a"
  "a \<in> set (unsupported_shape_actions ck s t) \<Longrightarrow>
     act_class a = Unsupported_change \<and> \<not> act_destructive a \<and> act_approval a"
  by (auto simp: configuration_action_def route_action_def job_action_def metadata_actions_def identity_actions_def
      unsupported_shape_actions_def blocked_action_def mk_action_def Let_def split: if_splits)

lemma in_each_key: "a \<in> set (each_key coll f s t) \<longleftrightarrow>
    (\<exists>k \<in> set (union_keys (fld s coll) (fld t coll)). a \<in> set (f s t k))"
  by (auto simp: each_key_def)

lemmas in_all_actions = all_actions_def set_append Un_iff in_each_key

lemma action_summary:
  "a \<in> set (component_actions s t k) \<Longrightarrow> act_class a \<noteq> No_op \<and> \<not> act_destructive a \<and> \<not> act_blocked a"
  "a \<in> set (resource_actions p s t k) \<Longrightarrow>
     act_class a \<noteq> No_op \<and> (act_destructive a \<longrightarrow> act_approval a) \<and> \<not> act_blocked a"
  using component_action_cases [of a s t k] resource_action_cases [of a p s t k] by auto

lemma action_facts:
  assumes "a \<in> set (all_actions ck p s t)"
  shows "act_class a \<noteq> No_op \<and> (act_destructive a \<or> act_blocked a \<longrightarrow> act_approval a)"
  using assms unfolding in_all_actions
  by (elim disjE bexE) (auto dest!: action_summary small_section_cases)


section \<open>Deduplication\<close>

lemma first_by_keeps: "x \<in> set xs \<Longrightarrow> f x \<notin> set seen \<Longrightarrow> \<exists>y \<in> set (first_by f seen xs). f y = f x"
proof (induction f seen xs rule: first_by.induct)
  case (2 f seen z xs)
  then show ?case by (cases "f z = f x") auto
qed simp

lemma distinct_first_by: "distinct (map f (first_by f seen xs)) \<and> f ` set (first_by f seen xs) \<inter> set seen = {}"
  by (induction f seen xs rule: first_by.induct) auto

lemma class_text_no_nul: "CHR 0x00 \<notin> set (class_text c)"
  by (cases c) simp_all

lemma action_identity_inj:
  assumes "CHR 0x00 \<notin> set (act_address a)" "CHR 0x00 \<notin> set (act_address b)" "action_identity a = action_identity b"
  shows "act_address a = act_address b \<and> act_class a = act_class b"
proof -
  from assms(3) have 1: "act_address a @ [CHR 0x00] @ (class_text (act_class a) @ [CHR 0x00] @ act_reason a)
      = act_address b @ [CHR 0x00] @ (class_text (act_class b) @ [CHR 0x00] @ act_reason b)"
    by (simp add: action_identity_def)
  from nul_split [OF assms(1,2) 1] have "act_address a = act_address b"
    and "class_text (act_class a) @ [CHR 0x00] @ act_reason a = class_text (act_class b) @ [CHR 0x00] @ act_reason b"
    by auto
  with nul_split [OF class_text_no_nul class_text_no_nul] show ?thesis by auto
qed

lemma set_deduplicate: "set (deduplicate_and_sort xs) \<subseteq> set xs"
  by (auto simp: deduplicate_and_sort_def dest: set_first_by [THEN subsetD])

lemma deduplicate_nil [simp]: "deduplicate_and_sort xs = [] \<longleftrightarrow> xs = []"
  by (simp add: deduplicate_and_sort_def)

lemma deduplicate_keeps:
  assumes "a \<in> set xs" "\<forall>b \<in> set xs. CHR 0x00 \<notin> set (act_address b)"
  shows "\<exists>b \<in> set (deduplicate_and_sort xs). act_address b = act_address a \<and> act_class b = act_class a"
proof -
  obtain b where b: "b \<in> set (first_by action_identity [] xs)" "action_identity b = action_identity a"
    using first_by_keeps [OF assms(1), of action_identity "[]"] by auto
  then have "b \<in> set xs" by (auto dest: set_first_by [THEN subsetD])
  with assms b have "act_address b = act_address a \<and> act_class b = act_class a"
    by (intro action_identity_inj) auto
  with b show ?thesis by (auto simp: deduplicate_and_sort_def)
qed

lemma deduplicate_image:
  assumes "\<forall>b \<in> set xs. CHR 0x00 \<notin> set (act_address b)"
  shows "(\<lambda>a. (act_address a, act_class a)) ` set (deduplicate_and_sort xs) = (\<lambda>a. (act_address a, act_class a)) ` set xs"
    (is "?L = ?R")
proof
  show "?L \<subseteq> ?R" using set_deduplicate by blast
  show "?R \<subseteq> ?L"
  proof
    fix p assume "p \<in> ?R"
    then obtain a where a: "a \<in> set xs" "p = (act_address a, act_class a)" by auto
    from deduplicate_keeps [OF a(1) assms] obtain b where
      "b \<in> set (deduplicate_and_sort xs)" "act_address b = act_address a" "act_class b = act_class a" by auto
    with a show "p \<in> ?L" by (auto intro: rev_image_eqI)
  qed
qed

section \<open>Addresses of a normalized plan\<close>

lemma nul_free_escape: "CHR 0x00 \<notin> set k \<Longrightarrow> CHR 0x00 \<notin> set (escape_part k)"
  by (induction k) auto

lemma nul_free_pointer: "\<forall>k \<in> set p. CHR 0x00 \<notin> set k \<Longrightarrow> CHR 0x00 \<notin> set (pointer p)"
proof (induction p)
  case (Cons k ks)
  then show ?case by (auto simp: pointer_Cons nul_free_escape)
qed (simp add: pointer_def)

lemma section_key_facts:
  assumes "normalized_spec s" "has_own (fld s f) k" "f \<in> {''configuration'', ''components'', ''resources'', ''routes'', ''jobs''}"
  shows "k \<noteq> []" "CHR 0x00 \<notin> set k"
  using assms by (auto simp: normalized_spec_def section_keys_def has_own_def list_all_iff)

lemma union_key_facts:
  assumes "normalized_spec s" "normalized_spec t" "k \<in> set (union_keys (fld s f) (fld t f))"
    "f \<in> {''configuration'', ''components'', ''resources'', ''routes'', ''jobs''}"
  shows "k \<noteq> []" "CHR 0x00 \<notin> set k"
  using section_key_facts [OF assms(1) _ assms(4), of k] section_key_facts [OF assms(2) _ assms(4), of k] assms(3)
  by (auto simp: has_own_def)

lemma nul_free_actions:
  assumes s: "normalized_spec s" and t: "normalized_spec t"
    and c: "collect_unsupported_shape ck s = []" "collect_unsupported_shape ck t = []"
    and a: "a \<in> set (all_actions ck p s t)"
  shows "CHR 0x00 \<notin> set (act_address a)"
proof -
  have u: "unsupported_shape_actions ck s t = []" using c shape_silent by blast
  have p2: "CHR 0x00 \<notin> set (pointer [f, k])"
    if "k \<in> set (union_keys (fld s f) (fld t f))" "f \<in> {''configuration'', ''components'', ''resources'', ''routes'', ''jobs''}" for f k
    using union_key_facts(2) [OF s t that] that(2) by (intro nul_free_pointer) auto
  from a show ?thesis
    unfolding in_all_actions u
    by (elim disjE bexE)
       (auto dest!: small_section_cases component_action_cases(1) resource_action_cases(1) simp: p2 simp del: set_union_keys)
qed

section \<open>Actions of the plan\<close>

lemma plan_actions_eq:
  "plan_actions (plan_application_change ck s t ctx) =
    (let found = deduplicate_and_sort (all_actions ck (removal_policy_of ctx) s t) in
     if found = [] then [no_op_action] else found)"
  by (simp add: plan_application_change_def Let_def)

lemma in_plan_actions:
  "a \<in> set (plan_actions (plan_application_change ck s t ctx)) \<Longrightarrow>
     a = no_op_action \<or> a \<in> set (all_actions ck (removal_policy_of ctx) s t)"
  using set_deduplicate by (auto simp: plan_actions_eq Let_def split: if_splits dest: set_deduplicate [THEN subsetD])

lemma plan_flags:
  "plan_requires_approval (plan_application_change ck s t ctx) \<longleftrightarrow>
     (\<exists>a \<in> set (plan_actions (plan_application_change ck s t ctx)). act_approval a)"
  "plan_destructive (plan_application_change ck s t ctx) \<longleftrightarrow>
     (\<exists>a \<in> set (plan_actions (plan_application_change ck s t ctx)). act_destructive a)"
  "plan_blocked (plan_application_change ck s t ctx) \<longleftrightarrow>
     (\<exists>a \<in> set (plan_actions (plan_application_change ck s t ctx)). act_blocked a)"
  "plan_impacts (plan_application_change ck s t ctx) =
     application_change_impacts s t (plan_actions (plan_application_change ck s t ctx)) ctx"
  by (simp_all add: plan_application_change_def Let_def list_ex_iff)

lemma plan_pairs:
  assumes "normalized_spec s" "normalized_spec t"
    and "collect_unsupported_shape ck s = []" "collect_unsupported_shape ck t = []"
    and "c \<noteq> No_op"
  shows "(\<exists>a \<in> set (plan_actions (plan_application_change ck s t ctx)). act_address a = ad \<and> act_class a = c) \<longleftrightarrow>
    (\<exists>a \<in> set (all_actions ck (removal_policy_of ctx) s t). act_address a = ad \<and> act_class a = c)"
proof -
  let ?xs = "all_actions ck (removal_policy_of ctx) s t"
  have "\<forall>b \<in> set ?xs. CHR 0x00 \<notin> set (act_address b)" using nul_free_actions [OF assms(1-4)] by blast
  from deduplicate_image [OF this]
  have "(\<exists>a \<in> set (deduplicate_and_sort ?xs). act_address a = ad \<and> act_class a = c) \<longleftrightarrow>
      (\<exists>a \<in> set ?xs. act_address a = ad \<and> act_class a = c)"
    by (auto simp: image_def set_eq_iff) metis+
  then show ?thesis using assms(5)
    by (auto simp: plan_actions_eq Let_def no_op_action_def)
qed

section \<open>Resource actions\<close>

definition resource_class :: "jsv \<Rightarrow> jsv \<Rightarrow> string \<Rightarrow> change_class option" where
  "resource_class s t k =
     (let b = fld s ''resources''; a = fld t ''resources'' in
      if \<not> has_own b k \<and> \<not> has_own a k then None
      else if \<not> has_own b k then Some Resource_create
      else if \<not> has_own a k then Some Resource_remove
      else if semantic_equal (fld b k) (fld a k) then None
      else if is_durable s k \<or> is_durable t k then Some Resource_incompatible_change
      else Some Resource_recreate)"

lemma resource_actions_class:
  assumes s: "normalized_spec s" and t: "normalized_spec t"
    and k: "k \<in> set (union_keys (fld s ''resources'') (fld t ''resources''))"
  shows "map act_class (resource_actions p s t k) = (case resource_class s t k of None \<Rightarrow> [] | Some c \<Rightarrow> [c])"
proof -
  have n: "node_section (fld s ''resources'')" "node_section (fld t ''resources'')"
    using s t by (auto simp: normalized_spec_def)
  have "has_own (fld s ''resources'') k \<or> has_own (fld t ''resources'') k" using k by (simp add: has_own_def)
  then have "truthy (fld (fld s ''resources'') k) \<longleftrightarrow> has_own (fld s ''resources'') k"
    "truthy (fld (fld t ''resources'') k) \<longleftrightarrow> has_own (fld t ''resources'') k"
    using node_truthy n by blast+
  then show ?thesis
    by (auto simp: resource_actions_def resource_class_def is_durable_def Let_def)
qed

lemma resource_class_key:
  assumes "resource_class s t k = Some cl"
  shows "k \<in> set (union_keys (fld s ''resources'') (fld t ''resources''))"
proof (rule ccontr)
  assume "\<not> ?thesis"
  then have "\<not> has_own (fld s ''resources'') k" "\<not> has_own (fld t ''resources'') k" by (simp_all add: has_own_def)
  with assms show False by (simp add: resource_class_def Let_def)
qed

lemma resource_class_in_plan:
  assumes s: "normalized_spec s" and t: "normalized_spec t"
    and c: "collect_unsupported_shape ck s = []" "collect_unsupported_shape ck t = []"
    and cl: "cl \<in> {Resource_create, Resource_remove, Resource_recreate, Resource_incompatible_change}"
  shows "(\<exists>a \<in> set (plan_actions (plan_application_change ck s t ctx)).
      act_address a = ad \<and> act_class a = cl) \<longleftrightarrow>
    (\<exists>k. ad = pointer [''resources'', k] \<and> resource_class s t k = Some cl)"
proof -
  have cls: "cl \<in> set (map act_class (resource_actions p s t k)) \<longleftrightarrow> resource_class s t k = Some cl"
    if "k \<in> set (union_keys (fld s ''resources'') (fld t ''resources''))" for k p
    by (simp only: resource_actions_class [OF s t that]) (auto split: option.split)
  have "(\<exists>a \<in> set (all_actions ck (removal_policy_of ctx) s t). act_address a = ad \<and> act_class a = cl) \<longleftrightarrow>
     (\<exists>a \<in> set (each_key ''resources'' (resource_actions (removal_policy_of ctx)) s t). act_address a = ad \<and> act_class a = cl)"
    using cl unfolding all_actions_def set_append bex_Un
    by (auto simp: in_each_key simp del: set_union_keys dest!: small_section_cases component_action_cases(2))
  also have "\<dots> \<longleftrightarrow> (\<exists>k \<in> set (union_keys (fld s ''resources'') (fld t ''resources'')).
      ad = pointer [''resources'', k] \<and> cl \<in> set (map act_class (resource_actions (removal_policy_of ctx) s t k)))"
    using resource_action_cases(1) by (fastforce simp: in_each_key simp del: set_union_keys)
  also have "\<dots> \<longleftrightarrow> (\<exists>k \<in> set (union_keys (fld s ''resources'') (fld t ''resources'')).
      ad = pointer [''resources'', k] \<and> resource_class s t k = Some cl)"
    by (rule bex_cong [OF refl]) (simp only: cls)
  also have "\<dots> \<longleftrightarrow> (\<exists>k. ad = pointer [''resources'', k] \<and> resource_class s t k = Some cl)"
    by (auto dest: resource_class_key simp del: set_union_keys)
  finally have e: "(\<exists>a \<in> set (all_actions ck (removal_policy_of ctx) s t). act_address a = ad \<and> act_class a = cl)
      \<longleftrightarrow> (\<exists>k. ad = pointer [''resources'', k] \<and> resource_class s t k = Some cl)" .
  have "cl \<noteq> No_op" using cl by auto
  from plan_pairs [OF s t c this, of ctx ad] e show ?thesis by (simp only:)
qed

lemma in_action_keys:
  "k \<in> set (action_keys coll xs) \<longleftrightarrow> k \<noteq> [] \<and> (\<exists>a \<in> set xs. pointer_key (act_address a) coll = Some k)"
proof -
  have "set (case pointer_key (act_address a) coll of None \<Rightarrow> [] | Some k \<Rightarrow> if k = [] then [] else [k])
      = {k. k \<noteq> [] \<and> pointer_key (act_address a) coll = Some k}" for a :: action
    by (cases "pointer_key (act_address a) coll") auto
  then have "set (action_keys coll xs) = (\<Union>a \<in> set xs. {k. k \<noteq> [] \<and> pointer_key (act_address a) coll = Some k})"
    by (simp only: action_keys_def set_concat set_map image_image)
  then show ?thesis by blast
qed

lemma in_resource_keys:
  assumes s: "normalized_spec s" and t: "normalized_spec t"
    and c: "collect_unsupported_shape ck s = []" "collect_unsupported_shape ck t = []"
    and cs: "set cs \<subseteq> {Resource_create, Resource_remove, Resource_recreate, Resource_incompatible_change}"
  shows "k \<in> set (resource_keys (plan_actions (plan_application_change ck s t ctx)) cs) \<longleftrightarrow>
     (\<exists>cl \<in> set cs. resource_class s t k = Some cl)"
proof -
  let ?xs = "plan_actions (plan_application_change ck s t ctx)"
  have pk: "pointer_key (pointer [''resources'', j]) ''resources'' = Some j" for j
    by (rule pointer_key_pointer) auto
  have ne: "resource_class s t j = Some cl \<Longrightarrow> j \<noteq> []" for j cl
    using section_key_facts(1) [OF s, of "''resources''" j] section_key_facts(1) [OF t, of "''resources''" j]
    by (auto simp: resource_class_def Let_def split: if_splits)
  show ?thesis
  proof
    assume "k \<in> set (resource_keys ?xs cs)"
    then obtain a where a: "a \<in> set ?xs" "act_class a \<in> set cs" "pointer_key (act_address a) ''resources'' = Some k"
      by (auto simp: resource_keys_def in_action_keys)
    then obtain j where "act_address a = pointer [''resources'', j]" "resource_class s t j = Some (act_class a)"
      using cs resource_class_in_plan [OF s t c, of "act_class a" ctx "act_address a"] by blast
    with a pk show "\<exists>cl \<in> set cs. resource_class s t k = Some cl" by auto
  next
    assume "\<exists>cl \<in> set cs. resource_class s t k = Some cl"
    then obtain cl where cl: "cl \<in> set cs" "resource_class s t k = Some cl" ..
    then obtain a where "a \<in> set ?xs" "act_address a = pointer [''resources'', k]" "act_class a = cl"
      using cs resource_class_in_plan [OF s t c, of cl ctx "pointer [''resources'', k]"] by blast
    with cl pk ne show "k \<in> set (resource_keys ?xs cs)" by (auto simp: resource_keys_def in_action_keys)
  qed
qed

section \<open>Properties of the plan\<close>

lemma plan_no_op_semantic:
  assumes "normalized_spec s" "normalized_spec t"
    and "collect_unsupported_shape ck s = []" "collect_unsupported_shape ck t = []"
  shows "plan_actions (plan_application_change ck s t ctx) = [no_op_action] \<longleftrightarrow> semantic_equal s t"
proof -
  let ?xs = "all_actions ck (removal_policy_of ctx) s t"
  have "no_op_action \<notin> set (deduplicate_and_sort ?xs)"
    using action_facts set_deduplicate by (fastforce simp: no_op_action_def)
  then have "plan_actions (plan_application_change ck s t ctx) = [no_op_action] \<longleftrightarrow> ?xs = []"
    unfolding plan_actions_eq Let_def deduplicate_nil by auto
  then show ?thesis
    using assms all_actions_silent [OF assms(1,2)] root_semantic_equal [OF assms] by simp
qed

lemma destructive_needs_approval:
  assumes "plan_destructive (plan_application_change ck s t ctx) \<or> plan_blocked (plan_application_change ck s t ctx)"
  shows "plan_requires_approval (plan_application_change ck s t ctx)"
proof -
  have "act_approval a" if "a \<in> set (plan_actions (plan_application_change ck s t ctx))" "act_destructive a \<or> act_blocked a" for a
    using in_plan_actions [OF that(1)] that(2) action_facts by (auto simp: no_op_action_def)
  then show ?thesis using assms unfolding plan_flags by auto
qed

lemma plan_sorted_distinct:
  "sorted (map (\<lambda>a. (act_address a, act_class a, act_reason a)) (plan_actions (plan_application_change ck s t ctx)))
   \<and> distinct (map action_identity (plan_actions (plan_application_change ck s t ctx)))"
proof -
  have "distinct (map action_identity (deduplicate_and_sort xs))" for xs
  proof -
    have "mset (map action_identity (deduplicate_and_sort xs)) = mset (map action_identity (first_by action_identity [] xs))"
      by (simp add: deduplicate_and_sort_def)
    then show ?thesis using distinct_first_by [of action_identity "[]" xs] mset_eq_imp_distinct_iff by blast
  qed
  moreover have "sorted (map (\<lambda>a. (act_address a, act_class a, act_reason a)) (deduplicate_and_sort xs))" for xs
    unfolding deduplicate_and_sort_def by (rule sorted_sort_key)
  ultimately show ?thesis by (simp add: plan_actions_eq Let_def)
qed

lemma impact_lists:
  "created_resources (application_change_impacts s t xs ctx) = resource_keys xs [Resource_create]"
  "removed_resources (application_change_impacts s t xs ctx) = resource_keys xs [Resource_remove]"
  "recreated_resources (application_change_impacts s t xs ctx) = resource_keys xs [Resource_recreate, Resource_incompatible_change]"
  "set (preserved_resources (application_change_impacts s t xs ctx)) =
     {r \<in> set (obj_keys (fld s ''resources'')). truthy (fld (fld t ''resources'') r)
        \<and> r \<notin> set (resource_keys xs [Resource_remove])
        \<and> r \<notin> set (resource_keys xs [Resource_recreate, Resource_incompatible_change])}"
  by (auto simp: application_change_impacts_def Let_def)

lemma impact_backup:
  assumes "destructive_resources s t xs \<noteq> []" "removal_policy_of ctx = Delete"
  shows "backup_disposition_of (application_change_impacts s t xs ctx) = Backup_required"
    "set (backup_resources (application_change_impacts s t xs ctx)) = set (destructive_resources s t xs)"
    "downtime_expectation (application_change_impacts s t xs ctx) = Required_downtime"
  using assms by (simp_all add: application_change_impacts_def Let_def)

end
