(* ===== verification/SpecNormal.thy ===== *)
theory SpecNormal
  imports PlanFacts
begin

text \<open>
  From an accepted manifest to a normalized specification: every section the validator returns is a
  document, the compiler keeps documents, and the compiled graph has exactly the shape the change
  planner expects. A document here is a value \<open>JSON.parse\<close> can return whose numbers are integers of
  magnitude below \<open>10 ^ 21\<close>.
\<close>


section \<open>Documents\<close>

definition doc :: "jsv \<Rightarrow> bool" where
  "doc v \<longleftrightarrow> plain v \<and> js_wf v"

definition odoc :: "jsv \<Rightarrow> bool" where
  "odoc v \<longleftrightarrow> v = Undef \<or> doc v"

definition own_name :: "string \<Rightarrow> bool" where
  "own_name k \<longleftrightarrow> k \<notin> set proto_functions \<and> k \<noteq> ''__proto__''"

lemma own_name_simps [simp]: "own_name k \<Longrightarrow> fld (Obj []) k = Undef"
  by (simp add: own_name_def fld_def)

lemma fld_Undef [simp]: "fld Undef k = Undef" "fld Null k = Undef"
  by (simp_all add: fld_def)

lemma doc_simps [simp]:
  "doc (Str s)" "doc (Bool b)" "doc Null" "\<not> doc Undef" "\<not> doc Func"
  "doc (Num (JInt z)) \<longleftrightarrow> \<bar>z\<bar> < 10 ^ 21"
  "doc (Arr xs) \<longleftrightarrow> (\<forall>x \<in> set xs. doc x)"
  "doc (Obj kvs) \<longleftrightarrow> distinct (map fst kvs) \<and> (\<forall>kv \<in> set kvs. doc (snd kv))"
  by (auto simp: doc_def list_all_iff)

lemma odoc_simps [simp]: "odoc Undef" "doc v \<Longrightarrow> odoc v" "odoc (Obj kvs) \<longleftrightarrow> doc (Obj kvs)" "odoc (Arr xs) \<longleftrightarrow> doc (Arr xs)"
  by (simp_all add: odoc_def)

lemma doc_odoc: "odoc v \<Longrightarrow> v \<noteq> Undef \<Longrightarrow> doc v"
  by (simp add: odoc_def)

lemma odoc_fld: "own_name k \<Longrightarrow> odoc v \<Longrightarrow> odoc (fld v k)"
  by (cases v) (auto simp: fld_def own_name_def odoc_def split: option.splits dest!: map_of_SomeD)

lemma doc_nullish: "odoc v \<Longrightarrow> doc d \<Longrightarrow> doc (nullish v d)"
  by (auto simp: nullish_def odoc_def)

lemma doc_omit_undefined: "distinct (map fst kvs) \<Longrightarrow> \<forall>kv \<in> set kvs. odoc (snd kv) \<Longrightarrow> doc (omit_undefined kvs)"
  by (auto simp: omit_undefined_def odoc_def distinct_map_filter)

lemma doc_chk_record: "odoc v \<Longrightarrow> doc (snd (chk_record v path))"
  by (cases v) (auto simp: chk_record_def odoc_def)

lemma record_chk_record: "is_record (snd (chk_record v path))"
  by (auto simp: chk_record_def)

lemma doc_js_order [simp]: "doc (Obj (js_order kvs)) \<longleftrightarrow> doc (Obj kvs)"
  by simp

lemma doc_build_map: "distinct (map fst kvs) \<Longrightarrow> \<forall>kv \<in> set kvs. doc (snd kv) \<Longrightarrow> doc (build_map kvs)"
  by (auto simp: build_map_def distinct_map_filter)

lemma doc_own: "doc v \<Longrightarrow> distinct (map fst (own_fields v)) \<and> (\<forall>kv \<in> set (own_fields v). doc (snd kv))"
  by (cases v) auto

lemma doc_items: "odoc v \<Longrightarrow> x \<in> set (arr_items v) \<Longrightarrow> doc x"
  by (cases v) (auto simp: odoc_def)

lemma own_names [simp]:
  "own_name ''type''" "own_name ''required''" "own_name ''description''" "own_name ''default''" "own_name ''allowedValues''"
  "own_name ''scope''" "own_name ''name''" "own_name ''labels''" "own_name ''strategy''" "own_name ''maxSurge''"
  "own_name ''maxUnavailable''" "own_name ''schemaOverlap''" "own_name ''allowed''" "own_name ''minimum''" "own_name ''maximum''"
  "own_name ''memoryBytes''" "own_name ''cpuMillicores''" "own_name ''ephemeralStorageBytes''" "own_name ''buildMemoryBytes''"
  "own_name ''intent''" "own_name ''requiredLabels''" "own_name ''context''" "own_name ''dockerfile''" "own_name ''target''"
  "own_name ''ignore''" "own_name ''port''" "own_name ''protocol''" "own_name ''from''" "own_name ''resource''"
  "own_name ''readOnly''" "own_name ''interface''" "own_name ''path''" "own_name ''hostPath''" "own_name ''containerPath''"
  "own_name ''permissions''" "own_name ''driver''" "own_name ''subnet''" "own_name ''gpus''" "own_name ''privileged''"
  "own_name ''privilegedDocker''" "own_name ''networkMode''" "own_name ''devices''" "own_name ''runArgs''" "own_name ''networks''"
  "own_name ''displayName''" "own_name ''image''" "own_name ''build''" "own_name ''role''" "own_name ''instances''"
  "own_name ''minimumReady''" "own_name ''rollout''" "own_name ''siteOverrides''" "own_name ''capacity''" "own_name ''placement''"
  "own_name ''profile''" "own_name ''command''" "own_name ''interfaces''" "own_name ''environment''" "own_name ''configurationFiles''"
  "own_name ''mounts''" "own_name ''dependsOn''" "own_name ''health''" "own_name ''runtime''" "own_name ''durability''"
  "own_name ''dataRole''" "own_name ''access''" "own_name ''consistencyGroup''" "own_name ''ownership''" "own_name ''backup''"
  "own_name ''suitcase''" "own_name ''source''" "own_name ''reconciliation''" "own_name ''policy''" "own_name ''retentionCopies''"
  "own_name ''allowedDataModes''" "own_name ''excludeTables''" "own_name ''excludePaths''" "own_name ''conflictPolicy''"
  "own_name ''to''" "own_name ''hostname''" "own_name ''discoverable''" "own_name ''cache''" "own_name ''enabled''"
  "own_name ''maxAge''" "own_name ''paths''" "own_name ''maxObjectBytes''" "own_name ''component''" "own_name ''execution''"
  "own_name ''beforeTraffic''" "own_name ''apiVersion''" "own_name ''kind''" "own_name ''metadata''" "own_name ''configuration''"
  "own_name ''components''" "own_name ''resources''" "own_name ''routes''" "own_name ''jobs''" "own_name ''$schema''"
  by (simp_all add: own_name_def proto_functions_def)

named_theorems docs "closure of documents under the operations of the compiler"
declare odoc_fld [docs] doc_nullish [docs] doc_omit_undefined [docs] doc_chk_record [docs]

section \<open>Validated sections are documents\<close>

lemma optional_doc:
  assumes "odoc v" "\<And>v. doc v \<Longrightarrow> fst (f v) = [] \<Longrightarrow> doc (snd (f v))" "fst (optional_section v f) = []"
  shows "odoc (snd (optional_section v f))"
  using assms by (auto simp: optional_section_def odoc_def)

lemma string_array_doc: "odoc v \<Longrightarrow> doc (snd (string_array v path e))"
  by (auto simp: string_array_def dest: doc_items)

lemma string_map_doc: "odoc v \<Longrightarrow> doc (snd (string_map v path))"
  using doc_own [OF doc_chk_record, of v path]
  by (auto simp: string_map_def Let_def split: prod.splits intro!: doc_build_map intro: distinct_map_filter)

lemma each_entry_nil:
  "fst (each_entry f input) = [] \<Longrightarrow> (k, raw) \<in> set (own_fields input) \<Longrightarrow> fst (f k raw) = []"
  by (auto simp: each_entry_def)

lemma each_entry_fields:
  "own_fields (snd (each_entry f input)) =
     filter (\<lambda>kv. fst kv \<noteq> ''__proto__'') (map (\<lambda>(k, raw). (k, snd (f k raw))) (own_fields input))"
  by (simp add: each_entry_def build_map_def)

lemma each_entry_doc:
  assumes "doc input" "\<And>k raw. doc raw \<Longrightarrow> fst (f k raw) = [] \<Longrightarrow> doc (snd (f k raw))" "fst (each_entry f input) = []"
  shows "doc (snd (each_entry f input))"
proof -
  have "doc (snd (f k raw))" if "(k, raw) \<in> set (own_fields input)" for k raw
    using assms(2) [OF _ each_entry_nil [OF assms(3) that]] doc_own [OF assms(1)] that by auto
  moreover have "distinct (map fst (map (\<lambda>(k, raw). (k, snd (f k raw))) (own_fields input)))"
    using doc_own [OF assms(1)] by (simp add: case_prod_beta comp_def)
  ultimately show ?thesis
    unfolding each_entry_def snd_conv by (intro doc_build_map) auto
qed

lemma chk_defined:
  "non_empty_string v p = [] \<Longrightarrow> v \<noteq> Undef" "absolute_path v p = [] \<Longrightarrow> v \<noteq> Undef"
  "enumeration v vs p = [] \<Longrightarrow> v \<noteq> Undef" "chk_integer v p lo hi = [] \<Longrightarrow> v \<noteq> Undef"
  "validate_name v p = [] \<Longrightarrow> v \<noteq> Undef"
  by (auto simp: non_empty_string_def absolute_path_def enumeration_def chk_integer_def validate_name_def split: if_splits)

lemmas unfold_checks = Let_def split_beta fst_conv snd_conv append_is_Nil_conv

lemma optional_string_map_doc:
  "odoc v \<Longrightarrow> odoc (snd (optional_section v (\<lambda>x. string_map x p)))"
  by (auto simp: optional_section_def string_map_doc)

lemma optional_string_array_doc:
  "odoc v \<Longrightarrow> odoc (snd (optional_section v (\<lambda>x. string_array x p e)))"
  by (auto simp: optional_section_def string_array_doc)

declare optional_string_map_doc [docs] optional_string_array_doc [docs]

lemma metadata_doc: "odoc v \<Longrightarrow> fst (validate_metadata v p) = [] \<Longrightarrow> odoc (snd (validate_metadata v p))"
  unfolding validate_metadata_def
  by (rule optional_doc, assumption, unfold unfold_checks) (auto simp: docs)

lemma rollout_doc: "odoc v \<Longrightarrow> fst (validate_rollout v p n) = [] \<Longrightarrow> odoc (snd (validate_rollout v p n))"
  unfolding validate_rollout_def
  by (rule optional_doc, assumption, unfold unfold_checks) (auto simp: docs)
lemma site_overrides_doc: "odoc v \<Longrightarrow> fst (validate_site_overrides v p n) = [] \<Longrightarrow> odoc (snd (validate_site_overrides v p n))"
  unfolding validate_site_overrides_def
  by (rule optional_doc, assumption, unfold unfold_checks) (auto simp: docs)

lemma capacity_doc: "odoc v \<Longrightarrow> fst (validate_capacity v p) = [] \<Longrightarrow> odoc (snd (validate_capacity v p))"
  unfolding validate_capacity_def
  by (rule optional_doc, assumption, unfold unfold_checks) (auto simp: docs)

lemma placement_doc: "odoc v \<Longrightarrow> fst (validate_placement v p) = [] \<Longrightarrow> odoc (snd (validate_placement v p))"
  unfolding validate_placement_def
  by (rule optional_doc, assumption, unfold unfold_checks) (auto simp: docs)

lemma build_doc: "odoc v \<Longrightarrow> fst (validate_build v p) = [] \<Longrightarrow> odoc (snd (validate_build v p))"
  unfolding validate_build_def
  by (rule optional_doc, assumption, unfold unfold_checks) (auto simp: docs)

lemma health_doc: "odoc v \<Longrightarrow> fst (validate_health v p) = [] \<Longrightarrow> odoc (snd (validate_health v p))"
  unfolding validate_health_def
  by (rule optional_doc, assumption, unfold unfold_checks) (auto simp: docs)

lemma backup_doc: "odoc v \<Longrightarrow> fst (validate_backup v p) = [] \<Longrightarrow> odoc (snd (validate_backup v p))"
  unfolding validate_backup_def
  by (rule optional_doc, assumption, unfold unfold_checks) (auto simp: docs)

lemma suitcase_doc: "odoc v \<Longrightarrow> fst (validate_suitcase v p) = [] \<Longrightarrow> odoc (snd (validate_suitcase v p))"
  unfolding validate_suitcase_def
  by (rule optional_doc, assumption, unfold unfold_checks) (auto simp: docs)

lemma reconciliation_doc: "odoc v \<Longrightarrow> fst (validate_reconciliation v p) = [] \<Longrightarrow> odoc (snd (validate_reconciliation v p))"
  unfolding validate_reconciliation_def
  by (rule optional_doc, assumption, unfold unfold_checks) (auto simp: docs)

lemma cache_doc: "odoc v \<Longrightarrow> fst (validate_cache v p) = [] \<Longrightarrow> odoc (snd (validate_cache v p))"
  unfolding validate_cache_def
  by (rule optional_doc, assumption, unfold unfold_checks) (auto simp: docs)

lemma interface_map_doc: "odoc v \<Longrightarrow> fst (validate_interface_map v p) = [] \<Longrightarrow> odoc (snd (validate_interface_map v p))"
  unfolding validate_interface_map_def
  by (rule optional_doc, assumption, unfold unfold_checks)
    (rule each_entry_doc; auto simp: docs unfold_checks intro!: doc_odoc dest: chk_defined)

lemma reference_map_doc: "odoc v \<Longrightarrow> fst (validate_reference_map v p) = [] \<Longrightarrow> odoc (snd (validate_reference_map v p))"
  unfolding validate_reference_map_def
  by (rule optional_doc, assumption, unfold unfold_checks)
    (rule each_entry_doc; auto simp: docs unfold_checks intro!: doc_odoc dest: chk_defined)

lemma configuration_file_map_doc: "odoc v \<Longrightarrow> fst (validate_configuration_file_map v p) = [] \<Longrightarrow> odoc (snd (validate_configuration_file_map v p))"
  unfolding validate_configuration_file_map_def
  by (rule optional_doc, assumption, unfold unfold_checks)
    (rule each_entry_doc; auto simp: docs unfold_checks intro!: doc_odoc dest: chk_defined)

lemma mount_map_doc: "odoc v \<Longrightarrow> fst (validate_mount_map v p) = [] \<Longrightarrow> odoc (snd (validate_mount_map v p))"
  unfolding validate_mount_map_def
  by (rule optional_doc, assumption, unfold unfold_checks)
    (rule each_entry_doc; auto simp: docs unfold_checks intro!: doc_odoc dest: chk_defined)

lemma source_doc: "odoc v \<Longrightarrow> fst (validate_source v p) = [] \<Longrightarrow> odoc (snd (validate_source v p))"
  unfolding validate_source_def
  by (rule optional_doc, assumption, unfold unfold_checks) (auto simp: docs intro!: doc_odoc dest: chk_defined)

lemma map_items_doc:
  assumes "odoc v" "\<And>i x. doc x \<Longrightarrow> doc (snd (f i x))"
  shows "odoc (snd (map_items f v p))"
proof -
  have "x \<in> set xs" if "(i, x) \<in> set (enumerate n xs)" for i n x and xs :: "jsv list"
    using that by (auto simp: enumerate_eq_zip dest: set_zip_rightD)
  with assms doc_items [OF assms(1)] show ?thesis by (fastforce simp: map_items_def)
qed

lemma device_doc: "doc x \<Longrightarrow> doc (snd (validate_device p i x))"
  unfolding validate_device_def unfold_checks by (auto simp: docs)

lemma network_doc: "doc x \<Longrightarrow> doc (snd (validate_network p i x))"
  unfolding validate_network_def unfold_checks by (auto simp: docs)

lemma runtime_doc: "odoc v \<Longrightarrow> fst (validate_runtime v p) = [] \<Longrightarrow> odoc (snd (validate_runtime v p))"
  unfolding validate_runtime_def
  by (rule optional_doc, assumption, unfold unfold_checks)
    (auto simp: docs intro!: doc_omit_undefined map_items_doc device_doc network_doc)

lemma component_doc: "doc raw \<Longrightarrow> fst (validate_component p key raw) = [] \<Longrightarrow> doc (snd (validate_component p key raw))"
  unfolding validate_component_def unfold_checks
  by (rule doc_omit_undefined, simp, simp add: docs build_doc rollout_doc site_overrides_doc capacity_doc placement_doc
      interface_map_doc reference_map_doc configuration_file_map_doc mount_map_doc health_doc runtime_doc)

lemma component_map_doc: "odoc v \<Longrightarrow> fst (validate_component_map v p) = [] \<Longrightarrow> doc (snd (validate_component_map v p))"
  unfolding validate_component_map_def unfold_checks
  by (rule each_entry_doc) (auto simp: docs component_doc)

lemma resource_doc: "doc raw \<Longrightarrow> fst (validate_resource p key raw) = [] \<Longrightarrow> doc (snd (validate_resource p key raw))"
  unfolding validate_resource_def unfold_checks
  by (rule doc_omit_undefined, simp, simp add: docs backup_doc suitcase_doc source_doc reconciliation_doc)

lemma route_doc: "doc raw \<Longrightarrow> fst (validate_route p key raw) = [] \<Longrightarrow> doc (snd (validate_route p key raw))"
  unfolding validate_route_def unfold_checks
  by (rule doc_omit_undefined, simp, simp add: docs cache_doc)

lemma job_doc: "doc raw \<Longrightarrow> fst (validate_job p key raw) = [] \<Longrightarrow> doc (snd (validate_job p key raw))"
  unfolding validate_job_def unfold_checks
  by (rule doc_omit_undefined, simp, simp add: docs reference_map_doc string_array_doc)

lemma declaration_doc: "doc raw \<Longrightarrow> fst (validate_declaration url p key raw) = [] \<Longrightarrow> doc (snd (validate_declaration url p key raw))"
  unfolding validate_declaration_def unfold_checks
  by (rule doc_omit_undefined, simp, auto simp: docs split: if_splits)

lemma section_map_doc:
  "odoc v \<Longrightarrow> fst (validate_resource_map v p) = [] \<Longrightarrow> odoc (snd (validate_resource_map v p))"
  "odoc v \<Longrightarrow> fst (validate_route_map v p) = [] \<Longrightarrow> odoc (snd (validate_route_map v p))"
  "odoc v \<Longrightarrow> fst (validate_job_map v p) = [] \<Longrightarrow> odoc (snd (validate_job_map v p))"
  "odoc v \<Longrightarrow> fst (validate_configuration_map url v p) = [] \<Longrightarrow> odoc (snd (validate_configuration_map url v p))"
  unfolding validate_resource_map_def validate_route_map_def validate_job_map_def validate_configuration_map_def
  by (rule optional_doc, assumption, unfold unfold_checks,
      rule each_entry_doc; simp add: docs resource_doc route_doc job_doc declaration_doc)+

section \<open>Names\<close>

definition section_name :: "string \<Rightarrow> bool" where
  "section_name k \<longleftrightarrow> k \<noteq> [] \<and> CHR 0x00 \<notin> set k \<and> k \<noteq> ''__proto__''"

lemma proto_names_invalid: "list_all (\<lambda>k. \<not> name_pattern k \<or> k \<in> set reserved_mapping_keys) proto_functions"
  by code_simp

lemma nul_not_name_char: "\<not> is_lower (CHR 0x00)" "\<not> is_upper (CHR 0x00)" "\<not> is_digit (CHR 0x00)"
  by code_simp+

lemma name_pattern_name: "name_pattern k \<Longrightarrow> section_name k \<and> k \<noteq> ''__proto__''"
  using nul_not_name_char
  by (cases k) (auto simp: name_pattern_def section_name_def list_all_iff is_lower_def)

lemma valid_name: "validate_name (Str k) p = [] \<Longrightarrow> section_name k \<and> own_name k"
  using proto_names_invalid name_pattern_name [of k]
  by (auto simp: validate_name_def own_name_def list_all_iff split: if_splits)

lemma valid_configuration_name:
  "configuration_name_pattern k \<Longrightarrow> k \<notin> set reserved_mapping_keys \<Longrightarrow> section_name k"
  using nul_not_name_char
  by (cases k) (auto simp: configuration_name_pattern_def section_name_def reserved_mapping_keys_def list_all_iff)

section \<open>Reading a validated object\<close>

lemma map_of_filter_Undef:
  "distinct (map fst kvs) \<Longrightarrow> map_of (filter (\<lambda>kv. snd kv \<noteq> Undef) kvs) k =
     (case map_of kvs k of Some x \<Rightarrow> if x = Undef then None else Some x | None \<Rightarrow> None)"
  by (induction kvs) (auto split: option.splits simp: map_of_eq_None_iff rev_image_eqI dest: map_of_SomeD)

lemma fld_omit_undefined:
  "own_name k \<Longrightarrow> distinct (map fst kvs) \<Longrightarrow>
     fld (omit_undefined kvs) k = (case map_of kvs k of Some x \<Rightarrow> x | None \<Rightarrow> Undef)"
  by (auto simp: omit_undefined_def fld_def map_of_filter_Undef own_name_def split: option.splits)

lemma fld_Obj_case:
  "own_name k \<Longrightarrow> fld (Obj kvs) k = (case map_of kvs k of Some x \<Rightarrow> x | None \<Rightarrow> Undef)"
  by (auto simp: fld_def own_name_def split: option.splits)

lemma keys_omit_undefined: "set (obj_keys (omit_undefined kvs)) \<subseteq> set (map fst kvs)"
  by (auto simp: omit_undefined_def obj_keys_def)

text \<open>A validated section: its keys are section names and its entries are documents with the property.\<close>

definition valid_section :: "(string \<Rightarrow> bool) \<Rightarrow> (jsv \<Rightarrow> bool) \<Rightarrow> jsv \<Rightarrow> bool" where
  "valid_section N P v \<longleftrightarrow> is_record v \<and> doc v \<and> (\<forall>kv \<in> set (own_fields v). N (fst kv) \<and> P (snd kv))"

lemma valid_section_each:
  assumes "odoc v" "fst (each_entry f (snd (chk_record v p))) = []"
    and "\<And>k raw. doc raw \<Longrightarrow> fst (f k raw) = [] \<Longrightarrow> doc (snd (f k raw)) \<and> N k \<and> P (snd (f k raw))"
  shows "valid_section N P (snd (each_entry f (snd (chk_record v p))))"
proof -
  let ?i = "snd (chk_record v p)"
  have d: "doc ?i" using assms(1) by (simp add: docs)
  have "N k \<and> P (snd (f k raw))" if "(k, raw) \<in> set (own_fields ?i)" for k raw
    using assms(3) [OF _ each_entry_nil [OF assms(2) that]] doc_own [OF d] that by auto
  moreover have "doc (snd (each_entry f ?i))" using each_entry_doc [OF d _ assms(2)] assms(3) by blast
  moreover have "is_record (snd (each_entry f ?i))" by (simp add: each_entry_def build_map_def)
  ultimately show ?thesis unfolding valid_section_def by (auto simp: each_entry_fields)
qed

definition within :: "string list \<Rightarrow> jsv \<Rightarrow> bool" where
  "within fs v \<longleftrightarrow> set (obj_keys v) \<subseteq> set fs"

definition entries_ok :: "(jsv \<Rightarrow> bool) \<Rightarrow> jsv \<Rightarrow> bool" where
  "entries_ok P v \<longleftrightarrow> (\<forall>kv \<in> set (own_fields v). P (snd kv))"

definition items_ok :: "(jsv \<Rightarrow> bool) \<Rightarrow> jsv \<Rightarrow> bool" where
  "items_ok P v \<longleftrightarrow> (\<forall>x \<in> set (arr_items v). P x)"

lemma entries_ok_each:
  assumes "fst (each_entry f i) = []" "\<And>k raw. fst (f k raw) = [] \<Longrightarrow> P (snd (f k raw))"
  shows "entries_ok P (snd (each_entry f i))"
  using each_entry_nil [OF assms(1)] assms(2) by (auto simp: entries_ok_def each_entry_fields)

lemma optional_ok:
  assumes "P Undef" "\<And>v. fst (f v) = [] \<Longrightarrow> P (snd (f v))" "fst (optional_section v f) = []"
  shows "P (snd (optional_section v f))"
  using assms by (auto simp: optional_section_def split: if_splits)

lemma ok_Undef [simp]: "entries_ok P Undef" "items_ok P Undef" "within fs Undef"
  by (simp_all add: entries_ok_def items_ok_def within_def obj_keys_def)

lemma within_Obj [simp]: "within fs (Obj kvs) \<longleftrightarrow> set (map fst kvs) \<subseteq> set fs"
  by (simp add: within_def obj_keys_def)

lemma within_omit: "set (map fst kvs) \<subseteq> set fs \<Longrightarrow> within fs (omit_undefined kvs)"
  using keys_omit_undefined [of kvs] by (simp add: within_def subset_trans)

lemma interface_entries: "fst (validate_interface_map v p) = [] \<Longrightarrow>
    entries_ok (within [''port'', ''protocol'']) (snd (validate_interface_map v p))"
  unfolding validate_interface_map_def
  by (rule optional_ok, simp, unfold unfold_checks) (rule entries_ok_each; simp add: unfold_checks)

lemma interface_names: "fst (validate_interface_map v p) = [] \<Longrightarrow> \<not> has_own (snd (validate_interface_map v p)) ''__proto__''"
  unfolding validate_interface_map_def
  by (rule optional_ok, simp add: has_own_def obj_keys_def, unfold unfold_checks)
     (auto simp: has_own_def obj_keys_def each_entry_fields)

lemma reference_entries: "fst (validate_reference_map v p) = [] \<Longrightarrow>
    entries_ok (within [''from'']) (snd (validate_reference_map v p))"
  unfolding validate_reference_map_def
  by (rule optional_ok, simp, unfold unfold_checks) (rule entries_ok_each; simp add: unfold_checks)

lemma mount_entries: "fst (validate_mount_map v p) = [] \<Longrightarrow>
    entries_ok (\<lambda>m. fld m ''resource'' \<noteq> Undef) (snd (validate_mount_map v p))"
  unfolding validate_mount_map_def
  by (rule optional_ok, simp, unfold unfold_checks)
    (rule entries_ok_each; auto simp: unfold_checks fld_omit_undefined dest: chk_defined)

lemma health_fields: "fst (validate_health v p) = [] \<Longrightarrow> within [''interface'', ''path''] (snd (validate_health v p))"
  unfolding validate_health_def
  by (rule optional_ok, simp, unfold unfold_checks) (rule within_omit; simp)

lemma source_fields: "fst (validate_source v p) = [] \<Longrightarrow> within [''type'', ''hostPath''] (snd (validate_source v p))"
  unfolding validate_source_def
  by (rule optional_ok, simp, unfold unfold_checks) simp

lemma device_items: "fst (map_items (validate_device p) v q) = [] \<Longrightarrow>
    items_ok (\<lambda>d. fld d ''hostPath'' \<noteq> Undef) (snd (map_items (validate_device p) v q))"
proof -
  have h: "fst (validate_device p i x) = [] \<Longrightarrow> fld (snd (validate_device p i x)) ''hostPath'' \<noteq> Undef" for i x
    unfolding validate_device_def unfold_checks by (auto simp: fld_omit_undefined dest: chk_defined)
  assume "fst (map_items (validate_device p) v q) = []"
  then show ?thesis using h by (auto simp: map_items_def items_ok_def split: if_splits)
qed

definition runtime_ok :: "jsv \<Rightarrow> bool" where
  "runtime_ok r \<longleftrightarrow> items_ok (\<lambda>d. fld d ''hostPath'' \<noteq> Undef) (fld r ''devices'')"

lemma runtime_fields: "fst (validate_runtime v p) = [] \<Longrightarrow> runtime_ok (snd (validate_runtime v p))"
  unfolding validate_runtime_def
  by (rule optional_ok, simp add: runtime_ok_def, unfold unfold_checks)
     (simp add: runtime_ok_def fld_omit_undefined device_items)

definition component_ok :: "jsv \<Rightarrow> bool" where
  "component_ok c \<longleftrightarrow>
     (fld c ''instances'' = Undef \<or> (\<exists>z. fld c ''instances'' = Num (JInt z)))
     \<and> entries_ok (within [''port'', ''protocol'']) (fld c ''interfaces'')
     \<and> \<not> has_own (fld c ''interfaces'') ''__proto__''
     \<and> entries_ok (within [''from'']) (fld c ''environment'')
     \<and> entries_ok (\<lambda>m. fld m ''resource'' \<noteq> Undef) (fld c ''mounts'')
     \<and> within [''interface'', ''path''] (fld c ''health'')
     \<and> runtime_ok (fld c ''runtime'')"

lemma chk_integer_int: "chk_integer v p lo hi = [] \<Longrightarrow> 0 < lo \<Longrightarrow> \<exists>z. v = Num (JInt z) \<and> lo \<le> z \<and> z \<le> hi"
proof -
  assume h: "chk_integer v p lo hi = []" "0 < lo"
  then obtain n where n: "v = Num n" by (cases v) (auto simp: chk_integer_def)
  with h show ?thesis by (cases n) (auto simp: chk_integer_def split: if_splits)
qed

lemma component_ok: "fst (validate_component p key raw) = [] \<Longrightarrow> component_ok (snd (validate_component p key raw))"
proof -
  let ?c = "snd (chk_record raw (p @ ''.'' @ key))"
  assume h: "fst (validate_component p key raw) = []"
  have i: "when_defined (fld ?c ''instances'') (\<lambda>x. chk_integer x (p @ ''.'' @ key @ ''.instances'') 1 256) = []"
    using h by (simp add: validate_component_def unfold_checks)
  then have "fld ?c ''instances'' = Undef \<or> (\<exists>z. fld ?c ''instances'' = Num (JInt z))"
    by (auto simp: when_defined_def dest!: chk_integer_int split: if_splits)
  with h show ?thesis
    unfolding validate_component_def unfold_checks component_ok_def
    by (simp add: fld_omit_undefined interface_entries interface_names reference_entries mount_entries health_fields runtime_fields)
qed

lemma resource_ok: "fst (validate_resource p key raw) = [] \<Longrightarrow>
    within [''type'', ''hostPath''] (fld (snd (validate_resource p key raw)) ''source'')"
  unfolding validate_resource_def unfold_checks by (simp add: fld_omit_undefined source_fields)

definition job_ok :: "jsv \<Rightarrow> bool" where
  "job_ok j \<longleftrightarrow> fld j ''component'' \<noteq> Undef \<and> fld j ''command'' \<noteq> Undef \<and> entries_ok (within [''from'']) (fld j ''environment'')"

lemma job_ok: "fst (validate_job p key raw) = [] \<Longrightarrow> job_ok (snd (validate_job p key raw))"
proof -
  have "snd (string_array v q e) \<noteq> Undef" for v q e by (simp add: string_array_def)
  then show "fst (validate_job p key raw) = [] \<Longrightarrow> job_ok (snd (validate_job p key raw))"
    unfolding validate_job_def unfold_checks job_ok_def
    by (auto simp: fld_omit_undefined reference_entries dest: chk_defined)
qed

section \<open>Compiled nodes are documents\<close>

lemma sorted_record_fields:
  "set (own_fields (sorted_record f v)) = {(k, f x) | k x. (k, x) \<in> set (own_fields v) \<and> k \<noteq> ''__proto__''}"
  by (auto simp: sorted_record_def)

lemma sorted_record_record [simp]: "is_record (sorted_record f v)"
  by (simp add: sorted_record_def)

lemma doc_sorted_record:
  assumes "doc v" "\<forall>kv \<in> set (own_fields v). doc (f (snd kv))"
  shows "doc (sorted_record f v)"
proof -
  have "distinct (map fst (sort_key fst (map (\<lambda>(k, x). (k, f x)) (own_fields v))))"
    using doc_own [OF assms(1)] by (simp add: distinct_sort_key case_prod_beta comp_def)
  then show ?thesis
    using assms(2) by (auto simp: sorted_record_def intro: distinct_map_filter)
qed

lemma doc_or_empty [docs]: "odoc v \<Longrightarrow> doc (or_empty_obj v)" "odoc v \<Longrightarrow> doc (or_empty_arr v)"
  by (simp_all add: or_empty_obj_def or_empty_arr_def doc_nullish)

lemma doc_sort_strings [docs]: "doc (sort_strings v)"
  by (auto simp: sort_strings_def)

lemma doc_sorted_id [docs]: "odoc v \<Longrightarrow> doc (sorted_record (\<lambda>x. x) (or_empty_obj v))"
  "odoc v \<Longrightarrow> doc (sorted_string_map (or_empty_obj v))"
  using doc_own [OF doc_or_empty(1), of v] by (auto simp: sorted_string_map_def intro!: doc_sorted_record docs)

lemma doc_declaration: "doc d \<Longrightarrow> doc (compile_declaration d)"
  unfolding compile_declaration_def
  by (rule doc_omit_undefined) (auto simp: docs intro: doc_items [where v = "fld d ''allowedValues''"])

lemma doc_rollout: "odoc r \<Longrightarrow> doc n \<Longrightarrow> doc (compile_rollout r n)"
  by (simp add: compile_rollout_def Let_def docs)

lemma doc_build: "odoc b \<Longrightarrow> doc (compile_build b)"
  unfolding compile_build_def by (rule doc_omit_undefined) (auto simp: docs)

lemma doc_network: "odoc b \<Longrightarrow> doc (compile_network b)"
  unfolding compile_network_def by (rule doc_omit_undefined) (auto simp: docs)

lemma doc_device: "odoc d \<Longrightarrow> fld d ''hostPath'' \<noteq> Undef \<Longrightarrow> doc (compile_device d)"
  by (simp add: compile_device_def docs doc_odoc)

lemma doc_mount: "odoc d \<Longrightarrow> fld d ''resource'' \<noteq> Undef \<Longrightarrow> doc (compile_mount d)"
  by (simp add: compile_mount_def docs doc_odoc)

lemma items_or_empty: "x \<in> set (arr_items (or_empty_arr v)) \<Longrightarrow> x \<in> set (arr_items v)"
  by (auto simp: or_empty_arr_def nullish_def split: if_splits)

lemma entries_or_empty: "kv \<in> set (own_fields (or_empty_obj v)) \<Longrightarrow> kv \<in> set (own_fields v)"
  by (auto simp: or_empty_obj_def nullish_def split: if_splits)

lemma own_fields_doc: "odoc v \<Longrightarrow> kv \<in> set (own_fields v) \<Longrightarrow> doc (snd kv)"
  by (cases v) (auto simp: odoc_def)

lemma doc_runtime:
  assumes "odoc r" "runtime_ok r"
  shows "doc (compile_runtime r)"
proof -
  have "doc (compile_device x)" if "x \<in> set (arr_items (or_empty_arr (fld r ''devices'')))" for x
    using items_or_empty [OF that] assms doc_items [of "fld r ''devices''" x]
    by (intro doc_device) (auto simp: runtime_ok_def items_ok_def docs)
  moreover have "doc (compile_network x)" if "x \<in> set (arr_items (or_empty_arr (fld r ''networks'')))" for x
    using items_or_empty [OF that] assms doc_items [of "fld r ''networks''" x]
    by (intro doc_network) (auto simp: docs)
  ultimately show ?thesis using assms(1) by (simp add: compile_runtime_def docs)
qed

lemma doc_mounts:
  assumes "odoc v" "entries_ok (\<lambda>m. fld m ''resource'' \<noteq> Undef) v"
  shows "doc (sorted_record compile_mount (or_empty_obj v))"
proof (rule doc_sorted_record)
  show "\<forall>kv \<in> set (own_fields (or_empty_obj v)). doc (compile_mount (snd kv))"
    using assms entries_or_empty own_fields_doc by (fastforce simp: entries_ok_def intro!: doc_mount)
qed (simp add: docs assms)

lemma doc_component:
  assumes "doc c" "component_ok c"
  shows "doc (compile_component c)"
proof -
  have "doc (nullish (fld c ''instances'') (Num (JInt 1)))" using assms by (simp add: docs)
  with assms show ?thesis
    unfolding compile_component_def Let_def
    by (intro doc_omit_undefined)
       (simp_all add: docs component_ok_def doc_build doc_rollout doc_runtime doc_mounts)
qed

lemma doc_resource: "doc r \<Longrightarrow> doc (compile_resource r)"
  unfolding compile_resource_def Let_def by (rule doc_omit_undefined) (simp_all add: docs)

lemma doc_route: "doc r \<Longrightarrow> doc (compile_route r)"
  unfolding compile_route_def Let_def by (rule doc_omit_undefined) (simp_all add: docs)

lemma doc_job: "doc j \<Longrightarrow> job_ok j \<Longrightarrow> doc (compile_job j)"
  by (simp add: compile_job_def job_ok_def docs doc_odoc)

section \<open>Compiled nodes have supported shapes\<close>

lemma check_fields_nil: "within fs v \<Longrightarrow> check_fields v fs path = []"
  by (auto simp: check_fields_def within_def filter_empty_conv)

lemma set_sorted_entries [simp]: "set (sorted_entries ck v) = set (own_fields v)"
  by (simp add: sorted_entries_def)

lemma within_compiled:
  "within configuration_fields (compile_declaration d)"
  "within component_spec_fields (compile_component c)"
  "within resource_spec_fields (compile_resource r)"
  "within [''to'', ''hostname'', ''path'', ''discoverable'', ''cache''] (compile_route t)"
  "within [''component'', ''command'', ''environment'', ''execution'', ''beforeTraffic''] (compile_job j)"
  "within [''name'', ''driver'', ''subnet'', ''labels''] (compile_network n)"
  "within runtime_spec_fields (compile_runtime u)"
  "within [''context'', ''dockerfile'', ''target'', ''ignore''] (compile_build b)"
  unfolding compile_declaration_def compile_component_def compile_resource_def compile_route_def compile_job_def
    compile_network_def compile_runtime_def compile_build_def Let_def
  by (rule within_omit | simp add: configuration_fields_def component_spec_fields_def resource_spec_fields_def runtime_spec_fields_def)+

lemma compiled_component_fields:
  "fld (compile_component c) ''rollout'' = compile_rollout (fld c ''rollout'') (nullish (fld c ''instances'') (Num (JInt 1)))"
  "fld (compile_component c) ''instances'' = nullish (fld c ''instances'') (Num (JInt 1))"
  "within [''allowed'', ''minimum'', ''maximum''] (fld (compile_component c) ''siteOverrides'')"
  "within [''memoryBytes'', ''cpuMillicores'', ''ephemeralStorageBytes'', ''buildMemoryBytes''] (fld (compile_component c) ''capacity'')"
  "within [''intent'', ''requiredLabels''] (fld (compile_component c) ''placement'')"
  "fld (compile_component c) ''build'' = (if truthy (fld c ''build'') then compile_build (fld c ''build'') else Undef)"
  "fld (compile_component c) ''interfaces'' = sorted_record (\<lambda>x. x) (or_empty_obj (fld c ''interfaces''))"
  "fld (compile_component c) ''environment'' = sorted_record (\<lambda>x. x) (or_empty_obj (fld c ''environment''))"
  "fld (compile_component c) ''mounts'' = sorted_record compile_mount (or_empty_obj (fld c ''mounts''))"
  "fld (compile_component c) ''dependsOn'' = sort_strings (or_empty_arr (fld c ''dependsOn''))"
  "fld (compile_component c) ''health'' = fld c ''health''"
  "fld (compile_component c) ''runtime'' = compile_runtime (fld c ''runtime'')"
  unfolding compile_component_def Let_def
  by (simp_all add: fld_omit_undefined within_omit)

lemma entries_sorted:
  "entries_ok (\<lambda>x. P (f x)) v \<Longrightarrow> entries_ok P (sorted_record f (or_empty_obj v))"
  by (auto simp: entries_ok_def sorted_record_fields dest!: entries_or_empty)

lemma entries_shape:
  "entries_ok (within fs) v \<Longrightarrow>
    concat (map (\<lambda>(name, x). check_fields x fs (g name)) (sorted_entries ck v)) = []"
  by (auto simp: entries_ok_def concat_eq_Nil_conv check_fields_nil)

lemma compile_rollout_within: "within [''strategy'', ''maxSurge'', ''maxUnavailable'', ''schemaOverlap''] (compile_rollout r n)"
  by (simp add: compile_rollout_def Let_def)

lemma enumerate_member: "(i, x) \<in> set (enumerate n xs) \<Longrightarrow> x \<in> set xs"
  by (auto simp: enumerate_eq_zip dest: set_zip_rightD)

lemma supported_component:
  assumes "component_ok c"
  shows "check_component ck base (compile_component c) = []"
proof -
  have m: "entries_ok (within [''resource'', ''readOnly'']) (sorted_record compile_mount (or_empty_obj (fld c ''mounts'')))"
    by (rule entries_sorted) (simp add: entries_ok_def compile_mount_def)
  have e: "entries_ok (within [''port'', ''protocol'']) (sorted_record (\<lambda>x. x) (or_empty_obj (fld c ''interfaces'')))"
    "entries_ok (within [''from'']) (sorted_record (\<lambda>x. x) (or_empty_obj (fld c ''environment'')))"
    using assms by (simp_all add: component_ok_def entries_sorted)
  have n: "within [''name'', ''driver'', ''subnet'', ''labels''] x"
    if "(i, x) \<in> set (enumerate 0 (arr_items (fld (compile_runtime r) ''networks'')))" for i x r
    using enumerate_member [OF that] within_compiled(6) by (auto simp: compile_runtime_def fld_Obj_case)
  have "concat (map (\<lambda>(i, x). check_fields x [''name'', ''driver'', ''subnet'', ''labels''] (g i))
      (enumerate 0 (arr_items (fld (compile_runtime r) ''networks'')))) = []" for g r
    using n check_fields_nil by (fastforce simp: concat_eq_Nil_conv)
  then show ?thesis
    unfolding check_component_def compiled_component_fields
    using assms within_compiled compiled_component_fields(3-5) compile_rollout_within
    by (simp add: component_ok_def check_fields_nil entries_shape [OF m] entries_shape [OF e(1)] entries_shape [OF e(2)])
qed

lemma supported_resource:
  "within [''type'', ''hostPath''] (fld r ''source'') \<Longrightarrow> check_resource base (compile_resource r) = []"
proof -
  assume s: "within [''type'', ''hostPath''] (fld r ''source'')"
  have "within [''policy'', ''retentionCopies''] (fld (compile_resource r) ''backup'')"
    "within [''allowedDataModes''] (fld (compile_resource r) ''suitcase'')"
    "fld (compile_resource r) ''source'' = fld r ''source''"
    "within [''excludeTables'', ''excludePaths'', ''conflictPolicy''] (fld (compile_resource r) ''reconciliation'')"
    by (simp_all add: compile_resource_def Let_def fld_omit_undefined)
  with s show ?thesis using within_compiled(3) by (simp add: check_resource_def check_fields_nil)
qed

lemma supported_route: "check_route base (compile_route r) = []"
proof -
  have "within [''enabled'', ''maxAge'', ''paths'', ''maxObjectBytes''] (fld (compile_route r) ''cache'')"
    by (simp add: compile_route_def Let_def fld_omit_undefined)
  then show ?thesis using within_compiled(4) by (simp add: check_route_def check_fields_nil)
qed

lemma supported_job: "entries_ok (within [''from'']) (fld j ''environment'') \<Longrightarrow> check_job ck base (compile_job j) = []"
proof -
  assume "entries_ok (within [''from'']) (fld j ''environment'')"
  then have "entries_ok (within [''from'']) (fld (compile_job j) ''environment'')"
    by (simp add: compile_job_def fld_Obj_case entries_sorted)
  from entries_shape [OF this] show ?thesis
    using within_compiled(5) by (simp add: check_job_def check_fields_nil)
qed

section \<open>The accepted manifest\<close>

definition node_name :: "string \<Rightarrow> bool" where
  "node_name k \<longleftrightarrow> section_name k \<and> own_name k"

lemma valid_empty [simp]: "valid_section N P (Obj [])"
  by (simp add: valid_section_def)

lemma optional_section_valid:
  assumes "odoc v" "fst (optional_section v f) = []"
    and "\<And>v. doc v \<Longrightarrow> fst (f v) = [] \<Longrightarrow> valid_section N P (snd (f v))"
  shows "valid_section N P (or_empty_obj (snd (optional_section v f)))"
proof -
  have "or_empty_obj w = w" if "valid_section N P w" for w
    using that by (cases w) (auto simp: valid_section_def or_empty_obj_def nullish_def)
  with assms show ?thesis by (auto simp: optional_section_def odoc_def or_empty_obj_def [of Undef] nullish_def)
qed

lemma declaration_name: "fst (validate_declaration url p k raw) = [] \<Longrightarrow> section_name k"
  unfolding validate_declaration_def unfold_checks by (auto intro: valid_configuration_name split: if_splits)

lemma entry_names:
  "fst (validate_component p k raw) = [] \<Longrightarrow> node_name k"
  "fst (validate_resource p k raw) = [] \<Longrightarrow> node_name k"
  "fst (validate_route p k raw) = [] \<Longrightarrow> node_name k"
  "fst (validate_job p k raw) = [] \<Longrightarrow> node_name k"
  unfolding validate_component_def validate_resource_def validate_route_def validate_job_def unfold_checks node_name_def
  by (blast dest: valid_name)+

lemma configuration_section: "odoc v \<Longrightarrow> fst (validate_configuration_map url v p) = [] \<Longrightarrow>
    valid_section section_name (\<lambda>_. True) (or_empty_obj (snd (validate_configuration_map url v p)))"
  unfolding validate_configuration_map_def
  by (rule optional_section_valid, assumption+, unfold unfold_checks)
     (rule valid_section_each; simp add: declaration_doc declaration_name)

lemma component_section: "odoc v \<Longrightarrow> fst (validate_component_map v p) = [] \<Longrightarrow>
    valid_section node_name component_ok (snd (validate_component_map v p))"
  unfolding validate_component_map_def unfold_checks
  by (rule valid_section_each) (simp_all add: component_doc entry_names component_ok)

lemma resource_section: "odoc v \<Longrightarrow> fst (validate_resource_map v p) = [] \<Longrightarrow>
    valid_section node_name (\<lambda>r. within [''type'', ''hostPath''] (fld r ''source'')) (or_empty_obj (snd (validate_resource_map v p)))"
  unfolding validate_resource_map_def
  by (rule optional_section_valid, assumption+, unfold unfold_checks)
     (rule valid_section_each; simp add: resource_doc entry_names resource_ok)

lemma route_ok: "fst (validate_route p key raw) = [] \<Longrightarrow> is_str (fld (snd (validate_route p key raw)) ''to'')"
  unfolding validate_route_def unfold_checks
  by (simp add: fld_omit_undefined non_empty_string_def split: if_splits)

lemma route_section: "odoc v \<Longrightarrow> fst (validate_route_map v p) = [] \<Longrightarrow>
    valid_section node_name (\<lambda>r. is_str (fld r ''to'')) (or_empty_obj (snd (validate_route_map v p)))"
  unfolding validate_route_map_def
  by (rule optional_section_valid, assumption+, unfold unfold_checks)
     (rule valid_section_each; simp add: route_doc entry_names route_ok)

lemma job_section: "odoc v \<Longrightarrow> fst (validate_job_map v p) = [] \<Longrightarrow>
    valid_section node_name job_ok (or_empty_obj (snd (validate_job_map v p)))"
  unfolding validate_job_map_def
  by (rule optional_section_valid, assumption+, unfold unfold_checks)
     (rule valid_section_each; simp add: job_doc entry_names job_ok)

definition sound_manifest :: "jsv \<Rightarrow> bool" where
  "sound_manifest i \<longleftrightarrow> odoc (fld i ''metadata'')
     \<and> valid_section section_name (\<lambda>_. True) (or_empty_obj (fld i ''configuration''))
     \<and> valid_section node_name component_ok (fld i ''components'')
     \<and> valid_section node_name (\<lambda>r. within [''type'', ''hostPath''] (fld r ''source'')) (or_empty_obj (fld i ''resources''))
     \<and> valid_section node_name (\<lambda>r. is_str (fld r ''to'')) (or_empty_obj (fld i ''routes''))
     \<and> valid_section node_name job_ok (or_empty_obj (fld i ''jobs''))"

lemma accepted_sound:
  assumes "doc m" "accepted_manifest url m src = Inr i"
  shows "sound_manifest i"
proof -
  have "fst (validate_application_manifest url m src) = []" "i = snd (validate_application_manifest url m src)"
    using assms(2) by (auto simp: accepted_manifest_def split: prod.splits if_splits)
  with assms(1) show ?thesis
    unfolding validate_application_manifest_def unfold_checks sound_manifest_def
    by (simp add: fld_omit_undefined docs metadata_doc configuration_section component_section resource_section
        route_section job_section)
qed

section \<open>The compiled specification\<close>

lemma compiled_spec_fields:
  "fld (compile_spec i) ''apiVersion'' = Str ''deploy.local/v1''"
  "fld (compile_spec i) ''kind'' = Str ''Application''"
  "fld (compile_spec i) ''metadata'' = omit_undefined [(''name'', fld (or_empty_obj (fld i ''metadata'')) ''name''),
     (''description'', fld (or_empty_obj (fld i ''metadata'')) ''description''),
     (''labels'', sorted_string_map (or_empty_obj (fld (or_empty_obj (fld i ''metadata'')) ''labels'')))]"
  "fld (compile_spec i) ''configuration'' = sorted_record compile_declaration (or_empty_obj (fld i ''configuration''))"
  "fld (compile_spec i) ''components'' = sorted_record compile_component (fld i ''components'')"
  "fld (compile_spec i) ''resources'' = sorted_record compile_resource (or_empty_obj (fld i ''resources''))"
  "fld (compile_spec i) ''routes'' = sorted_record compile_route (or_empty_obj (fld i ''routes''))"
  "fld (compile_spec i) ''jobs'' = sorted_record compile_job (or_empty_obj (fld i ''jobs''))"
  unfolding compile_spec_def Let_def by (simp_all add: fld_Obj_case)

lemma valid_section_compiled:
  assumes "valid_section N P v" "\<And>x. doc x \<Longrightarrow> P x \<Longrightarrow> doc (f x) \<and> Q (f x)"
  shows "valid_section N Q (sorted_record f v)"
proof -
  have d: "doc v" and e: "\<And>k x. (k, x) \<in> set (own_fields v) \<Longrightarrow> doc x \<and> N k \<and> P x"
    using assms(1) doc_own by (fastforce simp: valid_section_def)+
  then have "doc (sorted_record f v)" using assms(2) by (intro doc_sorted_record) auto
  with e assms(2) show ?thesis by (fastforce simp: valid_section_def sorted_record_fields)
qed

lemma compiled_sections:
  assumes "sound_manifest i"
  shows "valid_section section_name (\<lambda>x. within configuration_fields x) (fld (compile_spec i) ''configuration'')"
    "valid_section node_name (\<lambda>x. is_record x \<and> within component_spec_fields x \<and> has_count x
       \<and> (\<forall>base ck. check_component ck base x = [])) (fld (compile_spec i) ''components'')"
    "valid_section node_name (\<lambda>x. is_record x \<and> within resource_spec_fields x \<and> (\<forall>base. check_resource base x = []))
       (fld (compile_spec i) ''resources'')"
    "valid_section node_name (\<lambda>x. \<forall>base. check_route base x = []) (fld (compile_spec i) ''routes'')"
    "valid_section node_name (\<lambda>x. \<forall>base ck. check_job ck base x = []) (fld (compile_spec i) ''jobs'')"
proof -
  note m = assms [unfolded sound_manifest_def]
  show "valid_section section_name (\<lambda>x. within configuration_fields x) (fld (compile_spec i) ''configuration'')"
    unfolding compiled_spec_fields by (rule valid_section_compiled) (use m doc_declaration within_compiled in auto)
  have "has_count (compile_component c)" if "component_ok c" for c
    using that by (auto simp: has_count_def component_ok_def compiled_component_fields nullish_def)
  moreover have "is_record (compile_component c)" "is_record (compile_resource c)" for c
    by (simp_all add: compile_component_def compile_resource_def Let_def omit_undefined_def)
  ultimately show "valid_section node_name (\<lambda>x. is_record x \<and> within component_spec_fields x \<and> has_count x
       \<and> (\<forall>base ck. check_component ck base x = [])) (fld (compile_spec i) ''components'')"
    "valid_section node_name (\<lambda>x. is_record x \<and> within resource_spec_fields x \<and> (\<forall>base. check_resource base x = []))
       (fld (compile_spec i) ''resources'')"
    unfolding compiled_spec_fields
    using m doc_component within_compiled supported_component doc_resource supported_resource
    by (blast intro: valid_section_compiled)+
  show "valid_section node_name (\<lambda>x. \<forall>base. check_route base x = []) (fld (compile_spec i) ''routes'')"
    unfolding compiled_spec_fields by (rule valid_section_compiled) (use m doc_route supported_route in auto)
  show "valid_section node_name (\<lambda>x. \<forall>base ck. check_job ck base x = []) (fld (compile_spec i) ''jobs'')"
    unfolding compiled_spec_fields
    by (rule valid_section_compiled [where P = job_ok]) (use m in \<open>simp_all add: doc_job supported_job job_ok_def\<close>)
qed

lemma doc_compiled:
  assumes "sound_manifest i"
  shows "doc (compile_spec i)"
proof -
  have "doc (fld (compile_spec i) ''metadata'')"
    unfolding compiled_spec_fields
    by (rule doc_omit_undefined) (use assms in \<open>simp_all add: sound_manifest_def docs\<close>)
  moreover have "doc (fld (compile_spec i) ''configuration'')" "doc (fld (compile_spec i) ''components'')"
    "doc (fld (compile_spec i) ''resources'')" "doc (fld (compile_spec i) ''routes'')" "doc (fld (compile_spec i) ''jobs'')"
    using compiled_sections [OF assms] by (simp_all only: valid_section_def)
  ultimately show ?thesis
    unfolding compiled_spec_fields by (simp add: compile_spec_def Let_def)
qed

lemma valid_section_no_proto: "valid_section N P v \<Longrightarrow> (\<And>k. N k \<Longrightarrow> k \<noteq> ''__proto__'') \<Longrightarrow> \<not> has_own v ''__proto__''"
  by (fastforce simp: valid_section_def has_own_def obj_keys_def)

lemma node_section_valid:
  assumes "valid_section node_name P v" "\<And>x. P x \<Longrightarrow> is_record x \<and> within fs x" "''__proto__'' \<notin> set fs"
  shows "node_section v"
  using assms by (fastforce simp: node_section_def valid_section_def list_all_iff node_name_def own_name_def within_def has_own_def)

lemma compiled_spec_is_normalized:
  assumes "sound_manifest i"
  shows "normalized_spec (compile_spec i)" "collect_unsupported_shape ck (compile_spec i) = []"
proof -
  note cs = compiled_sections [OF assms] and d = doc_compiled [OF assms]
  have np: "section_name k \<Longrightarrow> k \<noteq> ''__proto__''" "node_name k \<Longrightarrow> k \<noteq> ''__proto__''" for k
    by (simp_all add: section_name_def node_name_def)
  have rec: "is_record (compile_spec i)" "\<not> has_own (compile_spec i) ''__proto__''" "within root_fields (compile_spec i)"
    by (simp_all add: compile_spec_def Let_def has_own_def obj_keys_def root_fields_def)
  have md: "is_record (fld (compile_spec i) ''metadata'')" "within metadata_fields (fld (compile_spec i) ''metadata'')"
    unfolding compiled_spec_fields by (simp add: omit_undefined_def) (rule within_omit, simp add: metadata_fields_def)
  then have "\<not> has_own (fld (compile_spec i) ''metadata'') ''__proto__''"
    by (auto simp: within_def metadata_fields_def has_own_def)
  moreover have "list_all (\<lambda>k. k \<noteq> [] \<and> CHR 0x00 \<notin> set k) (section_keys (compile_spec i))"
    using cs by (auto simp: section_keys_def list_all_iff valid_section_def obj_keys_def node_name_def section_name_def)
  moreover have "node_section (fld (compile_spec i) ''components'')"
    by (rule node_section_valid [OF cs(2), of component_spec_fields]) (simp_all add: component_spec_fields_def)
  moreover have "node_section (fld (compile_spec i) ''resources'')"
    by (rule node_section_valid [OF cs(3), of resource_spec_fields]) (simp_all add: resource_spec_fields_def)
  moreover have "is_record (fld (compile_spec i) f)"
    if "f \<in> {''configuration'', ''components'', ''resources'', ''routes'', ''jobs''}" for f
    using that by (auto simp: compiled_spec_fields)
  moreover have "\<not> has_own (fld (compile_spec i) ''configuration'') ''__proto__''" "\<not> has_own (fld (compile_spec i) ''components'') ''__proto__''"
    "\<not> has_own (fld (compile_spec i) ''resources'') ''__proto__''" "\<not> has_own (fld (compile_spec i) ''routes'') ''__proto__''"
    "\<not> has_own (fld (compile_spec i) ''jobs'') ''__proto__''"
    by (rule valid_section_no_proto [OF cs(1)] valid_section_no_proto [OF cs(2)] valid_section_no_proto [OF cs(3)]
        valid_section_no_proto [OF cs(4)] valid_section_no_proto [OF cs(5)]; erule np)+
  moreover have "list_all (\<lambda>kv. has_count (snd kv)) (own_fields (fld (compile_spec i) ''components''))"
    using cs(2) by (simp add: valid_section_def list_all_iff)
  ultimately show "normalized_spec (compile_spec i)"
    unfolding normalized_spec_def using rec md(1) d by (simp add: doc_def compiled_spec_fields(1,2))
  have n: "concat (map (\<lambda>(k, x). g k x) (sorted_entries ck v)) = []"
    if "valid_section N P v" "\<And>k x. P x \<Longrightarrow> g k x = []" for g :: "string \<Rightarrow> jsv \<Rightarrow> shape_finding list" and N P v
    using that by (fastforce simp: valid_section_def concat_eq_Nil_conv)
  show "collect_unsupported_shape ck (compile_spec i) = []"
    unfolding collect_unsupported_shape_def append_is_Nil_conv
    using rec(3) md(2) by (simp add: check_fields_nil n [OF cs(1)] n [OF cs(2)] n [OF cs(3)] n [OF cs(4)] n [OF cs(5)])
qed
end
