(* ===== verification/Samples.thy ===== *)
theory Samples
  imports SpecNormal
begin

text \<open>
  A concrete manifest with a component, a durable volume and a mount, accepted by the validator: the
  input at which the properties of compiled specifications are exercised.
\<close>

definition no_url :: url_parser where
  "no_url = (\<lambda>_. None)"

definition sample_digest :: "string \<Rightarrow> string" where
  "sample_digest s = nat_str (length s)"

definition sample_manifest :: jsv where
  "sample_manifest = Obj [
     (''apiVersion'', Str ''deploy.local/v1''),
     (''kind'', Str ''Application''),
     (''components'', Obj [(''db'', Obj [(''image'', Str ''pg''),
        (''mounts'', Obj [(''/d'', Obj [(''resource'', Str ''v'')])])])]),
     (''resources'', Obj [(''v'', Obj [(''type'', Str ''volume'')])])]"

lemma sample_doc: "doc sample_manifest"
  by code_simp

lemma sample_valid: "fst (validate_application_manifest no_url sample_manifest ''application manifest'') = []"
  by code_simp

lemma sample_accepted: "\<not> isl (accepted_manifest no_url sample_manifest ''application manifest'')"
  using sample_valid by (simp add: accepted_manifest_def split_beta)

definition default_context :: plan_context where
  "default_context = \<lparr>ctx_source = None, target_site_id = None, target_site_kind = None,
     suitcase_site_ids = None, verified_backup = None, resource_removal_policy = None\<rparr>"

text \<open>A small normalized specification with one volume resource, and the same without it.\<close>

definition volume_spec :: "fields \<Rightarrow> jsv" where
  "volume_spec resources = Obj [
     (''apiVersion'', Str ''deploy.local/v1''), (''kind'', Str ''Application''),
     (''metadata'', Obj []), (''configuration'', Obj []), (''components'', Obj []),
     (''resources'', Obj resources), (''routes'', Obj []), (''jobs'', Obj [])]"

definition durable_volume :: jsv where
  "durable_volume = Obj [(''durability'', Str ''durable''), (''backup'', Obj []), (''suitcase'', Obj [])]"

end
