(* ===== verification/SpecIdentity.thy ===== *)
theory SpecIdentity
  imports Samples
begin

text \<open>
  The identity of a compiled specification: its canonical JSON is the planner's canonical form, so two
  accepted manifests have the same digest text exactly when the change plan between them is the no-op;
  and when a compiled rollout passes the validator again, as \<open>parseStoredApplicationSpec\<close> requires.
\<close>


lemma spec_canonicalize_plain: "plain v \<Longrightarrow> spec_canonicalize v = Some (canonicalize v)"
proof (induction v)
  case (Num n)
  then show ?case by (cases n) auto
next
  case (Arr xs)
  then have e: "\<forall>x \<in> set xs. spec_canonicalize x = Some (canonicalize x)" by (auto simp: list_all_iff)
  then have "map (\<lambda>x. case spec_canonicalize x of Some y \<Rightarrow> y | None \<Rightarrow> Undef) xs = map canonicalize xs" by auto
  with e show ?case by (simp add: list_all_iff)
next
  case (Obj kvs)
  have e: "\<forall>kv \<in> set kvs. spec_canonicalize (snd kv) = Some (canonicalize (snd kv))"
  proof
    fix kv assume "kv \<in> set kvs"
    then show "spec_canonicalize (snd kv) = Some (canonicalize (snd kv))"
      using Obj.IH [of kv "snd kv"] Obj.prems by (auto simp: list_all_iff intro: snds.intros)
  qed
  then have m: "map (\<lambda>(k, x). (k, case spec_canonicalize x of Some y \<Rightarrow> y | None \<Rightarrow> Undef)) kvs
      = map (\<lambda>(k, v). (k, canonicalize v)) kvs" by auto
  from e show ?case unfolding spec_canonicalize.simps canonicalize.simps m by (simp add: list_all_iff)
qed simp_all

lemma canonical_json_plain: "plain v \<Longrightarrow> canonical_application_json v = Some (stable_json v)"
  by (simp add: canonical_application_json_def spec_canonicalize_plain stable_json_def plain_text)

lemma compile_result:
  assumes "doc m" "compile_application_manifest url sha256 m = Inr c"
  obtains i where "accepted_manifest url m ''application manifest'' = Inr i" "sound_manifest i"
    "spec_of c = compile_spec i" "canonical_json c = stable_json (spec_of c)"
    "digest_of c = ''sha256:'' @ sha256 (canonical_json c)"
proof -
  from assms(2) obtain i where i: "accepted_manifest url m ''application manifest'' = Inr i"
    by (auto simp: compile_application_manifest_def split: sum.splits)
  with assms(1) have s: "sound_manifest i" by (rule accepted_sound)
  from doc_compiled [OF s] have "canonical_application_json (compile_spec i) = Some (stable_json (compile_spec i))"
    by (simp add: doc_def canonical_json_plain)
  with assms(2) i have "c = \<lparr>spec_of = compile_spec i, canonical_json = stable_json (compile_spec i),
      digest_of = ''sha256:'' @ sha256 (stable_json (compile_spec i))\<rparr>"
    by (simp add: compile_application_manifest_def Let_def)
  with i s that show thesis by simp
qed



text \<open>The sample manifest compiled.\<close>

definition sample_compiled :: compiled_spec where
  "sample_compiled = projr (compile_application_manifest no_url sample_digest sample_manifest)"

lemma sample_compiles: "compile_application_manifest no_url sample_digest sample_manifest = Inr sample_compiled"
proof -
  obtain i where i: "accepted_manifest no_url sample_manifest ''application manifest'' = Inr i"
    using sample_accepted by (cases "accepted_manifest no_url sample_manifest ''application manifest''") auto
  then have "canonical_application_json (compile_spec i) \<noteq> None"
    using accepted_sound [OF sample_doc i] doc_compiled by (simp add: doc_def canonical_json_plain)
  with i show ?thesis by (auto simp: sample_compiled_def compile_application_manifest_def Let_def)
qed

text \<open>C40. Every compiled specification has the normalized shape the change planner relies on, and the
  planner finds no unsupported field in it.\<close>

theorem compiled_spec_is_plannable:
  assumes "doc m" "compile_application_manifest url sha256 m = Inr c"
  shows "normalized_spec (spec_of c) \<and> collect_unsupported_shape ck (spec_of c) = []"
  by (rule compile_result [OF assms]) (simp add: compiled_spec_is_normalized)

lemma compiled_spec_is_plannable_witness: "normalized_spec (spec_of sample_compiled)"
  using compiled_spec_is_plannable [OF sample_doc sample_compiles] by blast

text \<open>C34. Two compiled manifests have the same canonical text, hence the same digest input, exactly when
  the change plan between them is the single no-op action.\<close>

theorem no_op_iff_same_digest_text:
  assumes "doc m" "compile_application_manifest url sha256 m = Inr c"
    and "doc n" "compile_application_manifest url sha256 n = Inr d"
  shows "plan_actions (plan_application_change ck (spec_of c) (spec_of d) ctx) = [no_op_action]
    \<longleftrightarrow> canonical_json c = canonical_json d"
proof -
  have "normalized_spec (spec_of c)" "collect_unsupported_shape ck (spec_of c) = []"
    "normalized_spec (spec_of d)" "collect_unsupported_shape ck (spec_of d) = []"
    using compile_result [OF assms(1,2)] compile_result [OF assms(3,4)] compiled_spec_is_normalized by metis+
  moreover have "canonical_json c = stable_json (spec_of c)" "canonical_json d = stable_json (spec_of d)"
    using compile_result [OF assms(1,2)] compile_result [OF assms(3,4)] by metis+
  ultimately show ?thesis
    by (subst plan_no_op_semantic) (simp_all add: semantic_equal_def)
qed

lemma no_op_iff_same_digest_text_witness:
  "plan_actions (plan_application_change (\<lambda>_. []) (spec_of sample_compiled) (spec_of sample_compiled) default_context) = [no_op_action]"
  using no_op_iff_same_digest_text [OF sample_doc sample_compiles sample_doc sample_compiles] by blast

section \<open>Reading a compiled rollout back\<close>

text \<open>\<open>parseStoredApplicationSpec\<close> validates a stored specification as a manifest again.\<close>

text \<open>The compiled form of an accepted rollout passes the validator again unless it is a rolling
  release with an incompatible schema overlap or with neither surge nor unavailability: the defaults the
  compiler fills in are not checked by the first validation.\<close>

lemma compiled_rollout_revalidates_iff:
  assumes "fst (validate_rollout v p n) = []" "1 \<le> n" "n \<le> 256"
  shows "fst (validate_rollout (compile_rollout (snd (validate_rollout v p n)) (Num (JInt n))) q n) = [] \<longleftrightarrow>
    \<not> (fld v ''strategy'' \<in> {Undef, Str ''rolling''} \<and>
       (fld v ''schemaOverlap'' = Str ''incompatible'' \<or>
        int_of (fld v ''maxSurge'') = Some 0 \<and>
        (fld v ''maxUnavailable'' = Undef \<or> int_of (fld v ''maxUnavailable'') = Some 0)))"
proof -
  define s g u o' where f: "s = fld v ''strategy''" "g = fld v ''maxSurge''" "u = fld v ''maxUnavailable''" "o' = fld v ''schemaOverlap''"
  define S where S: "S = nullish s (Str ''rolling'')"
  define G where G: "G = nullish g (Num (JInt (if S = Str ''rolling'' then 1 else 0)))"
  define U where U: "U = nullish u (if S = Str ''rolling'' then Num (JInt 0) else Num (JInt n))"
  define O' where O': "O' = nullish o' (Str (if S = Str ''rolling'' then ''compatible'' else ''incompatible''))"
  have v: "v = Undef \<or> is_record v"
    using assms(1) by (auto simp: validate_rollout_def optional_section_def chk_record_def split: if_splits)
  then have out: "fld (snd (validate_rollout v p n)) k = fld v k"
    if "k \<in> {''strategy'', ''maxSurge'', ''maxUnavailable'', ''schemaOverlap''}" for k
    using that by (auto simp: validate_rollout_def optional_section_def chk_record_def Let_def fld_omit_undefined)
  have c: "compile_rollout (snd (validate_rollout v p n)) (Num (JInt n)) =
      Obj [(''strategy'', S), (''maxSurge'', G), (''maxUnavailable'', U), (''schemaOverlap'', O')]"
    by (simp add: compile_rollout_def out Let_def f [symmetric] S G U O')
  have e: "when_defined s (\<lambda>x. enumeration x [''rolling'', ''recreate'', ''maintenance''] (p @ ''.strategy'')) = [] \<and>
    when_defined g (\<lambda>x. chk_integer x (p @ ''.maxSurge'') 0 256) = [] \<and>
    when_defined u (\<lambda>x. chk_integer x (p @ ''.maxUnavailable'') 0 n) = [] \<and>
    when_defined o' (\<lambda>x. enumeration x [''compatible'', ''incompatible''] (p @ ''.schemaOverlap'')) = [] \<and>
    \<not> (s = Str ''rolling'' \<and> o' \<noteq> Str ''compatible'') \<and>
    \<not> (s = Str ''rolling'' \<and> int_of g = Some 0 \<and> int_of u = Some 0)"
  proof (cases "v = Undef")
    case True
    then show ?thesis by (simp add: f when_defined_def)
  next
    case False
    then have r: "chk_record v p = ([], v)" using v by (simp add: chk_record_def)
    from assms(1) False show ?thesis
      unfolding validate_rollout_def optional_section_def if_not_P [OF False] r unfold_checks f [symmetric]
      by (simp split: if_splits)
  qed
  have ex: "s = Str ''rolling'' \<Longrightarrow> o' = Str ''compatible''" "\<not> (s = Str ''rolling'' \<and> int_of g = Some 0 \<and> int_of u = Some 0)"
    using e by blast+
  have en: "when_defined x (\<lambda>x. enumeration x vs q) = [] \<Longrightarrow> x = Undef \<or> x \<in> Str ` set vs" for x vs q
    by (cases x) (auto simp: when_defined_def enumeration_def split: if_splits)
  have int: "when_defined x (\<lambda>x. chk_integer x q lo hi) = [] \<Longrightarrow> x = Undef \<or> (\<exists>z. int_of x = Some z \<and> lo \<le> z \<and> z \<le> hi)" for x q lo hi
    by (auto simp: when_defined_def chk_integer_def split: if_splits option.splits)
  have valid: "s \<in> {Undef, Str ''rolling'', Str ''recreate'', Str ''maintenance''}"
    "g = Undef \<or> (\<exists>z. int_of g = Some z \<and> 0 \<le> z \<and> z \<le> 256)"
    "u = Undef \<or> (\<exists>z. int_of u = Some z \<and> 0 \<le> z \<and> z \<le> n)"
    "o' \<in> {Undef, Str ''compatible'', Str ''incompatible''}"
    using en [OF e [THEN conjunct1]] int [OF e [THEN conjunct2, THEN conjunct1]]
      int [OF e [THEN conjunct2, THEN conjunct2, THEN conjunct1]] en [OF e [THEN conjunct2, THEN conjunct2, THEN conjunct2, THEN conjunct1]]
    by auto
  have again: "fst (validate_rollout (Obj [(''strategy'', S), (''maxSurge'', G), (''maxUnavailable'', U), (''schemaOverlap'', O')]) q n) = []
     \<longleftrightarrow> \<not> (S = Str ''rolling'' \<and> (O' \<noteq> Str ''compatible'' \<or> int_of G = Some 0 \<and> int_of U = Some 0))"
  proof -
    have SO: "S \<in> {Str ''rolling'', Str ''recreate'', Str ''maintenance''}" "O' \<in> {Str ''compatible'', Str ''incompatible''}"
      using valid(1,4) by (auto simp: S O' nullish_def)
    have GU: "\<exists>z. int_of G = Some z \<and> 0 \<le> z \<and> z \<le> 256" "\<exists>z. int_of U = Some z \<and> 0 \<le> z \<and> z \<le> n"
      using valid(2,3) assms(2) by (auto simp: G U nullish_def)
    have k: "enumeration S [''rolling'', ''recreate'', ''maintenance''] r = []" "enumeration O' [''compatible'', ''incompatible''] r = []"
      "chk_integer G r 0 256 = []" "chk_integer U r 0 n = []" for r
      using SO GU by (auto simp: enumeration_def chk_integer_def)
    have w: "when_defined S h = h S" "when_defined O' h = h O'" "when_defined G h = h G" "when_defined U h = h U" for h
      using SO GU by (auto simp: when_defined_def)
    show ?thesis
      unfolding validate_rollout_def optional_section_def chk_record_def unfold_checks
      by (simp add: fld_Obj_case w k unknown_fields_def obj_keys_def)
  qed
  show ?thesis unfolding c again f [symmetric] using valid ex by (auto simp: S G U O' nullish_def)
qed
lemma compiled_rollout_revalidates_iff_witness:
  "fst (validate_rollout (Obj [(''maxSurge'', Num (JInt 0))]) ''r'' 2) = []
   \<and> fst (validate_rollout (compile_rollout (snd (validate_rollout (Obj [(''maxSurge'', Num (JInt 0))]) ''r'' 2)) (Num (JInt 2))) ''r'' 2) \<noteq> []"
proof -
  have a: "fst (validate_rollout (Obj [(''maxSurge'', Num (JInt 0))]) ''r'' 2) = []" by code_simp
  show ?thesis
    using compiled_rollout_revalidates_iff [OF a, of "''r''"] a by (simp add: fld_Obj_case)
qed

end
