(* ===== verification/ExecutionFacts.thy ===== *)
theory ExecutionFacts
  imports Execution PlacementFacts SpecIdentity
begin

text \<open>
  The execution planner on accepted graphs: the order of components is a permutation that respects the
  dependencies whenever they are acyclic, the counts of a site stay in the declared bounds, and the
  references of a compiled specification all resolve.
\<close>

section \<open>Topological order\<close>

definition pending_state :: "(string \<Rightarrow> string list) \<Rightarrow> string list \<Rightarrow> string list \<Rightarrow> (string, string list) jmap" where
  "pending_state D names ordered =
     map (\<lambda>n. (n, filter (\<lambda>p. p \<notin> set ordered) (D n))) (filter (\<lambda>n. n \<notin> set ordered) names)"

definition edges :: "(string \<Rightarrow> string list) \<Rightarrow> string list \<Rightarrow> (string \<times> string) set" where
  "edges D names = {(a, b). a \<in> set names \<and> b \<in> set (D a)}"

lemma release_pending:
  "release n (ordered, pending_state D names ordered) = (ordered @ [n], pending_state D names (ordered @ [n]))"
  by (auto simp: release_def pending_state_def jm_delete_def filter_map comp_def intro!: map_cong filter_cong)

lemma release_all_pending:
  "fold release ns (ordered, pending_state D names ordered) = (ordered @ ns, pending_state D names (ordered @ ns))"
  by (induction ns arbitrary: ordered) (simp_all add: release_pending)

lemma ready_pending:
  "n \<in> set (ready_names (pending_state D names ordered)) \<longleftrightarrow>
     n \<in> set names \<and> n \<notin> set ordered \<and> set (D n) \<subseteq> set ordered"
proof -
  have "filter (\<lambda>p. p \<notin> set ordered) (D n) = [] \<longleftrightarrow> set (D n) \<subseteq> set ordered"
    by (auto simp: filter_empty_conv)
  then show ?thesis
    by (auto simp: ready_names_def pending_state_def filter_map comp_def image_image)
qed

lemma ready_distinct: "distinct names \<Longrightarrow> distinct (ready_names (pending_state D names ordered))"
  by (simp add: ready_names_def pending_state_def filter_map distinct_map inj_on_def comp_def)

definition topo_inv :: "(string \<Rightarrow> string list) \<Rightarrow> string list \<Rightarrow> string list \<Rightarrow> bool" where
  "topo_inv D names ordered \<longleftrightarrow> distinct ordered \<and> set ordered \<subseteq> set names \<and> post_ordered (edges D names) (rev ordered)"

lemma post_ordered_batch:
  assumes "post_ordered E (rev ordered)" "\<forall>n \<in> set ns. E `` {n} \<subseteq> set ordered"
  shows "post_ordered E (rev (ordered @ ns))"
  using assms(2)
proof (induction ns rule: rev_induct)
  case (snoc n ns)
  then show ?case by auto
qed (simp add: assms(1))

lemma topo_inv_batch:
  assumes "topo_inv D names ordered" "distinct names"
  shows "topo_inv D names (ordered @ ready_names (pending_state D names ordered))"
proof -
  let ?r = "ready_names (pending_state D names ordered)"
  have "post_ordered (edges D names) (rev (ordered @ ?r))"
    by (rule post_ordered_batch) (use assms in \<open>auto simp: topo_inv_def ready_pending edges_def\<close>)
  then show ?thesis
    using assms ready_distinct [OF assms(2)] by (auto simp: topo_inv_def ready_pending)
qed

lemma stuck_cyclic:
  assumes "\<forall>n \<in> set names. set (D n) \<subseteq> set names" "ready_names (pending_state D names ordered) = []"
    and "pending_state D names ordered \<noteq> []"
  shows "\<not> acyclic (edges D names)"
proof
  assume ac: "acyclic (edges D names)"
  have "edges D names \<subseteq> set names \<times> set names" using assms(1) by (auto simp: edges_def)
  then have "finite (edges D names)" by (rule finite_subset) simp
  then have wf: "wf ((edges D names)\<inverse>)" using ac by (rule finite_acyclic_wf_converse)
  let ?Q = "{n \<in> set names. n \<notin> set ordered}"
  from assms(3) obtain q where "q \<in> ?Q" by (auto simp: pending_state_def filter_empty_conv)
  from wf have "q \<in> Q \<Longrightarrow> \<exists>z \<in> Q. \<forall>y. (y, z) \<in> (edges D names)\<inverse> \<longrightarrow> y \<notin> Q" for q Q
    unfolding wf_eq_minimal by blast
  from this [OF \<open>q \<in> ?Q\<close>] obtain z where z: "z \<in> ?Q" "\<forall>y. (y, z) \<in> (edges D names)\<inverse> \<longrightarrow> y \<notin> ?Q"
    by (elim bexE) (rule that)
  have "z \<notin> set (ready_names (pending_state D names ordered))" using assms(2) by simp
  with z(1) obtain y where "y \<in> set (D z)" "y \<notin> set ordered" unfolding ready_pending by blast
  moreover from this z(1) assms(1) have "y \<in> set names" by blast
  ultimately have "y \<in> ?Q" "(y, z) \<in> (edges D names)\<inverse>" using z(1) by (simp_all add: edges_def)
  with z(2) show False by blast
qed

lemma topo_loop_result:
  assumes "distinct names" "\<forall>n \<in> set names. set (D n) \<subseteq> set names" "topo_inv D names ordered"
  shows "set (snd (topo_loop ordered (pending_state D names ordered))) = set names
    \<and> distinct (snd (topo_loop ordered (pending_state D names ordered)))
    \<and> (fst (topo_loop ordered (pending_state D names ordered)) = [] \<longrightarrow>
         post_ordered (edges D names) (rev (snd (topo_loop ordered (pending_state D names ordered)))))
    \<and> (fst (topo_loop ordered (pending_state D names ordered)) \<noteq> [] \<longrightarrow> \<not> acyclic (edges D names))"
  using assms(3)
proof (induction "length names - length ordered" arbitrary: ordered rule: less_induct)
  case less
  let ?p = "pending_state D names ordered"
  have sub: "set ordered \<subseteq> set names" "distinct ordered" using less.prems by (auto simp: topo_inv_def)
  consider (finished) "?p = []" | (stuck) "?p \<noteq> []" "ready_names ?p = []" | (go) "?p \<noteq> []" "ready_names ?p \<noteq> []" by blast
  then show ?case
  proof cases
    case finished
    then have "set names \<subseteq> set ordered" by (auto simp: pending_state_def filter_empty_conv)
    with finished less.prems sub show ?thesis by (subst (1 2 3 4 5) topo_loop.simps) (auto simp: topo_inv_def)
  next
    case stuck
    have d: "distinct (map fst ?p)" "set (map fst ?p) = set names - set ordered"
      using assms(1) by (auto simp: pending_state_def comp_def)
    have r: "topo_loop ordered ?p = ([error_finding ''COMPONENT_DEPENDENCY_CYCLE'' ''/components''
             (''Component dependency graph contains a cycle involving: '' @ js_join '', '' (sort (map fst ?p)))],
             ordered @ sort (map fst ?p))"
      using stuck by (subst topo_loop.simps) (simp add: Let_def)
    show ?thesis
      unfolding r using d sub stuck_cyclic [OF assms(2) stuck(2,1)] by auto
  next
    case go
    let ?o = "ordered @ ready_names ?p"
    have r: "topo_loop ordered ?p = topo_loop ?o (pending_state D names ?o)"
      using go by (subst topo_loop.simps) (simp add: release_all_pending)
    have inv: "topo_inv D names ?o" by (rule topo_inv_batch [OF less.prems assms(1)])
    then have "card (set ?o) \<le> card (set names)" by (intro card_mono) (auto simp: topo_inv_def)
    then have "length ?o \<le> length names" using inv assms(1) by (simp only: topo_inv_def distinct_card)
    moreover have "length ordered < length ?o" using go(2) by simp
    ultimately have "length names - length ?o < length names - length ordered" by linarith
    from less.hyps [OF this inv] show ?thesis unfolding r .
  qed
qed

lemma topo_loop_cycle_only: "\<forall>f \<in> set (fst (topo_loop ordered m)). rf_code f = ''COMPONENT_DEPENDENCY_CYCLE''"
  by (induction ordered m rule: topo_loop.induct) (subst topo_loop.simps, auto simp: Let_def split: prod.splits)

lemma topological_findings_are_errors: "f \<in> set (fst (topological_order spec deps)) \<Longrightarrow> is_error f"
proof -
  have "\<forall>f \<in> set (fst (topo_loop ordered m)). is_error f" for ordered m
    by (induction ordered m rule: topo_loop.induct) (subst topo_loop.simps, auto simp: Let_def split: prod.splits)
  then show "f \<in> set (fst (topological_order spec deps)) \<Longrightarrow> is_error f"
    by (auto simp: topological_order_def Let_def split_beta unknown_dependency_findings_def)
qed

lemma topological_order_facts:
  assumes d: "distinct (obj_keys (fld spec ''components''))"
    and k: "\<forall>n \<in> set (obj_keys (fld spec ''components'')). \<forall>d \<in> set (dependencies_of deps n).
        truthy (fld (fld spec ''components'') d) \<longrightarrow> has_own (fld spec ''components'') d"
  defines "names \<equiv> obj_keys (fld spec ''components'')" and "D \<equiv> known_dependencies spec deps"
  shows "distinct (snd (topological_order spec deps)) \<and> set (snd (topological_order spec deps)) = set names"
    and "acyclic (edges D names) \<Longrightarrow> post_ordered (edges D names) (rev (snd (topological_order spec deps)))"
    and "(\<exists>f \<in> set (fst (topological_order spec deps)). rf_code f = ''COMPONENT_DEPENDENCY_CYCLE'') \<longleftrightarrow> \<not> acyclic (edges D names)"
proof -
  have init: "map (\<lambda>n. (n, known_dependencies spec deps n)) names = pending_state D names []"
    by (simp add: pending_state_def D_def)
  have sub: "\<forall>n \<in> set names. set (D n) \<subseteq> set names"
    using k by (auto simp: D_def names_def known_dependencies_def has_own_def)
  have r: "snd (topological_order spec deps) = snd (topo_loop [] (pending_state D names []))"
    "fst (topological_order spec deps) =
       concat (map (unknown_dependency_findings spec deps) names) @ fst (topo_loop [] (pending_state D names []))"
    unfolding topological_order_def Let_def split_beta names_def [symmetric] init by simp_all
  note t = topo_loop_result [OF d [folded names_def] sub, of "[]", unfolded topo_inv_def, simplified]
  show "distinct (snd (topological_order spec deps)) \<and> set (snd (topological_order spec deps)) = set names"
    unfolding r using t by simp
  show "acyclic (edges D names) \<Longrightarrow> post_ordered (edges D names) (rev (snd (topological_order spec deps)))"
    unfolding r using t by blast
  have c: "\<forall>f \<in> set (fst (topo_loop [] (pending_state D names []))). rf_code f = ''COMPONENT_DEPENDENCY_CYCLE''"
    by (rule topo_loop_cycle_only)
  have u: "\<forall>f \<in> set (concat (map (unknown_dependency_findings spec deps) names)). rf_code f \<noteq> ''COMPONENT_DEPENDENCY_CYCLE''"
    by (auto simp: unknown_dependency_findings_def)
  have split: "(\<exists>f \<in> set (us @ ts). rf_code f = cd) \<longleftrightarrow> ts \<noteq> []"
    if "\<forall>f \<in> set us. rf_code f \<noteq> cd" "\<forall>f \<in> set ts. rf_code f = cd" for us ts :: "finding list" and cd
    using that by (cases ts) auto
  have "(\<exists>f \<in> set (fst (topological_order spec deps)). rf_code f = ''COMPONENT_DEPENDENCY_CYCLE'')
      \<longleftrightarrow> fst (topo_loop [] (pending_state D names [])) \<noteq> []"
    unfolding r by (rule split [OF u c])
  also have "\<dots> \<longleftrightarrow> \<not> acyclic (edges D names)"
  proof
    assume "\<not> acyclic (edges D names)"
    moreover have "acyclic (edges D names)" if "fst (topo_loop [] (pending_state D names [])) = []"
    proof -
      have "post_ordered (edges D names) (rev (snd (topo_loop [] (pending_state D names []))))" using t that by blast
      from post_ordered_acyclic [OF this] have "acyclic (edges D names \<inter> set names \<times> UNIV)" using t by simp
      moreover have "edges D names \<inter> set names \<times> UNIV = edges D names" by (auto simp: edges_def)
      ultimately show ?thesis by simp
    qed
    ultimately show "fst (topo_loop [] (pending_state D names [])) \<noteq> []" by blast
  qed (use t in blast)
  finally show "(\<exists>f \<in> set (fst (topological_order spec deps)). rf_code f = ''COMPONENT_DEPENDENCY_CYCLE'') \<longleftrightarrow> \<not> acyclic (edges D names)" .
qed

section \<open>Site counts\<close>

lemma site_count_cases:
  assumes "fld (fld c ''siteOverrides'') ''minimum'' = Num (JInt lo)" "fld (fld c ''siteOverrides'') ''maximum'' = Num (JInt hi)"
  shows "snd (site_count opts name c) = instances_of c
     \<or> (\<exists>n z. override_of opts name = Some n \<and> num_int n = Some z \<and> snd (site_count opts name c) = z \<and> lo \<le> z \<and> z \<le> hi)"
proof (cases "override_of opts name")
  case (Some n)
  show ?thesis
  proof (cases n)
    case (JInt z)
    with Some assms show ?thesis by (auto simp: site_count_def Let_def is_safe_integer_def)
  next
    case NegZero
    with Some assms show ?thesis by (auto simp: site_count_def Let_def is_safe_integer_def)
  qed (use Some assms in \<open>simp_all add: site_count_def Let_def is_safe_integer_def\<close>)
qed (simp add: site_count_def)

text \<open>The instance count of a site stays within the declared bounds, and an override is accepted
  without a finding exactly when it names a site, is allowed, and is an integer within the bounds.\<close>

lemma site_count_admitted:
  assumes "fld (fld c ''siteOverrides'') ''minimum'' = Num (JInt lo)" "fld (fld c ''siteOverrides'') ''maximum'' = Num (JInt hi)"
    and "lo \<le> instances_of c" "instances_of c \<le> hi"
  shows "lo \<le> snd (site_count opts name c) \<and> snd (site_count opts name c) \<le> hi
    \<and> (fst (site_count opts name c) = [] \<longleftrightarrow>
        (\<forall>n. override_of opts name = Some n \<longrightarrow>
           (\<exists>s. exec_target_site opts = Some s \<and> s \<noteq> []) \<and> truthy (fld (fld c ''siteOverrides'') ''allowed'')
           \<and> (\<exists>z. num_int n = Some z \<and> \<bar>z\<bar> \<le> max_safe_integer \<and> lo \<le> z \<and> z \<le> hi)))"
proof -
  have b: "lo \<le> snd (site_count opts name c) \<and> snd (site_count opts name c) \<le> hi"
    using site_count_cases [OF assms(1,2), of opts name] assms(3,4) by auto
  have bounds: "is_safe_integer n \<and> \<not> num_lt n (JInt lo) \<and> \<not> num_lt (JInt hi) n \<longleftrightarrow>
      (\<exists>z. num_int n = Some z \<and> \<bar>z\<bar> \<le> max_safe_integer \<and> lo \<le> z \<and> z \<le> hi)" for n
    by (cases n) (auto simp: is_safe_integer_def max_safe_integer_def)
  have "fst (site_count opts name c) = [] \<longleftrightarrow> (exec_target_site opts \<noteq> None \<and> exec_target_site opts \<noteq> Some [])
      \<and> truthy (fld (fld c ''siteOverrides'') ''allowed'')
      \<and> is_safe_integer n \<and> \<not> num_lt n (JInt lo) \<and> \<not> num_lt (JInt hi) n"
    if "override_of opts name = Some n" for n
    using that assms(1,2) by (auto simp: site_count_def Let_def split: option.splits)
  with b show ?thesis
    by (cases "override_of opts name") (auto simp: bounds site_count_def [of opts name c])
qed

lemma site_count_admitted_witness:
  "snd (site_count \<lparr>unresolved_configuration = None, exec_target_site = Some ''home'', instance_overrides = Some [(''web'', JInt 3)]\<rparr> ''web''
     (Obj [(''instances'', Num (JInt 2)), (''siteOverrides'', Obj [(''allowed'', Bool True), (''minimum'', Num (JInt 1)), (''maximum'', Num (JInt 4))])])) \<le> 4"
proof -
  let ?c = "Obj [(''instances'', Num (JInt 2)), (''siteOverrides'', Obj [(''allowed'', Bool True), (''minimum'', Num (JInt 1)), (''maximum'', Num (JInt 4))])]"
  have "fld (fld ?c ''siteOverrides'') ''minimum'' = Num (JInt 1)" "fld (fld ?c ''siteOverrides'') ''maximum'' = Num (JInt 4)"
    "1 \<le> instances_of ?c" "instances_of ?c \<le> 4" by (code_simp+)
  from site_count_admitted [OF this] show ?thesis by blast
qed

section \<open>An accepted graph resolves\<close>

lemma accepted_references:
  assumes "accepted_manifest url m src = Inr i"
  shows "validate_graph_references (fld i ''configuration'') (fld i ''components'') (fld i ''resources'') (fld i ''routes'') (fld i ''jobs'') src = []"
proof -
  have "fst (validate_application_manifest url m src) = []" "i = snd (validate_application_manifest url m src)"
    using assms by (auto simp: accepted_manifest_def split: prod.splits if_splits)
  then show ?thesis
    unfolding validate_application_manifest_def unfold_checks by (simp add: fld_omit_undefined)
qed

lemma sorted_record_own: "has_own (sorted_record f v) k \<longleftrightarrow> has_own v k \<and> k \<noteq> ''__proto__''"
  by (force simp: has_own_def obj_keys_def sorted_record_fields image_iff)

lemma sorted_record_fld:
  assumes "doc v" "has_own v k" "k \<noteq> ''__proto__''"
  shows "fld (sorted_record f v) k = f (fld v k)"
proof -
  have e: "(k, fld v k) \<in> set (own_fields v)" using assms(2) by (rule own_entry)
  obtain kvs where k: "sorted_record f v = Obj kvs" by (simp add: sorted_record_def)
  have "distinct (map fst kvs)"
  proof -
    have "distinct (map fst (filter (\<lambda>kv. fst kv \<noteq> ''__proto__'') (sort_key fst (map (\<lambda>(k, x). (k, f x)) (own_fields v)))))"
      using doc_own [OF assms(1)] by (intro distinct_map_filter) (simp add: distinct_sort_key case_prod_beta comp_def)
    then show ?thesis using k by (simp add: sorted_record_def) (metis distinct_keys_js_order)
  qed
  moreover have "(k, f (fld v k)) \<in> set kvs"
    using e assms(3) sorted_record_fields [of f v] k by auto
  ultimately show ?thesis unfolding k by (intro fld_Obj) simp
qed

lemma items_sort_strings: "set (map str_of (arr_items (sort_strings v))) = set (map str_of (arr_items v))"
  by (auto simp: sort_strings_def image_image)

lemma or_empty_nullish: "or_empty_obj v = nullish v (Obj [])" "or_empty_arr v = nullish v (Arr [])"
  by (simp_all add: or_empty_obj_def or_empty_arr_def)

lemma concat_nil_member: "concat (map f xs) = [] \<Longrightarrow> x \<in> set xs \<Longrightarrow> f x = []"
  by auto

lemma truthy_own: "own_name d \<Longrightarrow> truthy (fld v d) \<Longrightarrow> has_own v d"
  by (intro own_fld_defined) (auto simp: own_name_def)

lemma fold_set_keys: "set (jm_keys (fold (\<lambda>x m. jm_set m (k x) (v x)) xs m)) = set (jm_keys m) \<union> k ` set xs"
proof (induction xs arbitrary: m)
  case (Cons x xs)
  show ?case unfolding fold_Cons comp_apply Cons.IH js_map.set_keys_put by auto
qed simp

lemma service_keys:
  "set (jm_keys (application_services app sp)) =
     {n @ ''.'' @ j | n j c. (n, c) \<in> set (own_fields (fld sp ''components'')) \<and> j \<in> set (obj_keys (fld c ''interfaces''))}"
proof -
  have "set (jm_keys (fold (\<lambda>(name, c). fold (\<lambda>(i, endpoint) m. jm_set m (name @ ''.'' @ i) (h name i endpoint))
      (own_fields (fld c ''interfaces''))) cs m)) = set (jm_keys m) \<union>
     {n @ ''.'' @ j | n j c. (n, c) \<in> set cs \<and> j \<in> set (obj_keys (fld c ''interfaces''))}"
    for cs m and h :: "string \<Rightarrow> string \<Rightarrow> jsv \<Rightarrow> stable_service"
  proof (induction cs arbitrary: m)
    case (Cons nc cs)
    obtain n c where nc: "nc = (n, c)" by fastforce
    have one: "set (jm_keys (fold (\<lambda>(i, endpoint) m. jm_set m (n @ ''.'' @ i) (h n i endpoint)) fs m))
       = set (jm_keys m) \<union> (\<lambda>f. n @ ''.'' @ fst f) ` set fs" for fs m
    proof -
      have "(\<lambda>(i, endpoint) m. jm_set m (n @ ''.'' @ i) (h n i endpoint)) = (\<lambda>f m. jm_set m (n @ ''.'' @ fst f) (h n (fst f) (snd f)))"
        by (simp add: fun_eq_iff)
      then show ?thesis by (simp only: fold_set_keys)
    qed
    show ?case unfolding fold_Cons comp_apply Cons.IH unfolding nc prod.case one
      by (auto simp: obj_keys_def simp del: append_Cons append.append_Cons)
  qed simp
  from this [of "\<lambda>name i endpoint. \<lparr>sv_id = stable_service_id app name i, sv_application = app, sv_component = name,
      sv_interface = i, sv_protocol = fld endpoint ''protocol'', sv_port = fld endpoint ''port''\<rparr>" "own_fields (fld sp ''components'')" "[]"]
  show ?thesis by (simp add: application_services_def)
qed

lemma has_own_nullish: "has_own (nullish v (Obj [])) b \<Longrightarrow> has_own v b"
  by (cases v) (auto simp: nullish_def has_own_def obj_keys_def)

locale accepted_graph =
  fixes i :: jsv and src :: string
  assumes sound: "sound_manifest i"
    and references: "validate_graph_references (fld i ''configuration'') (fld i ''components'') (fld i ''resources'')
        (fld i ''routes'') (fld i ''jobs'') src = []"
begin

abbreviation spec :: jsv where "spec \<equiv> compile_spec i"
abbreviation comps :: jsv where "comps \<equiv> fld i ''components''"
abbreviation ress :: jsv where "ress \<equiv> or_empty_obj (fld i ''resources'')"

lemma comps_valid: "valid_section node_name component_ok comps"
  using sound by (simp add: sound_manifest_def)

lemma comps_doc: "doc comps" "is_record comps"
  using comps_valid by (auto simp: valid_section_def)

lemma comp_name: "has_own comps k \<Longrightarrow> node_name k"
  using comps_valid own_entry [of comps k] by (auto simp: valid_section_def)

lemma spec_component: "(n, c) \<in> set (own_fields (fld spec ''components'')) \<longleftrightarrow>
    (\<exists>d. (n, d) \<in> set (own_fields comps) \<and> c = compile_component d \<and> n \<noteq> ''__proto__'')"
  by (auto simp: compiled_spec_fields sorted_record_fields)

lemma spec_has_component: "has_own (fld spec ''components'') k \<longleftrightarrow> has_own comps k"
  using comp_name by (auto simp: compiled_spec_fields sorted_record_own node_name_def own_name_def)

lemma spec_component_truthy: "own_name d \<Longrightarrow> truthy (fld (fld spec ''components'') d) \<longleftrightarrow> has_own comps d"
proof
  assume "own_name d" "truthy (fld (fld spec ''components'') d)"
  then show "has_own comps d" using truthy_own spec_has_component by blast
next
  assume "has_own comps d"
  moreover then have "d \<noteq> ''__proto__''" using comp_name by (auto simp: node_name_def own_name_def)
  ultimately have "fld (fld spec ''components'') d = compile_component (fld comps d)"
    unfolding compiled_spec_fields using comps_doc by (intro sorted_record_fld)
  then show "truthy (fld (fld spec ''components'') d)" by (simp add: compile_component_def Let_def omit_undefined_def)
qed

lemma component_checked:
  assumes "(n, d) \<in> set (own_fields comps)"
  shows "component_reference_issues (nullish (fld i ''configuration'') (Obj [])) comps (nullish (fld i ''resources'') (Obj [])) src n d = []"
  using references unfolding validate_graph_references_def Let_def append_is_Nil_conv
  by (elim conjE) (drule concat_nil_member [OF _ assms], simp)

lemmas component_parts = component_checked [unfolded component_reference_issues_def Let_def append_is_Nil_conv]

lemma own_component: "(n, d) \<in> set (own_fields comps) \<Longrightarrow> fld comps n = d \<and> has_own comps n"
  using comps_doc by (cases comps) (auto simp: fld_Obj has_own_def obj_keys_def rev_image_eqI)

lemma explicit_known:
  assumes "(n, d) \<in> set (own_fields comps)" "x \<in> set (map str_of (arr_items (or_empty_arr (fld d ''dependsOn''))))"
  shows "has_own comps x"
proof -
  have "x \<in> set (depends_on comps n)" using assms own_component by (simp add: depends_on_def or_empty_nullish)
  from concat_nil_member [OF component_parts [OF assms(1), THEN conjunct2, THEN conjunct2, THEN conjunct1] this]
  show ?thesis by (simp split: if_splits)
qed

lemma mount_known:
  assumes "(n, d) \<in> set (own_fields comps)" "(p, m) \<in> set (own_fields (or_empty_obj (fld d ''mounts'')))"
  shows "has_own ress (js_string (fld m ''resource''))"
  using concat_nil_member [OF component_parts [OF assms(1), THEN conjunct2, THEN conjunct2, THEN conjunct2, THEN conjunct1], of "(p, m)"] assms(2)
  by (simp add: entries_of_def or_empty_nullish split: if_splits)

lemma environment_known:
  assumes "(n, d) \<in> set (own_fields comps)" "(v, r) \<in> set (own_fields (or_empty_obj (fld d ''environment'')))"
  shows "starts_with (reference_from r) configuration_prefix \<or> hd (split_on (CHR ''.'') (reference_from r)) = []
     \<or> has_own comps (hd (split_on (CHR ''.'') (reference_from r)))"
proof -
  have v: "value_reference_issues (nullish (fld i ''configuration'') (Obj [])) comps r (src @ ''.components.'' @ n @ ''.environment.'' @ v) = []"
    using concat_nil_member [OF component_parts [OF assms(1), THEN conjunct1], of "(v, r)"] assms(2)
    by (simp add: entries_of_def or_empty_nullish)
  show ?thesis
  proof (cases "is_str (fld r ''from'')")
    case True
    let ?parts = "split_on (CHR ''.'') (str_of (fld r ''from''))"
    from v True have l: "length ?parts = 2" by (simp add: value_reference_issues_def Let_def split: if_splits)
    then obtain a b where ab: "?parts = [a, b]" by (auto simp: length_Suc_conv numeral_2_eq_2)
    have "str_of (fld r ''from'') = a @ ''.'' @ b" using join_split [of "CHR ''.''" "str_of (fld r ''from'')"] unfolding ab by simp
    with v True ab show ?thesis
      by (auto simp: value_reference_issues_def Let_def reference_from_def configuration_prefix_def starts_with_iff split: if_splits)
  next
    case False
    then have "reference_from r = []" by (cases "fld r ''from''") (auto simp: reference_from_def)
    then show ?thesis by simp
  qed
qed

lemma infer_fold:
  "set (snd (fold (\<lambda>kv. infer_step sp n (snd kv)) kvs st)) \<subseteq> set (snd st) \<union>
     {x. \<exists>kv \<in> set kvs. x = hd (split_on (CHR ''.'') (reference_from (snd kv)))
        \<and> \<not> starts_with (reference_from (snd kv)) configuration_prefix \<and> truthy (fld (fld sp ''components'') x)}"
proof (induction kvs arbitrary: st)
  case (Cons kv kvs)
  have "set (snd (infer_step sp n (snd kv) st)) \<subseteq> set (snd st) \<union>
     {x. x = hd (split_on (CHR ''.'') (reference_from (snd kv)))
        \<and> \<not> starts_with (reference_from (snd kv)) configuration_prefix \<and> truthy (fld (fld sp ''components'') x)}"
    by (cases st) (auto simp: infer_step_def Let_def)
  with Cons.IH [of "infer_step sp n (snd kv) st"] show ?case by fastforce
qed simp

lemma empty_name: "own_name []" "\<not> has_own comps []"
proof -
  show "own_name []" by (simp add: own_name_def proto_functions_def)
  show "\<not> has_own comps []" using comp_name by (auto simp: node_name_def section_name_def)
qed

lemma dependency_known:
  assumes "x \<in> set (dependencies_of (snd (infer_dependencies spec)) n)"
  shows "has_own comps x"
proof -
  from assms obtain c where "(n, c) \<in> set (own_fields (fld spec ''components''))"
    and x: "x \<in> set (snd (component_dependencies spec n c))"
  proof -
    from assms obtain ds where "jm_get (snd (infer_dependencies spec)) n = Some ds" "x \<in> set ds"
      by (cases "jm_get (snd (infer_dependencies spec)) n") (auto simp: dependencies_of_def)
    with that show thesis by (auto simp: infer_dependencies_def Let_def dest!: map_of_SomeD)
  qed
  then obtain d where d: "(n, d) \<in> set (own_fields comps)" "c = compile_component d" by (auto simp: spec_component)
  from x consider "x \<in> set (map str_of (arr_items (fld c ''dependsOn'')))"
    | kv where "kv \<in> set (own_fields (fld c ''environment''))" "x = hd (split_on (CHR ''.'') (reference_from (snd kv)))"
        "\<not> starts_with (reference_from (snd kv)) configuration_prefix" "truthy (fld (fld spec ''components'') x)"
    using infer_fold [of spec n "own_fields (fld c ''environment'')" "([], uniq (map str_of (arr_items (fld c ''dependsOn''))))"]
    by (auto simp: component_dependencies_def split_beta simp del: set_map)
  then show ?thesis
  proof cases
    case 1
    then show ?thesis using explicit_known [OF d(1)] by (simp add: d(2) compiled_component_fields items_sort_strings del: set_map)
  next
    case 2
    from 2(1) have "kv \<in> set (own_fields (or_empty_obj (fld d ''environment'')))"
      by (auto simp: d(2) compiled_component_fields sorted_record_fields)
    then consider "x = []" | "has_own comps x"
      using environment_known [OF d(1), of "fst kv" "snd kv"] 2 by auto
    then show ?thesis using spec_component_truthy [OF empty_name(1)] 2(4) by cases auto
  qed
qed

lemma no_unknown_dependency: "unknown_dependency_findings spec (snd (infer_dependencies spec)) n = []"
proof -
  have "truthy (fld (fld spec ''components'') d)" if "d \<in> set (dependencies_of (snd (infer_dependencies spec)) n)" for d
    using dependency_known [OF that] spec_component_truthy [of d] comp_name [of d] by (auto simp: node_name_def)
  then show ?thesis by (auto simp: unknown_dependency_findings_def filter_empty_conv)
qed

lemma known_dependencies_all:
  "set (known_dependencies spec (snd (infer_dependencies spec)) n) = set (dependencies_of (snd (infer_dependencies spec)) n)"
  using dependency_known spec_component_truthy comp_name by (auto simp: known_dependencies_def node_name_def)

lemma spec_component_names: "distinct (obj_keys (fld spec ''components''))"
proof -
  have "js_wf spec" "is_record (fld spec ''components'')" using compiled_spec_is_normalized [OF sound] by (simp_all add: normalized_spec_def)
  moreover from this(2) have "has_own spec ''components''" by (intro own_fld_defined) (auto simp: proto_functions_def)
  ultimately show ?thesis using fld_wf [of spec "''components''"] by (cases "fld spec ''components''") (auto simp: obj_keys_def)
qed

lemma no_unknown_findings:
  "fst (topological_order spec (snd (infer_dependencies spec))) = []
   \<longleftrightarrow> \<not> (\<exists>f \<in> set (fst (topological_order spec (snd (infer_dependencies spec)))). rf_code f = ''COMPONENT_DEPENDENCY_CYCLE'')"
proof -
  have "concat (map (unknown_dependency_findings spec (snd (infer_dependencies spec))) ns) = []" for ns
    by (simp add: no_unknown_dependency)
  then obtain m where "fst (topological_order spec (snd (infer_dependencies spec))) = fst (topo_loop [] m)"
    unfolding topological_order_def Let_def split_beta by simp
  then show ?thesis using topo_loop_cycle_only [of "[]" m] by (cases "fst (topo_loop [] m)") auto
qed

lemma execution_order_facts:
  defines "deps \<equiv> snd (infer_dependencies spec)" and "names \<equiv> obj_keys (fld spec ''components'')"
  shows "distinct (snd (topological_order spec deps))"
    and "set (snd (topological_order spec deps)) = set names"
    and "fst (topological_order spec deps) = [] \<longleftrightarrow> acyclic (edges (dependencies_of deps) names)"
    and "acyclic (edges (dependencies_of deps) names) \<Longrightarrow>
      post_ordered (edges (dependencies_of deps) names) (rev (snd (topological_order spec deps)))"
proof -
  have own: "\<forall>n \<in> set names. \<forall>d \<in> set (dependencies_of deps n).
        truthy (fld (fld spec ''components'') d) \<longrightarrow> has_own (fld spec ''components'') d"
    using dependency_known spec_has_component by (auto simp: deps_def)
  have e: "edges (known_dependencies spec deps) names = edges (dependencies_of deps) names"
    by (auto simp: edges_def known_dependencies_all deps_def)
  note t = topological_order_facts [OF spec_component_names, of deps, folded names_def, OF own, unfolded e]
  show "distinct (snd (topological_order spec deps))" "set (snd (topological_order spec deps)) = set names"
    using t(1) by simp_all
  show "fst (topological_order spec deps) = [] \<longleftrightarrow> acyclic (edges (dependencies_of deps) names)"
    using t(3) no_unknown_findings by (simp add: deps_def)
  show "acyclic (edges (dependencies_of deps) names) \<Longrightarrow>
      post_ordered (edges (dependencies_of deps) names) (rev (snd (topological_order spec deps)))"
    by (rule t(2))
qed

lemma ress_valid: "valid_section node_name (\<lambda>r. within [''type'', ''hostPath''] (fld r ''source'')) ress"
  using sound by (simp add: sound_manifest_def)

lemma resource_known: "has_own ress r \<Longrightarrow> known_resource spec r"
proof -
  assume h: "has_own ress r"
  then have "r \<noteq> ''__proto__''" using ress_valid own_entry [OF h] by (auto simp: valid_section_def node_name_def own_name_def)
  with h have "fld (fld spec ''resources'') r = compile_resource (fld ress r)"
    unfolding compiled_spec_fields using ress_valid by (intro sorted_record_fld) (auto simp: valid_section_def)
  then show ?thesis by (simp add: known_resource_def compile_resource_def Let_def omit_undefined_def)
qed

lemma mounts_resolve: "fst (group_mounts spec counts) = []"
proof -
  have "known_resource spec (mount_resource m)" if "(n, c, p, m) \<in> set (mount_triples spec)" for n c p m
  proof -
    from that have "(n, c) \<in> set (own_fields (fld spec ''components''))" "(p, m) \<in> set (own_fields (fld c ''mounts''))"
      by (auto simp: mount_triples_def)
    then obtain d where d: "(n, d) \<in> set (own_fields comps)" "c = compile_component d" by (auto simp: spec_component)
    with \<open>(p, m) \<in> _\<close> obtain m' where m: "(p, m') \<in> set (own_fields (or_empty_obj (fld d ''mounts'')))" "m = compile_mount m'"
      by (auto simp: compiled_component_fields sorted_record_fields)
    then have "mount_resource m = js_string (fld m' ''resource'')"
      by (simp add: mount_resource_def compile_mount_def fld_Obj_case)
    with mount_known [OF d(1) m(1)] resource_known show ?thesis by simp
  qed
  then show ?thesis unfolding group_mounts_findings by fastforce
qed

lemma routes_resolve:
  assumes "(n, r) \<in> set (own_fields (fld spec ''routes''))"
  shows "\<exists>p. plan_route (application_services app spec) n r = Inr p"
proof -
  let ?routes = "or_empty_obj (fld i ''routes'')"
  obtain r' where r: "(n, r') \<in> set (own_fields ?routes)" "r = compile_route r'"
    using assms by (auto simp: compiled_spec_fields sorted_record_fields)
  have "is_str (fld r' ''to'')" using sound r(1) by (fastforce simp: sound_manifest_def valid_section_def)
  then obtain t where t: "fld r' ''to'' = Str t" by (cases "fld r' ''to''") auto
  have "route_reference_issues comps src n r' = []"
    using references r(1) unfolding validate_graph_references_def Let_def append_is_Nil_conv or_empty_nullish
    by (elim conjE) (drule (1) concat_nil_member, simp)
  with t have res: "resolve_interface_reference t comps \<noteq> None"
    by (auto simp: route_reference_issues_def Let_def split: option.splits)
  let ?parts = "split_on (CHR ''.'') t"
  from res have "length ?parts = 2" by (auto simp: resolve_interface_reference_def Let_def split: if_splits)
  then obtain a b where ab: "?parts = [a, b]" by (auto simp: length_Suc_conv numeral_2_eq_2)
  have tab: "t = a @ ''.'' @ b" using join_split [of "CHR ''.''" t] unfolding ab by simp
  from res ab have o: "has_own comps a" "has_own (nullish (fld (fld comps a) ''interfaces'') (Obj [])) b"
    by (auto simp: resolve_interface_reference_def Let_def split: if_splits)
  have e: "(a, fld comps a) \<in> set (own_fields comps)" using o(1) by (rule own_entry)
  have np: "a \<noteq> ''__proto__''" using comp_name [OF o(1)] by (simp add: node_name_def own_name_def)
  have "\<not> has_own (fld (fld comps a) ''interfaces'') ''__proto__''"
    using comps_valid e by (fastforce simp: valid_section_def component_ok_def)
  with has_own_nullish [OF o(2)] have bn: "b \<noteq> ''__proto__''" by metis
  have "(a, compile_component (fld comps a)) \<in> set (own_fields (fld spec ''components''))"
    using e np by (auto simp: spec_component)
  moreover have "b \<in> set (obj_keys (fld (compile_component (fld comps a)) ''interfaces''))"
    using o(2) bn sorted_record_own [of "\<lambda>x. x" _ b] by (simp add: compiled_component_fields or_empty_nullish has_own_def)
  ultimately have "t \<in> set (jm_keys (application_services app spec))"
    unfolding service_keys tab by blast
  then obtain s where "jm_get (application_services app spec) t = Some s"
    by (metis map_of_eq_None_iff not_None_eq set_map)
  then show ?thesis by (simp add: plan_route_def r(2) compile_route_def fld_omit_undefined t)
qed

end


text \<open>
  The graph the compiler continues with: the validated manifest, or the empty graph where the
  manifest is rejected.
\<close>

definition empty_graph :: jsv where
  "empty_graph = Obj [(''components'', Obj [])]"

definition admitted_graph :: "url_parser \<Rightarrow> jsv \<Rightarrow> jsv" where
  "admitted_graph url m =
     (if doc m then case accepted_manifest url m ''application manifest'' of Inr i \<Rightarrow> i | Inl _ \<Rightarrow> empty_graph
      else empty_graph)"

lemma admitted_sound:
  "sound_manifest (admitted_graph url m)"
  "validate_graph_references (fld (admitted_graph url m) ''configuration'') (fld (admitted_graph url m) ''components'')
     (fld (admitted_graph url m) ''resources'') (fld (admitted_graph url m) ''routes'') (fld (admitted_graph url m) ''jobs'')
     ''application manifest'' = []"
proof -
  have e: "sound_manifest empty_graph"
    "validate_graph_references (fld empty_graph ''configuration'') (fld empty_graph ''components'')
     (fld empty_graph ''resources'') (fld empty_graph ''routes'') (fld empty_graph ''jobs'') ''application manifest'' = []"
    subgoal by (simp add: sound_manifest_def empty_graph_def valid_section_def fld_Obj_case or_empty_obj_def nullish_def)
    subgoal by code_simp
    done
  show "sound_manifest (admitted_graph url m)"
    using e accepted_sound [of m url] by (auto simp: admitted_graph_def split: sum.split)
  show "validate_graph_references (fld (admitted_graph url m) ''configuration'') (fld (admitted_graph url m) ''components'')
     (fld (admitted_graph url m) ''resources'') (fld (admitted_graph url m) ''routes'') (fld (admitted_graph url m) ''jobs'')
     ''application manifest'' = []"
    using e accepted_references [of url m] by (auto simp: admitted_graph_def split: sum.split)
qed

interpretation admitted: accepted_graph "admitted_graph url m" "''application manifest''" for url m
  by unfold_locales (rule admitted_sound)+

lemma compiled_graph:
  assumes "doc m" "compile_application_manifest url sha256 m = Inr c"
  shows "spec_of c = compile_spec (admitted_graph url m)"
  using assms by (auto simp: compile_application_manifest_def admitted_graph_def Let_def split: sum.splits option.splits)

text \<open>C37. In a compiled specification every dependency, mount and route resolves: the execution planner
  never reports an unknown dependency, an unknown volume or an unknown route target.\<close>

theorem accepted_graph_resolves:
  assumes "doc m" "compile_application_manifest url sha256 m = Inr c"
  shows "(\<forall>n. unknown_dependency_findings (spec_of c) (snd (infer_dependencies (spec_of c))) n = [])
    \<and> fst (group_mounts (spec_of c) counts) = []
    \<and> list_all (\<lambda>(n, r). \<not> isl (plan_route (application_services app (spec_of c)) n r)) (own_fields (fld (spec_of c) ''routes''))"
  unfolding compiled_graph [OF assms]
proof (intro conjI allI)
  fix n show "unknown_dependency_findings (compile_spec (admitted_graph url m)) (snd (infer_dependencies (compile_spec (admitted_graph url m)))) n = []"
    by (rule admitted.no_unknown_dependency)
next
  show "fst (group_mounts (compile_spec (admitted_graph url m)) counts) = []" by (rule admitted.mounts_resolve)
next
  have "\<not> isl (plan_route (application_services app (compile_spec (admitted_graph url m))) n r)"
    if "(n, r) \<in> set (own_fields (fld (compile_spec (admitted_graph url m)) ''routes''))" for n r
    using admitted.routes_resolve [OF that, of app] by auto
  then show "list_all (\<lambda>(n, r). \<not> isl (plan_route (application_services app (compile_spec (admitted_graph url m))) n r))
     (own_fields (fld (compile_spec (admitted_graph url m)) ''routes''))"
    by (auto simp: list_all_iff)
qed

lemma accepted_graph_resolves_witness:
  "fst (group_mounts (spec_of sample_compiled) []) = []"
  using accepted_graph_resolves [OF sample_doc sample_compiles] by blast

lemma post_ordered_before:
  "post_ordered E (rev (before @ n # after)) \<Longrightarrow> E `` {n} \<subseteq> set before"
  by (induction after rule: rev_induct) auto

text \<open>C36. The order of the execution plan lists every component once; it is free of a cycle finding
  exactly when the dependencies are acyclic, and then every component comes after its dependencies.\<close>

theorem execution_order:
  assumes "doc m" "compile_application_manifest url sha256 m = Inr c"
    and "deps = snd (infer_dependencies (spec_of c))" "names = obj_keys (fld (spec_of c) ''components'')"
    and "order = xp_order (plan_application_execution ck digest registry app (spec_of c) opts spec_digest shared target)"
  shows "distinct order \<and> set order = set names
    \<and> (fst (topological_order (spec_of c) deps) = [] \<longleftrightarrow> acyclic (edges (dependencies_of deps) names))
    \<and> (acyclic (edges (dependencies_of deps) names) \<longrightarrow>
         (\<forall>before n after. order = before @ n # after \<longrightarrow> set (dependencies_of deps n) \<subseteq> set before))"
proof -
  let ?s = "compile_spec (admitted_graph url m)"
  note s = compiled_graph [OF assms(1,2)]
  have o: "order = snd (topological_order ?s deps)"
    unfolding assms(5) s assms(3) plan_application_execution_def by (simp add: Let_def split_beta)
  note f = admitted.execution_order_facts [of url m, folded assms(3,4) [unfolded s], folded o]
  have "set (dependencies_of deps n) \<subseteq> set before"
    if "acyclic (edges (dependencies_of deps) names)" "order = before @ n # after" for before n after
  proof -
    have "n \<in> set names" using f(2) that(2) by auto
    moreover have "edges (dependencies_of deps) names `` {n} \<subseteq> set before"
      using f(4) [OF that(1)] post_ordered_before unfolding that(2) by metis
    ultimately show ?thesis by (auto simp: edges_def)
  qed
  with f(1-3) show ?thesis unfolding s by blast
qed

lemma execution_order_witness:
  "set (xp_order (plan_application_execution (\<lambda>_. []) (\<lambda>_. None) ([] :: unit profile_registry) ''shop'' (spec_of sample_compiled)
       \<lparr>unresolved_configuration = None, exec_target_site = None, instance_overrides = None\<rparr> None None None))
   = set (obj_keys (fld (spec_of sample_compiled) ''components''))"
  using execution_order [OF sample_doc sample_compiles refl refl refl] by blast

end
