(* ===== verification/PlanProperties.thy ===== *)
theory PlanProperties
  imports Samples
begin

text \<open>
  What a change plan guarantees: its shape and its approval flag, what it says about the data of the
  application, and how it treats a durable resource.
\<close>

text \<open>A change plan is never empty, lists its actions sorted by address, classification and reason
  without duplicates, and asks for approval whenever it is destructive or blocked.\<close>

lemma plan_is_guarded:
  assumes "p = plan_application_change ck s t ctx"
  shows "plan_actions p \<noteq> []
    \<and> sorted (map (\<lambda>a. (act_address a, act_class a, act_reason a)) (plan_actions p))
    \<and> distinct (map action_identity (plan_actions p))
    \<and> (plan_destructive p \<or> plan_blocked p \<longrightarrow> plan_requires_approval p)"
  using plan_sorted_distinct destructive_needs_approval
  unfolding assms by (auto simp: plan_actions_eq Let_def)

lemma plan_is_guarded_witness:
  "plan_actions (plan_application_change (\<lambda>_. []) (volume_spec []) (volume_spec []) default_context) \<noteq> []"
  using plan_is_guarded [OF refl] by blast

lemma durable_normal: "normalized_spec (volume_spec [(''v'', durable_volume)])" "normalized_spec (volume_spec [])"
    "collect_unsupported_shape (\<lambda>_. []) (volume_spec [(''v'', durable_volume)]) = []" "collect_unsupported_shape (\<lambda>_. []) (volume_spec []) = []"
  by (code_simp+)

text \<open>The data impact of a plan partitions the resources of the two specifications: created,
  removed, recreated and preserved are exactly the new, the missing, the changed and the equal keys.\<close>

lemma resource_impact_lists:
  assumes s: "normalized_spec s" and t: "normalized_spec t"
    and c: "collect_unsupported_shape ck s = []" "collect_unsupported_shape ck t = []"
    and i: "i = plan_impacts (plan_application_change ck s t ctx)"
    and b: "before = fld s ''resources''" and a: "after = fld t ''resources''"
  shows "set (created_resources i) = set (obj_keys after) - set (obj_keys before)
    \<and> set (removed_resources i) = set (obj_keys before) - set (obj_keys after)
    \<and> set (recreated_resources i) =
        {k \<in> set (obj_keys before) \<inter> set (obj_keys after). \<not> semantic_equal (fld before k) (fld after k)}
    \<and> set (preserved_resources i) =
        {k \<in> set (obj_keys before) \<inter> set (obj_keys after). semantic_equal (fld before k) (fld after k)}"
proof -
  have n: "node_section before" "node_section after" using s t a b by (auto simp: normalized_spec_def)
  have tr: "truthy (fld after k) \<longleftrightarrow> k \<in> set (obj_keys after)" if "k \<in> set (obj_keys before)" for k
    using node_truthy [OF n(2) _ n(1), of k] that by (simp add: has_own_def)
  note keys = in_resource_keys [OF s t c, of _ _ ctx, unfolded plan_flags [symmetric]]
  have rc: "resource_class s t k = Some Resource_create \<longleftrightarrow> k \<in> set (obj_keys after) - set (obj_keys before)"
    "resource_class s t k = Some Resource_remove \<longleftrightarrow> k \<in> set (obj_keys before) - set (obj_keys after)"
    "resource_class s t k = Some Resource_recreate \<or> resource_class s t k = Some Resource_incompatible_change
       \<longleftrightarrow> k \<in> set (obj_keys before) \<inter> set (obj_keys after) \<and> \<not> semantic_equal (fld before k) (fld after k)" for k
    unfolding resource_class_def Let_def a [symmetric] b [symmetric] has_own_def by auto
  show ?thesis
    unfolding i plan_flags impact_lists a [symmetric] b [symmetric]
    by (auto simp: keys rc tr set_eq_iff)
qed

lemma resource_impact_lists_witness:
  "set (removed_resources (plan_impacts (plan_application_change (\<lambda>_. []) (volume_spec [(''v'', durable_volume)]) (volume_spec []) default_context))) = {''v''}"
proof -
  have "obj_keys (fld (volume_spec [(''v'', durable_volume)]) ''resources'') = [''v'']" "obj_keys (fld (volume_spec []) ''resources'') = []" by (code_simp+)
  with resource_impact_lists [OF durable_normal(1,2) durable_normal(3,4) refl refl refl, of default_context] show ?thesis by simp
qed

lemma durable_change_destructive:
  assumes s: "normalized_spec s" and t: "normalized_spec t"
    and c: "collect_unsupported_shape ck s = []" "collect_unsupported_shape ck t = []"
    and d: "removal_policy_of ctx = Delete" "has_own (fld s ''resources'') k" "is_durable s k"
    and ne: "\<not> semantic_equal (fld (fld s ''resources'') k) (fld (fld t ''resources'') k)"
  shows "plan_destructive (plan_application_change ck s t ctx)
    \<and> k \<in> set (destructive_resources s t (plan_actions (plan_application_change ck s t ctx)))"
proof -
  let ?xs = "plan_actions (plan_application_change ck s t ctx)"
  obtain cl where cl: "resource_class s t k = Some cl" "cl \<in> {Resource_remove, Resource_incompatible_change}"
    using d ne by (cases "has_own (fld t ''resources'') k") (auto simp: resource_class_def Let_def)
  then obtain a where a: "a \<in> set ?xs" "act_class a = cl"
    using resource_class_in_plan [OF s t c, of cl ctx "pointer [''resources'', k]"] by auto
  then have "a \<in> set (all_actions ck Delete s t)" using in_plan_actions [OF a(1)] cl d(1) by (auto simp: no_op_action_def)
  then have "act_destructive a"
    using cl(2) a(2) unfolding in_all_actions
    by (elim disjE bexE) (auto dest: small_section_cases component_action_cases(2) resource_action_cases(5,6))
  then show ?thesis
    using a(1) cl d(3) in_resource_keys [OF s t c, of _ k ctx] by (auto simp: plan_flags destructive_resources_def)
qed

text \<open>C33. Under the default removal policy, removing or changing a durable resource always makes the plan
  destructive, asks for approval, requires a backup of that resource and announces required downtime.\<close>

theorem durable_change_is_guarded:
  assumes s: "normalized_spec s" and t: "normalized_spec t"
    and c: "collect_unsupported_shape ck s = []" "collect_unsupported_shape ck t = []"
    and d: "removal_policy_of ctx = Delete" "has_own (fld s ''resources'') k" "is_durable s k"
    and ne: "\<not> semantic_equal (fld (fld s ''resources'') k) (fld (fld t ''resources'') k)"
    and p: "p = plan_application_change ck s t ctx"
  shows "plan_destructive p \<and> plan_requires_approval p
    \<and> backup_disposition_of (plan_impacts p) = Backup_required
    \<and> k \<in> set (backup_resources (plan_impacts p))
    \<and> downtime_expectation (plan_impacts p) = Required_downtime"
proof -
  have pd: "plan_destructive p" "k \<in> set (destructive_resources s t (plan_actions p))"
    using durable_change_destructive [OF s t c d ne] p by auto
  then have "destructive_resources s t (plan_actions p) \<noteq> []" by auto
  from impact_backup [OF this [unfolded p] d(1)] pd show ?thesis
    unfolding p plan_flags(4) using destructive_needs_approval [of ck s t ctx] by auto
qed

lemma durable_change_is_guarded_witness:
  "plan_requires_approval (plan_application_change (\<lambda>_. []) (volume_spec [(''v'', durable_volume)]) (volume_spec []) default_context)"
proof -
  let ?s = "volume_spec [(''v'', durable_volume)]"
  have d: "removal_policy_of default_context = Delete" by (simp add: removal_policy_of_def default_context_def)
  have "has_own (fld ?s ''resources'') ''v''" "is_durable ?s ''v''"
    "\<not> semantic_equal (fld (fld ?s ''resources'') ''v'') (fld (fld (volume_spec []) ''resources'') ''v'')" by (code_simp+)
  from durable_change_is_guarded [OF durable_normal(1,2) durable_normal(3,4) d this refl] show ?thesis by blast
qed

end
