(* ===== verification/Reconciler.thy ===== *)
theory Reconciler
  imports Execution
begin

text \<open>
  \<open>application-reconciler.ts\<close>: one pass of the reconciler, which turns a desired execution plan and the
  instances observed on a node into the actions that converge them. Lists of identifiers stand for the
  sets of the source; the time of the pass is an argument; \<open>None\<close> is the \<open>TypeError\<close> a missing
  component raises.
\<close>

section \<open>Observed instances, actions and status\<close>

datatype instance_status = Starting | Ready | Unready | Failed | Draining | Stopped

record endpoint =
  ep_id :: string
  ep_service :: string
  ep_host :: string
  ep_port :: int

record node_instance =
  in_id :: string
  in_component :: string
  in_slot :: string
  in_release :: string
  in_configuration :: string
  in_status :: instance_status
  in_endpoints :: "endpoint list"
  in_drain_deadline :: "int option"
  in_flight :: "int option"

datatype rec_action =
    Create_instance string string string string "string option" string
  | Probe_instance string string
  | Admit_endpoint string string endpoint
  | Withdraw_endpoint string string string string string
  | Begin_drain string string int string
  | Remove_instance string string string

datatype component_state = Blocked_state | Waiting_state | Progressing_state | Degraded_state | Ready_state

record component_status =
  cs_component :: string
  cs_desired :: int
  cs_ready :: int
  cs_state :: component_state
  cs_reason :: "string option"

record reconcile_options =
  ro_configuration :: string
  ro_now :: int
  ro_drain_timeout :: "int option"
  ro_accepted_releases :: "string list option"
  ro_accepted_configurations :: "string list option"
  ro_admitted :: "string list option"
  ro_gates :: "(string, bool) jmap option"

record reconcile_plan =
  rp_actions :: "rec_action list"
  rp_components :: "(string, component_status) jmap"
  rp_state :: component_state

definition listed :: "'a list option \<Rightarrow> 'a list" where
  "listed xs = (case xs of None \<Rightarrow> [] | Some ys \<Rightarrow> ys)"

definition admitted_ids :: "reconcile_options \<Rightarrow> string list" where
  "admitted_ids o' = listed (ro_admitted o')"

definition spec_digest_of :: "'p execution_plan \<Rightarrow> string" where
  "spec_digest_of desired = (case xp_digest desired of None \<Rightarrow> [] | Some d \<Rightarrow> d)"

section \<open>Withdrawing and retiring\<close>

definition withdraw :: "reconcile_options \<Rightarrow> string \<Rightarrow> node_instance \<Rightarrow> string \<Rightarrow> rec_action list" where
  "withdraw opts c i reason =
     map (\<lambda>e. Withdraw_endpoint c (in_id i) (ep_id e) (ep_service e) reason)
       (filter (\<lambda>e. ep_id e \<in> set (admitted_ids opts)) (in_endpoints i))"

definition drain_over :: "reconcile_options \<Rightarrow> node_instance \<Rightarrow> bool" where
  "drain_over opts i \<longleftrightarrow>
     (case in_flight i of None \<Rightarrow> 0 | Some n \<Rightarrow> n) = 0
     \<or> (case in_drain_deadline i of None \<Rightarrow> False | Some d \<Rightarrow> d \<le> ro_now opts)"

definition drain_deadline :: "reconcile_options \<Rightarrow> int" where
  "drain_deadline opts = ro_now opts + (case ro_drain_timeout opts of None \<Rightarrow> 30000 | Some t \<Rightarrow> t)"

definition retire_actions :: "reconcile_options \<Rightarrow> string \<Rightarrow> node_instance \<Rightarrow> string \<Rightarrow> rec_action list" where
  "retire_actions opts c i reason = withdraw opts c i reason @
     (case in_status i of
        Draining \<Rightarrow> (if drain_over opts i
          then [Remove_instance c (in_id i) ''Connection drain completed or reached its deadline''] else [])
      | Starting \<Rightarrow> [Remove_instance c (in_id i) reason]
      | Failed \<Rightarrow> [Remove_instance c (in_id i) reason]
      | Unready \<Rightarrow> [Remove_instance c (in_id i) reason]
      | _ \<Rightarrow> [Begin_drain c (in_id i) (drain_deadline opts) reason])"

text \<open>The actions so far, the identifiers being retired and the rolling creates that remain.\<close>

type_synonym pass = "rec_action list \<times> string list \<times> int"

definition emit :: "rec_action list \<Rightarrow> pass \<Rightarrow> pass" where
  "emit xs st = (fst st @ xs, snd st)"

definition retire :: "reconcile_options \<Rightarrow> string \<Rightarrow> string \<Rightarrow> node_instance \<Rightarrow> pass \<Rightarrow> pass" where
  "retire opts c reason i st =
     (fst st @ retire_actions opts c i reason, in_id i # fst (snd st), snd (snd st))"

section \<open>One slot\<close>

definition rollout_count :: "'p component_plan \<Rightarrow> string \<Rightarrow> int" where
  "rollout_count p f = (case int_of (fld (cp_rollout p) f) of Some z \<Rightarrow> z | None \<Rightarrow> 0)"

definition is_rolling :: "'p component_plan \<Rightarrow> bool" where
  "is_rolling p \<longleftrightarrow> fld (cp_rollout p) ''strategy'' = Str ''rolling''"

definition is_desired :: "string \<Rightarrow> reconcile_options \<Rightarrow> node_instance \<Rightarrow> bool" where
  "is_desired digest opts i \<longleftrightarrow> in_release i = digest \<and> in_configuration i = ro_configuration opts"

definition stop_first_reason :: "'p component_plan \<Rightarrow> string" where
  "stop_first_reason p =
     (if fld (cp_rollout p) ''strategy'' = Str ''maintenance''
      then ''Maintenance rollout withdraws the old release before replacement''
      else ''Recreate rollout stops the old release before replacement'')"

definition create_reason :: "node_instance option \<Rightarrow> string" where
  "create_reason replacing =
     (case replacing of None \<Rightarrow> ''Desired instance is absent''
      | Some _ \<Rightarrow> ''Create a health-gated replacement before draining the previous instance'')"

text \<open>Creating the instance of a slot, or draining its occupant first out of declared capacity.\<close>

definition fill_slot ::
  "reconcile_options \<Rightarrow> string \<Rightarrow> 'p component_plan \<Rightarrow> string \<Rightarrow> node_instance list \<Rightarrow> string \<Rightarrow> pass \<Rightarrow> pass" where
  "fill_slot opts c p digest instances slot st =
     (let replacing = find (\<lambda>i. in_status i \<noteq> Failed \<and> in_status i \<noteq> Stopped) (filter (\<lambda>i. in_slot i = slot) instances);
          creates = snd (snd st) in
      if \<not> is_rolling p \<or> replacing = None \<or> creates > 0
      then (fst st @ [Create_instance c slot digest (ro_configuration opts) (map_option in_id replacing) (create_reason replacing)],
            fst (snd st), if is_rolling p \<and> replacing \<noteq> None then creates - 1 else creates)
      else (case replacing of
              None \<Rightarrow> st
            | Some old \<Rightarrow>
                if rollout_count p ''maxUnavailable'' > 0
                   \<and> int (length (filter (\<lambda>i. in_status i = Ready \<and> in_id i \<notin> set (fst (snd st))) instances)) > cp_minimum_ready p
                then retire opts c ''Rolling replacement uses declared unavailable capacity before create'' old st
                else st))"

definition watch_desired :: "reconcile_options \<Rightarrow> string \<Rightarrow> node_instance \<Rightarrow> rec_action list" where
  "watch_desired opts c i =
     (if in_status i = Starting then [Probe_instance c (in_id i)]
      else if in_status i = Failed \<or> in_status i = Unready
      then withdraw opts c i ''Instance is not ready''
        @ (if in_status i = Failed then [Remove_instance c (in_id i) ''Failed desired instance will be replaced''] else [])
      else [])"

definition reconcile_slot ::
  "reconcile_options \<Rightarrow> string \<Rightarrow> 'p component_plan \<Rightarrow> string \<Rightarrow> bool \<Rightarrow> node_instance list \<Rightarrow> string \<Rightarrow> pass \<Rightarrow> pass" where
  "reconcile_slot opts c p digest dependencies_ready instances slot st =
     (let occupants = filter (\<lambda>i. in_slot i = slot) instances;
          desired_occupants = filter (is_desired digest opts) occupants;
          healthy = find (\<lambda>i. in_status i = Ready) desired_occupants;
          pending = find (\<lambda>i. in_status i = Starting) desired_occupants;
          stale = filter (\<lambda>i. \<not> is_desired digest opts i) occupants in
      if \<not> is_rolling p \<and> list_ex (\<lambda>i. in_status i \<noteq> Stopped) stale
      then fold (retire opts c (stop_first_reason p)) stale st
      else
        (let filled = (if healthy = None \<and> pending = None \<and> dependencies_ready
                       then fill_slot opts c p digest instances slot st else st);
             watched = emit (concat (map (watch_desired opts c) desired_occupants)) filled in
         case healthy of
           None \<Rightarrow> watched
         | Some h \<Rightarrow> fold (retire opts c ''A healthy desired-release replacement is ready'')
                      (filter (\<lambda>i. in_id i \<noteq> in_id h) occupants) watched))"

section \<open>One component\<close>

definition traffic_gate :: "reconcile_options \<Rightarrow> string \<Rightarrow> bool" where
  "traffic_gate opts c = (case ro_gates opts of None \<Rightarrow> True | Some m \<Rightarrow> jm_get m c \<noteq> Some False)"

definition is_accepted :: "string \<Rightarrow> reconcile_options \<Rightarrow> node_instance \<Rightarrow> bool" where
  "is_accepted digest opts i \<longleftrightarrow>
     (in_release i = digest \<or> in_release i \<in> set (listed (ro_accepted_releases opts)))
     \<and> (in_configuration i = ro_configuration opts \<or> in_configuration i \<in> set (listed (ro_accepted_configurations opts)))"

definition is_routable :: "reconcile_options \<Rightarrow> string \<Rightarrow> string \<Rightarrow> string list \<Rightarrow> node_instance \<Rightarrow> bool" where
  "is_routable opts c digest retiring i \<longleftrightarrow>
     in_status i = Ready \<and> is_accepted digest opts i \<and> traffic_gate opts c \<and> in_id i \<notin> set retiring"

definition endpoint_actions :: "reconcile_options \<Rightarrow> string \<Rightarrow> string \<Rightarrow> string list \<Rightarrow> node_instance \<Rightarrow> rec_action list" where
  "endpoint_actions opts c digest retiring i =
     concat (map (\<lambda>e.
       if is_routable opts c digest retiring i \<and> ep_id e \<notin> set (admitted_ids opts) then [Admit_endpoint c (in_id i) e]
       else if \<not> is_routable opts c digest retiring i \<and> ep_id e \<in> set (admitted_ids opts)
       then [Withdraw_endpoint c (in_id i) (ep_id e) (ep_service e)
               (if \<not> traffic_gate opts c then ''A before-traffic lifecycle job has not completed''
                else if \<not> is_accepted digest opts i then ''Instance release or configuration is not accepted for traffic''
                else ''Instance is not ready'')]
       else []) (in_endpoints i))"

definition live_instances :: "string \<Rightarrow> node_instance list \<Rightarrow> node_instance list" where
  "live_instances c actual = filter (\<lambda>i. in_component i = c \<and> in_status i \<noteq> Stopped) actual"

definition initial_creates :: "'p component_plan \<Rightarrow> node_instance list \<Rightarrow> int" where
  "initial_creates p instances =
     max 0 (rollout_count p ''maxSurge'' - max 0 (int (length instances) - cp_desired p))"

definition component_pass ::
  "reconcile_options \<Rightarrow> string \<Rightarrow> 'p component_plan \<Rightarrow> string \<Rightarrow> bool \<Rightarrow> node_instance list \<Rightarrow> pass" where
  "component_pass opts c p digest dependencies_ready instances =
     fold (reconcile_slot opts c p digest dependencies_ready instances) (cp_slots p)
       (fold (retire opts c ''Instance exceeds the fixed desired count'')
          (filter (\<lambda>i. in_slot i \<notin> set (cp_slots p)) instances) ([], [], initial_creates p instances))"

definition component_actions_of ::
  "reconcile_options \<Rightarrow> string \<Rightarrow> 'p component_plan \<Rightarrow> string \<Rightarrow> bool \<Rightarrow> node_instance list \<Rightarrow> rec_action list" where
  "component_actions_of opts c p digest dependencies_ready instances =
     (let st = component_pass opts c p digest dependencies_ready instances in
      fst st @ concat (map (endpoint_actions opts c digest (fst (snd st))) instances))"

definition ready_count :: "string \<Rightarrow> reconcile_options \<Rightarrow> node_instance list \<Rightarrow> int" where
  "ready_count digest opts instances =
     int (length (filter (\<lambda>i. in_status i = Ready \<and> is_desired digest opts i) instances))"

definition component_status_of ::
  "reconcile_options \<Rightarrow> string \<Rightarrow> 'p component_plan \<Rightarrow> string \<Rightarrow> bool \<Rightarrow> node_instance list \<Rightarrow> component_status" where
  "component_status_of opts c p digest dependencies_ready instances =
     (let ready = ready_count digest opts instances in
      \<lparr>cs_component = c, cs_desired = cp_desired p, cs_ready = ready,
       cs_state =
         (if \<not> dependencies_ready then Waiting_state
          else if ready = cp_desired p then Ready_state
          else if list_ex (\<lambda>i. in_status i = Ready \<and> is_accepted digest opts i) instances \<or> ready \<ge> cp_minimum_ready p
          then Degraded_state else Progressing_state),
       cs_reason = (if dependencies_ready then None else Some ''Waiting for required components to become ready'')\<rparr>)"

section \<open>The whole graph\<close>

text \<open>\<open>dependencies.every\<close>: stops at the first dependency that is not ready.\<close>

fun dependencies_ready ::
  "(string, component_status) jmap \<Rightarrow> (string, 'p component_plan) jmap \<Rightarrow> string list \<Rightarrow> bool option" where
  "dependencies_ready statuses comps [] = Some True"
| "dependencies_ready statuses comps (d # ds) =
     (case jm_get comps d of
        None \<Rightarrow> None
      | Some q \<Rightarrow>
          if map_option cs_ready (jm_get statuses d) = Some (cp_desired q)
          then dependencies_ready statuses comps ds else Some False)"

definition blocked_dependency :: "(string, component_status) jmap \<Rightarrow> string list \<Rightarrow> string option" where
  "blocked_dependency statuses ds =
     (case find (\<lambda>d. map_option cs_state (jm_get statuses d) = Some Blocked_state) ds of
        Some d \<Rightarrow> if d = [] then None else Some d
      | None \<Rightarrow> None)"

definition block_reason :: "'p component_plan \<Rightarrow> string option \<Rightarrow> string option" where
  "block_reason p blocked =
     (if cp_blocked p then map_option rf_message (find is_error (cp_findings p))
      else (case blocked of None \<Rightarrow> None | Some d \<Rightarrow> Some (''Required component '' @ quote_str d @ '' is blocked'')))"

definition retire_reason :: "string option \<Rightarrow> string" where
  "retire_reason reason =
     (case reason of None \<Rightarrow> ''Component admission is blocked''
      | Some r \<Rightarrow> if r = [] then ''Component admission is blocked'' else r)"

definition reconcile_component ::
  "'p execution_plan \<Rightarrow> node_instance list \<Rightarrow> reconcile_options \<Rightarrow> (string, component_status) jmap \<Rightarrow> string
   \<Rightarrow> (rec_action list \<times> component_status) option" where
  "reconcile_component desired actual opts statuses c =
     (case jm_get (xp_components desired) c of
        None \<Rightarrow> None
      | Some p \<Rightarrow>
          (let instances = live_instances c actual; digest = spec_digest_of desired in
           case dependencies_ready statuses (xp_components desired) (cp_dependencies p) of
             None \<Rightarrow> None
           | Some deps_ready \<Rightarrow>
               (let blocked = blocked_dependency statuses (cp_dependencies p) in
                if cp_blocked p \<or> blocked \<noteq> None then
                  (let reason = block_reason p blocked in
                   Some (concat (map (\<lambda>i. retire_actions opts c i (retire_reason reason)) instances),
                     \<lparr>cs_component = c, cs_desired = cp_desired p, cs_ready = 0, cs_state = Blocked_state, cs_reason = reason\<rparr>))
                else
                  Some (component_actions_of opts c p digest deps_ready instances,
                    component_status_of opts c p digest deps_ready instances))))"

fun reconcile_all ::
  "'p execution_plan \<Rightarrow> node_instance list \<Rightarrow> reconcile_options \<Rightarrow> string list
   \<Rightarrow> rec_action list \<times> (string, component_status) jmap \<Rightarrow> (rec_action list \<times> (string, component_status) jmap) option" where
  "reconcile_all desired actual opts [] st = Some st"
| "reconcile_all desired actual opts (c # cs) st =
     (case reconcile_component desired actual opts (snd st) c of
        None \<Rightarrow> None
      | Some (acts, status) \<Rightarrow> reconcile_all desired actual opts cs (fst st @ acts, jm_set (snd st) c status))"

definition overall_state :: "bool \<Rightarrow> component_state list \<Rightarrow> component_state" where
  "overall_state blocked states =
     (if blocked \<or> Blocked_state \<in> set states then Blocked_state
      else if list_all (\<lambda>s. s = Ready_state) states then Ready_state
      else if list_ex (\<lambda>s. s = Degraded_state \<or> s = Ready_state) states then Degraded_state
      else Progressing_state)"

text \<open>Two actions have the same JSON text exactly when they are equal, so the filter keeps first occurrences.\<close>

definition deduplicate_actions :: "rec_action list \<Rightarrow> rec_action list" where
  "deduplicate_actions actions = uniq actions"

definition reconcile_application ::
  "'p execution_plan \<Rightarrow> node_instance list \<Rightarrow> reconcile_options \<Rightarrow> reconcile_plan option" where
  "reconcile_application desired actual opts =
     (case reconcile_all desired actual opts (xp_order desired) ([], []) of
        None \<Rightarrow> None
      | Some (acts, statuses) \<Rightarrow>
          Some \<lparr>rp_actions = deduplicate_actions acts, rp_components = statuses,
                rp_state = overall_state (xp_blocked desired) (map (\<lambda>(_, s). cs_state s) statuses)\<rparr>)"

end
