(* ===== verification/ReconcilerFacts.thy ===== *)
theory ReconcilerFacts
  imports Reconciler
begin

text \<open>
  What one pass of the reconciler may do: the actions a component can receive, the instance that keeps
  serving a slot, the bound on surge, and the order in which components are started.
\<close>

section \<open>One pass over a component\<close>

lemma retire_all:
  "fold (retire opts c r) is st =
     (fst st @ concat (map (\<lambda>i. retire_actions opts c i r) is), rev (map in_id is) @ fst (snd st), snd (snd st))"
  by (induction "is" arbitrary: st) (simp_all add: retire_def)

lemma fill_slot_cases:
  obtains (create) old where "old = find (\<lambda>i. in_status i \<noteq> Failed \<and> in_status i \<noteq> Stopped) (filter (\<lambda>i. in_slot i = slot) instances)"
      "\<not> is_rolling p \<or> old = None \<or> snd (snd st) > 0"
      "fill_slot opts c p digest instances slot st =
        (fst st @ [Create_instance c slot digest (ro_configuration opts) (map_option in_id old) (create_reason old)],
         fst (snd st), if is_rolling p \<and> old \<noteq> None then snd (snd st) - 1 else snd (snd st))"
  | (drain) old where "old \<in> set instances" "in_slot old = slot" "is_rolling p"
      "int (length (filter (\<lambda>i. in_status i = Ready \<and> in_id i \<notin> set (fst (snd st))) instances)) > cp_minimum_ready p"
      "fill_slot opts c p digest instances slot st =
         retire opts c ''Rolling replacement uses declared unavailable capacity before create'' old st"
  | (wait) "fill_slot opts c p digest instances slot st = st" "is_rolling p"
proof -
  let ?f = "find (\<lambda>i. in_status i \<noteq> Failed \<and> in_status i \<noteq> Stopped) (filter (\<lambda>i. in_slot i = slot) instances)"
  let ?go = "\<not> is_rolling p \<or> ?f = None \<or> snd (snd st) > 0"
  let ?room = "rollout_count p ''maxUnavailable'' > 0
     \<and> int (length (filter (\<lambda>i. in_status i = Ready \<and> in_id i \<notin> set (fst (snd st))) instances)) > cp_minimum_ready p"
  show thesis
  proof (cases ?go)
    case True
    then show thesis by (intro create [of ?f]) (simp_all add: fill_slot_def Let_def)
  next
    case False
    then obtain old where old: "?f = Some old" by auto
    then have o: "old \<in> set instances" "in_slot old = slot" by (auto simp: find_Some_iff dest: nth_mem)
    show thesis
    proof (cases ?room)
      case True
      with False old o show thesis by (intro drain [of old]) (simp_all add: fill_slot_def Let_def)
    next
      case no: False
      from False have "fill_slot opts c p digest instances slot st = st"
        unfolding fill_slot_def Let_def if_not_P [OF False] old option.case if_not_P [OF no] by simp
      with False show thesis by (intro wait) simp_all
    qed
  qed
qed

abbreviation occupants :: "node_instance list \<Rightarrow> string \<Rightarrow> node_instance list" where
  "occupants instances slot \<equiv> filter (\<lambda>i. in_slot i = slot) instances"

definition healthy_in :: "string \<Rightarrow> reconcile_options \<Rightarrow> node_instance list \<Rightarrow> string \<Rightarrow> node_instance option" where
  "healthy_in digest opts instances slot =
     find (\<lambda>i. in_status i = Ready) (filter (is_desired digest opts) (occupants instances slot))"

definition pending_in :: "string \<Rightarrow> reconcile_options \<Rightarrow> node_instance list \<Rightarrow> string \<Rightarrow> node_instance option" where
  "pending_in digest opts instances slot =
     find (\<lambda>i. in_status i = Starting) (filter (is_desired digest opts) (occupants instances slot))"

definition watch_actions :: "reconcile_options \<Rightarrow> string \<Rightarrow> string \<Rightarrow> node_instance list \<Rightarrow> string \<Rightarrow> rec_action list" where
  "watch_actions opts c digest instances slot =
     concat (map (watch_desired opts c) (filter (is_desired digest opts) (occupants instances slot)))"

text \<open>The four ways a slot is handled.\<close>

lemma reconcile_slot_cases:
  obtains (stop_first) "\<not> is_rolling p"
      "reconcile_slot opts c p digest ready instances slot st =
         fold (retire opts c (stop_first_reason p)) (filter (\<lambda>i. \<not> is_desired digest opts i) (occupants instances slot)) st"
  | (fill) "healthy_in digest opts instances slot = None" "pending_in digest opts instances slot = None" "ready"
      "reconcile_slot opts c p digest ready instances slot st =
         emit (watch_actions opts c digest instances slot) (fill_slot opts c p digest instances slot st)"
  | (watch) "healthy_in digest opts instances slot = None"
      "reconcile_slot opts c p digest ready instances slot st = emit (watch_actions opts c digest instances slot) st"
  | (serve) h where "healthy_in digest opts instances slot = Some h"
      "reconcile_slot opts c p digest ready instances slot st =
         fold (retire opts c ''A healthy desired-release replacement is ready'')
           (filter (\<lambda>i. in_id i \<noteq> in_id h) (occupants instances slot)) (emit (watch_actions opts c digest instances slot) st)"
proof -
  let ?go = "\<not> is_rolling p \<and> list_ex (\<lambda>i. in_status i \<noteq> Stopped) (filter (\<lambda>i. \<not> is_desired digest opts i) (occupants instances slot))"
  note d = reconcile_slot_def Let_def healthy_in_def [symmetric] pending_in_def [symmetric] watch_actions_def [symmetric]
  show thesis
  proof (cases ?go)
    case True
    then show thesis by (intro stop_first) (simp_all only: d if_True simp_thms)
  next
    case no: False
    show thesis
    proof (cases "healthy_in digest opts instances slot")
      case None
      show thesis
      proof (cases "pending_in digest opts instances slot = None \<and> ready")
        case True
        with None no show thesis by (intro fill) (simp_all only: d if_True if_False simp_thms option.case)
      next
        case False
        with None no show thesis by (intro watch) (simp_all only: d if_True if_False simp_thms option.case)
      qed
    next
      case (Some h)
      with no show thesis by (intro serve [of h]) (simp_all only: d if_True if_False simp_thms option.case option.distinct)
    qed
  qed
qed

text \<open>What every action of a pass over a component may be.\<close>

definition permitted ::
  "reconcile_options \<Rightarrow> string \<Rightarrow> string list \<Rightarrow> string \<Rightarrow> bool \<Rightarrow> node_instance list \<Rightarrow> string list \<Rightarrow> rec_action \<Rightarrow> bool" where
  "permitted opts c slots digest ready instances retiring a =
     (case a of
        Create_instance c' s d cf old r \<Rightarrow> c' = c \<and> ready \<and> s \<in> set slots \<and> d = digest \<and> cf = ro_configuration opts
      | Probe_instance c' k \<Rightarrow> c' = c
      | Admit_endpoint c' k e \<Rightarrow> False
      | Withdraw_endpoint c' k e s r \<Rightarrow> c' = c \<and> (k \<in> set retiring \<or> (\<exists>i \<in> set instances. in_id i = k \<and> in_status i \<noteq> Ready))
      | Begin_drain c' k d r \<Rightarrow> c' = c \<and> k \<in> set retiring
      | Remove_instance c' k r \<Rightarrow> c' = c \<and> (\<exists>i \<in> set instances. in_id i = k \<and> in_status i \<noteq> Ready))"

lemma permitted_mono: "set r \<subseteq> set r' \<Longrightarrow> permitted opts c slots digest ready instances r a
    \<Longrightarrow> permitted opts c slots digest ready instances r' a"
  by (auto simp: permitted_def split: rec_action.splits)

lemma not_ready_instance:
  "i \<in> set instances \<Longrightarrow> in_status i \<noteq> Ready \<Longrightarrow> \<exists>j \<in> set instances. in_id j = in_id i \<and> in_status j \<noteq> Ready"
  by blast

lemma retire_permitted:
  "i \<in> set instances \<Longrightarrow> in_id i \<in> set ret \<Longrightarrow> a \<in> set (retire_actions opts c i r)
    \<Longrightarrow> permitted opts c slots digest ready instances ret a"
  by (auto simp: retire_actions_def withdraw_def permitted_def split: instance_status.splits if_splits intro!: not_ready_instance)

lemma watch_permitted:
  "i \<in> set instances \<Longrightarrow> a \<in> set (watch_desired opts c i) \<Longrightarrow> permitted opts c slots digest ready instances ret a"
  by (auto simp: watch_desired_def withdraw_def permitted_def split: if_splits intro!: not_ready_instance)

definition pass_ok ::
  "reconcile_options \<Rightarrow> string \<Rightarrow> string list \<Rightarrow> string \<Rightarrow> bool \<Rightarrow> node_instance list \<Rightarrow> pass \<Rightarrow> bool" where
  "pass_ok opts c slots digest ready instances st \<longleftrightarrow>
     (\<forall>a \<in> set (fst st). permitted opts c slots digest ready instances (fst (snd st)) a)"

lemma pass_ok_retire:
  assumes "pass_ok opts c slots digest ready instances st" "set is \<subseteq> set instances"
  shows "pass_ok opts c slots digest ready instances (fold (retire opts c r) is st)"
  unfolding pass_ok_def retire_all
proof
  fix a
  assume "a \<in> set (fst (fst st @ concat (map (\<lambda>i. retire_actions opts c i r) is), rev (map in_id is) @ fst (snd st), snd (snd st)))"
  then consider "a \<in> set (fst st)" | i where "i \<in> set is" "a \<in> set (retire_actions opts c i r)" by auto
  then show "permitted opts c slots digest ready instances
      (fst (snd (fst st @ concat (map (\<lambda>i. retire_actions opts c i r) is), rev (map in_id is) @ fst (snd st), snd (snd st)))) a"
  proof cases
    case 1
    with assms(1) show ?thesis unfolding pass_ok_def by (auto intro: permitted_mono [of "fst (snd st)"])
  next
    case 2
    with assms(2) show ?thesis by (intro retire_permitted [of i]) auto
  qed
qed

lemma pass_ok_emit:
  "pass_ok opts c slots digest ready instances st \<Longrightarrow> \<forall>a \<in> set xs. permitted opts c slots digest ready instances (fst (snd st)) a
   \<Longrightarrow> pass_ok opts c slots digest ready instances (emit xs st)"
  by (auto simp: pass_ok_def emit_def)

lemma pass_ok_fill:
  assumes "pass_ok opts c slots digest True instances st" "slot \<in> set slots"
  shows "pass_ok opts c slots digest True instances (fill_slot opts c p digest instances slot st)"
proof (cases rule: fill_slot_cases [of slot instances p st opts c digest])
  case (create old)
  with assms show ?thesis unfolding create(3) by (auto simp: pass_ok_def permitted_def)
next
  case (drain old)
  with assms(1) show ?thesis unfolding drain(5)
    using pass_ok_retire [of opts c slots digest True instances st "[old]"] by simp
qed (use assms in simp)

lemma pass_ok_slot:
  assumes ok: "pass_ok opts c slots digest ready instances st" and s: "slot \<in> set slots"
  shows "pass_ok opts c slots digest ready instances (reconcile_slot opts c p digest ready instances slot st)"
proof -
  have w: "pass_ok opts c slots digest ready instances st' \<Longrightarrow>
      pass_ok opts c slots digest ready instances (emit (watch_actions opts c digest instances slot) st')" for st'
    by (rule pass_ok_emit) (auto simp: watch_actions_def intro: watch_permitted)
  show ?thesis
  proof (cases rule: reconcile_slot_cases [of p opts c digest ready instances slot st])
    case stop_first
    then show ?thesis using pass_ok_retire [OF ok] by auto
  next
    case fill
    have "pass_ok opts c slots digest ready instances (fill_slot opts c p digest instances slot st)"
      using ok \<open>ready\<close> by (simp add: pass_ok_fill s)
    then show ?thesis unfolding fill(4) by (rule w)
  next
    case watch
    then show ?thesis using w ok by simp
  next
    case (serve h)
    then show ?thesis using pass_ok_retire [OF w [OF ok]] by auto
  qed
qed

lemma component_pass_invariant:
  assumes "Q (fold (retire opts c ''Instance exceeds the fixed desired count'')
      (filter (\<lambda>i. in_slot i \<notin> set (cp_slots p)) instances) ([], [], initial_creates p instances))"
    and "\<And>slot st. slot \<in> set (cp_slots p) \<Longrightarrow> Q st \<Longrightarrow> Q (reconcile_slot opts c p digest ready instances slot st)"
  shows "Q (component_pass opts c p digest ready instances)"
  unfolding component_pass_def
  by (rule fold_invariant [where Q = "\<lambda>s. s \<in> set (cp_slots p)" and P = Q]) (use assms in auto)

lemma pass_ok_component: "pass_ok opts c (cp_slots p) digest ready instances (component_pass opts c p digest ready instances)"
proof (rule component_pass_invariant)
  have "pass_ok opts c (cp_slots p) digest ready instances ([], [], initial_creates p instances)" by (simp add: pass_ok_def)
  then show "pass_ok opts c (cp_slots p) digest ready instances (fold (retire opts c ''Instance exceeds the fixed desired count'')
      (filter (\<lambda>i. in_slot i \<notin> set (cp_slots p)) instances) ([], [], initial_creates p instances))"
    by (rule pass_ok_retire) auto
qed (rule pass_ok_slot)

section \<open>The instance that serves a slot is kept\<close>

text \<open>The first ready instance of the desired release and configuration in a slot.\<close>

definition serving :: "string \<Rightarrow> reconcile_options \<Rightarrow> string list \<Rightarrow> node_instance list \<Rightarrow> node_instance \<Rightarrow> bool" where
  "serving digest opts slots instances i \<longleftrightarrow> in_slot i \<in> set slots
     \<and> healthy_in digest opts instances (in_slot i) = Some i"

lemma servingD:
  "serving digest opts slots instances i \<Longrightarrow> i \<in> set instances \<and> in_status i = Ready \<and> is_desired digest opts i"
  by (auto simp: serving_def healthy_in_def find_Some_iff dest: nth_mem)

lemma same_instance:
  "distinct (map in_id instances) \<Longrightarrow> i \<in> set instances \<Longrightarrow> j \<in> set instances \<Longrightarrow> in_id i = in_id j \<Longrightarrow> i = j"
  by (auto simp: distinct_map inj_on_def)

lemma serving_kept_slot:
  assumes d: "distinct (map in_id instances)" and v: "serving digest opts slots instances i"
    and n: "in_id i \<notin> set (fst (snd st))"
  shows "in_id i \<notin> set (fst (snd (reconcile_slot opts c p digest ready instances slot st)))"
proof -
  note i = servingD [OF v]
  have other: "in_id i \<notin> in_id ` set js" if "set js \<subseteq> set instances" "i \<notin> set js" for js
    using same_instance [OF d] i that by (metis imageE subsetD)
  have emitted: "fst (snd (emit xs st')) = fst (snd st')" for xs st' by (simp add: emit_def)
  show ?thesis
  proof (cases rule: reconcile_slot_cases [of p opts c digest ready instances slot st])
    case stop_first
    have "in_id i \<notin> in_id ` set (filter (\<lambda>i. \<not> is_desired digest opts i) (occupants instances slot))"
      by (rule other) (use i in auto)
    with n show ?thesis by (simp add: stop_first retire_all)
  next
    case fill
    then have s: "in_slot i \<noteq> slot" using v by (auto simp: serving_def)
    have "in_id i \<notin> set (fst (snd (fill_slot opts c p digest instances slot st)))"
    proof (cases rule: fill_slot_cases [of slot instances p st opts c digest])
      case (drain old)
      then have "in_id i \<noteq> in_id old" using same_instance [OF d] i s by blast
      with n show ?thesis by (simp add: drain(5) retire_def)
    qed (use n in simp_all)
    then show ?thesis unfolding fill(4) emitted .
  next
    case watch
    then show ?thesis using n by (simp add: emitted)
  next
    case (serve h)
    have "in_id i \<notin> in_id ` set (filter (\<lambda>j. in_id j \<noteq> in_id h) (occupants instances slot))"
      by (rule other) (use serve v in \<open>auto simp: serving_def\<close>)
    with n show ?thesis by (simp add: serve(2) retire_all emitted)
  qed
qed

lemma serving_kept:
  assumes d: "distinct (map in_id instances)" and v: "serving digest opts (cp_slots p) instances i"
  shows "in_id i \<notin> set (fst (snd (component_pass opts c p digest ready instances)))"
proof (rule component_pass_invariant)
  have "in_id i \<notin> set (map in_id (filter (\<lambda>j. in_slot j \<notin> set (cp_slots p)) instances))"
    using same_instance [OF d] servingD [OF v] v by (auto simp: serving_def)
  then show "in_id i \<notin> set (fst (snd (fold (retire opts c ''Instance exceeds the fixed desired count'')
      (filter (\<lambda>i. in_slot i \<notin> set (cp_slots p)) instances) ([], [], initial_creates p instances))))"
    by (simp add: retire_all)
qed (rule serving_kept_slot [OF d v])

section \<open>Surge\<close>

definition replaces :: "rec_action \<Rightarrow> bool" where
  "replaces a = (case a of Create_instance c s d cf old r \<Rightarrow> old \<noteq> None | _ \<Rightarrow> False)"

definition replacements :: "rec_action list \<Rightarrow> int" where
  "replacements xs = int (length (filter replaces xs))"

lemma replacements_simps [simp]:
  "replacements [] = 0" "replacements (xs @ ys) = replacements xs + replacements ys"
  by (simp_all add: replacements_def)

lemma no_replacement: "(\<And>a. a \<in> set xs \<Longrightarrow> \<not> replaces a) \<Longrightarrow> replacements xs = 0"
  by (simp add: replacements_def filter_empty_conv)

lemma retire_no_replacement: "replacements (retire_actions opts c i r) = 0"
  by (rule no_replacement) (auto simp: retire_actions_def withdraw_def replaces_def split: instance_status.splits if_splits)

lemma retire_all_no_replacement: "replacements (concat (map (\<lambda>i. retire_actions opts c i r) is)) = 0"
  by (induction "is") (simp_all add: retire_no_replacement)

lemma watch_no_replacement: "replacements (watch_actions opts c digest instances slot) = 0"
  by (rule no_replacement) (auto simp: watch_actions_def watch_desired_def withdraw_def replaces_def split: if_splits)

definition surge_inv :: "int \<Rightarrow> pass \<Rightarrow> bool" where
  "surge_inv k st \<longleftrightarrow> replacements (fst st) + snd (snd st) = k \<and> 0 \<le> snd (snd st)"

lemma surge_inv_retire: "surge_inv k st \<Longrightarrow> surge_inv k (fold (retire opts c r) is st)"
  by (simp add: surge_inv_def retire_all retire_all_no_replacement)

lemma surge_inv_emit: "surge_inv k st \<Longrightarrow> surge_inv k (emit (watch_actions opts c digest instances slot) st)"
  by (simp add: surge_inv_def emit_def watch_no_replacement)

lemma surge_inv_slot:
  assumes "is_rolling p" "surge_inv k st"
  shows "surge_inv k (reconcile_slot opts c p digest ready instances slot st)"
proof (cases rule: reconcile_slot_cases [of p opts c digest ready instances slot st])
  case fill
  have "surge_inv k (fill_slot opts c p digest instances slot st)"
  proof (cases rule: fill_slot_cases [of slot instances p st opts c digest])
    case (create old)
    have "old = None \<or> snd (snd st) > 0" using create(2) assms(1) by blast
    with assms show ?thesis
      unfolding create(3) by (cases old) (simp_all add: surge_inv_def replacements_def replaces_def)
  next
    case (drain old)
    then show ?thesis using surge_inv_retire [OF assms(2), of opts c _ "[old]"] by simp
  qed (use assms in simp)
  then show ?thesis unfolding fill(4) by (rule surge_inv_emit)
qed (use assms surge_inv_retire surge_inv_emit in simp_all)

lemma surge_bound:
  assumes "is_rolling p"
  shows "replacements (fst (component_pass opts c p digest ready instances)) \<le> initial_creates p instances"
proof -
  have "surge_inv (initial_creates p instances) (component_pass opts c p digest ready instances)"
  proof (rule component_pass_invariant)
    have "surge_inv (initial_creates p instances) ([], [], initial_creates p instances)"
      by (simp add: surge_inv_def initial_creates_def)
    then show "surge_inv (initial_creates p instances) (fold (retire opts c ''Instance exceeds the fixed desired count'')
        (filter (\<lambda>i. in_slot i \<notin> set (cp_slots p)) instances) ([], [], initial_creates p instances))"
      by (rule surge_inv_retire)
  qed (rule surge_inv_slot [OF assms])
  then show ?thesis by (simp add: surge_inv_def)
qed

section \<open>A pass that does nothing\<close>

lemma slot_settled:
  assumes "occupants instances slot = [h]" "in_status h = Ready" "is_desired digest opts h"
  shows "reconcile_slot opts c p digest ready instances slot st = st"
  using assms by (simp add: reconcile_slot_def watch_desired_def emit_def)

lemma pass_settled:
  assumes "\<forall>slot \<in> set (cp_slots p). \<exists>h. occupants instances slot = [h] \<and> in_status h = Ready \<and> is_desired digest opts h"
    and "\<forall>i \<in> set instances. in_slot i \<in> set (cp_slots p)"
  shows "component_pass opts c p digest ready instances = ([], [], initial_creates p instances)"
proof -
  have e: "filter (\<lambda>i. in_slot i \<notin> set (cp_slots p)) instances = []" using assms(2) by (simp add: filter_empty_conv)
  have "component_pass opts c p digest ready instances = fold (\<lambda>s st. st) (cp_slots p) ([], [], initial_creates p instances)"
    unfolding component_pass_def e fold_simps(1)
  proof (intro fold_cong refl ext)
    fix slot and st :: pass
    assume "slot \<in> set (cp_slots p)"
    then obtain h where "occupants instances slot = [h]" "in_status h = Ready" "is_desired digest opts h" using assms(1) by blast
    then show "reconcile_slot opts c p digest ready instances slot st = st" by (rule slot_settled)
  qed
  also have "fold (\<lambda>s st. st) xs st = st" for xs :: "string list" and st :: pass by (induction xs) simp_all
  finally show ?thesis .
qed

text \<open>A rolling component without surge, drained down to its minimum, gets no further action.\<close>

lemma stalled_slot:
  assumes "is_rolling p" "snd (snd st) = 0" "\<forall>i \<in> set instances. \<not> is_desired digest opts i"
    and "find (\<lambda>i. in_status i \<noteq> Failed \<and> in_status i \<noteq> Stopped) (occupants instances slot) = Some old"
    and "int (length (filter (\<lambda>i. in_status i = Ready) instances)) \<le> cp_minimum_ready p"
  shows "reconcile_slot opts c p digest ready instances slot st = st"
proof -
  have d: "filter (is_desired digest opts) (occupants instances slot) = []" using assms(3) by (simp add: filter_empty_conv)
  have le: "int (length (filter (\<lambda>i. in_status i = Ready \<and> in_id i \<notin> set R) instances)) \<le> int (length (filter (\<lambda>i. in_status i = Ready) instances))" for R
    by (induction instances) auto
  have r: "\<not> int (length (filter (\<lambda>i. in_status i = Ready \<and> in_id i \<notin> set R) instances)) > cp_minimum_ready p" for R
    using le [of R] assms(5) by linarith
  have "fill_slot opts c p digest instances slot st = st"
    using assms(1,2) r [of "fst (snd st)"] unfolding fill_slot_def Let_def assms(4) by simp
  then show ?thesis
    using assms(1) unfolding reconcile_slot_def Let_def d by (simp only: emit_def list.map concat.simps append_Nil2 find.simps option.case simp_thms if_False prod.collapse) simp
qed

lemma stalled_pass:
  assumes "is_rolling p" "initial_creates p instances = 0" "\<forall>i \<in> set instances. \<not> is_desired digest opts i"
    and "\<forall>i \<in> set instances. in_slot i \<in> set (cp_slots p)"
    and "\<forall>slot \<in> set (cp_slots p). find (\<lambda>i. in_status i \<noteq> Failed \<and> in_status i \<noteq> Stopped) (occupants instances slot) \<noteq> None"
    and "int (length (filter (\<lambda>i. in_status i = Ready) instances)) \<le> cp_minimum_ready p"
  shows "component_pass opts c p digest ready instances = ([], [], 0)"
proof (rule component_pass_invariant [where Q = "\<lambda>st. st = ([], [], 0)"])
  have e: "filter (\<lambda>i. in_slot i \<notin> set (cp_slots p)) instances = []" using assms(4) by (simp add: filter_empty_conv)
  show "fold (retire opts c ''Instance exceeds the fixed desired count'')
      (filter (\<lambda>i. in_slot i \<notin> set (cp_slots p)) instances) ([], [], initial_creates p instances) = ([], [], 0)"
    unfolding e by (simp add: assms(2))
next
  fix slot and st :: pass
  assume "slot \<in> set (cp_slots p)" "st = ([], [], 0)"
  then show "reconcile_slot opts c p digest ready instances slot st = ([], [], 0)"
    using assms(5) stalled_slot [OF assms(1) _ assms(3) _ assms(6)] by (auto simp del: filter_filter)
qed

section \<open>The whole graph\<close>

text \<open>Component \<open>c\<close> was handled with the statuses of components before it, which the final map keeps.\<close>

definition handled ::
  "'p execution_plan \<Rightarrow> node_instance list \<Rightarrow> reconcile_options \<Rightarrow> (string, component_status) jmap \<Rightarrow> string
   \<Rightarrow> rec_action list \<times> component_status \<Rightarrow> bool" where
  "handled desired actual opts final c r \<longleftrightarrow>
     (\<exists>statuses. reconcile_component desired actual opts statuses c = Some r
        \<and> (\<forall>d v. jm_get statuses d = Some v \<longrightarrow> jm_get final d = Some v))
     \<and> jm_get final c = Some (snd r)"

lemma reconcile_all_trace:
  assumes "reconcile_all desired actual opts cs st = Some st'" "distinct cs" "set cs \<inter> set (jm_keys (snd st)) = {}"
  shows "\<exists>H. (\<forall>c \<in> set cs. handled desired actual opts (snd st') c (H c))
    \<and> fst st' = fst st @ concat (map (\<lambda>c. fst (H c)) cs)
    \<and> jm_keys (snd st') = jm_keys (snd st) @ cs
    \<and> (\<forall>d v. jm_get (snd st) d = Some v \<longrightarrow> jm_get (snd st') d = Some v)"
  using assms
proof (induction cs arbitrary: st)
  case (Cons c cs)
  from Cons.prems(1) obtain acts s where r: "reconcile_component desired actual opts (snd st) c = Some (acts, s)"
    and rest: "reconcile_all desired actual opts cs (fst st @ acts, jm_set (snd st) c s) = Some st'"
    by (auto split: option.splits)
  have k: "jm_keys (jm_set (snd st) c s) = jm_keys (snd st) @ [c]" using Cons.prems(3) by (simp add: jm_keys_set)
  then have "set cs \<inter> set (jm_keys (jm_set (snd st) c s)) = {}" using Cons.prems(2,3) by auto
  with Cons.IH [OF rest] Cons.prems(2) obtain H where H: "\<forall>c \<in> set cs. handled desired actual opts (snd st') c (H c)"
    "fst st' = (fst st @ acts) @ concat (map (\<lambda>c. fst (H c)) cs)" "jm_keys (snd st') = (jm_keys (snd st) @ [c]) @ cs"
    "\<forall>d v. jm_get (jm_set (snd st) c s) d = Some v \<longrightarrow> jm_get (snd st') d = Some v"
    by (auto simp: k)
  have keep: "\<forall>d v. jm_get (snd st) d = Some v \<longrightarrow> jm_get (snd st') d = Some v"
  proof (intro allI impI)
    fix d v assume v: "jm_get (snd st) d = Some v"
    then have "d \<in> set (jm_keys (snd st))" by (metis map_of_eq_None_iff option.distinct(1) set_map)
    then have "d \<noteq> c" using Cons.prems(3) by auto
    with v H(4) show "jm_get (snd st') d = Some v" by simp
  qed
  have "handled desired actual opts (snd st') c (acts, s)"
    unfolding handled_def using r keep H(4) by auto
  moreover have "c \<notin> set cs" using Cons.prems(2) by simp
  ultimately have "\<forall>c' \<in> set (c # cs). handled desired actual opts (snd st') c' ((H(c := (acts, s))) c')" using H(1) by auto
  moreover have "concat (map (\<lambda>c'. fst ((H(c := (acts, s))) c')) (c # cs)) = acts @ concat (map (\<lambda>c'. fst (H c')) cs)"
    using \<open>c \<notin> set cs\<close> by (auto intro!: arg_cong [where f = concat])
  ultimately show ?case using H(2,3) keep by (intro exI [of _ "H(c := (acts, s))"]) (simp del: fun_upd_apply list.map)
qed simp

fun action_component :: "rec_action \<Rightarrow> string" where
  "action_component (Create_instance c s d cf old r) = c"
| "action_component (Probe_instance c k) = c"
| "action_component (Admit_endpoint c k e) = c"
| "action_component (Withdraw_endpoint c k e s r) = c"
| "action_component (Begin_drain c k d r) = c"
| "action_component (Remove_instance c k r) = c"

lemma permitted_component: "permitted opts c slots digest ready instances ret a \<Longrightarrow> action_component a = c"
  by (auto simp: permitted_def split: rec_action.splits)

lemma retire_component: "a \<in> set (retire_actions opts c i r) \<Longrightarrow> action_component a = c"
  by (auto simp: retire_actions_def withdraw_def split: instance_status.splits if_splits)

lemma endpoint_component: "a \<in> set (endpoint_actions opts c digest ret i) \<Longrightarrow> action_component a = c"
  by (auto simp: endpoint_actions_def split: if_splits)

lemma component_actions_component:
  "a \<in> set (component_actions_of opts c p digest ready instances) \<Longrightarrow> action_component a = c"
  using pass_ok_component [of opts c p digest ready instances]
  by (auto simp: component_actions_of_def Let_def pass_ok_def dest: permitted_component endpoint_component)

lemma handled_component:
  assumes "handled desired actual opts final c r" "a \<in> set (fst r)"
  shows "action_component a = c"
  using assms component_actions_component retire_component
  by (fastforce simp: handled_def reconcile_component_def Let_def split: option.splits if_splits)

text \<open>A plan, its actions and the component each of them belongs to.\<close>

lemma reconcile_plan:
  assumes "reconcile_application desired actual opts = Some plan" "distinct (xp_order desired)"
  obtains H where "\<And>c. c \<in> set (xp_order desired) \<Longrightarrow> handled desired actual opts (rp_components plan) c (H c)"
    "rp_actions plan = uniq (concat (map (\<lambda>c. fst (H c)) (xp_order desired)))"
    "jm_keys (rp_components plan) = xp_order desired"
    "rp_state plan = overall_state (xp_blocked desired) (map (\<lambda>(_, s). cs_state s) (rp_components plan))"
proof -
  from assms(1) obtain acts statuses where r: "reconcile_all desired actual opts (xp_order desired) ([], []) = Some (acts, statuses)"
    and p: "plan = \<lparr>rp_actions = deduplicate_actions acts, rp_components = statuses,
        rp_state = overall_state (xp_blocked desired) (map (\<lambda>(_, s). cs_state s) statuses)\<rparr>"
    by (auto simp: reconcile_application_def split: option.splits)
  from reconcile_all_trace [OF r assms(2)] p that show thesis
    by (auto simp: deduplicate_actions_def)
qed

lemma plan_action:
  assumes "reconcile_application desired actual opts = Some plan" "distinct (xp_order desired)" "a \<in> set (rp_actions plan)"
  obtains r where "action_component a \<in> set (xp_order desired)" "handled desired actual opts (rp_components plan) (action_component a) r" "a \<in> set (fst r)"
proof -
  obtain H where H: "\<And>c. c \<in> set (xp_order desired) \<Longrightarrow> handled desired actual opts (rp_components plan) c (H c)"
    "rp_actions plan = uniq (concat (map (\<lambda>c. fst (H c)) (xp_order desired)))"
    using reconcile_plan [OF assms(1,2)] by metis
  with assms(3) obtain c where c: "c \<in> set (xp_order desired)" "a \<in> set (fst (H c))" by auto
  with handled_component [OF H(1)] have "action_component a = c" by blast
  with c H(1) that show thesis by blast
qed

lemma plan_component_actions:
  assumes "reconcile_application desired actual opts = Some plan" "distinct (xp_order desired)" "c \<in> set (xp_order desired)"
  obtains r where "handled desired actual opts (rp_components plan) c r"
    "\<And>a. a \<in> set (rp_actions plan) \<and> action_component a = c \<longleftrightarrow> a \<in> set (fst r)"
proof -
  obtain H where H: "\<And>c. c \<in> set (xp_order desired) \<Longrightarrow> handled desired actual opts (rp_components plan) c (H c)"
    "rp_actions plan = uniq (concat (map (\<lambda>c. fst (H c)) (xp_order desired)))"
    using reconcile_plan [OF assms(1,2)] by metis
  have "a \<in> set (rp_actions plan) \<and> action_component a = c \<longleftrightarrow> a \<in> set (fst (H c))" for a
    using H(2) handled_component [OF H(1)] assms(3) by auto
  with H(1) [OF assms(3)] that show thesis by blast
qed

text \<open>The two ways a component is handled.\<close>

lemma handled_cases:
  assumes "handled desired actual opts final c r"
  obtains (blocked) p reason where "jm_get (xp_components desired) c = Some p"
      "fst r = concat (map (\<lambda>i. retire_actions opts c i reason) (live_instances c actual))"
      "cs_state (snd r) = Blocked_state" "jm_get final c = Some (snd r)"
  | (active) p ready where "jm_get (xp_components desired) c = Some p" "\<not> cp_blocked p"
      "ready \<Longrightarrow> \<forall>d \<in> set (cp_dependencies p). \<exists>q v. jm_get (xp_components desired) d = Some q
         \<and> jm_get final d = Some v \<and> cs_ready v = cp_desired q"
      "fst r = component_actions_of opts c p (spec_digest_of desired) ready (live_instances c actual)"
      "snd r = component_status_of opts c p (spec_digest_of desired) ready (live_instances c actual)"
      "jm_get final c = Some (snd r)"
proof -
  from assms obtain statuses where r: "reconcile_component desired actual opts statuses c = Some r"
    and f: "\<And>d v. jm_get statuses d = Some v \<Longrightarrow> jm_get final d = Some v" "jm_get final c = Some (snd r)"
    by (auto simp: handled_def)
  have dr: "dependencies_ready statuses comps ds = Some True \<Longrightarrow> \<forall>d \<in> set ds. \<exists>q v. jm_get comps d = Some q
         \<and> jm_get final d = Some v \<and> cs_ready v = cp_desired q" for comps :: "(string, 'a component_plan) jmap" and ds
    by (induction ds) (auto split: option.splits if_splits dest: f(1))
  from r obtain p ready where p: "jm_get (xp_components desired) c = Some p"
    "dependencies_ready statuses (xp_components desired) (cp_dependencies p) = Some ready"
    by (auto simp: reconcile_component_def Let_def split: option.splits)
  show thesis
  proof (cases "cp_blocked p \<or> blocked_dependency statuses (cp_dependencies p) \<noteq> None")
    case True
    with r p have "r = (concat (map (\<lambda>i. retire_actions opts c i (retire_reason (block_reason p (blocked_dependency statuses (cp_dependencies p))))) (live_instances c actual)),
        \<lparr>cs_component = c, cs_desired = cp_desired p, cs_ready = 0, cs_state = Blocked_state,
         cs_reason = block_reason p (blocked_dependency statuses (cp_dependencies p))\<rparr>)"
      unfolding reconcile_component_def Let_def p option.case if_P [OF True] by simp
    with p f(2) show thesis by (intro blocked) auto
  next
    case False
    with r p have "r = (component_actions_of opts c p (spec_digest_of desired) ready (live_instances c actual),
        component_status_of opts c p (spec_digest_of desired) ready (live_instances c actual))"
      unfolding reconcile_component_def Let_def p option.case if_not_P [OF False] by simp
    with p f(2) False dr show thesis by (intro active [of p ready]) auto
  qed
qed

end
