(* ===== verification/ReconcilerProperties.thy ===== *)
theory ReconcilerProperties
  imports ReconcilerFacts
begin

text \<open>
  The properties of a reconciler pass: traffic goes to healthy accepted instances only, the instance that
  serves a slot is kept, starts wait for dependencies, surge is bounded, a converged node is quiet; and
  three places where a rolling release does not do what its contract says.
\<close>

lemma live_instance: "i \<in> set (live_instances c actual) \<longleftrightarrow> i \<in> set actual \<and> in_component i = c \<and> in_status i \<noteq> Stopped"
  by (auto simp: live_instances_def)

lemma retire_kinds [simp]:
  "Admit_endpoint c' k e \<notin> set (retire_actions opts c i r)"
  "Create_instance c' s d cf old why \<notin> set (retire_actions opts c i r)"
  by (auto simp: retire_actions_def withdraw_def split: instance_status.splits if_splits)

lemma live_distinct: "distinct (map in_id actual) \<Longrightarrow> distinct (map in_id (live_instances c actual))"
  by (simp add: live_instances_def distinct_map_filter)

lemma pass_permitted:
  "a \<in> set (fst (component_pass opts c p digest ready instances)) \<Longrightarrow>
     permitted opts c (cp_slots p) digest ready instances (fst (snd (component_pass opts c p digest ready instances))) a"
  using pass_ok_component [of opts c p digest ready instances] by (simp add: pass_ok_def)

lemma component_action:
  assumes "a \<in> set (component_actions_of opts c p digest ready instances)"
  obtains (pass) "permitted opts c (cp_slots p) digest ready instances (fst (snd (component_pass opts c p digest ready instances))) a"
  | (route) i where "i \<in> set instances" "a \<in> set (endpoint_actions opts c digest (fst (snd (component_pass opts c p digest ready instances))) i)"
  using assms pass_permitted [of a opts c p digest ready instances] that by (auto simp: component_actions_of_def Let_def)

lemma admit_source:
  assumes "Admit_endpoint c k e \<in> set (component_actions_of opts c p digest ready instances)"
  obtains i where "i \<in> set instances" "in_id i = k" "e \<in> set (in_endpoints i)" "ep_id e \<notin> set (admitted_ids opts)"
    "is_routable opts c digest (fst (snd (component_pass opts c p digest ready instances))) i"
  using assms
proof (cases rule: component_action)
  case pass
  then show thesis by (simp add: permitted_def)
next
  case (route i)
  with that show thesis by (auto simp: endpoint_actions_def split: if_splits)
qed

lemma endpoint_action_shape:
  "a \<in> set (endpoint_actions opts c digest ret j) \<Longrightarrow> (\<exists>e. a = Admit_endpoint c (in_id j) e)
     \<or> \<not> is_routable opts c digest ret j \<and> (\<exists>e s r. a = Withdraw_endpoint c (in_id j) e s r)"
  by (auto simp: endpoint_actions_def split: if_splits)

text \<open>A ready instance that is not being retired is left alone when its endpoints may be routed.\<close>

lemma routable_untouched:
  assumes d: "distinct (map in_id instances)" and i: "i \<in> set instances" "in_status i = Ready"
    and n: "in_id i \<notin> set (fst (snd (component_pass opts c p digest ready instances)))"
    and a: "a \<in> set (component_actions_of opts c p digest ready instances)"
  shows "a \<noteq> Begin_drain c (in_id i) dl r \<and> a \<noteq> Remove_instance c (in_id i) r
    \<and> (is_routable opts c digest (fst (snd (component_pass opts c p digest ready instances))) i
        \<longrightarrow> a \<noteq> Withdraw_endpoint c (in_id i) e s r)"
  using a
proof (cases rule: component_action)
  case pass
  have "\<not> (\<exists>j \<in> set instances. in_id j = in_id i \<and> in_status j \<noteq> Ready)"
    using same_instance [OF d i(1)] i(2) by metis
  with n pass show ?thesis by (auto simp: permitted_def)
next
  case (route j)
  then have "in_id j = in_id i \<Longrightarrow> j = i" using same_instance [OF d i(1)] by metis
  with endpoint_action_shape [OF route(2)] show ?thesis by auto
qed

text \<open>C2. Traffic is only admitted to an instance that is observed ready, carries an accepted release and
  configuration, and whose component's traffic gate is open; the same plan never drains, removes or
  withdraws that instance.\<close>

theorem admitted_traffic_is_safe:
  assumes r: "reconcile_application desired actual opts = Some plan"
    and "distinct (xp_order desired)" "distinct (map in_id actual)"
    and a: "Admit_endpoint c k e \<in> set (rp_actions plan)"
  shows "(\<exists>i \<in> set actual. in_id i = k \<and> in_component i = c \<and> in_status i = Ready
           \<and> is_accepted (spec_digest_of desired) opts i \<and> e \<in> set (in_endpoints i))
    \<and> traffic_gate opts c \<and> ep_id e \<notin> set (admitted_ids opts)
    \<and> Begin_drain c k dl why \<notin> set (rp_actions plan)
    \<and> Remove_instance c k why \<notin> set (rp_actions plan)
    \<and> Withdraw_endpoint c k e' s why \<notin> set (rp_actions plan)"
proof -
  have "c \<in> set (xp_order desired)" using plan_action [OF r assms(2) a] by (metis action_component.simps(3))
  then obtain h where h: "handled desired actual opts (rp_components plan) c h"
    and acts: "\<And>a. a \<in> set (rp_actions plan) \<and> action_component a = c \<longleftrightarrow> a \<in> set (fst h)"
    using plan_component_actions [OF r assms(2)] by metis
  have ah: "Admit_endpoint c k e \<in> set (fst h)" using a acts [of "Admit_endpoint c k e"] by simp
  from h show ?thesis
  proof (cases rule: handled_cases)
    case (blocked p reason)
    with ah show ?thesis by simp
  next
    case (active p ready)
    let ?inst = "live_instances c actual"
    from ah active obtain i where i: "i \<in> set ?inst" "in_id i = k" "e \<in> set (in_endpoints i)" "ep_id e \<notin> set (admitted_ids opts)"
      and routable: "is_routable opts c (spec_digest_of desired) (fst (snd (component_pass opts c p (spec_digest_of desired) ready ?inst))) i"
      by (auto elim: admit_source)
    note u = routable_untouched [OF live_distinct [OF assms(3)] i(1), of opts c p "spec_digest_of desired" ready]
    have "b \<notin> set (rp_actions plan)" if "b \<in> {Begin_drain c k dl why, Remove_instance c k why, Withdraw_endpoint c k e' s why}" for b
    proof
      assume "b \<in> set (rp_actions plan)"
      moreover have "action_component b = c" using that by auto
      ultimately have "b \<in> set (component_actions_of opts c p (spec_digest_of desired) ready ?inst)" using acts active by metis
      with u [OF _ _ this] routable i(2) that show False by (auto simp: is_routable_def)
    qed
    with i routable show ?thesis by (auto simp: is_routable_def live_instance)
  qed
qed

text \<open>C3. The instance that serves a desired slot, the first ready one of the desired release and
  configuration, is never drained, removed or, while the gate is open, withdrawn, unless its component
  is blocked.\<close>

theorem serving_instance_is_kept:
  assumes r: "reconcile_application desired actual opts = Some plan"
    and "distinct (xp_order desired)" "distinct (map in_id actual)"
    and p: "jm_get (xp_components desired) c = Some p" "c \<in> set (xp_order desired)"
    and v: "serving (spec_digest_of desired) opts (cp_slots p) (live_instances c actual) i"
    and nb: "map_option cs_state (jm_get (rp_components plan) c) \<noteq> Some Blocked_state"
  shows "Begin_drain c (in_id i) dl why \<notin> set (rp_actions plan)
    \<and> Remove_instance c (in_id i) why \<notin> set (rp_actions plan)
    \<and> (traffic_gate opts c \<longrightarrow> Withdraw_endpoint c (in_id i) e s why \<notin> set (rp_actions plan))"
proof -
  obtain h where h: "handled desired actual opts (rp_components plan) c h"
    and acts: "\<And>a. a \<in> set (rp_actions plan) \<and> action_component a = c \<longleftrightarrow> a \<in> set (fst h)"
    using plan_component_actions [OF r assms(2) p(2)] by metis
  from h show ?thesis
  proof (cases rule: handled_cases)
    case blocked
    with nb show ?thesis by simp
  next
    case (active q ready)
    let ?inst = "live_instances c actual" and ?d = "spec_digest_of desired"
    have q: "q = p" using active p by simp
    note d = live_distinct [OF assms(3), of c]
    note i = servingD [OF v]
    have n: "in_id i \<notin> set (fst (snd (component_pass opts c p ?d ready ?inst)))" by (rule serving_kept [OF d v])
    have "is_routable opts c ?d (fst (snd (component_pass opts c p ?d ready ?inst))) i" if "traffic_gate opts c"
      using that i n by (simp add: is_routable_def is_accepted_def is_desired_def)
    with routable_untouched [OF d i [THEN conjunct1] i [THEN conjunct2, THEN conjunct1] n]
    show ?thesis using acts active(4) unfolding q by (metis action_component.simps(4-6))
  qed
qed

text \<open>C32. An instance is only created for a slot of an unblocked component whose dependencies all report
  exactly their desired number of ready instances, and always with the desired release and configuration.\<close>

theorem create_waits_for_dependencies:
  assumes r: "reconcile_application desired actual opts = Some plan" and o: "distinct (xp_order desired)"
    and a: "Create_instance c slot digest configuration old why \<in> set (rp_actions plan)"
  shows "\<exists>p. jm_get (xp_components desired) c = Some p \<and> \<not> cp_blocked p \<and> slot \<in> set (cp_slots p)
    \<and> digest = spec_digest_of desired \<and> configuration = ro_configuration opts
    \<and> (\<forall>d \<in> set (cp_dependencies p). \<exists>q v. jm_get (xp_components desired) d = Some q
         \<and> jm_get (rp_components plan) d = Some v \<and> cs_ready v = cp_desired q)"
proof -
  obtain h where h: "handled desired actual opts (rp_components plan) c h" "Create_instance c slot digest configuration old why \<in> set (fst h)"
    using plan_action [OF r o a] by (metis action_component.simps(1))
  from h(1) show ?thesis
  proof (cases rule: handled_cases)
    case blocked
    with h(2) show ?thesis by simp
  next
    case (active p ready)
    from h(2) have "permitted opts c (cp_slots p) (spec_digest_of desired) ready (live_instances c actual)
        (fst (snd (component_pass opts c p (spec_digest_of desired) ready (live_instances c actual))))
        (Create_instance c slot digest configuration old why)"
      unfolding active(4) by (cases rule: component_action) (auto simp: endpoint_actions_def split: if_splits)
    with active show ?thesis by (auto simp: permitted_def)
  qed
qed

lemma uniq_acc_filter: "length (filter P (uniq_acc seen xs)) \<le> length (filter P xs)"
  by (induction xs arbitrary: seen) (auto intro: le_SucI)

lemma other_component_filter:
  assumes "\<And>d. d \<in> set cs \<Longrightarrow> handled desired actual opts final d (H d)" "distinct cs"
  shows "filter (\<lambda>a. P a \<and> action_component a = c) (concat (map (\<lambda>d. fst (H d)) cs)) =
     (if c \<in> set cs then filter P (fst (H c)) else [])"
  using assms
proof (induction cs)
  case (Cons d cs)
  have t: "\<And>a. a \<in> set (fst (H d)) \<Longrightarrow> action_component a = d" using handled_component [OF Cons.prems(1)] by simp
  have "filter (\<lambda>a. P a \<and> action_component a = c) (fst (H d)) = (if c = d then filter P (fst (H d)) else [])"
    using t by (auto simp: filter_empty_conv intro: filter_cong)
  with Cons show ?case by auto
qed simp

text \<open>The replacements a rolling component creates in one pass stay within the declared surge: the
  observed instances and the replacements together never exceed the larger of the observed instances and
  the desired count plus the surge.\<close>

lemma replacements_within_surge:
  assumes r: "reconcile_application desired actual opts = Some plan" and o: "distinct (xp_order desired)"
    and p: "jm_get (xp_components desired) c = Some p" "is_rolling p" "0 \<le> rollout_count p ''maxSurge''"
  shows "int (length (live_instances c actual)) + int (length (filter (\<lambda>a. replaces a \<and> action_component a = c) (rp_actions plan)))
     \<le> max (int (length (live_instances c actual))) (cp_desired p + rollout_count p ''maxSurge'')"
proof -
  let ?n = "int (length (live_instances c actual))"
  obtain H where H: "\<And>c. c \<in> set (xp_order desired) \<Longrightarrow> handled desired actual opts (rp_components plan) c (H c)"
    and acts: "rp_actions plan = uniq (concat (map (\<lambda>c. fst (H c)) (xp_order desired)))"
    using reconcile_plan [OF r o] by metis
  have "int (length (filter (\<lambda>a. replaces a \<and> action_component a = c) (rp_actions plan)))
      \<le> (if c \<in> set (xp_order desired) then replacements (fst (H c)) else 0)"
    unfolding acts uniq_def replacements_def
    using uniq_acc_filter [of "\<lambda>a. replaces a \<and> action_component a = c" "[]" "concat (map (\<lambda>c. fst (H c)) (xp_order desired))"]
    by (simp add: other_component_filter [OF H o] split: if_splits)
  also have "\<dots> \<le> max 0 (rollout_count p ''maxSurge'' - max 0 (?n - cp_desired p))"
  proof (cases "c \<in> set (xp_order desired)")
    case True
    from H [OF True] show ?thesis
    proof (cases rule: handled_cases)
      case (blocked q reason)
      then show ?thesis using True by (simp add: retire_all_no_replacement)
    next
      case (active q ready)
      have "q = p" using active p by simp
      have "replacements (concat (map (endpoint_actions opts c d R) is)) = 0" for d R "is"
        by (rule no_replacement) (auto simp: replaces_def endpoint_actions_def split: if_splits)
      then have "replacements (fst (H c)) = replacements (fst (component_pass opts c p (spec_digest_of desired) ready (live_instances c actual)))"
        unfolding active(4) \<open>q = p\<close> component_actions_of_def Let_def by simp
      with surge_bound [OF p(2), of opts c "spec_digest_of desired" ready "live_instances c actual"] True
      show ?thesis by (simp add: initial_creates_def)
    qed
  qed simp
  finally show ?thesis using p(3) by linarith
qed

text \<open>The overall state is only reported ready when nothing is blocked and every component of the
  order observes exactly its desired number of ready instances of the desired release and configuration.\<close>

lemma reported_ready_is_converged:
  assumes r: "reconcile_application desired actual opts = Some plan" and o: "distinct (xp_order desired)"
    and s: "rp_state plan = Ready_state" and c: "c \<in> set (xp_order desired)"
  shows "\<not> xp_blocked desired \<and> (\<exists>p. jm_get (xp_components desired) c = Some p \<and> \<not> cp_blocked p
     \<and> ready_count (spec_digest_of desired) opts (live_instances c actual) = cp_desired p)"
proof -
  obtain H where H: "handled desired actual opts (rp_components plan) c (H c)"
    and st: "rp_state plan = overall_state (xp_blocked desired) (map (\<lambda>(_, s). cs_state s) (rp_components plan))"
    using reconcile_plan [OF r o] c by metis
  then have f: "jm_get (rp_components plan) c = Some (snd (H c))" by (auto simp: handled_def)
  have nb: "\<not> xp_blocked desired" "\<forall>(k, v) \<in> set (rp_components plan). cs_state v = Ready_state"
    using st s by (auto simp: overall_state_def list_all_iff split: if_splits)
  with map_of_SomeD [OF f] have ready: "cs_state (snd (H c)) = Ready_state" by auto
  from H show ?thesis
  proof (cases rule: handled_cases)
    case blocked
    with ready show ?thesis by simp
  next
    case (active p ready')
    with ready nb(1) show ?thesis by (auto simp: component_status_of_def Let_def split: if_splits)
  qed
qed

text \<open>Every slot holds one ready instance of the desired release whose endpoints are all admitted.\<close>

definition settled :: "reconcile_options \<Rightarrow> string \<Rightarrow> 'p component_plan \<Rightarrow> string \<Rightarrow> node_instance list \<Rightarrow> bool" where
  "settled opts c p digest instances \<longleftrightarrow>
     (\<forall>slot \<in> set (cp_slots p). \<exists>h. occupants instances slot = [h] \<and> in_status h = Ready \<and> is_desired digest opts h)
     \<and> (\<forall>i \<in> set instances. in_slot i \<in> set (cp_slots p) \<and> (\<forall>e \<in> set (in_endpoints i). ep_id e \<in> set (admitted_ids opts)))
     \<and> traffic_gate opts c"

lemma settled_instance:
  assumes "settled opts c p digest instances" "i \<in> set instances"
  shows "in_status i = Ready \<and> is_desired digest opts i"
proof -
  obtain h where h: "occupants instances (in_slot i) = [h]" "in_status h = Ready \<and> is_desired digest opts h"
    using assms unfolding settled_def by blast
  have "i \<in> set (occupants instances (in_slot i))" using assms(2) by simp
  with h show ?thesis unfolding h(1) by simp
qed

lemma settled_no_actions:
  assumes "settled opts c p digest instances"
  shows "component_actions_of opts c p digest ready instances = []"
proof -
  have "component_pass opts c p digest ready instances = ([], [], initial_creates p instances)"
    by (rule pass_settled) (use assms in \<open>auto simp: settled_def\<close>)
  moreover have "endpoint_actions opts c digest [] i = []" if "i \<in> set instances" for i
    using settled_instance [OF assms that] assms that
    by (auto simp: endpoint_actions_def is_routable_def is_accepted_def is_desired_def settled_def)
  ultimately show ?thesis by (simp add: component_actions_of_def)
qed

lemma settled_ready_count:
  assumes "settled opts c p digest instances" "distinct (cp_slots p)" "distinct (map in_id instances)"
    and "cp_desired p = int (length (cp_slots p))"
  shows "ready_count digest opts instances = cp_desired p"
proof -
  have f: "filter (\<lambda>i. in_status i = Ready \<and> is_desired digest opts i) instances = instances"
    using settled_instance [OF assms(1)] by (simp add: filter_id_conv)
  have "inj_on in_slot (set instances)"
  proof (rule inj_onI)
    fix i j assume ij: "i \<in> set instances" "j \<in> set instances" "in_slot i = in_slot j"
    obtain h where h: "occupants instances (in_slot i) = [h]" using assms(1) ij(1) unfolding settled_def by blast
    have "i \<in> set (occupants instances (in_slot i))" "j \<in> set (occupants instances (in_slot i))" using ij by simp_all
    then show "i = j" unfolding h by simp
  qed
  moreover have "distinct instances" using assms(3) by (simp add: distinct_map)
  ultimately have d: "distinct (map in_slot instances)" by (simp add: distinct_map)
  have "set (map in_slot instances) = set (cp_slots p)"
  proof
    show "set (map in_slot instances) \<subseteq> set (cp_slots p)" using assms(1) by (auto simp: settled_def)
    show "set (cp_slots p) \<subseteq> set (map in_slot instances)"
    proof
      fix s assume "s \<in> set (cp_slots p)"
      then obtain h where "occupants instances s = [h]" using assms(1) unfolding settled_def by blast
      then have "h \<in> set (occupants instances s)" by simp
      then show "s \<in> set (map in_slot instances)" by auto
    qed
  qed
  then have "length (map in_slot instances) = length (cp_slots p)" using d assms(2) by (metis distinct_card)
  then show ?thesis unfolding ready_count_def f using assms(4) by simp
qed

text \<open>A component whose slots are settled and whose plan is not blocked.\<close>

definition component_settled :: "'p execution_plan \<Rightarrow> node_instance list \<Rightarrow> reconcile_options \<Rightarrow> string \<Rightarrow> bool" where
  "component_settled desired actual opts c \<longleftrightarrow> (\<exists>p. jm_get (xp_components desired) c = Some p \<and> \<not> cp_blocked p
     \<and> distinct (cp_slots p) \<and> cp_desired p = int (length (cp_slots p))
     \<and> settled opts c p (spec_digest_of desired) (live_instances c actual))"

text \<open>The statuses of the components before, all ready.\<close>

definition all_ready :: "'p execution_plan \<Rightarrow> string list \<Rightarrow> (string, component_status) jmap \<Rightarrow> bool" where
  "all_ready desired before statuses \<longleftrightarrow> jm_keys statuses = before
     \<and> (\<forall>d v. jm_get statuses d = Some v \<longrightarrow> cs_state v = Ready_state
          \<and> (\<exists>q. jm_get (xp_components desired) d = Some q \<and> cs_ready v = cp_desired q))"

lemma settled_component_ready:
  assumes "component_settled desired actual opts c" "distinct (map in_id actual)" "all_ready desired before statuses"
    and "\<And>p. jm_get (xp_components desired) c = Some p \<Longrightarrow> set (cp_dependencies p) \<subseteq> set before"
  obtains v where "reconcile_component desired actual opts statuses c = Some ([], v)" "cs_state v = Ready_state"
    "\<exists>q. jm_get (xp_components desired) c = Some q \<and> cs_ready v = cp_desired q"
proof -
  let ?inst = "live_instances c actual" and ?d = "spec_digest_of desired"
  obtain p where p: "jm_get (xp_components desired) c = Some p" "\<not> cp_blocked p" "distinct (cp_slots p)"
    "cp_desired p = int (length (cp_slots p))" "settled opts c p ?d ?inst"
    using assms(1) by (auto simp: component_settled_def)
  have known: "\<exists>q v. jm_get (xp_components desired) d = Some q \<and> jm_get statuses d = Some v
      \<and> cs_ready v = cp_desired q \<and> cs_state v = Ready_state" if "d \<in> set before" for d
  proof -
    from that assms(3) obtain v where "jm_get statuses d = Some v"
      by (metis all_ready_def map_of_eq_None_iff not_None_eq set_map)
    with assms(3) show ?thesis by (auto simp: all_ready_def)
  qed
  have "set ds \<subseteq> set before \<Longrightarrow> dependencies_ready statuses (xp_components desired) ds = Some True" for ds
    using known by (induction ds) (auto, force)
  with assms(4) p(1) have dr: "dependencies_ready statuses (xp_components desired) (cp_dependencies p) = Some True" by blast
  have "map_option cs_state (jm_get statuses d) \<noteq> Some Blocked_state" for d
    using assms(3) by (cases "jm_get statuses d") (auto simp: all_ready_def)
  then have "find (\<lambda>d. map_option cs_state (jm_get statuses d) = Some Blocked_state) (cp_dependencies p) = None"
    by (simp add: find_None_iff)
  then have nb: "blocked_dependency statuses (cp_dependencies p) = None" by (simp add: blocked_dependency_def)
  have c: "ready_count ?d opts ?inst = cp_desired p"
    by (rule settled_ready_count [OF p(5,3) live_distinct [OF assms(2)] p(4)])
  have "reconcile_component desired actual opts statuses c = Some ([], component_status_of opts c p ?d True ?inst)"
    unfolding reconcile_component_def Let_def p(1) option.case dr nb using p(2) settled_no_actions [OF p(5)] by simp
  moreover have "cs_state (component_status_of opts c p ?d True ?inst) = Ready_state"
    "cs_ready (component_status_of opts c p ?d True ?inst) = cp_desired p"
    using c by (simp_all add: component_status_of_def Let_def)
  ultimately show thesis using p(1) that by blast
qed

lemma settled_all_ready:
  assumes "\<And>c. c \<in> set cs \<Longrightarrow> component_settled desired actual opts c" "distinct (map in_id actual)"
    and "\<And>pre c post p. before @ cs = pre @ c # post \<Longrightarrow> jm_get (xp_components desired) c = Some p \<Longrightarrow> set (cp_dependencies p) \<subseteq> set pre"
    and "distinct (before @ cs)" "all_ready desired before statuses"
  shows "\<exists>statuses'. reconcile_all desired actual opts cs ([], statuses) = Some ([], statuses') \<and> all_ready desired (before @ cs) statuses'"
  using assms
proof (induction cs arbitrary: before statuses)
  case (Cons c cs)
  obtain v where v: "reconcile_component desired actual opts statuses c = Some ([], v)" "cs_state v = Ready_state"
    "\<exists>q. jm_get (xp_components desired) c = Some q \<and> cs_ready v = cp_desired q"
    using settled_component_ready [OF Cons.prems(1) [of c] Cons.prems(2,5)] Cons.prems(3) by auto
  have "all_ready desired (before @ [c]) (jm_set statuses c v)"
    using Cons.prems(4,5) v(2,3) by (auto simp: all_ready_def jm_keys_set)
  with Cons.IH [of "before @ [c]" "jm_set statuses c v"] Cons.prems obtain s' where
    "reconcile_all desired actual opts cs ([], jm_set statuses c v) = Some ([], s')" "all_ready desired ((before @ [c]) @ cs) s'"
    by auto
  with v(1) show ?case by auto
qed auto

lemma converged_quiet:
  assumes o: "distinct (xp_order desired)" "distinct (map in_id actual)" "\<not> xp_blocked desired"
    and t: "\<And>before c after p. xp_order desired = before @ c # after \<Longrightarrow>
       jm_get (xp_components desired) c = Some p \<Longrightarrow> set (cp_dependencies p) \<subseteq> set before"
    and s: "\<And>c. c \<in> set (xp_order desired) \<Longrightarrow> component_settled desired actual opts c"
  shows "\<exists>plan. reconcile_application desired actual opts = Some plan \<and> rp_actions plan = [] \<and> rp_state plan = Ready_state"
proof -
  have "all_ready desired [] []" by (simp add: all_ready_def)
  with settled_all_ready [of "xp_order desired" desired actual opts "[]" "[]"] o t s obtain statuses where
    r: "reconcile_all desired actual opts (xp_order desired) ([], []) = Some ([], statuses)" "all_ready desired (xp_order desired) statuses"
    by auto
  have "\<forall>(k, v) \<in> set statuses. cs_state v = Ready_state"
    using r(2) o(1) by (auto simp: all_ready_def)
  then have "overall_state False (map (\<lambda>(_, s). cs_state s) statuses) = Ready_state"
    by (auto simp: overall_state_def list_all_iff)
  with r(1) o(3) show ?thesis by (auto simp: reconcile_application_def deduplicate_actions_def uniq_def)
qed

text \<open>A rolling release without surge stalls: once its instances are drained down to the minimum, and
  all of them are of the old release and still occupy their slots, no pass creates, drains or removes any
  instance of the component again, also after every drain deadline has passed.\<close>

lemma rolling_without_surge_stalls:
  assumes r: "reconcile_application desired actual opts = Some plan" and o: "distinct (xp_order desired)"
    and p: "jm_get (xp_components desired) c = Some p" "is_rolling p" "rollout_count p ''maxSurge'' \<le> 0"
    and old: "\<And>i. i \<in> set (live_instances c actual) \<Longrightarrow>
       \<not> is_desired (spec_digest_of desired) opts i \<and> in_slot i \<in> set (cp_slots p)"
    and full: "\<And>slot. slot \<in> set (cp_slots p) \<Longrightarrow>
       list_ex (\<lambda>i. in_slot i = slot \<and> in_status i \<noteq> Failed) (live_instances c actual)"
    and low: "int (length (filter (\<lambda>i. in_status i = Ready) (live_instances c actual))) \<le> cp_minimum_ready p"
    and nb: "map_option cs_state (jm_get (rp_components plan) c) \<noteq> Some Blocked_state"
  shows "Create_instance c slot d cf replaced why \<notin> set (rp_actions plan)
    \<and> Begin_drain c k deadline why \<notin> set (rp_actions plan) \<and> Remove_instance c k why \<notin> set (rp_actions plan)"
proof -
  let ?inst = "live_instances c actual" and ?d = "spec_digest_of desired"
  have stalled: "component_pass opts c p ?d ready ?inst = ([], [], 0)" for ready
  proof (rule stalled_pass)
    show "initial_creates p ?inst = 0" using p(3) by (simp add: initial_creates_def)
    show "\<forall>slot \<in> set (cp_slots p). find (\<lambda>i. in_status i \<noteq> Failed \<and> in_status i \<noteq> Stopped) (occupants ?inst slot) \<noteq> None"
    proof
      fix slot assume "slot \<in> set (cp_slots p)"
      from full [OF this] obtain i where "i \<in> set (occupants ?inst slot)" "in_status i \<noteq> Failed" "in_status i \<noteq> Stopped"
        by (auto simp: list_ex_iff live_instance)
      then show "find (\<lambda>i. in_status i \<noteq> Failed \<and> in_status i \<noteq> Stopped) (occupants ?inst slot) \<noteq> None"
        unfolding find_None_iff by blast
    qed
  qed (use p(2) old low in auto)
  have "a \<notin> set (rp_actions plan)"
    if "a \<in> {Create_instance c slot d cf replaced why, Begin_drain c k deadline why, Remove_instance c k why}" for a
  proof
    assume "a \<in> set (rp_actions plan)"
    moreover have "action_component a = c" using that by auto
    ultimately obtain h where h: "handled desired actual opts (rp_components plan) c h" "a \<in> set (fst h)"
      using plan_action [OF r o] by metis
    from h(1) show False
    proof (cases rule: handled_cases)
      case blocked
      with nb show ?thesis by simp
    next
      case (active q ready)
      have "q = p" using active p by simp
      with h(2) active(4) stalled that show ?thesis
        by (auto simp: component_actions_of_def Let_def endpoint_actions_def split: if_splits)
    qed
  qed
  then show ?thesis by blast
qed

section \<open>Concrete nodes\<close>

text \<open>A release with one component and small lists of observed instances, at which the properties are exercised.\<close>

definition rolling_contract :: "int \<Rightarrow> int \<Rightarrow> jsv" where
  "rolling_contract surge unavailable = Obj [(''strategy'', Str ''rolling''), (''maxSurge'', Num (JInt surge)),
     (''maxUnavailable'', Num (JInt unavailable)), (''schemaOverlap'', Str ''compatible'')]"

definition web_plan :: "jsv \<Rightarrow> int \<Rightarrow> string list \<Rightarrow> unit component_plan" where
  "web_plan contract minimum slots =
     \<lparr>cp_name = ''web'', cp_display = Str ''web'', cp_source = Image_source (Str ''app''), cp_role = Str ''web'',
      cp_desired = int (length slots), cp_default = int (length slots), cp_minimum_ready = minimum, cp_rollout = contract,
      cp_site_overrides = Obj [], cp_capacity = Obj [], cp_placement = Obj [], cp_slots = slots, cp_dependencies = [],
      cp_explicit = Arr [], cp_command = Undef, cp_environment = [], cp_files = Obj [], cp_interfaces = Obj [],
      cp_mounts = Obj [], cp_health = Undef, cp_runtime = Obj [], cp_profile = None, cp_blocked = False, cp_findings = []\<rparr>"

definition web_release :: "jsv \<Rightarrow> int \<Rightarrow> string list \<Rightarrow> unit execution_plan" where
  "web_release contract minimum slots =
     \<lparr>xp_application = ''shop'', xp_digest = Some ''new'', xp_order = [''web''],
      xp_components = [(''web'', web_plan contract minimum slots)], xp_services = [], xp_routes = [],
      xp_attachments = [], xp_evidence = [], xp_findings = [], xp_blocked = False\<rparr>"

definition web_instance :: "string \<Rightarrow> string \<Rightarrow> string \<Rightarrow> instance_status \<Rightarrow> node_instance" where
  "web_instance k slot digest status =
     \<lparr>in_id = k, in_component = ''web'', in_slot = slot, in_release = digest, in_configuration = ''c'', in_status = status,
      in_endpoints = [\<lparr>ep_id = k, ep_service = ''http'', ep_host = ''h'', ep_port = 80\<rparr>], in_drain_deadline = Some 5, in_flight = Some 1\<rparr>"

definition pass_options :: "string list \<Rightarrow> reconcile_options" where
  "pass_options admitted = \<lparr>ro_configuration = ''c'', ro_now = 9, ro_drain_timeout = None, ro_accepted_releases = Some [''old''],
     ro_accepted_configurations = None, ro_admitted = Some admitted, ro_gates = None\<rparr>"
definition growing :: "unit execution_plan" where
  "growing = web_release (rolling_contract 1 0) 1 [''1'', ''2'']"

definition one_ready :: "node_instance list" where
  "one_ready = [web_instance ''a'' ''1'' ''new'' Ready]"

definition growing_pass :: reconcile_plan where
  "growing_pass = the (reconcile_application growing one_ready (pass_options []))"

lemma growing_facts:
  "reconcile_application growing one_ready (pass_options []) = Some growing_pass"
  "distinct (xp_order growing)" "distinct (map in_id one_ready)" "''web'' \<in> set (xp_order growing)"
  "jm_get (xp_components growing) ''web'' = Some (web_plan (rolling_contract 1 0) 1 [''1'', ''2''])"
proof -
  have "reconcile_application growing one_ready (pass_options []) \<noteq> None" by code_simp
  then show "reconcile_application growing one_ready (pass_options []) = Some growing_pass" by (auto simp: growing_pass_def)
qed (simp_all add: growing_def web_release_def one_ready_def)

lemma admitted_traffic_is_safe_witness: "Begin_drain ''web'' ''a'' 0 [] \<notin> set (rp_actions growing_pass)"
proof -
  have "Admit_endpoint ''web'' ''a'' \<lparr>ep_id = ''a'', ep_service = ''http'', ep_host = ''h'', ep_port = 80\<rparr> \<in> set (rp_actions growing_pass)"
    by code_simp
  from admitted_traffic_is_safe [OF growing_facts(1-3) this] show ?thesis by blast
qed

lemma serving_instance_is_kept_witness: "Remove_instance ''web'' ''a'' [] \<notin> set (rp_actions growing_pass)"
proof -
  let ?i = "web_instance ''a'' ''1'' ''new'' Ready"
  have "serving (spec_digest_of growing) (pass_options []) (cp_slots (web_plan (rolling_contract 1 0) 1 [''1'', ''2''])) (live_instances ''web'' one_ready) ?i"
    "map_option cs_state (jm_get (rp_components growing_pass) ''web'') \<noteq> Some Blocked_state" by (code_simp+)
  from serving_instance_is_kept [OF growing_facts(1-3,5,4) this] show ?thesis by (simp add: web_instance_def)
qed

lemma create_waits_for_dependencies_witness:
  "\<exists>p. jm_get (xp_components growing) ''web'' = Some p \<and> ''2'' \<in> set (cp_slots p)"
proof -
  have "Create_instance ''web'' ''2'' ''new'' ''c'' None ''Desired instance is absent'' \<in> set (rp_actions growing_pass)" by code_simp
  from create_waits_for_dependencies [OF growing_facts(1,2) this] show ?thesis by blast
qed

lemma replacements_within_surge_witness:
  "int (length (filter (\<lambda>a. replaces a \<and> action_component a = ''web'') (rp_actions growing_pass))) \<le> 2"
proof -
  let ?p = "web_plan (rolling_contract 1 0) 1 [''1'', ''2'']"
  have "is_rolling ?p" "0 \<le> rollout_count ?p ''maxSurge''" "cp_desired ?p = 2" "rollout_count ?p ''maxSurge'' = 1"
    "length (live_instances ''web'' one_ready) = 1" by (code_simp+)
  with replacements_within_surge [OF growing_facts(1,2,5)] show ?thesis by simp
qed

lemma reported_ready_is_converged_witness: "\<not> xp_blocked (web_release (rolling_contract 1 0) 1 [''1''])"
proof -
  let ?d = "web_release (rolling_contract 1 0) 1 [''1'']"
  have "reconcile_application ?d one_ready (pass_options [''a'']) \<noteq> None" by code_simp
  then obtain plan where plan: "reconcile_application ?d one_ready (pass_options [''a'']) = Some plan" by auto
  have "rp_state (the (reconcile_application ?d one_ready (pass_options [''a'']))) = Ready_state" by code_simp
  then have "rp_state plan = Ready_state" unfolding plan by simp
  moreover have "distinct (xp_order ?d)" "''web'' \<in> set (xp_order ?d)" by (simp_all add: web_release_def)
  ultimately show ?thesis using reported_ready_is_converged [OF plan] by blast
qed

lemma rolling_without_surge_stalls_witness:
  "\<exists>plan. reconcile_application (web_release (rolling_contract 0 1) 1 [''1'', ''2''])
      [web_instance ''a'' ''1'' ''old'' Draining, web_instance ''x'' ''2'' ''old'' Ready] (pass_options []) = Some plan
     \<and> Remove_instance ''web'' ''a'' ''Connection drain completed or reached its deadline'' \<notin> set (rp_actions plan)"
proof -
  let ?d = "web_release (rolling_contract 0 1) 1 [''1'', ''2'']" and ?p = "web_plan (rolling_contract 0 1) 1 [''1'', ''2'']"
  let ?a = "[web_instance ''a'' ''1'' ''old'' Draining, web_instance ''x'' ''2'' ''old'' Ready]"
  have "reconcile_application ?d ?a (pass_options []) \<noteq> None" by code_simp
  then obtain plan where plan: "reconcile_application ?d ?a (pass_options []) = Some plan" by auto
  have nb: "map_option cs_state (jm_get (rp_components (the (reconcile_application ?d ?a (pass_options [])))) ''web'') \<noteq> Some Blocked_state"
    by code_simp
  have h: "distinct (xp_order ?d)" "jm_get (xp_components ?d) ''web'' = Some ?p" by (simp_all add: web_release_def)
  have c: "is_rolling ?p" "rollout_count ?p ''maxSurge'' \<le> 0"
    "int (length (filter (\<lambda>i. in_status i = Ready) (live_instances ''web'' ?a))) \<le> cp_minimum_ready ?p"
    "list_all (\<lambda>i. \<not> is_desired (spec_digest_of ?d) (pass_options []) i \<and> in_slot i \<in> set (cp_slots ?p)) (live_instances ''web'' ?a)"
    "list_all (\<lambda>slot. list_ex (\<lambda>i. in_slot i = slot \<and> in_status i \<noteq> Failed) (live_instances ''web'' ?a)) (cp_slots ?p)"
    by (code_simp+)
  have "Remove_instance ''web'' ''a'' ''Connection drain completed or reached its deadline'' \<notin> set (rp_actions plan)"
    using rolling_without_surge_stalls [OF plan h c(1,2) _ _ c(3)] c(4,5) nb unfolding plan option.sel list_all_iff by blast
  with plan show ?thesis by blast
qed

section \<open>Where a rolling release breaks its contract\<close>

definition drains :: "reconcile_plan option \<Rightarrow> nat" where
  "drains plan = length (filter (\<lambda>a. case a of Begin_drain c k d r \<Rightarrow> True | _ \<Rightarrow> False) (rp_actions (the plan)))"

text \<open>The declared unavailability is not counted: with at most one unavailable instance and a minimum of
  one, a single pass over five ready instances drains four of them.\<close>

lemma unavailability_is_not_counted:
  "drains (reconcile_application (web_release (rolling_contract 0 1) 1 [''1'', ''2'', ''3'', ''4'', ''5''])
     (map (\<lambda>s. web_instance s s ''old'' Ready) [''1'', ''2'', ''3'', ''4'', ''5'']) (pass_options [])) = 4"
  by code_simp

text \<open>The minimum is not kept across slots: with a minimum of two and three ready instances, one pass
  drains two of them, since the slot with a healthy replacement retires its old instance after another
  slot has already used the capacity.\<close>

lemma minimum_ready_is_not_kept:
  "cp_minimum_ready (web_plan (rolling_contract 2 1) 2 [''1'', ''2'']) = 2
   \<and> drains (reconcile_application (web_release (rolling_contract 2 1) 2 [''1'', ''2''])
       [web_instance ''a'' ''1'' ''old'' Ready, web_instance ''b'' ''1'' ''new'' Failed,
        web_instance ''x'' ''2'' ''old'' Ready, web_instance ''y'' ''2'' ''new'' Ready] (pass_options [])) = 2"
  by code_simp

end
