(* ===== verification/Jobs.thy ===== *)
theory Jobs
  imports Reconciler
begin

text \<open>
  \<open>application-jobs.ts\<close>: which lifecycle jobs of a release still have to run, and which components they
  keep out of traffic. The hash of \<open>jobExecutionKey\<close> is the parameter \<open>sha256\<close> (hexadecimal text),
  the collation of \<open>localeCompare\<close> the sort key \<open>ck\<close>.
\<close>

section \<open>Data\<close>

datatype job_status = Job_pending | Job_running | Job_succeeded | Job_failed

record job_record =
  jr_key :: string
  jr_status :: job_status
  jr_attempts :: int

record planned_job =
  pj_key :: string
  pj_job :: string
  pj_component :: string
  pj_command :: jsv
  pj_scope :: jsv
  pj_site :: string
  pj_instance :: "string option"
  pj_environment :: jsv
  pj_before_traffic :: jsv
  pj_attempt :: int

record job_plan =
  jp_executions :: "planned_job list"
  jp_gates :: "(string, bool) jmap"
  jp_findings :: "finding list"
  jp_blocked :: bool

record job_options =
  jo_site :: string
  jo_writer :: "string option"
  jo_configuration :: string
  jo_records :: "job_record list option"
  jo_retry_failed :: bool

section \<open>Keys and targets\<close>

definition job_key_text :: "string \<Rightarrow> string \<Rightarrow> string \<Rightarrow> string \<Rightarrow> string \<Rightarrow> string option \<Rightarrow> string" where
  "job_key_text app digest configuration job site inst =
     doc_text (Arr [Str app, Str digest, Str configuration, Str job, Str site,
       (case inst of Some i \<Rightarrow> Str i | None \<Rightarrow> Null)])"

definition job_execution_key ::
  "(string \<Rightarrow> string) \<Rightarrow> string \<Rightarrow> string \<Rightarrow> string \<Rightarrow> string \<Rightarrow> string \<Rightarrow> string option \<Rightarrow> string" where
  "job_execution_key sha256 app digest configuration job site inst =
     ''job:'' @ sha256 (job_key_text app digest configuration job site inst)"

definition job_targets ::
  "(string \<Rightarrow> nat list) \<Rightarrow> jsv \<Rightarrow> string \<Rightarrow> node_instance list \<Rightarrow> job_options \<Rightarrow> string
    \<Rightarrow> finding list \<times> string option list" where
  "job_targets ck scope component instances opts name =
     (if scope = Str ''perSite'' then ([], [None])
      else if scope = Str ''writerSite'' then
        (if jo_writer opts = None \<or> jo_writer opts = Some [] then
           ([error_finding ''WRITER_SITE_UNRESOLVED'' (''/jobs/'' @ name @ ''/execution'')
              ''writerSite job cannot be scheduled until the application writer site is known''], [])
         else ([], if jo_writer opts = Some (jo_site opts) then [None] else []))
      else ([], map (\<lambda>i. Some (in_id i)) (sort_key (\<lambda>i. ck (in_id i))
             (filter (\<lambda>i. component = in_component i \<and> in_status i \<noteq> Stopped) instances))))"

section \<open>The plan\<close>

text \<open>\<open>new Map(records.map(...))\<close>: a later record of a key replaces an earlier one.\<close>

definition records_by_key :: "job_record list option \<Rightarrow> (string, job_record) jmap" where
  "records_by_key rs = fold (\<lambda>r m. jm_set m (jr_key r) r) (case rs of None \<Rightarrow> [] | Some xs \<Rightarrow> xs) []"

text \<open>\<open>indexOf\<close>, \<open>-1\<close> when the component is not in the order.\<close>

fun index_of :: "string list \<Rightarrow> string \<Rightarrow> int" where
  "index_of [] x = -1"
| "index_of (y # ys) x = (if y = x then 0 else (let i = index_of ys x in if i = -1 then -1 else i + 1))"

definition ordered_jobs :: "(string \<Rightarrow> nat list) \<Rightarrow> string list \<Rightarrow> jsv \<Rightarrow> fields" where
  "ordered_jobs ck order jobs =
     sort_key (\<lambda>kv. (index_of order (js_string (fld (snd kv) ''component'')), ck (fst kv))) (own_fields jobs)"

definition job_done :: "job_record option \<Rightarrow> bool" where
  "job_done r \<longleftrightarrow> (case r of Some x \<Rightarrow> jr_status x = Job_succeeded | None \<Rightarrow> False)"

definition job_withheld :: "bool \<Rightarrow> job_record option \<Rightarrow> bool" where
  "job_withheld retry r \<longleftrightarrow> (case r of
     Some x \<Rightarrow> jr_status x = Job_running \<or> (jr_status x = Job_failed \<and> \<not> retry) | None \<Rightarrow> False)"

text \<open>The loop over the targets of one job: whether every one is complete, and what is planned.\<close>

definition target_key ::
  "(string \<Rightarrow> string) \<Rightarrow> 'p execution_plan \<Rightarrow> job_options \<Rightarrow> string \<Rightarrow> string option \<Rightarrow> string" where
  "target_key sha256 execution opts name target =
     job_execution_key sha256 (xp_application execution) (spec_digest_of execution) (jo_configuration opts) name
       (jo_site opts) target"

fun plan_targets ::
  "(string option \<Rightarrow> string) \<Rightarrow> (string, job_record) jmap \<Rightarrow> job_options \<Rightarrow> string \<Rightarrow> jsv \<Rightarrow> string option list
    \<Rightarrow> bool \<times> planned_job list" where
  "plan_targets key records opts name job [] = (True, [])"
| "plan_targets key records opts name job (t # ts) =
     (let r = jm_get records (key t); (complete, planned) = plan_targets key records opts name job ts in
      if job_done r then (complete, planned)
      else if job_withheld (jo_retry_failed opts) r then (False, planned)
      else (False, \<lparr>pj_key = key t, pj_job = name, pj_component = js_string (fld job ''component''),
             pj_command = fld job ''command'', pj_scope = fld job ''execution'', pj_site = jo_site opts,
             pj_instance = t, pj_environment = fld job ''environment'',
             pj_before_traffic = fld job ''beforeTraffic'',
             pj_attempt = (case r of Some x \<Rightarrow> jr_attempts x | None \<Rightarrow> 0) + 1\<rparr> # planned))"

definition plan_job ::
  "(string \<Rightarrow> nat list) \<Rightarrow> (string \<Rightarrow> string) \<Rightarrow> 'p execution_plan \<Rightarrow> node_instance list \<Rightarrow> job_options
    \<Rightarrow> (string, job_record) jmap \<Rightarrow> string \<times> jsv
    \<Rightarrow> finding list \<times> planned_job list \<times> (string, bool) jmap
    \<Rightarrow> finding list \<times> planned_job list \<times> (string, bool) jmap" where
  "plan_job ck sha256 execution instances opts records kv st =
     (let (name, job) = kv; (findings, planned, gates) = st;
          component = js_string (fld job ''component'');
          (found, targets) = job_targets ck (fld job ''execution'') component instances opts name;
          (complete, more) = plan_targets (target_key sha256 execution opts name) records opts name job targets in
      (findings @ found, planned @ more,
       if truthy (fld job ''beforeTraffic'') \<and> \<not> complete then jm_set gates component False else gates))"

definition plan_application_jobs ::
  "(string \<Rightarrow> nat list) \<Rightarrow> (string \<Rightarrow> string) \<Rightarrow> 'p execution_plan \<Rightarrow> jsv \<Rightarrow> node_instance list \<Rightarrow> job_options
    \<Rightarrow> job_plan" where
  "plan_application_jobs ck sha256 execution spec instances opts =
     (let gates = fold (\<lambda>c m. jm_set m c True) (xp_order execution) [];
          (findings, planned, gates') = fold (plan_job ck sha256 execution instances opts (records_by_key (jo_records opts)))
            (ordered_jobs ck (xp_order execution) (fld spec ''jobs'')) ([], [], gates)
      in \<lparr>jp_executions = planned, jp_gates = gates', jp_findings = findings,
          jp_blocked = list_ex is_error findings\<rparr>)"

end
