(* ===== verification/JobsProperties.thy ===== *)
theory JobsProperties
  imports Jobs ReconcilerProperties
begin

text \<open>
  What the job planner promises: exactly the unfinished executions are planned, a finished plan plans
  nothing more, and, together with the reconciler, no endpoint is admitted before its component's jobs
  have succeeded.
\<close>

section \<open>The loops as comprehensions\<close>

definition job_component :: "string \<times> jsv \<Rightarrow> string" where
  "job_component kv = js_string (fld (snd kv) ''component'')"

definition targets_of :: "(string \<Rightarrow> nat list) \<Rightarrow> node_instance list \<Rightarrow> job_options \<Rightarrow> string \<times> jsv \<Rightarrow> string option list" where
  "targets_of ck instances opts kv =
     snd (job_targets ck (fld (snd kv) ''execution'') (job_component kv) instances opts (fst kv))"

definition runnable :: "job_options \<Rightarrow> job_record option \<Rightarrow> bool" where
  "runnable opts r \<longleftrightarrow> \<not> job_done r \<and> \<not> job_withheld (jo_retry_failed opts) r"

definition planned_for ::
  "(string option \<Rightarrow> string) \<Rightarrow> (string, job_record) jmap \<Rightarrow> job_options \<Rightarrow> string \<Rightarrow> jsv \<Rightarrow> string option \<Rightarrow> planned_job" where
  "planned_for key records opts name job t =
     \<lparr>pj_key = key t, pj_job = name, pj_component = js_string (fld job ''component''),
      pj_command = fld job ''command'', pj_scope = fld job ''execution'', pj_site = jo_site opts,
      pj_instance = t, pj_environment = fld job ''environment'', pj_before_traffic = fld job ''beforeTraffic'',
      pj_attempt = (case jm_get records (key t) of Some x \<Rightarrow> jr_attempts x | None \<Rightarrow> 0) + 1\<rparr>"

lemma plan_targets_eq:
  "plan_targets key records opts name job ts =
     (\<forall>t \<in> set ts. job_done (jm_get records (key t)),
      map (planned_for key records opts name job) (filter (\<lambda>t. runnable opts (jm_get records (key t))) ts))"
  by (induction ts) (auto simp: Let_def runnable_def planned_for_def)

definition executions_of ::
  "(string \<Rightarrow> nat list) \<Rightarrow> (string \<Rightarrow> string) \<Rightarrow> 'p execution_plan \<Rightarrow> node_instance list \<Rightarrow> job_options
    \<Rightarrow> (string, job_record) jmap \<Rightarrow> string \<times> jsv \<Rightarrow> planned_job list" where
  "executions_of ck sha256 execution instances opts records kv =
     map (planned_for (target_key sha256 execution opts (fst kv)) records opts (fst kv) (snd kv))
       (filter (\<lambda>t. runnable opts (jm_get records (target_key sha256 execution opts (fst kv) t))) (targets_of ck instances opts kv))"

definition holds_traffic ::
  "(string \<Rightarrow> nat list) \<Rightarrow> (string \<Rightarrow> string) \<Rightarrow> 'p execution_plan \<Rightarrow> node_instance list \<Rightarrow> job_options
    \<Rightarrow> (string, job_record) jmap \<Rightarrow> string \<times> jsv \<Rightarrow> bool" where
  "holds_traffic ck sha256 execution instances opts records kv \<longleftrightarrow> truthy (fld (snd kv) ''beforeTraffic'') \<and>
     (\<exists>t \<in> set (targets_of ck instances opts kv). \<not> job_done (jm_get records (target_key sha256 execution opts (fst kv) t)))"

lemma plan_job_eq:
  "plan_job ck sha256 execution instances opts records kv (findings, planned, gates) =
     (findings @ fst (job_targets ck (fld (snd kv) ''execution'') (job_component kv) instances opts (fst kv)),
      planned @ executions_of ck sha256 execution instances opts records kv,
      if holds_traffic ck sha256 execution instances opts records kv then jm_set gates (job_component kv) False else gates)"
  by (cases kv) (auto simp: plan_job_def Let_def split_beta plan_targets_eq executions_of_def holds_traffic_def
      targets_of_def job_component_def)

lemma plan_jobs_fold:
  "fold (plan_job ck sha256 execution instances opts records) kvs (findings, planned, gates) =
     (findings @ concat (map (\<lambda>kv. fst (job_targets ck (fld (snd kv) ''execution'') (job_component kv) instances opts (fst kv))) kvs),
      planned @ concat (map (executions_of ck sha256 execution instances opts records) kvs),
      fold (\<lambda>kv g. jm_set g (job_component kv) False) (filter (holds_traffic ck sha256 execution instances opts records) kvs) gates)"
  by (induction kvs arbitrary: findings planned gates) (simp_all add: plan_job_eq)

lemma closed_gates: "jm_get (fold (\<lambda>kv g. jm_set g (f kv) False) kvs g) c = (if c \<in> f ` set kvs then Some False else jm_get g c)"
  by (induction kvs arbitrary: g) auto

lemma open_gates: "jm_get (fold (\<lambda>c m. jm_set m c True) cs g) c = (if c \<in> set cs then Some True else jm_get g c)"
  by (induction cs arbitrary: g) auto

lemma set_ordered_jobs [simp]: "set (ordered_jobs ck order jobs) = set (own_fields jobs)"
  by (simp add: ordered_jobs_def)

lemma plan_gates:
  "jm_get (jp_gates (plan_application_jobs ck sha256 execution spec instances opts)) c =
     (if \<exists>kv \<in> set (own_fields (fld spec ''jobs'')). job_component kv = c
           \<and> holds_traffic ck sha256 execution instances opts (records_by_key (jo_records opts)) kv then Some False
      else if c \<in> set (xp_order execution) then Some True else None)"
  by (auto simp: plan_application_jobs_def Let_def plan_jobs_fold closed_gates open_gates)

lemma plan_executions:
  "x \<in> set (jp_executions (plan_application_jobs ck sha256 execution spec instances opts)) \<longleftrightarrow>
     (\<exists>kv \<in> set (own_fields (fld spec ''jobs'')). x \<in> set (executions_of ck sha256 execution instances opts (records_by_key (jo_records opts)) kv))"
  by (auto simp: plan_application_jobs_def Let_def plan_jobs_fold)

section \<open>Exactly the unfinished executions\<close>


section \<open>Running a plan to completion\<close>

lemma find_append: "find P (xs @ ys) = (case find P xs of Some x \<Rightarrow> Some x | None \<Rightarrow> find P ys)"
  by (induction xs) auto

lemma find_member: "find P xs = Some x \<Longrightarrow> x \<in> set xs \<and> P x"
  by (induction xs) (auto split: if_splits)

lemma records_append:
  "jm_get (fold (\<lambda>r m. jm_set m (jr_key r) r) qs m) k =
     (case find (\<lambda>r. jr_key r = k) (rev qs) of Some r \<Rightarrow> Some r | None \<Rightarrow> jm_get m k)"
  by (induction qs arbitrary: m) (auto simp: find_append split: option.splits)

definition completed :: "planned_job \<Rightarrow> job_record" where
  "completed x = \<lparr>jr_key = pj_key x, jr_status = Job_succeeded, jr_attempts = pj_attempt x\<rparr>"

text \<open>Running a plan to completion converges: when no record is left running and failures are retried,
  recording every planned execution as succeeded leaves nothing to plan and opens the gate of every
  component.\<close>

lemma completed_plan_opens_gates:
  fixes execution :: "'p execution_plan"
  assumes rs: "\<forall>r \<in> set rs. jr_status r \<noteq> Job_running" and opts: "jo_records opts = Some rs" "jo_retry_failed opts"
    and jp: "jp = plan_application_jobs ck sha256 execution spec instances opts"
    and opts': "opts' = opts\<lparr>jo_records := Some (rs @ map completed (jp_executions jp))\<rparr>"
  shows "jp_executions (plan_application_jobs ck sha256 execution spec instances opts') = [] \<and>
    (\<forall>c \<in> set (xp_order execution). jm_get (jp_gates (plan_application_jobs ck sha256 execution spec instances opts')) c = Some True)"
proof -
  let ?old = "records_by_key (jo_records opts)" and ?new = "records_by_key (jo_records opts')"
  have key: "target_key sha256 execution opts' = target_key sha256 execution opts"
    by (intro ext) (simp add: target_key_def opts')
  have targets: "targets_of ck instances opts' kv = targets_of ck instances opts kv" for kv
    by (simp add: targets_of_def job_targets_def opts')
  have new: "jm_get ?new k = (case find (\<lambda>r. jr_key r = k) (rev (map completed (jp_executions jp))) of
      Some r \<Rightarrow> Some r | None \<Rightarrow> jm_get ?old k)" for k
    by (simp add: opts opts' records_by_key_def records_append split: option.splits)
  have "jm_get ?old k = Some r \<Longrightarrow> r \<in> set rs" for k r
    by (auto simp: opts records_by_key_def records_append split: option.splits dest: find_member)
  then have run: "runnable opts (jm_get ?old k) \<longleftrightarrow> \<not> job_done (jm_get ?old k)" for k
    using rs opts(2) by (auto simp: runnable_def job_withheld_def job_done_def split: option.splits)
  have don: "job_done (jm_get ?new (target_key sha256 execution opts (fst kv) t))"
    if kv: "kv \<in> set (own_fields (fld spec ''jobs''))" and t: "t \<in> set (targets_of ck instances opts kv)" for kv t
  proof (cases "find (\<lambda>r. jr_key r = target_key sha256 execution opts (fst kv) t) (rev (map completed (jp_executions jp)))")
    case None
    have "job_done (jm_get ?old (target_key sha256 execution opts (fst kv) t))"
    proof (rule ccontr)
      assume "\<not> job_done (jm_get ?old (target_key sha256 execution opts (fst kv) t))"
      then have "planned_for (target_key sha256 execution opts (fst kv)) ?old opts (fst kv) (snd kv) t \<in> set (jp_executions jp)"
        using kv t unfolding jp plan_executions executions_of_def by (auto simp: run intro!: bexI [of _ kv])
      then show False using None by (auto simp: find_None_iff completed_def planned_for_def)
    qed
    then show ?thesis unfolding new None by simp
  next
    case (Some r)
    then have "jr_status r = Job_succeeded"
      by (auto simp: completed_def dest!: find_member)
    then show ?thesis unfolding new Some by (simp add: job_done_def)
  qed
  have "executions_of ck sha256 execution instances opts' ?new kv = []" if "kv \<in> set (own_fields (fld spec ''jobs''))" for kv
    using don [OF that] by (auto simp: executions_of_def key targets runnable_def filter_empty_conv)
  then have "x \<notin> set (jp_executions (plan_application_jobs ck sha256 execution spec instances opts'))" for x
    unfolding plan_executions by fastforce
  then have "jp_executions (plan_application_jobs ck sha256 execution spec instances opts') = []"
    by (metis ex_in_conv set_empty)
  moreover have "\<not> holds_traffic ck sha256 execution instances opts' ?new kv" if "kv \<in> set (own_fields (fld spec ''jobs''))" for kv
    using don [OF that] by (auto simp: holds_traffic_def key targets)
  ultimately show ?thesis by (auto simp: plan_gates)
qed

section \<open>Jobs before traffic\<close>

lemma admitted_gate:
  assumes r: "reconcile_application desired actual opts = Some plan" and "distinct (xp_order desired)"
    and a: "Admit_endpoint c k e \<in> set (rp_actions plan)"
  shows "traffic_gate opts c"
proof -
  obtain h where h: "handled desired actual opts (rp_components plan) c h" and ah: "Admit_endpoint c k e \<in> set (fst h)"
    using plan_action [OF r assms(2) a] by (metis action_component.simps(3))
  from h show ?thesis
  proof (cases rule: handled_cases)
    case (blocked p reason)
    with ah show ?thesis by (auto simp: retire_actions_def withdraw_def Let_def split: if_splits instance_status.splits)
        (metis instance_status.exhaust)
  next
    case (active p ready)
    with ah show ?thesis by (auto elim!: admit_source simp: is_routable_def)
  qed
qed

text \<open>C7. A reconciler pass that runs under the gates of the job plan admits no endpoint of a component
  before every execution of its before-traffic jobs on this site is recorded as succeeded.\<close>

theorem jobs_run_before_traffic:
  fixes desired :: "'p execution_plan"
  assumes r: "reconcile_application desired actual opts = Some plan" and o: "distinct (xp_order desired)"
    and g: "ro_gates opts = Some (jp_gates (plan_application_jobs ck sha256 desired spec instances jopts))"
    and a: "Admit_endpoint c k e \<in> set (rp_actions plan)"
    and job: "(name, job) \<in> set (own_fields (fld spec ''jobs''))" "fld job ''component'' = Str c"
      "truthy (fld job ''beforeTraffic'')" "t \<in> set (targets_of ck instances jopts (name, job))"
  shows "\<exists>x. jm_get (records_by_key (jo_records jopts)) (target_key sha256 desired jopts name t) = Some x
    \<and> jr_status x = Job_succeeded"
proof -
  have "jm_get (jp_gates (plan_application_jobs ck sha256 desired spec instances jopts)) c \<noteq> Some False"
    using admitted_gate [OF r o a] by (simp add: traffic_gate_def g)
  then have "\<not> holds_traffic ck sha256 desired instances jopts (records_by_key (jo_records jopts)) (name, job)"
    using job(1,2) unfolding plan_gates by (force simp: job_component_def split: if_splits)
  then have "job_done (jm_get (records_by_key (jo_records jopts)) (target_key sha256 desired jopts name t))"
    using job(3,4) by (auto simp: holds_traffic_def)
  then show ?thesis by (auto simp: job_done_def split: option.splits)
qed

section \<open>Keys\<close>

text \<open>The idempotency key of an execution identifies it: as long as the hash does not confuse the two
  canonical texts, two executions share a key only when application, release digest, configuration,
  job, site and instance are all the same; an execution per site never shares one with an execution
  per instance.\<close>

lemma job_key_identifies:
  assumes h: "sha256 (job_key_text app digest configuration job site inst) = sha256 (job_key_text app' digest' configuration' job' site' inst')
      \<Longrightarrow> job_key_text app digest configuration job site inst = job_key_text app' digest' configuration' job' site' inst'"
  shows "job_execution_key sha256 app digest configuration job site inst = job_execution_key sha256 app' digest' configuration' job' site' inst'
    \<longleftrightarrow> (app, digest, configuration, job, site, inst) = (app', digest', configuration', job', site', inst')"
proof -
  let ?v = "\<lambda>a b c d e i. Arr [Str a, Str b, Str c, Str d, Str e, (case i of Some i \<Rightarrow> Str i | None \<Rightarrow> Null)]"
  have p: "plain (?v a b c d e i)" for a b c d e and i :: "string option" by (cases i) simp_all
  have "doc_text (?v app digest configuration job site inst) = doc_text (?v app' digest' configuration' job' site' inst')
      \<longleftrightarrow> ?v app digest configuration job site inst = ?v app' digest' configuration' job' site' inst'"
    using doc_text_inj [OF p p] unfolding plain_text [OF p] option.inject .
  also have "\<dots> \<longleftrightarrow> (app, digest, configuration, job, site, inst) = (app', digest', configuration', job', site', inst')"
    by (auto split: option.splits)
  finally show ?thesis using h by (auto simp: job_execution_key_def job_key_text_def)
qed

section \<open>A concrete release with a migration\<close>

definition migration :: "string \<times> jsv" where
  "migration = (''migrate'', Obj [(''component'', Str ''web''), (''command'', Arr [Str ''up'']), (''execution'', Str ''perSite''),
     (''environment'', Obj []), (''beforeTraffic'', Bool True)])"

definition migration_spec :: jsv where
  "migration_spec = Obj [(''jobs'', Obj [migration])]"

definition job_site :: "job_record list \<Rightarrow> job_options" where
  "job_site rs = \<lparr>jo_site = ''home'', jo_writer = None, jo_configuration = ''c'', jo_records = Some rs, jo_retry_failed = True\<rparr>"

definition plain_hash :: "string \<Rightarrow> string" where
  "plain_hash s = s"

definition no_order :: "string \<Rightarrow> nat list" where
  "no_order s = []"

lemma migration_job: "migration \<in> set (own_fields (fld migration_spec ''jobs''))"
  by (simp add: migration_spec_def migration_def fld_def js_order_def)

lemma migration_rewritten: "(''migrate'', snd migration) = migration"
  by (simp add: migration_def)

lemma migration_target: "None \<in> set (targets_of no_order [] (job_site rs) migration)"
  by (simp add: targets_of_def job_targets_def migration_def fld_def)


lemma completed_plan_opens_gates_witness:
  "jp_executions (plan_application_jobs no_order plain_hash growing migration_spec []
     (job_site ([] @ map completed (jp_executions (plan_application_jobs no_order plain_hash growing migration_spec [] (job_site [])))))) = []"
  using completed_plan_opens_gates [of "[]" "job_site []" _ no_order plain_hash growing migration_spec "[]", OF _ _ _ refl refl]
  by (simp add: job_site_def)

definition gated_options :: reconcile_options where
  "gated_options = (pass_options [])\<lparr>ro_gates := Some (jp_gates (plan_application_jobs no_order plain_hash growing migration_spec []
     (job_site [\<lparr>jr_key = target_key plain_hash growing (job_site []) ''migrate'' None, jr_status = Job_succeeded, jr_attempts = 1\<rparr>])))\<rparr>"

lemma jobs_run_before_traffic_witness:
  "let opts = job_site [\<lparr>jr_key = target_key plain_hash growing (job_site []) ''migrate'' None, jr_status = Job_succeeded, jr_attempts = 1\<rparr>] in
   \<exists>x. jm_get (records_by_key (jo_records opts)) (target_key plain_hash growing opts ''migrate'' None) = Some x \<and> jr_status x = Job_succeeded"
proof -
  let ?o = "job_site [\<lparr>jr_key = target_key plain_hash growing (job_site []) ''migrate'' None, jr_status = Job_succeeded, jr_attempts = 1\<rparr>]"
  let ?p = "the (reconcile_application growing one_ready gated_options)"
  have "reconcile_application growing one_ready gated_options \<noteq> None" by code_simp
  then have r: "reconcile_application growing one_ready gated_options = Some ?p" by auto
  have a: "Admit_endpoint ''web'' ''a'' \<lparr>ep_id = ''a'', ep_service = ''http'', ep_host = ''h'', ep_port = 80\<rparr> \<in> set (rp_actions ?p)"
    by code_simp
  have g: "ro_gates gated_options = Some (jp_gates (plan_application_jobs no_order plain_hash growing migration_spec [] ?o))"
    by (simp add: gated_options_def)
  have m: "fld (snd migration) ''component'' = Str ''web''" "truthy (fld (snd migration) ''beforeTraffic'')"
    by (simp_all add: migration_def fld_def)
  show ?thesis
    unfolding Let_def
    by (rule jobs_run_before_traffic [OF r growing_facts(2) g a, of "''migrate''" "snd migration", unfolded migration_rewritten,
          OF migration_job m migration_target])
qed

lemma job_key_identifies_witness:
  "job_execution_key plain_hash ''shop'' ''d'' ''c'' ''migrate'' ''home'' None \<noteq> job_execution_key plain_hash ''shop'' ''d'' ''c'' ''migrate'' ''home'' (Some ''a'')"
  using job_key_identifies [of plain_hash "''shop''" "''d''" "''c''" "''migrate''" "''home''" None "''shop''" "''d''" "''c''" "''migrate''" "''home''" "Some ''a''"]
  by (simp add: plain_hash_def)

end
