(* ===== verification/ServicePool.thy ===== *)
theory ServicePool
  imports Prelude "HOL-Library.Word"
begin

unbundle bit_operations_syntax

text \<open>
  \<open>service-routing.ts\<close>: the endpoint pool of the edge proxy. Endpoint objects are shared between the
  pool's maps and the leases handed to requests, so the model keeps them in an explicit store
  (\<open>p_store\<close>, an address is an index) and a lease holds the address it will decrement. Operations
  return the state next to a result that is \<open>Inl\<close> the error the source throws; a throw keeps the
  writes made before it. The collation of \<open>localeCompare\<close> is the sort key \<open>ck\<close>, times are integers
  in milliseconds, \<open>charCodeAt\<close> is a code unit below 256.
\<close>

section \<open>Data\<close>

datatype readiness = Starting_endpoint | Ready_endpoint | Unready_endpoint | Draining_endpoint

record endpoint_input =
  ei_id :: string
  ei_service :: string
  ei_instance :: string
  ei_host :: string
  ei_port :: int
  ei_release :: string
  ei_readiness :: readiness

record service_endpoint =
  se_input :: endpoint_input
  se_in_flight :: nat
  se_deadline :: "int option"

type_synonym members = "(string, nat) jmap"

record lease =
  l_address :: nat
  l_endpoint :: service_endpoint
  l_released :: bool

record pool =
  p_store :: "service_endpoint list"
  p_services :: "(string, members) jmap"
  p_cursor :: "(string, nat) jmap"
  p_leases :: "lease list"

datatype pool_error =
    Foreign_endpoint string string string
  | Duplicate_endpoint string
  | Unknown_endpoint string string

definition empty_pool :: pool where
  "empty_pool = \<lparr>p_store = [], p_services = [], p_cursor = [], p_leases = []\<rparr>"

abbreviation se_readiness :: "service_endpoint \<Rightarrow> readiness" where
  "se_readiness e \<equiv> ei_readiness (se_input e)"

abbreviation se_id :: "service_endpoint \<Rightarrow> string" where
  "se_id e \<equiv> ei_id (se_input e)"

definition members_of :: "pool \<Rightarrow> string \<Rightarrow> members" where
  "members_of p svc = (case jm_get (p_services p) svc of Some m \<Rightarrow> m | None \<Rightarrow> [])"

section \<open>Membership\<close>

text \<open>The loop of \<open>replace\<close>: endpoints already known keep their object, which is assigned in place.\<close>

fun place_endpoints ::
  "string \<Rightarrow> members \<Rightarrow> endpoint_input list \<Rightarrow> members \<Rightarrow> service_endpoint list
    \<Rightarrow> service_endpoint list \<times> (pool_error + members)" where
  "place_endpoints svc previous [] next store = (store, Inr next)"
| "place_endpoints svc previous (e # es) next store =
     (if ei_service e \<noteq> svc then (store, Inl (Foreign_endpoint (ei_id e) (ei_service e) svc))
      else if jm_has next (ei_id e) then (store, Inl (Duplicate_endpoint (ei_id e)))
      else case jm_get previous (ei_id e) of
        Some a \<Rightarrow>
          (let old = store ! a;
               new = \<lparr>se_input = e, se_in_flight = se_in_flight old,
                      se_deadline = (if ei_readiness e = Draining_endpoint then se_deadline old else None)\<rparr>
           in place_endpoints svc previous es (jm_set next (ei_id e) a) (store[a := new]))
      | None \<Rightarrow>
          place_endpoints svc previous es (jm_set next (ei_id e) (length store))
            (store @ [\<lparr>se_input = e, se_in_flight = 0, se_deadline = None\<rparr>]))"

definition is_ready :: "service_endpoint list \<Rightarrow> nat \<Rightarrow> bool" where
  "is_ready store a \<longleftrightarrow> se_readiness (store ! a) = Ready_endpoint"

definition cursor_of :: "pool \<Rightarrow> string \<Rightarrow> nat" where
  "cursor_of p svc = (case jm_get (p_cursor p) svc of Some c \<Rightarrow> c | None \<Rightarrow> 0)"

definition replace :: "string \<Rightarrow> endpoint_input list \<Rightarrow> pool \<Rightarrow> pool \<times> (pool_error + unit)" where
  "replace svc es p =
     (case place_endpoints svc (members_of p svc) es [] (p_store p) of
        (store, Inl err) \<Rightarrow> (p\<lparr>p_store := store\<rparr>, Inl err)
      | (store, Inr next) \<Rightarrow>
          (let ready_count = length (filter (is_ready store) (map snd next)) in
           (p\<lparr>p_store := store, p_services := jm_set (p_services p) svc next,
              p_cursor := jm_set (p_cursor p) svc
                (if ready_count = 0 then 0 else cursor_of p svc mod ready_count)\<rparr>, Inr ())))"

text \<open>\<open>upsert\<close> always stores a fresh object, which takes over the count of the one it replaces.\<close>

definition upsert :: "endpoint_input \<Rightarrow> pool \<Rightarrow> pool" where
  "upsert e p =
     (let service = members_of p (ei_service e);
          existing = map_option ((!) (p_store p)) (jm_get service (ei_id e));
          new = \<lparr>se_input = e,
                 se_in_flight = (case existing of Some x \<Rightarrow> se_in_flight x | None \<Rightarrow> 0),
                 se_deadline = (if ei_readiness e = Draining_endpoint
                   then (case existing of Some x \<Rightarrow> se_deadline x | None \<Rightarrow> None) else None)\<rparr>
      in p\<lparr>p_store := p_store p @ [new],
           p_services := jm_set (p_services p) (ei_service e)
             (jm_set service (ei_id e) (length (p_store p)))\<rparr>)"

section \<open>Readiness and draining\<close>

definition require_endpoint :: "string \<Rightarrow> string \<Rightarrow> pool \<Rightarrow> pool_error + nat" where
  "require_endpoint svc i p =
     (case jm_get (members_of p svc) i of
        Some a \<Rightarrow> Inr a | None \<Rightarrow> Inl (Unknown_endpoint i svc))"

definition with_readiness :: "readiness \<Rightarrow> service_endpoint \<Rightarrow> service_endpoint" where
  "with_readiness r e = e\<lparr>se_input := (se_input e)\<lparr>ei_readiness := r\<rparr>\<rparr>"

definition set_readiness :: "string \<Rightarrow> string \<Rightarrow> readiness \<Rightarrow> pool \<Rightarrow> pool \<times> (pool_error + unit)" where
  "set_readiness svc i r p =
     (case require_endpoint svc i p of
        Inl err \<Rightarrow> (p, Inl err)
      | Inr a \<Rightarrow>
          (let e = with_readiness r (p_store p ! a);
               e' = (if r \<noteq> Draining_endpoint then e\<lparr>se_deadline := None\<rparr> else e)
           in (p\<lparr>p_store := (p_store p)[a := e']\<rparr>, Inr ())))"

definition begin_drain :: "string \<Rightarrow> string \<Rightarrow> int \<Rightarrow> pool \<Rightarrow> pool \<times> (pool_error + unit)" where
  "begin_drain svc i deadline p =
     (case require_endpoint svc i p of
        Inl err \<Rightarrow> (p, Inl err)
      | Inr a \<Rightarrow>
          (p\<lparr>p_store := (p_store p)[a := (with_readiness Draining_endpoint (p_store p ! a))
               \<lparr>se_deadline := Some deadline\<rparr>]\<rparr>, Inr ()))"

definition drained :: "int \<Rightarrow> service_endpoint \<Rightarrow> bool" where
  "drained now e \<longleftrightarrow> se_in_flight e = 0 \<or>
     (case se_deadline e of Some d \<Rightarrow> d \<le> now | None \<Rightarrow> False)"

definition drain_complete :: "string \<Rightarrow> string \<Rightarrow> int \<Rightarrow> pool \<Rightarrow> pool_error + bool" where
  "drain_complete svc i now p =
     (case require_endpoint svc i p of
        Inl err \<Rightarrow> Inl err
      | Inr a \<Rightarrow>
          (let e = p_store p ! a in
           Inr (if se_readiness e \<noteq> Draining_endpoint then False else drained now e)))"

text \<open>The loop of \<open>removeDrained\<close> visits the map it deletes from; an entry deleted early is not visited.\<close>

fun remove_loop ::
  "service_endpoint list \<Rightarrow> int \<Rightarrow> members \<Rightarrow> members \<Rightarrow> string list \<Rightarrow> members \<times> string list" where
  "remove_loop store now [] service removed = (service, removed)"
| "remove_loop store now ((k, a) # rest) service removed =
     (let e = store ! a in
      if jm_has service k \<and> se_readiness e = Draining_endpoint \<and> drained now e
      then remove_loop store now rest (jm_delete service (se_id e)) (removed @ [se_id e])
      else remove_loop store now rest service removed)"

definition remove_drained :: "string \<Rightarrow> int \<Rightarrow> pool \<Rightarrow> pool \<times> string list" where
  "remove_drained svc now p =
     (case jm_get (p_services p) svc of
        None \<Rightarrow> (p, [])
      | Some service \<Rightarrow>
          (let (service', removed) = remove_loop (p_store p) now service service [] in
           (p\<lparr>p_services := jm_set (p_services p) svc service'\<rparr>, sort removed)))"

section \<open>Selection and leases\<close>

definition stable_hash :: "string \<Rightarrow> nat" where
  "stable_hash s = unat (foldl (\<lambda>h c. (h XOR of_char c) * 16777619) (2166136261 :: 32 word) s)"

definition ready_list :: "(string \<Rightarrow> 'c::linorder) \<Rightarrow> pool \<Rightarrow> string \<Rightarrow> nat list" where
  "ready_list ck p svc =
     sort_key (\<lambda>a. ck (se_id (p_store p ! a))) (filter (is_ready (p_store p)) (map snd (members_of p svc)))"

text \<open>\<open>select\<close> returns the identity of the lease; the lease itself is kept in the state.\<close>

definition select :: "(string \<Rightarrow> 'c::linorder) \<Rightarrow> string \<Rightarrow> string option \<Rightarrow> pool \<Rightarrow> pool \<times> nat option" where
  "select ck svc affinity p =
     (let ready = ready_list ck p svc in
      if ready = [] then (p, None)
      else
        let (a, cursor) =
              (case affinity of
                 Some key \<Rightarrow> (ready ! (stable_hash key mod length ready), p_cursor p)
               | None \<Rightarrow> (ready ! (cursor_of p svc mod length ready),
                   jm_set (p_cursor p) svc ((cursor_of p svc + 1) mod length ready)));
            e = p_store p ! a;
            e' = e\<lparr>se_in_flight := se_in_flight e + 1\<rparr>
        in (p\<lparr>p_store := (p_store p)[a := e'], p_cursor := cursor,
              p_leases := p_leases p @ [\<lparr>l_address = a, l_endpoint = e', l_released = False\<rparr>]\<rparr>,
            Some (length (p_leases p))))"

definition release_lease :: "nat \<Rightarrow> pool \<Rightarrow> pool" where
  "release_lease l p =
     (if l < length (p_leases p) \<and> \<not> l_released (p_leases p ! l) then
        (let a = l_address (p_leases p ! l); e = p_store p ! a in
         p\<lparr>p_leases := (p_leases p)[l := (p_leases p ! l)\<lparr>l_released := True\<rparr>],
           p_store := (p_store p)[a := e\<lparr>se_in_flight := se_in_flight e - 1\<rparr>]\<rparr>)
      else p)"

definition snapshot :: "(string \<Rightarrow> 'c::linorder) \<Rightarrow> string \<Rightarrow> pool \<Rightarrow> service_endpoint list" where
  "snapshot ck svc p =
     map ((!) (p_store p)) (sort_key (\<lambda>a. ck (se_id (p_store p ! a))) (map snd (members_of p svc)))"

record backend_lease =
  bl_host :: string
  bl_port :: int
  bl_endpoint :: string
  bl_lease :: nat

definition select_service_backend ::
  "(string \<Rightarrow> 'c::linorder) \<Rightarrow> string \<Rightarrow> string option \<Rightarrow> pool \<Rightarrow> pool \<times> backend_lease option" where
  "select_service_backend ck svc affinity p =
     (case select ck svc affinity p of
        (p', None) \<Rightarrow> (p', None)
      | (p', Some l) \<Rightarrow>
          (let i = se_input (l_endpoint (p_leases p' ! l)) in
           (p', Some \<lparr>bl_host = ei_host i, bl_port = ei_port i, bl_endpoint = ei_id i, bl_lease = l\<rparr>)))"

section \<open>Histories\<close>

datatype pool_event =
    Replace string "endpoint_input list"
  | Upsert endpoint_input
  | Set_readiness string string readiness
  | Begin_draining string string int
  | Select string "string option"
  | Release nat
  | Remove_drained string int

fun pool_step :: "(string \<Rightarrow> 'c::linorder) \<Rightarrow> pool_event \<Rightarrow> pool \<Rightarrow> pool" where
  "pool_step ck (Replace svc es) p = fst (replace svc es p)"
| "pool_step ck (Upsert e) p = upsert e p"
| "pool_step ck (Set_readiness svc i r) p = fst (set_readiness svc i r p)"
| "pool_step ck (Begin_draining svc i d) p = fst (begin_drain svc i d p)"
| "pool_step ck (Select svc affinity) p = fst (select ck svc affinity p)"
| "pool_step ck (Release l) p = release_lease l p"
| "pool_step ck (Remove_drained svc now) p = fst (remove_drained svc now p)"

end
