(* ===== verification/ServicePoolFacts.thy ===== *)
theory ServicePoolFacts
  imports ServicePool
begin

text \<open>
  The invariant of the endpoint pool over every history of operations: objects are found under their own
  service and identity (so no two members share an object), only draining endpoints have a deadline, and
  no object counts fewer requests than it has open leases.
\<close>

section \<open>The invariant\<close>

definition members_ok :: "service_endpoint list \<Rightarrow> string \<Rightarrow> members \<Rightarrow> bool" where
  "members_ok store svc m \<longleftrightarrow> distinct (jm_keys m) \<and>
     (\<forall>(k, a) \<in> set m. a < length store \<and> se_id (store ! a) = k \<and> ei_service (se_input (store ! a)) = svc)"

definition deadlines_ok :: "service_endpoint list \<Rightarrow> bool" where
  "deadlines_ok store \<longleftrightarrow> (\<forall>e \<in> set store. se_readiness e \<noteq> Draining_endpoint \<longrightarrow> se_deadline e = None)"

definition open_leases :: "pool \<Rightarrow> nat \<Rightarrow> nat" where
  "open_leases p a = length (filter (\<lambda>l. l_address l = a \<and> \<not> l_released l) (p_leases p))"

definition leases_ok :: "pool \<Rightarrow> bool" where
  "leases_ok p \<longleftrightarrow> (\<forall>l \<in> set (p_leases p). l_address l < length (p_store p)) \<and>
     (\<forall>a < length (p_store p). open_leases p a \<le> se_in_flight (p_store p ! a))"

definition pool_ok :: "pool \<Rightarrow> bool" where
  "pool_ok p \<longleftrightarrow> distinct (jm_keys (p_services p)) \<and>
     (\<forall>(svc, m) \<in> set (p_services p). members_ok (p_store p) svc m) \<and>
     deadlines_ok (p_store p) \<and> leases_ok p"

text \<open>A store that keeps the identity of every object it had.\<close>

definition same_identity :: "service_endpoint list \<Rightarrow> service_endpoint list \<Rightarrow> bool" where
  "same_identity s t \<longleftrightarrow> length s \<le> length t \<and>
     (\<forall>a < length s. se_id (t ! a) = se_id (s ! a) \<and>
        ei_service (se_input (t ! a)) = ei_service (se_input (s ! a)))"

text \<open>A store that keeps every count, with new objects at zero.\<close>

definition same_counts :: "service_endpoint list \<Rightarrow> service_endpoint list \<Rightarrow> bool" where
  "same_counts s t \<longleftrightarrow> length s \<le> length t \<and>
     (\<forall>a < length s. se_in_flight (t ! a) = se_in_flight (s ! a)) \<and>
     (\<forall>a < length t. length s \<le> a \<longrightarrow> se_in_flight (t ! a) = 0)"

lemma same_identity_refl [simp]: "same_identity s s"
  by (simp add: same_identity_def)

lemma same_identity_trans: "same_identity s t \<Longrightarrow> same_identity t u \<Longrightarrow> same_identity s u"
  by (auto simp: same_identity_def)

lemma same_identity_update:
  "ei_id (se_input e) = se_id (s ! a) \<Longrightarrow> ei_service (se_input e) = ei_service (se_input (s ! a))
    \<Longrightarrow> same_identity s (s[a := e])"
  by (auto simp: same_identity_def list_update_at)

lemma same_identity_append [simp]: "same_identity s (s @ xs)"
  by (auto simp: same_identity_def nth_append)

lemma same_counts_refl [simp]: "same_counts s s"
  by (simp add: same_counts_def)

lemma same_counts_trans: "same_counts s t \<Longrightarrow> same_counts t u \<Longrightarrow> same_counts s u"
  unfolding same_counts_def by (metis le_trans linorder_not_le order_less_le_trans)

lemma same_counts_update: "se_in_flight e = se_in_flight (s ! a) \<Longrightarrow> same_counts s (s[a := e])"
  by (auto simp: same_counts_def list_update_at)

lemma same_counts_append: "\<forall>e \<in> set xs. se_in_flight e = 0 \<Longrightarrow> same_counts s (s @ xs)"
  by (auto simp: same_counts_def nth_append)

lemma members_ok_store: "members_ok s svc m \<Longrightarrow> same_identity s t \<Longrightarrow> members_ok t svc m"
  by (fastforce simp: members_ok_def same_identity_def)

lemma members_ok_Nil [simp]: "members_ok s svc []"
  by (simp add: members_ok_def)

lemma members_ok_get:
  "members_ok s svc m \<Longrightarrow> jm_get m k = Some a \<Longrightarrow>
     a < length s \<and> se_id (s ! a) = k \<and> ei_service (se_input (s ! a)) = svc"
  by (auto simp: members_ok_def dest!: map_of_SomeD)

lemma members_ok_set:
  "members_ok s svc m \<Longrightarrow> a < length s \<Longrightarrow> se_id (s ! a) = k \<Longrightarrow> ei_service (se_input (s ! a)) = svc
     \<Longrightarrow> members_ok s svc (jm_set m k a)"
  by (auto simp: members_ok_def dest!: set_jm_set)

lemma members_ok_delete: "members_ok s svc m \<Longrightarrow> members_ok s svc (jm_delete m k)"
  unfolding members_ok_def by (auto simp: jm_delete_def distinct_map intro: inj_on_subset)

lemma deadlines_ok_update: "deadlines_ok s \<Longrightarrow> (se_readiness e \<noteq> Draining_endpoint \<Longrightarrow> se_deadline e = None)
    \<Longrightarrow> deadlines_ok (s[a := e])"
  by (auto simp: deadlines_ok_def dest!: set_update_subset_insert [THEN subsetD])

lemma deadlines_ok_append: "deadlines_ok s \<Longrightarrow> (se_readiness e \<noteq> Draining_endpoint \<Longrightarrow> se_deadline e = None)
    \<Longrightarrow> deadlines_ok (s @ [e])"
  by (auto simp: deadlines_ok_def)

lemma place_endpoints_store:
  assumes "place_endpoints svc previous es next store = (store', r)" "members_ok store svc previous"
    "members_ok store svc next" "deadlines_ok store"
  shows "same_identity store store' \<and> same_counts store store' \<and> deadlines_ok store' \<and>
    (\<forall>m. r = Inr m \<longrightarrow> members_ok store' svc m)"
  using assms
proof (induction svc previous es "next" store rule: place_endpoints.induct)
  case (2 svc previous e es "next" store)
  show ?case
  proof (cases "ei_service e \<noteq> svc \<or> jm_has next (ei_id e)")
    case True
    with "2.prems" show ?thesis by (auto split: if_splits)
  next
    case False
    show ?thesis
    proof (cases "jm_get previous (ei_id e)")
      case None
      let ?s = "store @ [\<lparr>se_input = e, se_in_flight = 0, se_deadline = None\<rparr>]"
      have "members_ok ?s svc (jm_set next (ei_id e) (length store))"
        by (rule members_ok_set) (use "2.prems"(3) False in \<open>auto intro: members_ok_store\<close>)
      moreover have "members_ok ?s svc previous" using "2.prems"(2) by (rule members_ok_store) simp
      moreover have "deadlines_ok ?s" using "2.prems"(4) by (rule deadlines_ok_append) simp
      moreover have "same_counts store ?s" by (rule same_counts_append) simp
      ultimately show ?thesis
        using "2.IH"(1) "2.prems"(1) False None
        by (auto intro: same_identity_trans [OF same_identity_append] same_counts_trans)
    next
      case (Some a)
      let ?n = "\<lparr>se_input = e, se_in_flight = se_in_flight (store ! a),
        se_deadline = (if ei_readiness e = Draining_endpoint then se_deadline (store ! a) else None)\<rparr>"
      let ?s = "store[a := ?n]"
      have a: "a < length store" "se_id (store ! a) = ei_id e" "ei_service (se_input (store ! a)) = svc"
        using members_ok_get [OF "2.prems"(2) Some] by auto
      have i: "same_identity store ?s" by (rule same_identity_update) (use a False in auto)
      have c: "same_counts store ?s" by (rule same_counts_update) simp
      have "members_ok ?s svc (jm_set next (ei_id e) a)"
        by (rule members_ok_set) (use members_ok_store [OF "2.prems"(3) i] a False in auto)
      moreover have "members_ok ?s svc previous" using "2.prems"(2) i by (rule members_ok_store)
      moreover have "deadlines_ok ?s" using "2.prems"(4) by (rule deadlines_ok_update) simp
      ultimately show ?thesis
        using "2.IH"(2) [OF _ _ Some refl refl] "2.prems"(1) False Some i c
        by (auto simp: Let_def intro: same_identity_trans same_counts_trans)
    qed
  qed
qed auto

section \<open>Every operation keeps it\<close>

lemma pool_okD:
  assumes "pool_ok p"
  shows "distinct (jm_keys (p_services p))" "members_ok (p_store p) svc (members_of p svc)"
    "deadlines_ok (p_store p)" "leases_ok p"
  using assms by (auto simp: pool_ok_def members_of_def split: option.splits dest!: map_of_SomeD)

text \<open>An operation that keeps identities, and updates at most one service.\<close>

lemma pool_ok_service:
  assumes "pool_ok p" "same_identity (p_store p) (p_store q)" "deadlines_ok (p_store q)" "leases_ok q"
    "p_services q = jm_set (p_services p) svc m" "members_ok (p_store q) svc m"
  shows "pool_ok q"
  using assms unfolding pool_ok_def
  by (auto dest!: set_jm_set intro: members_ok_store)

lemma pool_ok_store:
  assumes "pool_ok p" "same_identity (p_store p) (p_store q)" "deadlines_ok (p_store q)" "leases_ok q"
    "p_services q = p_services p"
  shows "pool_ok q"
  using assms unfolding pool_ok_def by (auto intro: members_ok_store)

lemma no_open_leases: "leases_ok p \<Longrightarrow> length (p_store p) \<le> a \<Longrightarrow> open_leases p a = 0"
  by (auto simp: leases_ok_def open_leases_def filter_empty_conv)

lemma open_leases_cong: "p_leases q = p_leases p \<Longrightarrow> open_leases q a = open_leases p a"
  by (simp add: open_leases_def)

lemma leases_ok_counts:
  assumes "leases_ok p" "p_leases q = p_leases p" "same_counts (p_store p) (p_store q)"
  shows "leases_ok q"
proof -
  have "open_leases q a \<le> se_in_flight (p_store q ! a)" if "a < length (p_store q)" for a
    using assms that no_open_leases [OF assms(1), of a]
    by (cases "a < length (p_store p)") (auto simp: open_leases_cong [OF assms(2)] leases_ok_def same_counts_def)
  then show ?thesis using assms by (auto simp: leases_ok_def same_counts_def)
qed

lemma replace_ok: "pool_ok p \<Longrightarrow> pool_ok (fst (replace svc es p))"
proof -
  assume p: "pool_ok p"
  obtain store r where s: "place_endpoints svc (members_of p svc) es [] (p_store p) = (store, r)" by fastforce
  note f = place_endpoints_store [OF s pool_okD(2) [OF p] members_ok_Nil pool_okD(3) [OF p]]
  show ?thesis
  proof (cases r)
    case (Inl err)
    show ?thesis
      by (rule pool_ok_store [OF p]) (use f s Inl leases_ok_counts [OF pool_okD(4) [OF p]] in \<open>auto simp: replace_def\<close>)
  next
    case (Inr m)
    show ?thesis
      by (rule pool_ok_service [OF p, where svc = svc and m = m])
        (use f s Inr leases_ok_counts [OF pool_okD(4) [OF p]] in \<open>auto simp: replace_def Let_def\<close>)
  qed
qed

lemma upsert_store:
  "p_store (upsert e p) = p_store p @ [\<lparr>se_input = e,
     se_in_flight = (case jm_get (members_of p (ei_service e)) (ei_id e) of Some a \<Rightarrow> se_in_flight (p_store p ! a) | None \<Rightarrow> 0),
     se_deadline = (if ei_readiness e = Draining_endpoint
       then (case jm_get (members_of p (ei_service e)) (ei_id e) of Some a \<Rightarrow> se_deadline (p_store p ! a) | None \<Rightarrow> None) else None)\<rparr>]"
  "p_leases (upsert e p) = p_leases p"
  "p_services (upsert e p) = jm_set (p_services p) (ei_service e)
     (jm_set (members_of p (ei_service e)) (ei_id e) (length (p_store p)))"
  by (auto simp: upsert_def Let_def split: option.splits)

lemma upsert_ok:
  assumes p: "pool_ok p" shows "pool_ok (upsert e p)"
proof (rule pool_ok_service [OF p _ _ _ upsert_store(3)])
  show i: "same_identity (p_store p) (p_store (upsert e p))" by (simp add: upsert_store)
  show "deadlines_ok (p_store (upsert e p))"
    unfolding upsert_store by (rule deadlines_ok_append [OF pool_okD(3) [OF p]]) auto
  show "leases_ok (upsert e p)"
    using pool_okD(4) [OF p] no_open_leases [OF pool_okD(4) [OF p]]
    by (auto simp: leases_ok_def upsert_store open_leases_cong [OF upsert_store(2)] nth_append less_Suc_eq)
  show "members_ok (p_store (upsert e p)) (ei_service e)
      (jm_set (members_of p (ei_service e)) (ei_id e) (length (p_store p)))"
    by (rule members_ok_set [OF members_ok_store [OF pool_okD(2) [OF p] i]]) (auto simp: upsert_store)
qed

lemma require_endpoint_Inr:
  "require_endpoint svc i p = Inr a \<longleftrightarrow> jm_get (members_of p svc) i = Some a"
  by (auto simp: require_endpoint_def split: option.splits)

text \<open>Assigning the object of one endpoint, with its identity and its count unchanged.\<close>

lemma assign_ok:
  assumes p: "pool_ok p" and e: "se_id e = se_id (p_store p ! a)"
    "ei_service (se_input e) = ei_service (se_input (p_store p ! a))" "se_in_flight e = se_in_flight (p_store p ! a)"
    "se_readiness e \<noteq> Draining_endpoint \<Longrightarrow> se_deadline e = None"
  shows "pool_ok (p\<lparr>p_store := (p_store p)[a := e]\<rparr>)"
proof (rule pool_ok_store [OF p])
  show "leases_ok (p\<lparr>p_store := (p_store p)[a := e]\<rparr>)"
    by (rule leases_ok_counts [OF pool_okD(4) [OF p]]) (use e in \<open>auto intro: same_counts_update\<close>)
qed (use e in \<open>auto intro: same_identity_update deadlines_ok_update [OF pool_okD(3) [OF p]]\<close>)

lemma with_readiness_fields [simp]:
  "se_readiness (with_readiness r e) = r" "se_id (with_readiness r e) = se_id e"
  "ei_service (se_input (with_readiness r e)) = ei_service (se_input e)"
  "se_in_flight (with_readiness r e) = se_in_flight e" "se_deadline (with_readiness r e) = se_deadline e"
  by (simp_all add: with_readiness_def)

lemma set_readiness_ok: "pool_ok p \<Longrightarrow> pool_ok (fst (set_readiness svc i r p))"
  by (auto simp: set_readiness_def Let_def split: sum.splits intro!: assign_ok)

lemma begin_drain_ok: "pool_ok p \<Longrightarrow> pool_ok (fst (begin_drain svc i d p))"
  by (auto simp: begin_drain_def split: sum.splits intro!: assign_ok)

lemma remove_loop_ok: "members_ok s svc m \<Longrightarrow> members_ok s svc (fst (remove_loop s now xs m removed))"
  by (induction s now xs m removed rule: remove_loop.induct) (auto simp: Let_def members_ok_delete)

lemma remove_drained_ok: "pool_ok p \<Longrightarrow> pool_ok (fst (remove_drained svc now p))"
proof (cases "jm_get (p_services p) svc")
  case (Some m)
  assume p: "pool_ok p"
  have m: "members_ok (p_store p) svc m" using pool_okD(2) [OF p, of svc] Some by (simp add: members_of_def)
  have l: "leases_ok (fst (remove_drained svc now p))" 
    by (rule leases_ok_counts [OF pool_okD(4) [OF p]]) (simp_all add: remove_drained_def Some split_beta)
  show ?thesis
    by (rule pool_ok_service [OF p, where svc = svc and m = "fst (remove_loop (p_store p) now m m [])"])
      (use l m in \<open>simp_all add: remove_drained_def Some split_beta remove_loop_ok pool_okD(3) [OF p]\<close>)
qed (simp add: remove_drained_def)

lemma in_ready_list:
  "a \<in> set (ready_list ck p svc) \<longleftrightarrow> a \<in> snd ` set (members_of p svc) \<and> is_ready (p_store p) a"
  by (auto simp: ready_list_def)

lemma ready_list_member:
  assumes "pool_ok p" "a \<in> set (ready_list ck p svc)"
  shows "a < length (p_store p)" "jm_get (members_of p svc) (se_id (p_store p ! a)) = Some a"
    "ei_service (se_input (p_store p ! a)) = svc" "se_readiness (p_store p ! a) = Ready_endpoint"
proof -
  obtain k where k: "(k, a) \<in> set (members_of p svc)" using assms(2) by (auto simp: in_ready_list)
  note m = pool_okD(2) [OF assms(1), of svc]
  show "a < length (p_store p)" "ei_service (se_input (p_store p ! a)) = svc"
    using m k by (auto simp: members_ok_def)
  have "se_id (p_store p ! a) = k" "distinct (jm_keys (members_of p svc))" using m k by (auto simp: members_ok_def)
  then show "jm_get (members_of p svc) (se_id (p_store p ! a)) = Some a" using k by simp
  show "se_readiness (p_store p ! a) = Ready_endpoint" using assms(2) by (simp add: in_ready_list is_ready_def)
qed

definition picked :: "(string \<Rightarrow> 'c::linorder) \<Rightarrow> string \<Rightarrow> string option \<Rightarrow> pool \<Rightarrow> nat" where
  "picked ck svc affinity p = ready_list ck p svc !
     ((case affinity of Some key \<Rightarrow> stable_hash key | None \<Rightarrow> cursor_of p svc) mod length (ready_list ck p svc))"

lemma picked_ready: "ready_list ck p svc \<noteq> [] \<Longrightarrow> picked ck svc affinity p \<in> set (ready_list ck p svc)"
  by (simp add: picked_def)

definition counted :: "service_endpoint \<Rightarrow> service_endpoint" where
  "counted e = e\<lparr>se_in_flight := se_in_flight e + 1\<rparr>"

lemma counted_fields [simp]: "se_input (counted e) = se_input e" "se_in_flight (counted e) = se_in_flight e + 1"
  "se_deadline (counted e) = se_deadline e"
  by (simp_all add: counted_def)

lemma select_fields:
  fixes p :: pool and ck :: "string \<Rightarrow> 'c::linorder" and affinity :: "string option"
  assumes "ready_list ck p svc \<noteq> []"
  defines "a \<equiv> picked ck svc affinity p" and "q \<equiv> fst (select ck svc affinity p)"
  shows "p_store q = (p_store p)[a := counted (p_store p ! a)]"
    "p_leases q = p_leases p @ [\<lparr>l_address = a, l_endpoint = counted (p_store p ! a), l_released = False\<rparr>]"
    "p_services q = p_services p" "snd (select ck svc affinity p) = Some (length (p_leases p))"
    "p_cursor q = (case affinity of Some _ \<Rightarrow> p_cursor p
       | None \<Rightarrow> jm_set (p_cursor p) svc ((cursor_of p svc + 1) mod length (ready_list ck p svc)))"
  using assms(1) by (auto simp: q_def a_def picked_def select_def counted_def Let_def split: option.splits)

lemma select_none: "ready_list ck p svc = [] \<Longrightarrow> select ck svc affinity p = (p, None)"
  by (simp add: select_def)

lemma open_leases_snoc: "open_leases (p\<lparr>p_leases := p_leases p @ [l]\<rparr>) a
    = open_leases p a + (if l_address l = a \<and> \<not> l_released l then 1 else 0)"
  by (simp add: open_leases_def)

lemma select_open_leases: "ready_list ck p svc \<noteq> [] \<Longrightarrow>
    open_leases (fst (select ck svc affinity p)) a = open_leases p a + (if a = picked ck svc affinity p then 1 else 0)"
  by (simp add: open_leases_def select_fields(2))

lemma select_ok:
  assumes p: "pool_ok p" shows "pool_ok (fst (select ck svc affinity p))"
proof (cases "ready_list ck p svc = []")
  case False
  note s = select_fields(1-3) [OF False, of affinity]
  let ?a = "picked ck svc affinity p"
  have a: "?a < length (p_store p)" by (rule ready_list_member(1) [OF p picked_ready [OF False]])
  show ?thesis
  proof (rule pool_ok_store [OF p _ _ _ s(3)])
    show "same_identity (p_store p) (p_store (fst (select ck svc affinity p)))"
      unfolding s by (rule same_identity_update) simp_all
    show "deadlines_ok (p_store (fst (select ck svc affinity p)))"
      unfolding s by (rule deadlines_ok_update [OF pool_okD(3) [OF p]]) (use a pool_okD(3) [OF p] in \<open>auto simp: deadlines_ok_def\<close>)
    show "leases_ok (fst (select ck svc affinity p))"
      using pool_okD(4) [OF p] a unfolding leases_ok_def select_open_leases [OF False] s
      by (auto simp: list_update_at)
  qed
qed (simp add: select_none p)

lemma length_filter_update:
  "i < length xs \<Longrightarrow> P (xs ! i) \<Longrightarrow> \<not> P y \<Longrightarrow> Suc (length (filter P (xs[i := y]))) = length (filter P xs)"
  by (induction xs arbitrary: i) (auto split: nat.splits)

lemma length_filter_update_same:
  "P y = P (xs ! i) \<Longrightarrow> length (filter P (xs[i := y])) = length (filter P xs)"
  by (induction xs arbitrary: i) (auto split: nat.splits)

definition is_open :: "pool \<Rightarrow> nat \<Rightarrow> bool" where
  "is_open p l \<longleftrightarrow> l < length (p_leases p) \<and> \<not> l_released (p_leases p ! l)"

lemma release_closed: "\<not> is_open p l \<Longrightarrow> release_lease l p = p"
  by (auto simp: is_open_def release_lease_def)

lemma release_fields:
  assumes "is_open p l"
  defines "a \<equiv> l_address (p_leases p ! l)"
  shows "p_leases (release_lease l p) = (p_leases p)[l := (p_leases p ! l)\<lparr>l_released := True\<rparr>]"
    "p_store (release_lease l p) = (p_store p)[a := (p_store p ! a)\<lparr>se_in_flight := se_in_flight (p_store p ! a) - 1\<rparr>]"
    "p_services (release_lease l p) = p_services p" "p_cursor (release_lease l p) = p_cursor p"
  using assms by (auto simp: is_open_def release_lease_def Let_def)

lemma release_open_leases:
  assumes "is_open p l"
  shows "open_leases p a = open_leases (release_lease l p) a + (if a = l_address (p_leases p ! l) then 1 else 0)"
proof (cases "a = l_address (p_leases p ! l)")
  case True
  then show ?thesis using assms unfolding open_leases_def release_fields(1) [OF assms]
    by (subst length_filter_update [symmetric, where i = l and y = "(p_leases p ! l)\<lparr>l_released := True\<rparr>"])
      (auto simp: is_open_def)
next
  case False
  then show ?thesis using assms unfolding open_leases_def release_fields(1) [OF assms]
    by (simp add: length_filter_update_same is_open_def)
qed

lemma release_ok:
  assumes p: "pool_ok p" shows "pool_ok (release_lease l p)"
proof (cases "is_open p l")
  case True
  note s = release_fields [OF True]
  let ?a = "l_address (p_leases p ! l)"
  have a: "?a < length (p_store p)" using pool_okD(4) [OF p] True by (auto simp: leases_ok_def is_open_def)
  show ?thesis
  proof (rule pool_ok_store [OF p _ _ _ s(3)])
    show "same_identity (p_store p) (p_store (release_lease l p))"
      unfolding s by (rule same_identity_update) simp_all
    show "deadlines_ok (p_store (release_lease l p))"
      unfolding s by (rule deadlines_ok_update [OF pool_okD(3) [OF p]]) (use a pool_okD(3) [OF p] in \<open>auto simp: deadlines_ok_def\<close>)
    have "open_leases (release_lease l p) b \<le> se_in_flight (p_store (release_lease l p) ! b)" if "b < length (p_store p)" for b
    proof -
      have "open_leases p b \<le> se_in_flight (p_store p ! b)" using pool_okD(4) [OF p] that by (simp add: leases_ok_def)
      then show ?thesis using release_open_leases [OF True, of b] a unfolding s by (auto simp: list_update_at split: if_splits)
    qed
    moreover have "\<forall>x \<in> set (p_leases (release_lease l p)). l_address x < length (p_store p)"
      using pool_okD(4) [OF p] True unfolding s leases_ok_def is_open_def
      by (auto dest!: set_update_subset_insert [THEN subsetD])
    ultimately show "leases_ok (release_lease l p)" by (simp add: leases_ok_def s(2))
  qed
qed (simp add: release_closed p)

lemma pool_step_ok: "pool_ok p \<Longrightarrow> pool_ok (pool_step ck e p)"
  by (cases e) (auto intro: replace_ok upsert_ok set_readiness_ok begin_drain_ok select_ok release_ok remove_drained_ok)

lemma empty_pool_ok: "pool_ok empty_pool"
  by (simp add: pool_ok_def empty_pool_def deadlines_ok_def leases_ok_def)

interpretation pool_machine: event_machine "pool_step ck" pool_ok for ck :: "string \<Rightarrow> 'c::linorder"
  by unfold_locales (rule pool_step_ok)

lemmas reachable_pool_ok = pool_machine.inv_fold [OF empty_pool_ok]

end
