(* ===== verification/ServicePoolProperties.thy ===== *)
theory ServicePoolProperties
  imports ServicePoolFacts
begin

text \<open>
  What the endpoint pool promises its callers: which endpoints a drain removes, which a request gets and
  how evenly, what a replaced membership keeps, and where the counts go wrong.
\<close>

section \<open>Removal of drained endpoints\<close>

definition removable :: "int \<Rightarrow> service_endpoint \<Rightarrow> bool" where
  "removable now e \<longleftrightarrow> se_readiness e = Draining_endpoint \<and> drained now e"

lemma remove_loop_filter:
  assumes "distinct (jm_keys xs)" "set xs \<subseteq> set service" "\<forall>(k, a) \<in> set service. se_id (s ! a) = k"
    "distinct (jm_keys service)"
  shows "remove_loop s now xs service removed =
    (filter (\<lambda>(k, a). \<not> (k \<in> set (jm_keys xs) \<and> removable now (s ! a))) service,
     removed @ map fst (filter (\<lambda>(k, a). removable now (s ! a)) xs))"
  using assms
proof (induction xs arbitrary: service removed)
  case (Cons x xs)
  obtain k a where x: "x = (k, a)" by (cases x)
  have ka: "(k, a) \<in> set service" and id: "se_id (s ! a) = k" using Cons.prems x by auto
  have has: "jm_has service k" using ka by force
  have one: "b = a" if "(k, b) \<in> set service" for b
    using that ka Cons.prems(4) by (metis eq_key_imp_eq_value)
  show ?case
  proof (cases "removable now (s ! a)")
    case True
    have d: "jm_delete service k = filter (\<lambda>(k', b). k' \<noteq> k) service" by (simp add: jm_delete_def)
    have "set xs \<subseteq> set (jm_delete service k)" using Cons.prems(1,2) x by (force simp: d)
    moreover have "distinct (jm_keys (jm_delete service k))" using Cons.prems(4) by simp
    moreover have "\<forall>(k', b) \<in> set (jm_delete service k). se_id (s ! b) = k'" using Cons.prems(3) by (auto simp: d)
    ultimately have ih: "remove_loop s now xs (jm_delete service k) (removed @ [k]) =
        (filter (\<lambda>(k, a). \<not> (k \<in> set (jm_keys xs) \<and> removable now (s ! a))) (jm_delete service k),
         (removed @ [k]) @ map fst (filter (\<lambda>(k, a). removable now (s ! a)) xs))"
      using Cons.IH Cons.prems(1) x by simp
    have "filter (\<lambda>(k, a). \<not> (k \<in> set (jm_keys xs) \<and> removable now (s ! a))) (jm_delete service k)
        = filter (\<lambda>(k', b). \<not> (k' \<in> set (jm_keys (x # xs)) \<and> removable now (s ! b))) service"
      unfolding d filter_filter using True x one by (intro filter_cong) auto
    with ih True has id x show ?thesis by (simp add: removable_def Let_def)
  next
    case False
    have "remove_loop s now (x # xs) service removed = remove_loop s now xs service removed"
      using False x by (auto simp: removable_def Let_def)
    moreover have "filter (\<lambda>(k, a). \<not> (k \<in> set (jm_keys xs) \<and> removable now (s ! a))) service
        = filter (\<lambda>(k', b). \<not> (k' \<in> set (jm_keys (x # xs)) \<and> removable now (s ! b))) service"
      using False x one by (intro filter_cong) auto
    ultimately show ?thesis using Cons False x by simp
  qed
qed simp

lemma remove_drained_members:
  fixes p :: pool and svc :: string and now :: int
  assumes p: "pool_ok p"
  defines "m \<equiv> members_of p svc" and "q \<equiv> fst (remove_drained svc now p)"
  shows "members_of q svc = filter (\<lambda>(k, a). \<not> removable now (p_store p ! a)) m"
    "snd (remove_drained svc now p) = sort (map fst (filter (\<lambda>(k, a). removable now (p_store p ! a)) m))"
proof -
  have m: "members_ok (p_store p) svc m" unfolding m_def by (rule pool_okD(2) [OF p])
  have "remove_loop (p_store p) now m m [] = (filter (\<lambda>(k, a). \<not> (k \<in> set (jm_keys m) \<and> removable now (p_store p ! a))) m,
     [] @ map fst (filter (\<lambda>(k, a). removable now (p_store p ! a)) m))"
    by (rule remove_loop_filter) (use m in \<open>auto simp: members_ok_def\<close>)
  moreover have "filter (\<lambda>(k, a). \<not> (k \<in> set (jm_keys m) \<and> removable now (p_store p ! a))) m
      = filter (\<lambda>(k, a). \<not> removable now (p_store p ! a)) m"
    by (rule filter_cong) (auto simp: image_iff)
  ultimately have r: "remove_loop (p_store p) now m m [] = (filter (\<lambda>(k, a). \<not> removable now (p_store p ! a)) m,
      map fst (filter (\<lambda>(k, a). removable now (p_store p ! a)) m))" by simp
  show "members_of q svc = filter (\<lambda>(k, a). \<not> removable now (p_store p ! a)) m"
    "snd (remove_drained svc now p) = sort (map fst (filter (\<lambda>(k, a). removable now (p_store p ! a)) m))"
    using r by (auto simp: q_def m_def remove_drained_def members_of_def split: option.splits)
qed

lemma jm_get_filter:
  "distinct (jm_keys m) \<Longrightarrow> jm_get m k = Some v \<Longrightarrow> jm_get (filter P m) k = (if P (k, v) then Some v else None)"
proof (induction m)
  case (Cons x m)
  show ?case
  proof (cases "fst x = k")
    case True
    then have "jm_get (filter P m) k = None" using Cons.prems(1) by (auto simp: map_of_eq_None_iff)
    then show ?thesis using Cons.prems(2) True by (cases x) auto
  next
    case False
    then show ?thesis using Cons by (cases x) auto
  qed
qed simp

lemma in_filtered_keys:
  "distinct (jm_keys m) \<Longrightarrow> jm_get m k = Some v \<Longrightarrow> k \<in> fst ` set (filter P m) \<longleftrightarrow> P (k, v)"
proof -
  assume m: "distinct (jm_keys m)" "jm_get m k = Some v"
  have one: "(k, v') \<in> set m \<longleftrightarrow> v' = v" for v'
    using m by (metis map_of_eq_Some_iff option.inject)
  have "k \<in> fst ` set (filter P m) \<longleftrightarrow> (\<exists>v'. (k, v') \<in> set m \<and> P (k, v'))"
    by force
  then show ?thesis by (simp add: one)
qed


section \<open>Selection\<close>

text \<open>After any history, a request is turned away only when the service has no ready endpoint;
  otherwise its lease names the host, port and identity of a ready member of that service, whose count
  goes up by one while no other endpoint changes, and releasing the lease puts the count back.\<close>

lemma selection_leases_ready_member:
  fixes ck :: "string \<Rightarrow> 'c::linorder"
  assumes p: "p = fold (pool_step ck) es empty_pool"
  shows "case select_service_backend ck svc affinity p of
      (q, None) \<Rightarrow> q = p \<and> (\<forall>i a. jm_get (members_of p svc) i = Some a \<longrightarrow> se_readiness (p_store p ! a) \<noteq> Ready_endpoint)
    | (q, Some b) \<Rightarrow> \<exists>a. jm_get (members_of p svc) (bl_endpoint b) = Some a \<and> 
        se_readiness (p_store p ! a) = Ready_endpoint \<and> ei_host (se_input (p_store p ! a)) = bl_host b \<and>
        ei_port (se_input (p_store p ! a)) = bl_port b \<and> open_leases q a = open_leases p a + 1 \<and>
        p_store q = (p_store p)[a := (p_store p ! a)\<lparr>se_in_flight := se_in_flight (p_store p ! a) + 1\<rparr>] \<and>
        p_store (release_lease (bl_lease b) q) = p_store p"
proof -
  have ok: "pool_ok p" unfolding p by (rule reachable_pool_ok)
  show ?thesis
  proof (cases "ready_list ck p svc = []")
    case True
    have "se_readiness (p_store p ! a) \<noteq> Ready_endpoint" if "jm_get (members_of p svc) i = Some a" for i a
    proof -
      have "a \<notin> set (ready_list ck p svc)" using True by simp
      moreover have "a \<in> snd ` set (members_of p svc)" using that by (force dest: map_of_SomeD)
      ultimately show ?thesis by (simp add: in_ready_list is_ready_def)
    qed
    then show ?thesis by (simp add: select_service_backend_def select_none [OF True])
  next
    case False
    let ?a = "picked ck svc affinity p" and ?q = "fst (select ck svc affinity p)"
    let ?g = "\<lambda>a. jm_get (members_of p svc) (se_id (p_store p ! ?a)) = Some a \<and>
        se_readiness (p_store p ! a) = Ready_endpoint \<and> ei_host (se_input (p_store p ! a)) = ei_host (se_input (p_store p ! ?a)) \<and>
        ei_port (se_input (p_store p ! a)) = ei_port (se_input (p_store p ! ?a)) \<and> open_leases ?q a = open_leases p a + 1 \<and>
        p_store ?q = (p_store p)[a := (p_store p ! a)\<lparr>se_in_flight := se_in_flight (p_store p ! a) + 1\<rparr>] \<and>
        p_store (release_lease (length (p_leases p)) ?q) = p_store p"
    note s = select_fields [OF False, of affinity]
    note a = ready_list_member [OF ok picked_ready [OF False, of affinity]]
    have sel: "select ck svc affinity p = (?q, Some (length (p_leases p)))" using s(4) by (metis prod.collapse)
    have l: "p_leases ?q ! length (p_leases p) = \<lparr>l_address = ?a, l_endpoint = counted (p_store p ! ?a), l_released = False\<rparr>"
      by (simp add: s(2))
    have o: "is_open ?q (length (p_leases p))" by (simp add: is_open_def s(2))
    have "p_store (release_lease (length (p_leases p)) ?q) = p_store p"
      unfolding release_fields(2) [OF o] l s(1) using a(1) by (simp add: list_update_at counted_def)
    moreover have "open_leases ?q ?a = open_leases p ?a + 1"
      using select_open_leases [OF False, of affinity ?a] by simp
    moreover have b: "select_service_backend ck svc affinity p = (?q, Some \<lparr>bl_host = ei_host (se_input (p_store p ! ?a)),
        bl_port = ei_port (se_input (p_store p ! ?a)), bl_endpoint = se_id (p_store p ! ?a), bl_lease = length (p_leases p)\<rparr>)"
      unfolding select_service_backend_def by (subst sel) (simp add: l Let_def)
    ultimately have "?g ?a"
      using a by (simp add: s(1) counted_def)
    then show ?thesis unfolding b prod.case option.case by (intro exI [of _ ?a]) simp
  qed
qed

section \<open>Round robin\<close>

definition select_times :: "(string \<Rightarrow> 'c::linorder) \<Rightarrow> string \<Rightarrow> nat \<Rightarrow> pool \<Rightarrow> pool" where
  "select_times ck svc n p = ((\<lambda>p. fst (select ck svc None p)) ^^ n) p"

lemma ready_list_inputs:
  assumes "p_services q = p_services p" "\<And>a. se_input (p_store q ! a) = se_input (p_store p ! a)"
  shows "ready_list ck q svc = ready_list ck p svc"
  using assms by (simp add: ready_list_def members_of_def is_ready_def cong: filter_cong)

lemma select_keeps_ready:
  "ready_list ck (fst (select ck svc affinity p)) svc' = ready_list ck p svc'"
proof (cases "ready_list ck p svc = []")
  case False
  show ?thesis by (rule ready_list_inputs) (simp_all add: select_fields [OF False] list_update_at)
qed (simp add: select_none)

text \<open>What \<open>m\<close> consecutive selections from cursor \<open>c\<close> lease, in order.\<close>

definition turns :: "nat list \<Rightarrow> nat \<Rightarrow> nat \<Rightarrow> nat list" where
  "turns ready c m = map (\<lambda>j. ready ! ((c + j) mod length ready)) [0..<m]"

lemma turns_Suc: "turns ready c (Suc m) = turns ready c m @ [ready ! ((c + m) mod length ready)]"
  by (simp add: turns_def)

lemma turns_add: "turns ready c (m + k) = turns ready c m @ turns ready (c + m) k"
  by (induction k) (simp_all add: turns_Suc add.assoc, simp add: turns_def)

lemma turns_round: "turns ready c (length ready) = rotate c ready"
  by (rule nth_equalityI) (simp_all add: turns_def nth_rotate)

lemma count_rounds:
  assumes "distinct ready"
  shows "count_list (turns ready c (k * length ready)) a = (if a \<in> set ready then k else 0)"
proof (induction k)
  case (Suc k)
  have "count_list (rotate d ready) a = (if a \<in> set ready then 1 else 0)" for d
    using assms by (simp flip: count_mset add: distinct_count_atmost_1 [THEN iffD1])
  then show ?case using Suc by (simp add: turns_add turns_round add.commute [of "length ready"])
qed (simp add: turns_def)

lemma select_times_turns:
  assumes r: "ready_list ck p svc \<noteq> []" and a: "\<forall>a \<in> set (ready_list ck p svc). a < length (p_store p)"
  shows "ready_list ck (select_times ck svc m p) svc = ready_list ck p svc \<and>
    (cursor_of (select_times ck svc m p) svc) mod length (ready_list ck p svc)
      = (cursor_of p svc + m) mod length (ready_list ck p svc) \<and>
    length (p_store (select_times ck svc m p)) = length (p_store p) \<and>
    (\<forall>a < length (p_store p). se_in_flight (p_store (select_times ck svc m p) ! a)
        = se_in_flight (p_store p ! a) + count_list (turns (ready_list ck p svc) (cursor_of p svc) m) a)"
proof (induction m)
  case (Suc m)
  let ?q = "select_times ck svc m p" and ?n = "length (ready_list ck p svc)"
  have q: "select_times ck svc (Suc m) p = fst (select ck svc None ?q)" by (simp add: select_times_def)
  have rq: "ready_list ck ?q svc \<noteq> []" using Suc r by simp
  note s = select_fields [OF rq, of None]
  have pk: "picked ck svc None ?q = ready_list ck p svc ! ((cursor_of p svc + m) mod ?n)"
    using Suc by (simp add: picked_def)
  have c: "cursor_of (select_times ck svc (Suc m) p) svc = (cursor_of ?q svc + 1) mod ?n"
    using Suc by (simp add: q cursor_of_def s(5))
  have "(cursor_of ?q svc + 1) mod ?n = (cursor_of p svc + Suc m) mod ?n"
    using Suc by (metis add.commute mod_add_left_eq plus_1_eq_Suc add_Suc_right)
  moreover have "picked ck svc None ?q < length (p_store p)"
    using a r unfolding pk by simp
  moreover have "ready_list ck (select_times ck svc (Suc m) p) svc = ready_list ck p svc"
    using Suc by (simp add: q select_keeps_ready)
  ultimately show ?case
    using Suc c s(1) pk by (simp add: q turns_Suc list_update_at)
qed (simp add: select_times_def turns_def)

text \<open>Round-robin selection is fair: after any history, k times as many selections without an
  affinity key as the service has ready endpoints give every ready endpoint exactly k more requests and
  no other endpoint any, wherever the cursor stands.\<close>

lemma round_robin_is_fair:
  fixes ck :: "string \<Rightarrow> 'c::linorder"
  assumes p: "p = fold (pool_step ck) es empty_pool" and a: "a < length (p_store p)"
  shows "se_in_flight (p_store (select_times ck svc (k * length (ready_list ck p svc)) p) ! a)
    = se_in_flight (p_store p ! a) + (if a \<in> set (ready_list ck p svc) then k else 0)"
proof (cases "ready_list ck p svc = []")
  case False
  have ok: "pool_ok p" unfolding p by (rule reachable_pool_ok)
  have m: "members_ok (p_store p) svc (members_of p svc)" by (rule pool_okD(2) [OF ok])
  have "map (\<lambda>a. se_id (p_store p ! a)) (map snd (members_of p svc)) = map fst (members_of p svc)"
    using m by (auto simp: members_ok_def)
  then have "distinct (map snd (members_of p svc))" using m by (metis distinct_map members_ok_def)
  then have d: "distinct (ready_list ck p svc)" by (simp add: ready_list_def)
  have "\<forall>a \<in> set (ready_list ck p svc). a < length (p_store p)"
    using ready_list_member(1) [OF ok] by blast
  from select_times_turns [OF False this] a show ?thesis by (simp add: count_rounds [OF d])
qed (simp add: select_times_def)

section \<open>Counting requests\<close>

definition in_flight_exact :: "pool \<Rightarrow> bool" where
  "in_flight_exact p \<longleftrightarrow> (\<forall>a < length (p_store p). se_in_flight (p_store p ! a) = open_leases p a)"

definition upsert_idle :: "pool_event \<Rightarrow> pool \<Rightarrow> bool" where
  "upsert_idle e p \<longleftrightarrow> (case e of
     Upsert x \<Rightarrow> (case jm_get (members_of p (ei_service x)) (ei_id x) of
       Some a \<Rightarrow> se_in_flight (p_store p ! a) = 0 | None \<Rightarrow> True)
   | _ \<Rightarrow> True)"

lemma exact_counts:
  assumes "pool_ok p" "in_flight_exact p" "p_leases q = p_leases p" "same_counts (p_store p) (p_store q)"
  shows "in_flight_exact q"
  unfolding in_flight_exact_def
proof (intro allI impI)
  fix a assume "a < length (p_store q)"
  then show "se_in_flight (p_store q ! a) = open_leases q a"
    using assms(2,4) no_open_leases [OF pool_okD(4) [OF assms(1)], of a]
    by (cases "a < length (p_store p)")
      (auto simp: open_leases_cong [OF assms(3)] in_flight_exact_def same_counts_def)
qed

lemma step_counts:
  assumes p: "pool_ok p" and e: "upsert_idle e p" "\<And>svc aff. e \<noteq> Select svc aff" "\<And>l. e \<noteq> Release l"
  shows "p_leases (pool_step ck e p) = p_leases p \<and> same_counts (p_store p) (p_store (pool_step ck e p))"
proof (cases e)
  case (Replace svc es)
  obtain store r where s: "place_endpoints svc (members_of p svc) es [] (p_store p) = (store, r)" by fastforce
  show ?thesis
    using place_endpoints_store [OF s pool_okD(2) [OF p] members_ok_Nil pool_okD(3) [OF p]]
    by (cases r) (simp_all add: Replace replace_def s Let_def)
next
  case (Upsert x)
  show ?thesis using e(1) unfolding Upsert pool_step.simps upsert_store
    by (auto intro!: same_counts_append simp: upsert_idle_def split: option.splits)
qed (use e in \<open>auto simp: set_readiness_def begin_drain_def remove_drained_def Let_def split_beta
    split: sum.splits option.splits intro!: same_counts_update\<close>)

lemma exact_step:
  assumes p: "pool_ok p" "in_flight_exact p" and e: "upsert_idle e p"
  shows "in_flight_exact (pool_step ck e p)"
proof -
  consider (select) svc aff where "e = Select svc aff" | (release) l where "e = Release l"
    | (other) "\<And>svc aff. e \<noteq> Select svc aff" "\<And>l. e \<noteq> Release l" by blast
  then show ?thesis
  proof cases
    case select
    show ?thesis
    proof (cases "ready_list ck p svc = []")
      case False
      have "picked ck svc aff p < length (p_store p)" by (rule ready_list_member(1) [OF p(1) picked_ready [OF False]])
      then show ?thesis using p(2) select_open_leases [OF False, of aff]
        by (simp add: select in_flight_exact_def select_fields [OF False] list_update_at)
    qed (simp add: select select_none p)
  next
    case release
    show ?thesis
    proof (cases "is_open p l")
      case True
      have "l_address (p_leases p ! l) < length (p_store p)"
        using pool_okD(4) [OF p(1)] True by (auto simp: leases_ok_def is_open_def)
      then show ?thesis using p(2) release_open_leases [OF True]
        by (auto simp: release in_flight_exact_def release_fields [OF True] list_update_at)
    qed (simp add: release release_closed p)
  next
    case other
    from step_counts [OF p(1) e other] show ?thesis by (auto intro: exact_counts [OF p])
  qed
qed

interpretation exact_machine: guarded_machine "pool_step ck" "\<lambda>p. pool_ok p \<and> in_flight_exact p" upsert_idle
  for ck :: "string \<Rightarrow> 'c::linorder"
  by unfold_locales (simp add: pool_step_ok exact_step)

lemma empty_pool_exact: "in_flight_exact empty_pool"
  by (simp add: in_flight_exact_def empty_pool_def)


lemma released_closed: "l < length (p_leases p) \<Longrightarrow> \<not> is_open (release_lease l p) l"
  by (cases "is_open p l") (auto simp: is_open_def release_closed release_fields)

lemma release_keeps_closed: "\<not> is_open p k \<Longrightarrow> \<not> is_open (release_lease l p) k"
  by (cases "is_open p l") (auto simp: is_open_def release_closed release_fields list_update_at)

lemma releases_elsewhere:
  assumes "\<forall>l \<in> set (p_leases p). l_address l \<noteq> n"
  shows "p_store (fold release_lease ls p) ! n = p_store p ! n \<and> p_services (fold release_lease ls p) = p_services p \<and>
    length (p_leases (fold release_lease ls p)) = length (p_leases p) \<and>
    (\<forall>k. k \<in> set ls \<or> \<not> is_open p k \<longrightarrow> \<not> is_open (fold release_lease ls p) k)"
  using assms
proof (induction ls arbitrary: p)
  case (Cons l ls)
  let ?p = "release_lease l p"
  have step: "p_store ?p ! n = p_store p ! n" "p_services ?p = p_services p" "length (p_leases ?p) = length (p_leases p)"
    "\<forall>l \<in> set (p_leases ?p). l_address l \<noteq> n"
    using Cons.prems by (cases "is_open p l"; auto simp: release_closed release_fields list_update_at is_open_def
        dest!: set_update_subset_insert [THEN subsetD])+
  have "\<not> is_open ?p k" if "k = l \<or> \<not> is_open p k" for k
    using that released_closed [of l p] release_keeps_closed [of p k l] by (auto simp: is_open_def)
  then show ?case using Cons.IH [OF step(4)] step by auto
qed simp

text \<open>Upserting an endpoint that serves requests strands its count: the stored object is replaced by
  a copy that no lease can decrement, so after every lease has been released the endpoint still does
  not count as drained, and leaves only when its deadline passes.\<close>

lemma upsert_strands_drain:
  fixes ck :: "string \<Rightarrow> 'c::linorder"
  assumes p: "p = fold (pool_step ck) es empty_pool"
    and a: "jm_get (members_of p (ei_service e)) (ei_id e) = Some a" "0 < open_leases p a"
    and q: "q = fold release_lease [0..<length (p_leases p)] (fst (begin_drain (ei_service e) (ei_id e) d (upsert e p)))"
  shows "(\<forall>l. \<not> is_open q l) \<and> drain_complete (ei_service e) (ei_id e) now q = Inr (d \<le> now)"
proof -
  have ok: "pool_ok p" unfolding p by (rule reachable_pool_ok)
  let ?n = "length (p_store p)" and ?u = "upsert e p" and ?b = "fst (begin_drain (ei_service e) (ei_id e) d (upsert e p))"
  have al: "a < ?n" using members_ok_get [OF pool_okD(2) [OF ok] a(1)] by simp
  have l: "\<forall>l \<in> set (p_leases p). l_address l \<noteq> ?n" and c: "open_leases p a \<le> se_in_flight (p_store p ! a)"
    using pool_okD(4) [OF ok] al by (auto simp: leases_ok_def)
  have m: "jm_get (members_of ?u (ei_service e)) (ei_id e) = Some ?n"
    by (simp add: members_of_def upsert_store)
  have u: "se_in_flight (p_store ?u ! ?n) = se_in_flight (p_store p ! a)"
    by (simp add: upsert_store nth_append a)
  have b: "p_services ?b = p_services ?u" "p_leases ?b = p_leases p" "se_in_flight (p_store ?b ! ?n) = se_in_flight (p_store p ! a)"
    "se_readiness (p_store ?b ! ?n) = Draining_endpoint" "se_deadline (p_store ?b ! ?n) = Some d"
    using u m by (auto simp: begin_drain_def require_endpoint_def upsert_store nth_append)
  have bl: "\<forall>l \<in> set (p_leases ?b). l_address l \<noteq> ?n" using l b(2) by simp
  note r = releases_elsewhere [OF bl, of "[0..<length (p_leases p)]", folded q]
  have "\<not> is_open q k" for k using r b(2) by (cases "k < length (p_leases p)") (auto simp: is_open_def)
  moreover have "jm_get (members_of q (ei_service e)) (ei_id e) = Some ?n"
    using r b(1) m by (simp add: members_of_def)
  moreover have "p_store q ! ?n = p_store ?b ! ?n" using r by simp
  ultimately show ?thesis
    using b(3,4,5) a(2) c by (simp add: drain_complete_def require_endpoint_def Let_def drained_def)
qed

section \<open>Replacing the membership\<close>

lemma place_prefix:
  "place_endpoints svc previous pre next store = (store', Inr next') \<Longrightarrow>
   place_endpoints svc previous (pre @ rest) next store = place_endpoints svc previous rest next' store'"
  by (induction svc previous pre "next" store rule: place_endpoints.induct)
    (auto split: if_splits option.splits simp: Let_def)

definition placed :: "string \<Rightarrow> members \<Rightarrow> endpoint_input list \<Rightarrow> members \<Rightarrow> service_endpoint list
    \<Rightarrow> members \<Rightarrow> service_endpoint list \<Rightarrow> bool" where
  "placed svc previous es next store next' store' \<longleftrightarrow>
     jm_keys next' = jm_keys next @ map ei_id es \<and>
     (\<forall>k \<in> set (jm_keys next). jm_get next' k = jm_get next k) \<and>
     (\<forall>e \<in> set es. \<exists>a. jm_get next' (ei_id e) = Some a \<and> a < length store' \<and> se_input (store' ! a) = e \<and>
        (case jm_get previous (ei_id e) of Some b \<Rightarrow> a = b | None \<Rightarrow> length store \<le> a)) \<and>
     (\<forall>a < length store. (\<forall>e \<in> set es. jm_get previous (ei_id e) \<noteq> Some a) \<longrightarrow> store' ! a = store ! a)"

lemma place_all:
  assumes "\<forall>e \<in> set es. ei_service e = svc" "distinct (jm_keys next @ map ei_id es)"
    "members_ok store svc previous"
  shows "\<exists>store' next'. place_endpoints svc previous es next store = (store', Inr next') \<and>
    placed svc previous es next store next' store' \<and> length store \<le> length store'"
  using assms
proof (induction es arbitrary: "next" store)
  case (Cons e es)
  have e: "ei_service e = svc" "\<not> jm_has next (ei_id e)" using Cons.prems by auto
  show ?case
  proof (cases "jm_get previous (ei_id e)")
    case None
    let ?new = "\<lparr>se_input = e, se_in_flight = 0, se_deadline = None\<rparr>"
    let ?s = "store @ [?new]" and ?n = "jm_set next (ei_id e) (length store)"
    have "distinct (jm_keys ?n @ map ei_id es)" using Cons.prems(2) e(2) by (auto simp: jm_keys_set)
    moreover have "members_ok ?s svc previous" using Cons.prems(3) by (rule members_ok_store) simp
    ultimately obtain store' next' where ih: "place_endpoints svc previous es ?n ?s = (store', Inr next')"
      "placed svc previous es ?n ?s next' store'" "length ?s \<le> length store'"
      using Cons.IH Cons.prems(1) by (metis list.set_intros(2))
    have keep: "store' ! length store = ?new"
    proof -
      have "jm_get previous k \<noteq> Some (length store)" for k
        using members_ok_get [OF Cons.prems(3)] by (metis less_irrefl)
      then show ?thesis using ih(2) by (simp add: placed_def nth_append)
    qed
    have "placed svc previous (e # es) next store next' store'"
      unfolding placed_def
    proof (intro conjI ballI allI impI)
      show "jm_keys next' = jm_keys next @ map ei_id (e # es)"
        using ih(2) e(2) by (auto simp: placed_def jm_keys_set)
      show "jm_get next' k = jm_get next k" if k: "k \<in> set (jm_keys next)" for k
      proof -
        have "k \<in> set (jm_keys ?n)" using k by (simp add: jm_keys_set)
        then have "jm_get next' k = jm_get ?n k" using ih(2) unfolding placed_def by blast
        moreover have "k \<noteq> ei_id e" using k e(2) by (metis jm_has_iff)
        ultimately show ?thesis by simp
      qed
      show "store' ! a = store ! a" if "a < length store" "\<forall>x \<in> set (e # es). jm_get previous (ei_id x) \<noteq> Some a" for a
        using ih(2) that by (simp add: placed_def nth_append)
      show "\<exists>a. jm_get next' (ei_id x) = Some a \<and> a < length store' \<and> se_input (store' ! a) = x \<and>
          (case jm_get previous (ei_id x) of Some b \<Rightarrow> a = b | None \<Rightarrow> length store \<le> a)" if "x \<in> set (e # es)" for x
      proof (cases "x = e")
        case True
        then show ?thesis using ih(2,3) keep None by (auto simp: placed_def jm_keys_set)
      next
        case False
        then have "x \<in> set es" using that by simp
        then obtain a where "jm_get next' (ei_id x) = Some a \<and> a < length store' \<and> se_input (store' ! a) = x \<and>
          (case jm_get previous (ei_id x) of Some b \<Rightarrow> a = b | None \<Rightarrow> length ?s \<le> a)"
          using ih(2) by (auto simp: placed_def)
        then show ?thesis by (intro exI [of _ a]) (auto split: option.splits)
      qed
    qed
    then show ?thesis using ih(1,3) e None by (auto simp: Let_def)
  next
    case (Some b)
    let ?new = "\<lparr>se_input = e, se_in_flight = se_in_flight (store ! b),
        se_deadline = (if ei_readiness e = Draining_endpoint then se_deadline (store ! b) else None)\<rparr>"
    let ?s = "store[b := ?new]" and ?n = "jm_set next (ei_id e) b"
    note m = members_ok_get [OF Cons.prems(3)]
    have b: "b < length store" "se_id (store ! b) = ei_id e" using m [OF Some] by auto
    have "distinct (jm_keys ?n @ map ei_id es)" using Cons.prems(2) e(2) by (auto simp: jm_keys_set)
    moreover have "members_ok ?s svc previous"
      using Cons.prems(3) by (rule members_ok_store, intro same_identity_update) (use m [OF Some] e in auto)
    ultimately obtain store' next' where ih: "place_endpoints svc previous es ?n ?s = (store', Inr next')"
      "placed svc previous es ?n ?s next' store'" "length ?s \<le> length store'"
      using Cons.IH Cons.prems(1) by (metis list.set_intros(2))
    have other: "jm_get previous (ei_id x) \<noteq> Some b" if "x \<in> set es" for x
    proof
      assume "jm_get previous (ei_id x) = Some b"
      then have "ei_id x = ei_id e" using m b by metis
      then show False using that Cons.prems(2) by (auto simp: image_iff)
    qed
    then have keep: "store' ! b = ?new" using ih(2) b(1) by (simp add: placed_def)
    have "placed svc previous (e # es) next store next' store'"
      unfolding placed_def
    proof (intro conjI ballI allI impI)
      show "jm_keys next' = jm_keys next @ map ei_id (e # es)"
        using ih(2) e(2) by (auto simp: placed_def jm_keys_set)
      show "jm_get next' k = jm_get next k" if k: "k \<in> set (jm_keys next)" for k
      proof -
        have "k \<in> set (jm_keys ?n)" using k by (simp add: jm_keys_set)
        then have "jm_get next' k = jm_get ?n k" using ih(2) unfolding placed_def by blast
        moreover have "k \<noteq> ei_id e" using k e(2) by (metis jm_has_iff)
        ultimately show ?thesis by simp
      qed
      show "store' ! a = store ! a" if "a < length store" "\<forall>x \<in> set (e # es). jm_get previous (ei_id x) \<noteq> Some a" for a
        using ih(2) that Some by (auto simp: placed_def list_update_at)
      show "\<exists>a. jm_get next' (ei_id x) = Some a \<and> a < length store' \<and> se_input (store' ! a) = x \<and>
          (case jm_get previous (ei_id x) of Some b \<Rightarrow> a = b | None \<Rightarrow> length store \<le> a)" if "x \<in> set (e # es)" for x
      proof (cases "x = e")
        case True
        then show ?thesis using ih(2,3) keep Some b(1) by (auto simp: placed_def jm_keys_set)
      next
        case False
        then have "x \<in> set es" using that by simp
        then obtain a where "jm_get next' (ei_id x) = Some a \<and> a < length store' \<and> se_input (store' ! a) = x \<and>
          (case jm_get previous (ei_id x) of Some b \<Rightarrow> a = b | None \<Rightarrow> length ?s \<le> a)"
          using ih(2) unfolding placed_def by blast
        then show ?thesis by (intro exI [of _ a]) (auto split: option.splits)
      qed
    qed
    then show ?thesis using ih(1,3) e Some by (auto simp: Let_def)
  qed
qed (simp add: placed_def)

text \<open>Replacing a service's membership with endpoints that all belong to it and have distinct identities
  succeeds: the members are exactly the given endpoints in their order, each with the given data, an
  endpoint that was already a member keeps its object (so its open leases and its count), a new one
  starts at zero, and no other service's members change.\<close>

lemma replace_installs_membership:
  fixes ck :: "string \<Rightarrow> 'c::linorder"
  assumes p: "p = fold (pool_step ck) hist empty_pool"
    and es: "\<forall>e \<in> set es. ei_service e = svc" "distinct (map ei_id es)"
  shows "\<exists>q. replace svc es p = (q, Inr ()) \<and> jm_keys (members_of q svc) = map ei_id es \<and>
    (\<forall>e \<in> set es. \<exists>a. jm_get (members_of q svc) (ei_id e) = Some a \<and> se_input (p_store q ! a) = e \<and>
       (case jm_get (members_of p svc) (ei_id e) of
          Some b \<Rightarrow> a = b \<and> se_in_flight (p_store q ! a) = se_in_flight (p_store p ! b)
        | None \<Rightarrow> se_in_flight (p_store q ! a) = 0)) \<and>
    (\<forall>svc' k a. svc' \<noteq> svc \<longrightarrow> jm_get (members_of q svc') k = jm_get (members_of p svc') k \<and>
       (jm_get (members_of p svc') k = Some a \<longrightarrow> p_store q ! a = p_store p ! a))"
proof -
  have ok: "pool_ok p" unfolding p by (rule reachable_pool_ok)
  note m = pool_okD(2) [OF ok]
  have d: "distinct (jm_keys [] @ map ei_id es)" using es(2) by simp
  obtain store next' where s: "place_endpoints svc (members_of p svc) es [] (p_store p) = (store, Inr next')"
    "placed svc (members_of p svc) es [] (p_store p) next' store" "length (p_store p) \<le> length store"
    using place_all [OF es(1) d m [of svc]] by blast
  obtain q where q: "replace svc es p = (q, Inr ())" "p_store q = store" "members_of q svc = next'"
    "\<And>svc'. svc' \<noteq> svc \<Longrightarrow> members_of q svc' = members_of p svc'"
    using s(1) by (auto simp: replace_def Let_def members_of_def)
  have c: "same_counts (p_store p) store"
    using place_endpoints_store [OF s(1) m members_ok_Nil pool_okD(3) [OF ok]] by simp
  have one: "\<exists>a. jm_get next' (ei_id e) = Some a \<and> se_input (store ! a) = e \<and>
       (case jm_get (members_of p svc) (ei_id e) of
          Some b \<Rightarrow> a = b \<and> se_in_flight (store ! a) = se_in_flight (p_store p ! b)
        | None \<Rightarrow> se_in_flight (store ! a) = 0)" if "e \<in> set es" for e
  proof -
    obtain a where a: "jm_get next' (ei_id e) = Some a" "a < length store" "se_input (store ! a) = e"
      "case jm_get (members_of p svc) (ei_id e) of Some b \<Rightarrow> a = b | None \<Rightarrow> length (p_store p) \<le> a"
      using s(2) \<open>e \<in> set es\<close> unfolding placed_def by blast
    show ?thesis
    proof (cases "jm_get (members_of p svc) (ei_id e)")
      case None
      with a c show ?thesis by (simp add: same_counts_def)
    next
      case (Some b)
      with a c members_ok_get [OF m Some] show ?thesis by (simp add: same_counts_def)
    qed
  qed
  have other: "store ! a = p_store p ! a" if "svc' \<noteq> svc" "jm_get (members_of p svc') k = Some a" for svc' k a
  proof -
    note a = members_ok_get [OF m that(2)]
    have "jm_get (members_of p svc) k' \<noteq> Some a" for k'
      using members_ok_get [OF m [of svc], of k' a] a that(1) by blast
    then show ?thesis using s(2) a unfolding placed_def by blast
  qed
  have "jm_keys next' = map ei_id es" using s(2) by (simp add: placed_def)
  then show ?thesis using q one other by (intro exI [of _ q]) auto
qed

text \<open>A replacement that throws is not atomic: when an endpoint of another service or a repeated identity
  follows acceptable endpoints, replace throws and the membership map stays, yet every acceptable
  endpoint before it that was a member has already been assigned its new data in place.\<close>

lemma failed_replace_still_assigns:
  fixes ck :: "string \<Rightarrow> 'c::linorder"
  assumes p: "p = fold (pool_step ck) hist empty_pool"
    and pre: "\<forall>e \<in> set pre. ei_service e = svc" "distinct (map ei_id pre)"
    and bad: "ei_service bad \<noteq> svc \<or> ei_id bad \<in> ei_id ` set pre"
  shows "\<exists>q err. replace svc (pre @ bad # post) p = (q, Inl err) \<and> p_services q = p_services p \<and>
    (\<forall>e \<in> set pre. \<forall>a. jm_get (members_of p svc) (ei_id e) = Some a \<longrightarrow> se_input (p_store q ! a) = e)"
proof -
  have ok: "pool_ok p" unfolding p by (rule reachable_pool_ok)
  have d: "distinct (jm_keys [] @ map ei_id pre)" using pre(2) by simp
  obtain store next' where s: "place_endpoints svc (members_of p svc) pre [] (p_store p) = (store, Inr next')"
    "placed svc (members_of p svc) pre [] (p_store p) next' store"
    using place_all [OF pre(1) d pool_okD(2) [OF ok, of svc]] by blast
  have keys: "jm_keys next' = map ei_id pre" using s(2) by (simp add: placed_def)
  have "ei_id bad \<in> set (jm_keys next')" if "ei_service bad = svc" using bad that keys by simp
  then obtain err where e: "place_endpoints svc (members_of p svc) (bad # post) next' store = (store, Inl err)"
    by (cases "ei_service bad = svc") simp_all
  have r: "replace svc (pre @ bad # post) p = (p\<lparr>p_store := store\<rparr>, Inl err)"
    by (simp add: replace_def place_prefix [OF s(1)] e del: place_endpoints.simps)
  have "se_input (store ! a) = x" if "x \<in> set pre" "jm_get (members_of p svc) (ei_id x) = Some a" for x a
    using s(2) that unfolding placed_def by fastforce
  then show ?thesis using r by (intro exI [of _ "p\<lparr>p_store := store\<rparr>"] exI [of _ err]) simp
qed

section \<open>Concrete histories\<close>

definition endpoint_at :: "string \<Rightarrow> int \<Rightarrow> readiness \<Rightarrow> endpoint_input" where
  "endpoint_at i port r = \<lparr>ei_id = i, ei_service = ''web'', ei_instance = ''n'' @ i, ei_host = ''10.0.0.1'', ei_port = port,
     ei_release = ''r1'', ei_readiness = r\<rparr>"

definition two_endpoints :: "pool_event list" where
  "two_endpoints = [Replace ''web'' [endpoint_at ''a'' 8001 Ready_endpoint, endpoint_at ''b'' 8002 Ready_endpoint]]"

definition one_leased :: "pool_event list" where
  "one_leased = two_endpoints @ [Select ''web'' None, Begin_draining ''web'' ''a'' 50]"

definition same_place :: "string \<Rightarrow> nat" where
  "same_place s = length s"


lemma selection_leases_ready_member_witness:
  "\<exists>b. snd (select_service_backend same_place ''web'' None (fold (pool_step same_place) two_endpoints empty_pool)) = Some b
     \<and> bl_endpoint b = ''a''"
proof -
  let ?p = "fold (pool_step same_place) two_endpoints empty_pool"
  have "map_option bl_endpoint (snd (select_service_backend same_place ''web'' None ?p)) = Some ''a''" by code_simp
  then show ?thesis
    using selection_leases_ready_member [OF refl, where svc = "''web''" and affinity = None and ck = same_place and es = two_endpoints] by auto
qed

lemma round_robin_is_fair_witness:
  "let p = fold (pool_step same_place) two_endpoints empty_pool in
   se_in_flight (p_store (select_times same_place ''web'' (3 * length (ready_list same_place p ''web'')) p) ! 1) = 3"
proof -
  let ?p = "fold (pool_step same_place) two_endpoints empty_pool"
  have "1 < length (p_store ?p) \<and> 1 \<in> set (ready_list same_place ?p ''web'') \<and> se_in_flight (p_store ?p ! 1) = 0"
    by code_simp
  then show ?thesis
    using round_robin_is_fair [OF refl, of 1 same_place two_endpoints "''web''" 3] by (simp add: Let_def)
qed


lemma upsert_strands_drain_witness:
  "let p = fold (pool_step same_place) (two_endpoints @ [Select ''web'' None]) empty_pool;
       q = fold release_lease [0..<length (p_leases p)]
             (fst (begin_drain ''web'' ''a'' 50 (upsert (endpoint_at ''a'' 8001 Ready_endpoint) p)))
   in (\<forall>l. \<not> is_open q l) \<and> drain_complete ''web'' ''a'' 49 q = Inr False"
proof -
  let ?p = "fold (pool_step same_place) (two_endpoints @ [Select ''web'' None]) empty_pool"
  have e: "ei_service (endpoint_at ''a'' 8001 Ready_endpoint) = ''web''" "ei_id (endpoint_at ''a'' 8001 Ready_endpoint) = ''a''"
    by (simp_all add: endpoint_at_def)
  have "jm_get (members_of ?p ''web'') ''a'' = Some 0 \<and> 0 < open_leases ?p 0" by code_simp
  then show ?thesis
    using upsert_strands_drain [OF refl _ _ refl, of same_place "two_endpoints @ [Select ''web'' None]"
        "endpoint_at ''a'' 8001 Ready_endpoint" 0 50 49, unfolded e] by (simp add: Let_def)
qed

lemma replace_installs_membership_witness:
  "\<exists>q. replace ''web'' [endpoint_at ''b'' 9000 Ready_endpoint] (fold (pool_step same_place) two_endpoints empty_pool) = (q, Inr ())
     \<and> jm_keys (members_of q ''web'') = [''b'']"
  using replace_installs_membership [OF refl, of "[endpoint_at ''b'' 9000 Ready_endpoint]" "''web''" same_place two_endpoints]
  by (auto simp: endpoint_at_def)

lemma failed_replace_still_assigns_witness:
  "\<exists>q err. replace ''web'' [endpoint_at ''a'' 9000 Unready_endpoint, endpoint_at ''a'' 8001 Ready_endpoint]
       (fold (pool_step same_place) two_endpoints empty_pool) = (q, Inl err) \<and> se_input (p_store q ! 0) = endpoint_at ''a'' 9000 Unready_endpoint"
proof -
  let ?p = "fold (pool_step same_place) two_endpoints empty_pool"
  have "jm_get (members_of ?p ''web'') ''a'' = Some 0" by code_simp
  then show ?thesis
    using failed_replace_still_assigns [OF refl, of "[endpoint_at ''a'' 9000 Unready_endpoint]" "''web''"
        "endpoint_at ''a'' 8001 Ready_endpoint" "[]" same_place two_endpoints]
    by (auto simp: endpoint_at_def)
qed

end
