(* ===== verification/Dns.thy ===== *)
theory Dns
  imports Prelude "HOL-Library.Word" "HOL-Library.Monad_Syntax"
begin

unbundle bit_operations_syntax

text \<open>
  \<open>packages/mdns/dns.ts\<close>: the wire codec of the mDNS responder. A \<open>Buffer\<close> is a list of bytes; one that
  \<open>Buffer.allocUnsafe\<close> returns holds whatever memory \<open>mem\<close> held. Strings are code units below 256:
  \<open>utf8\<close> is their UTF-8 encoding, the decoder of \<open>toString('utf8')\<close> is the parameter \<open>dec\<close>, and
  \<open>num\<close> is the integer \<open>Number\<close> reads for a byte (0 for \<open>NaN\<close>). \<open>None\<close> is a thrown error:
  the compression loop of \<open>decodeName\<close>, or the \<open>RangeError\<close> of a write that does not fit.
\<close>

type_synonym bytes = "8 word list"

section \<open>Constants and types\<close>

definition response_flag :: nat where "response_flag = push_bit 15 1"

definition authoritative_answer :: nat where "authoritative_answer = push_bit 10 1"

definition type_a :: nat where "type_a = 1"

definition type_nsec :: nat where "type_nsec = 47"

definition class_in :: nat where "class_in = 1"

definition class_flush :: nat where "class_flush = class_in OR 0x8000"

record dns_question =
  dq_name :: string
  dq_type :: nat
  dq_class :: nat
  dq_unicast :: bool

section \<open>Decoding\<close>

text \<open>The loop of \<open>decodeName\<close>; \<open>buf[pos + 1]\<close> past the end reads as \<open>undefined\<close>, which \<open>|\<close> takes as 0.\<close>

function name_loop ::
  "(bytes \<Rightarrow> string) \<Rightarrow> bytes \<Rightarrow> nat \<Rightarrow> nat \<Rightarrow> bool \<Rightarrow> nat \<Rightarrow> nat \<Rightarrow> string list
    \<Rightarrow> (string list \<times> nat \<times> bool \<times> nat) option" where
  "name_loop dec buf offset pos jumped jumps bytes_read labels =
     (if pos < length buf then
        let len = unat (buf ! pos) in
        if len = 0 then Some (labels, pos, jumped, if jumped then bytes_read else pos - offset + 1)
        else if len AND 0xC0 = 0xC0 then
          (let low = (if pos + 1 < length buf then unat (buf ! (pos + 1)) else 0) in
           if 255 < jumps + 1 then None
           else name_loop dec buf offset (push_bit 8 (len AND 0x3F) OR low) True (jumps + 1)
             (if jumped then bytes_read else pos - offset + 2) labels)
        else name_loop dec buf offset (pos + 1 + len) jumped jumps bytes_read
          (labels @ [dec (take len (drop (pos + 1) buf))])
      else Some (labels, pos, jumped, bytes_read))"
  by pat_completeness auto
termination
  by (relation "measures [\<lambda>(dec, buf, offset, pos, jumped, jumps, bytes_read, labels). 256 - jumps,
      \<lambda>(dec, buf, offset, pos, jumped, jumps, bytes_read, labels). length buf - pos]") auto

declare name_loop.simps [simp del]

definition decode_name :: "(bytes \<Rightarrow> string) \<Rightarrow> bytes \<Rightarrow> nat \<Rightarrow> (string \<times> nat) option" where
  "decode_name dec buf offset =
     (case name_loop dec buf offset offset False 0 0 [] of
        None \<Rightarrow> None
      | Some (labels, pos, jumped, bytes_read) \<Rightarrow>
          Some (js_join ''.'' labels, if \<not> jumped \<and> bytes_read = 0 then pos - offset + 1 else bytes_read))"

definition read16 :: "bytes \<Rightarrow> nat \<Rightarrow> nat" where
  "read16 buf offset = unat (buf ! offset) * 256 + unat (buf ! (offset + 1))"

text \<open>The loop over the question section, at most \<open>n\<close> more questions.\<close>

fun question_loop :: "(bytes \<Rightarrow> string) \<Rightarrow> bytes \<Rightarrow> nat \<Rightarrow> nat \<Rightarrow> dns_question list option" where
  "question_loop dec buf 0 offset = Some []"
| "question_loop dec buf (Suc n) offset =
     (if offset < length buf then
        (case decode_name dec buf offset of
           None \<Rightarrow> None
         | Some (name, bytes_read) \<Rightarrow>
             (let offset' = offset + bytes_read in
              if length buf < offset' + 4 then Some []
              else (let cls = read16 buf (offset' + 2) in
                map_option (\<lambda>qs. \<lparr>dq_name = name, dq_type = read16 buf offset', dq_class = cls AND 0x7FFF,
                    dq_unicast = (cls AND 0x8000 \<noteq> 0)\<rparr> # qs)
                  (question_loop dec buf n (offset' + 4)))))
      else Some [])"

definition decode_query :: "(bytes \<Rightarrow> string) \<Rightarrow> bytes \<Rightarrow> (nat \<times> dns_question list) option option" where
  "decode_query dec buf =
     (if length buf < 12 then Some None
      else if read16 buf 2 AND response_flag \<noteq> 0 then Some None
      else if read16 buf 4 = 0 then Some None
      else map_option (\<lambda>qs. Some (read16 buf 0, qs)) (question_loop dec buf (read16 buf 4) 12))"

section \<open>Writing buffers\<close>

definition alloc_unsafe :: "(nat \<Rightarrow> nat \<Rightarrow> 8 word) \<Rightarrow> nat \<Rightarrow> bytes" where
  "alloc_unsafe mem n = map (mem n) [0..<n]"

text \<open>\<open>buf[offset] = v\<close> takes the value modulo 256 and ignores an index past the end.\<close>

definition set_byte :: "nat \<Rightarrow> int \<Rightarrow> bytes \<Rightarrow> bytes" where
  "set_byte offset v buf = buf[offset := word_of_int v]"

definition write16 :: "nat \<Rightarrow> int \<Rightarrow> bytes \<Rightarrow> bytes option" where
  "write16 offset v buf =
     (if v < 0 \<or> 2 ^ 16 \<le> v \<or> length buf < offset + 2 then None
      else Some (set_byte (offset + 1) v (set_byte offset (drop_bit 8 v) buf)))"

definition write32 :: "nat \<Rightarrow> int \<Rightarrow> bytes \<Rightarrow> bytes option" where
  "write32 offset v buf =
     (if v < 0 \<or> 2 ^ 32 \<le> v \<or> length buf < offset + 4 then None
      else Some (set_byte (offset + 3) v (set_byte (offset + 2) (drop_bit 8 v)
        (set_byte (offset + 1) (drop_bit 16 v) (set_byte offset (drop_bit 24 v) buf)))))"

text \<open>\<open>source.copy(buf, offset)\<close> and \<open>buf.write(text, offset)\<close>: bytes past the end are dropped.\<close>

fun copy_bytes :: "bytes \<Rightarrow> nat \<Rightarrow> bytes \<Rightarrow> bytes" where
  "copy_bytes [] offset buf = buf"
| "copy_bytes (b # bs) offset buf = copy_bytes bs (offset + 1) (buf[offset := b])"

definition utf8_char :: "char \<Rightarrow> bytes" where
  "utf8_char c = (let n = of_char c :: nat in
     if n < 128 then [of_nat n] else [of_nat (192 + n div 64), of_nat (128 + n mod 64)])"

definition utf8 :: "string \<Rightarrow> bytes" where
  "utf8 s = concat (map utf8_char s)"

fun put_labels :: "string list \<Rightarrow> nat \<Rightarrow> bytes \<Rightarrow> nat \<times> bytes" where
  "put_labels [] offset buf = (offset, buf)"
| "put_labels (l # ls) offset buf =
     (let len = length (utf8 l) in
      put_labels ls (offset + 1 + len) (copy_bytes (utf8 l) (offset + 1) (set_byte offset (int len) buf)))"

definition encode_name :: "(nat \<Rightarrow> nat \<Rightarrow> 8 word) \<Rightarrow> string \<Rightarrow> bytes" where
  "encode_name mem name =
     (let labels = split_on (CHR ''.'') name;
          size = 1 + sum_list (map (\<lambda>l. 1 + length (utf8 l)) labels);
          (offset, buf) = put_labels labels 0 (alloc_unsafe mem size)
      in set_byte offset 0 buf)"

definition write_header :: "int \<Rightarrow> int \<Rightarrow> int \<Rightarrow> int \<Rightarrow> int \<Rightarrow> int \<Rightarrow> bytes \<Rightarrow> bytes option" where
  "write_header i flags qd an ns ar buf = do {
     buf \<leftarrow> write16 0 i buf;
     buf \<leftarrow> write16 2 flags buf;
     buf \<leftarrow> write16 4 qd buf;
     buf \<leftarrow> write16 6 an buf;
     buf \<leftarrow> write16 8 ns buf;
     write16 10 ar buf }"

section \<open>Responses\<close>

text \<open>\<open>ip.split('.').map(Number)\<close>; a missing part is \<open>undefined\<close>, stored as 0.\<close>

definition octet :: "(string \<Rightarrow> int) \<Rightarrow> string \<Rightarrow> nat \<Rightarrow> int" where
  "octet num ip i = (let parts = split_on (CHR ''.'') ip in if i < length parts then num (parts ! i) else 0)"

definition write_record :: "nat \<Rightarrow> nat \<Rightarrow> nat \<Rightarrow> int \<Rightarrow> int \<Rightarrow> bytes \<Rightarrow> bytes option" where
  "write_record offset ty cls ttl rdlength buf = do {
     buf \<leftarrow> write16 offset (int ty) buf;
     buf \<leftarrow> write16 (offset + 2) (int cls) buf;
     buf \<leftarrow> write32 (offset + 4) ttl buf;
     write16 (offset + 8) rdlength buf }"

definition put_octets :: "(string \<Rightarrow> int) \<Rightarrow> string \<Rightarrow> nat \<Rightarrow> bytes \<Rightarrow> bytes" where
  "put_octets num ip offset buf =
     set_byte (offset + 13) (octet num ip 3) (set_byte (offset + 12) (octet num ip 2)
       (set_byte (offset + 11) (octet num ip 1) (set_byte (offset + 10) (octet num ip 0) buf)))"

definition put_bitmap :: "nat \<Rightarrow> bytes \<Rightarrow> bytes" where
  "put_bitmap offset buf = set_byte (offset + 2) 0x40 (set_byte (offset + 1) 1 (set_byte offset 0 buf))"

definition build_a_record_response ::
  "(nat \<Rightarrow> nat \<Rightarrow> 8 word) \<Rightarrow> (string \<Rightarrow> int) \<Rightarrow> string \<Rightarrow> string \<Rightarrow> int \<Rightarrow> bytes option" where
  "build_a_record_response mem num name ip ttl =
     (let encoded = encode_name mem name;
          nsec_rdata_len = 2 + 3;
          additional_size = 2 + 2 + 2 + 4 + 2 + nsec_rdata_len;
          size = 12 + length encoded + 14 + additional_size;
          offset = 12 + length encoded in do {
        buf \<leftarrow> write_header 0 (int (response_flag OR authoritative_answer)) 0 1 0 1 (alloc_unsafe mem size);
        buf \<leftarrow> Some (copy_bytes encoded 12 buf);
        buf \<leftarrow> write_record offset type_a class_flush ttl 4 buf;
        buf \<leftarrow> Some (put_octets num ip offset buf);
        buf \<leftarrow> write16 (offset + 14) 0xC00C buf;
        buf \<leftarrow> write_record (offset + 16) type_nsec class_flush ttl (int nsec_rdata_len) buf;
        buf \<leftarrow> write16 (offset + 26) 0xC00C buf;
        Some (put_bitmap (offset + 28) buf) })"

definition build_nsec_response :: "(nat \<Rightarrow> nat \<Rightarrow> 8 word) \<Rightarrow> string \<Rightarrow> int \<Rightarrow> bytes option" where
  "build_nsec_response mem name ttl =
     (let encoded = encode_name mem name;
          nsec_rdata_length = length encoded + 3;
          size = 12 + length encoded + 2 + 2 + 4 + 2 + nsec_rdata_length;
          offset = 12 + length encoded in do {
        buf \<leftarrow> write_header 0 (int (response_flag OR authoritative_answer)) 0 1 0 0 (alloc_unsafe mem size);
        buf \<leftarrow> Some (copy_bytes encoded 12 buf);
        buf \<leftarrow> write_record offset type_nsec class_flush ttl (int nsec_rdata_length) buf;
        buf \<leftarrow> Some (copy_bytes encoded (offset + 10) buf);
        Some (put_bitmap (offset + 10 + length encoded) buf) })"

definition stamp_transaction_id :: "bytes \<Rightarrow> int \<Rightarrow> bytes option" where
  "stamp_transaction_id buf i = write16 0 i buf"

section \<open>Queries and plain responses\<close>

datatype query_type = Type_number int | Type_name string

definition upper_char :: "char \<Rightarrow> char" where
  "upper_char c = (let n = of_char c :: nat in if 97 \<le> n \<and> n \<le> 122 then char_of (n - 32) else c)"

text \<open>\<open>toUpperCase\<close> on the letters that the compared names have.\<close>

definition type_to_number :: "query_type \<Rightarrow> int" where
  "type_to_number t = (case t of
     Type_number n \<Rightarrow> n
   | Type_name s \<Rightarrow> (let u = map upper_char s in
       if u = ''A'' then 1 else if u = ''AAAA'' then 28 else if u = ''PTR'' then 12
       else if u = ''SRV'' then 33 else if u = ''TXT'' then 16 else 255))"

fun put_questions ::
  "(nat \<Rightarrow> nat \<Rightarrow> 8 word) \<Rightarrow> (string \<times> query_type) list \<Rightarrow> nat \<Rightarrow> bytes \<Rightarrow> bytes option" where
  "put_questions mem [] offset buf = Some buf"
| "put_questions mem ((name, t) # qs) offset buf =
     (let encoded = encode_name mem name; offset' = offset + length encoded in do {
        buf \<leftarrow> Some (copy_bytes encoded offset buf);
        buf \<leftarrow> write16 offset' (type_to_number t) buf;
        buf \<leftarrow> write16 (offset' + 2) (int class_in) buf;
        put_questions mem qs (offset' + 4) buf })"

definition encode_query ::
  "(nat \<Rightarrow> nat \<Rightarrow> 8 word) \<Rightarrow> int option \<Rightarrow> (string \<times> query_type) list \<Rightarrow> bytes option" where
  "encode_query mem i questions =
     (let size = 12 + sum_list (map (\<lambda>q. length (encode_name mem (fst q)) + 4) questions) in do {
        buf \<leftarrow> write_header (case i of Some n \<Rightarrow> n | None \<Rightarrow> 0) 0 (int (length questions)) 0 0 0 (alloc_unsafe mem size);
        put_questions mem questions 12 buf })"

record dns_answer =
  da_name :: string
  da_data :: string
  da_ttl :: "int option"

fun put_answers ::
  "(nat \<Rightarrow> nat \<Rightarrow> 8 word) \<Rightarrow> (string \<Rightarrow> int) \<Rightarrow> dns_answer list \<Rightarrow> nat \<Rightarrow> bytes \<Rightarrow> bytes option" where
  "put_answers mem num [] offset buf = Some buf"
| "put_answers mem num (a # as) offset buf =
     (let encoded = encode_name mem (da_name a); offset' = offset + length encoded in do {
        buf \<leftarrow> Some (copy_bytes encoded offset buf);
        buf \<leftarrow> write_record offset' type_a class_in (case da_ttl a of Some t \<Rightarrow> t | None \<Rightarrow> 120) 4 buf;
        buf \<leftarrow> Some (put_octets num (da_data a) offset' buf);
        put_answers mem num as (offset' + 14) buf })"

definition encode_response ::
  "(nat \<Rightarrow> nat \<Rightarrow> 8 word) \<Rightarrow> (string \<Rightarrow> int) \<Rightarrow> int option \<Rightarrow> dns_answer list \<Rightarrow> bytes option" where
  "encode_response mem num i answers =
     (let size = 12 + sum_list (map (\<lambda>a. length (encode_name mem (da_name a)) + 2 + 2 + 4 + 2 + 4) answers) in do {
        buf \<leftarrow> write_header (case i of Some n \<Rightarrow> n | None \<Rightarrow> 0) (int (response_flag OR authoritative_answer))
          0 (int (length answers)) 0 0 (alloc_unsafe mem size);
        put_answers mem num answers 12 buf })"

end
