(* ===== verification/Mdns.thy ===== *)
theory Mdns
  imports Dns
begin

text \<open>
  The mDNS responder and the process around it: the packet handler and the prepared answers of
  \<open>packages/mdns/index.ts\<close>, the host registry of \<open>server/mdns.ts\<close>, and the exception guard of
  \<open>server/crash-guard.ts\<close> that both server processes install. Sockets, timers and interface
  discovery are left out; the address a host is announced with is an argument.
\<close>

section \<open>Host names\<close>

definition normalize_hostname :: "string \<Rightarrow> string" where
  "normalize_hostname h = (let s = to_lower h in if s \<noteq> [] \<and> last s = CHR ''.'' then butlast s else s)"

section \<open>The responder\<close>

record responder =
  r_answers :: "(string, bytes) jmap"
  r_denials :: "(string, bytes) jmap"

record packet =
  pk_bytes :: bytes
  pk_port :: int
  pk_address :: string

record peer =
  pr_port :: int
  pr_address :: string

text \<open>A prepared packet is stamped in place, so the cache holds the stamped bytes afterwards.\<close>

definition send_cached ::
  "(string, bytes) jmap \<Rightarrow> string \<Rightarrow> nat \<Rightarrow> peer \<Rightarrow> (string, bytes) jmap \<times> packet list" where
  "send_cached cache name i target =
     (case jm_get cache name of
        None \<Rightarrow> (cache, [])
      | Some buf \<Rightarrow>
          (case stamp_transaction_id buf (int i) of
             None \<Rightarrow> (cache, [])
           | Some stamped \<Rightarrow> (jm_set cache name stamped,
               [\<lparr>pk_bytes = stamped, pk_port = pr_port target, pk_address = pr_address target\<rparr>])))"

definition answer_question :: "peer \<Rightarrow> peer \<Rightarrow> nat \<Rightarrow> dns_question \<Rightarrow> responder \<times> packet list \<Rightarrow> responder \<times> packet list" where
  "answer_question me from i q st =
     (let name = normalize_hostname (dq_name q); target = (if dq_unicast q then from else me) in
      if dq_type q = 1 \<or> dq_type q = 255 then
        (let (cache, out) = send_cached (r_answers (fst st)) name i target in
         ((fst st)\<lparr>r_answers := cache\<rparr>, snd st @ out))
      else if dq_type q = 28 then
        (let (cache, out) = send_cached (r_denials (fst st)) name i target in
         ((fst st)\<lparr>r_denials := cache\<rparr>, snd st @ out))
      else st)"

text \<open>The message handler; \<open>None\<close> is an exception that leaves it.\<close>

definition on_message :: "(bytes \<Rightarrow> string) \<Rightarrow> peer \<Rightarrow> peer \<Rightarrow> bytes \<Rightarrow> responder \<Rightarrow> (responder \<times> packet list) option" where
  "on_message dec me from message st =
     (case decode_query dec message of
        None \<Rightarrow> None
      | Some None \<Rightarrow> Some (st, [])
      | Some (Some (i, questions)) \<Rightarrow> Some (fold (answer_question me from i) questions (st, [])))"

text \<open>\<open>registerResponse\<close>: \<open>False\<close> is the \<open>RangeError\<close> of a packet that cannot be built.\<close>

definition register_response ::
  "(nat \<Rightarrow> nat \<Rightarrow> 8 word) \<Rightarrow> (string \<Rightarrow> int) \<Rightarrow> string \<Rightarrow> string \<Rightarrow> int \<Rightarrow> responder \<Rightarrow> responder \<times> bool" where
  "register_response mem num hostname ip ttl st =
     (let name = normalize_hostname hostname in
      case build_a_record_response mem num name ip ttl of
        None \<Rightarrow> (st, False)
      | Some answer \<Rightarrow>
          (let st = st\<lparr>r_answers := jm_set (r_answers st) name answer\<rparr> in
           case build_nsec_response mem name ttl of
             None \<Rightarrow> (st, False)
           | Some denial \<Rightarrow> (st\<lparr>r_denials := jm_set (r_denials st) name denial\<rparr>, True)))"

definition unregister_response :: "string \<Rightarrow> responder \<Rightarrow> responder" where
  "unregister_response hostname st =
     (let name = normalize_hostname hostname in
      st\<lparr>r_answers := jm_delete (r_answers st) name, r_denials := jm_delete (r_denials st) name\<rparr>)"

section \<open>The host registry\<close>

record registry =
  g_hosts :: "string list"
  g_responder :: responder

definition host_of :: "string \<Rightarrow> string" where
  "host_of name = to_lower name @ ''.local''"

text \<open>\<open>registerHost\<close>: the new registry, and the announcement it sends (\<open>None\<close>: an exception).\<close>

definition register_host ::
  "(nat \<Rightarrow> nat \<Rightarrow> 8 word) \<Rightarrow> (string \<Rightarrow> int) \<Rightarrow> string \<Rightarrow> string \<Rightarrow> registry \<Rightarrow> registry \<times> bytes option" where
  "register_host mem num ip name g =
     (let host = host_of name;
          hosts = (if host \<in> set (g_hosts g) then g_hosts g else g_hosts g @ [host]);
          (r, ok) = register_response mem num host ip 120 (g_responder g) in
      (\<lparr>g_hosts = hosts, g_responder = r\<rparr>,
       if ok then encode_response mem num None [\<lparr>da_name = host, da_data = ip, da_ttl = Some 120\<rparr>] else None))"

definition unregister_host :: "string \<Rightarrow> registry \<Rightarrow> registry" where
  "unregister_host name g =
     \<lparr>g_hosts = filter (\<lambda>h. h \<noteq> host_of name) (g_hosts g), g_responder = unregister_response (host_of name) (g_responder g)\<rparr>"

section \<open>The exception guard\<close>

definition window_ms :: int where "window_ms = 60000"

definition max_exceptions :: nat where "max_exceptions = 25"

text \<open>\<open>uncaughtException\<close> at time \<open>now\<close>: the recent ones, and whether the process exits.\<close>

definition crash_guard :: "int \<Rightarrow> int list \<Rightarrow> int list \<times> bool" where
  "crash_guard now recent =
     (let recent' = filter (\<lambda>t. now - t < window_ms) recent @ [now] in (recent', max_exceptions < length recent'))"

datatype process = Running registry "int list" | Exited

datatype process_event =
    Packet_at int peer bytes
  | Register_host string string
  | Unregister_host string

text \<open>
  The server process: packets go to the handler and an exception it lets out goes to the guard;
  registrations come from the route table, whose callers see their exceptions.
\<close>

fun process_step ::
  "(nat \<Rightarrow> nat \<Rightarrow> 8 word) \<Rightarrow> (string \<Rightarrow> int) \<Rightarrow> (bytes \<Rightarrow> string) \<Rightarrow> peer \<Rightarrow> process_event \<Rightarrow> process \<Rightarrow> process" where
  "process_step mem num dec me e Exited = Exited"
| "process_step mem num dec me (Packet_at now from message) (Running g recent) =
     (case on_message dec me from message (g_responder g) of
        Some (r, out) \<Rightarrow> Running (g\<lparr>g_responder := r\<rparr>) recent
      | None \<Rightarrow> (let (recent', quit) = crash_guard now recent in if quit then Exited else Running g recent'))"
| "process_step mem num dec me (Register_host ip name) (Running g recent) =
     Running (fst (register_host mem num ip name g)) recent"
| "process_step mem num dec me (Unregister_host name) (Running g recent) = Running (unregister_host name g) recent"

end
