(* ===== verification/DnsFacts.thy ===== *)
theory DnsFacts
  imports Dns
begin

text \<open>
  The bytes the DNS codec writes and reads: buffers are filled from the front, so what a packet holds does
  not depend on the memory it was allocated from, and a name is read back wherever it stands.
\<close>

section \<open>Sequential writes\<close>

text \<open>A buffer whose first bytes have been written: what is written, and what the memory still holds.\<close>

definition written :: "bytes \<Rightarrow> bytes \<Rightarrow> bytes" where
  "written p r = p @ r"

lemma written_start: "buf = written [] buf"
  by (simp add: written_def)

lemma written_done: "length r = 0 \<Longrightarrow> written p r = p"
  by (simp add: written_def)

lemma length_written [simp]: "length (written p r) = length p + length r"
  by (simp add: written_def)

lemma length_alloc [simp]: "length (alloc_unsafe mem n) = n"
  by (simp add: alloc_unsafe_def)

definition be16 :: "int \<Rightarrow> bytes" where
  "be16 v = [word_of_int (drop_bit 8 v), word_of_int v]"

definition be32 :: "int \<Rightarrow> bytes" where
  "be32 v = [word_of_int (drop_bit 24 v), word_of_int (drop_bit 16 v), word_of_int (drop_bit 8 v), word_of_int v]"

lemma length_be [simp]: "length (be16 v) = 2" "length (be32 v) = 4"
  by (simp_all add: be16_def be32_def)

lemma set_byte_written:
  "off = length p \<Longrightarrow> 1 \<le> length r \<Longrightarrow> set_byte off v (written p r) = written (p @ [word_of_int v]) (drop 1 r)"
  by (cases r) (simp_all add: set_byte_def written_def)

lemma update_written:
  "off = length p \<Longrightarrow> 1 \<le> length r \<Longrightarrow> (written p r)[off := b] = written (p @ [b]) (drop 1 r)"
  by (cases r) (simp_all add: written_def)

lemma write16_written:
  assumes "off = length p" "2 \<le> length r" "0 \<le> v" "v < 2 ^ 16"
  shows "write16 off v (written p r) = Some (written (p @ be16 v) (drop 2 r))"
proof -
  have "set_byte off (drop_bit 8 v) (written p r) = written (p @ [word_of_int (drop_bit 8 v)]) (drop 1 r)"
    by (rule set_byte_written) (use assms in auto)
  moreover have "set_byte (off + 1) v (written (p @ [word_of_int (drop_bit 8 v)]) (drop 1 r))
      = written ((p @ [word_of_int (drop_bit 8 v)]) @ [word_of_int v]) (drop 1 (drop 1 r))"
    by (rule set_byte_written) (use assms in auto)
  ultimately show ?thesis using assms by (simp add: write16_def be16_def eval_nat_numeral)
qed

lemma write32_written:
  assumes "off = length p" "4 \<le> length r" "0 \<le> v" "v < 2 ^ 32"
  shows "write32 off v (written p r) = Some (written (p @ be32 v) (drop 4 r))"
proof -
  let ?p1 = "p @ [word_of_int (drop_bit 24 v)]"
  let ?p2 = "?p1 @ [word_of_int (drop_bit 16 v)]"
  let ?p3 = "?p2 @ [word_of_int (drop_bit 8 v)]"
  have "set_byte off (drop_bit 24 v) (written p r) = written ?p1 (drop 1 r)"
    by (rule set_byte_written) (use assms in auto)
  moreover have "set_byte (off + 1) (drop_bit 16 v) (written ?p1 (drop 1 r)) = written ?p2 (drop 1 (drop 1 r))"
    by (rule set_byte_written) (use assms in auto)
  moreover have "set_byte (off + 2) (drop_bit 8 v) (written ?p2 (drop 1 (drop 1 r))) = written ?p3 (drop 1 (drop 1 (drop 1 r)))"
    by (rule set_byte_written) (use assms in auto)
  moreover have "set_byte (off + 3) v (written ?p3 (drop 1 (drop 1 (drop 1 r)))) = written (?p3 @ [word_of_int v]) (drop 1 (drop 1 (drop 1 (drop 1 r))))"
    by (rule set_byte_written) (use assms in auto)
  ultimately show ?thesis using assms by (simp add: write32_def be32_def eval_nat_numeral)
qed

lemma copy_written:
  "off = length p \<Longrightarrow> length bs \<le> length r \<Longrightarrow> copy_bytes bs off (written p r) = written (p @ bs) (drop (length bs) r)"
proof (induction bs arbitrary: off p r)
  case (Cons b bs)
  have "(written p r)[off := b] = written (p @ [b]) (drop 1 r)"
    by (rule update_written) (use Cons.prems in auto)
  then show ?case using Cons.prems Cons.IH [of "off + 1" "p @ [b]" "drop 1 r"] by simp
qed simp

section \<open>Encoded names\<close>

definition label_bytes :: "string \<Rightarrow> bytes" where
  "label_bytes l = of_nat (length (utf8 l)) # utf8 l"

definition name_bytes :: "string \<Rightarrow> bytes" where
  "name_bytes name = concat (map label_bytes (split_on (CHR ''.'') name)) @ [0]"

lemma put_labels_written:
  "off = length p \<Longrightarrow> sum_list (map (\<lambda>l. 1 + length (utf8 l)) ls) \<le> length r \<Longrightarrow>
   put_labels ls off (written p r) = (off + length (concat (map label_bytes ls)),
     written (p @ concat (map label_bytes ls)) (drop (length (concat (map label_bytes ls))) r))"
proof (induction ls arbitrary: off p r)
  case (Cons l ls)
  have "set_byte off (int (length (utf8 l))) (written p r) = written (p @ [of_nat (length (utf8 l))]) (drop 1 r)"
    using set_byte_written [of off p r "int (length (utf8 l))"] Cons.prems by simp
  moreover have "copy_bytes (utf8 l) (off + 1) (written (p @ [of_nat (length (utf8 l))]) (drop 1 r))
      = written ((p @ [of_nat (length (utf8 l))]) @ utf8 l) (drop (length (utf8 l)) (drop 1 r))"
    by (rule copy_written) (use Cons.prems in auto)
  ultimately show ?case
    using Cons.prems Cons.IH [of "off + 1 + length (utf8 l)" "p @ label_bytes l" "drop (length (utf8 l)) (drop 1 r)"]
    by (simp add: Let_def label_bytes_def add.commute)
qed simp

lemma encode_name_bytes: "encode_name mem name = name_bytes name"
proof -
  let ?ls = "split_on (CHR ''.'') name"
  let ?n = "sum_list (map (\<lambda>l. 1 + length (utf8 l)) ?ls)"
  have len: "length (concat (map label_bytes ls)) = sum_list (map (\<lambda>l. 1 + length (utf8 l)) ls)" for ls
    by (induction ls) (simp_all add: label_bytes_def)
  have "put_labels ?ls 0 (alloc_unsafe mem (1 + ?n)) = (?n, written (concat (map label_bytes ?ls)) (drop ?n (alloc_unsafe mem (1 + ?n))))"
    using put_labels_written [of 0 "[]" ?ls "alloc_unsafe mem (1 + ?n)"] by (simp add: len flip: written_start)
  moreover have "set_byte ?n 0 (written (concat (map label_bytes ?ls)) (drop ?n (alloc_unsafe mem (1 + ?n))))
      = written (concat (map label_bytes ?ls) @ [word_of_int 0]) (drop 1 (drop ?n (alloc_unsafe mem (1 + ?n))))"
    by (rule set_byte_written) (simp_all add: len)
  moreover have "written (concat (map label_bytes ?ls) @ [word_of_int 0]) (drop 1 (drop ?n (alloc_unsafe mem (1 + ?n))))
      = name_bytes name"
    by (subst written_done) (simp_all add: name_bytes_def)
  ultimately show ?thesis by (simp add: encode_name_def Let_def)
qed

section \<open>Headers and records\<close>

definition header_bytes :: "int \<Rightarrow> int \<Rightarrow> int \<Rightarrow> int \<Rightarrow> int \<Rightarrow> int \<Rightarrow> bytes" where
  "header_bytes i flags qd an ns ar = be16 i @ be16 flags @ be16 qd @ be16 an @ be16 ns @ be16 ar"

lemma length_header [simp]: "length (header_bytes i flags qd an ns ar) = 12"
  by (simp add: header_bytes_def)

definition u16 :: "int \<Rightarrow> bool" where
  "u16 v \<longleftrightarrow> 0 \<le> v \<and> v < 2 ^ 16"

definition u32 :: "int \<Rightarrow> bool" where
  "u32 v \<longleftrightarrow> 0 \<le> v \<and> v < 2 ^ 32"

lemma write16_fits:
  "u16 v \<Longrightarrow> off = length p \<Longrightarrow> 2 \<le> length r \<Longrightarrow> write16 off v (written p r) = Some (written (p @ be16 v) (drop 2 r))"
  by (rule write16_written) (auto simp: u16_def)

lemma write32_fits:
  "u32 v \<Longrightarrow> off = length p \<Longrightarrow> 4 \<le> length r \<Longrightarrow> write32 off v (written p r) = Some (written (p @ be32 v) (drop 4 r))"
  by (rule write32_written) (auto simp: u32_def)

lemma write_header_written:
  assumes "u16 i" "u16 flags" "u16 qd" "u16 an" "u16 ns" "u16 ar" "12 \<le> length buf"
  shows "write_header i flags qd an ns ar buf = Some (written (header_bytes i flags qd an ns ar) (drop 12 buf))"
proof -
  have "write_header i flags qd an ns ar (written [] buf) = Some (written (((((([] @ be16 i) @ be16 flags) @ be16 qd) @ be16 an) @ be16 ns) @ be16 ar)
      (drop 2 (drop 2 (drop 2 (drop 2 (drop 2 (drop 2 buf)))))))"
    using assms unfolding write_header_def by (simp add: write16_fits del: append_assoc drop_drop append_Nil)
  then show ?thesis by (simp add: written_start [symmetric] header_bytes_def)
qed

definition record_bytes :: "nat \<Rightarrow> nat \<Rightarrow> int \<Rightarrow> int \<Rightarrow> bytes" where
  "record_bytes ty cls ttl rdlength = be16 (int ty) @ be16 (int cls) @ be32 ttl @ be16 rdlength"

lemma length_record [simp]: "length (record_bytes ty cls ttl rdlength) = 10"
  by (simp add: record_bytes_def)

lemma write_record_written:
  assumes "u16 (int ty)" "u16 (int cls)" "u32 ttl" "u16 rdlength" "off = length p" "10 \<le> length r"
  shows "write_record off ty cls ttl rdlength (written p r) = Some (written (p @ record_bytes ty cls ttl rdlength) (drop 10 r))"
proof -
  have "write_record off ty cls ttl rdlength (written p r) = Some (written ((((p @ be16 (int ty)) @ be16 (int cls)) @ be32 ttl) @ be16 rdlength)
      (drop 2 (drop 4 (drop 2 (drop 2 r)))))"
    using assms unfolding write_record_def by (simp add: write16_fits write32_fits del: append_assoc drop_drop)
  then show ?thesis by (simp add: record_bytes_def)
qed

lemma write_record_range: "\<not> u32 ttl \<Longrightarrow> write_record off ty cls ttl rdlength buf = None"
  by (auto simp: write_record_def write32_def u32_def Option.bind_eq_None_conv)

definition octet_bytes :: "(string \<Rightarrow> int) \<Rightarrow> string \<Rightarrow> bytes" where
  "octet_bytes num ip = map (\<lambda>i. word_of_int (octet num ip i)) [0, 1, 2, 3]"

lemma length_octets [simp]: "length (octet_bytes num ip) = 4"
  by (simp add: octet_bytes_def)

lemma put_octets_written:
  "off + 10 = length p \<Longrightarrow> 4 \<le> length r \<Longrightarrow> put_octets num ip off (written p r) = written (p @ octet_bytes num ip) (drop 4 r)"
proof -
  assume a: "off + 10 = length p" "4 \<le> length r"
  have "put_octets num ip off (written p r) = written ((((p @ [word_of_int (octet num ip 0)]) @ [word_of_int (octet num ip 1)])
      @ [word_of_int (octet num ip 2)]) @ [word_of_int (octet num ip 3)]) (drop 1 (drop 1 (drop 1 (drop 1 r))))"
    using a unfolding put_octets_def by (simp add: set_byte_written del: append_assoc drop_drop append.simps)
  then show ?thesis by (simp add: octet_bytes_def eval_nat_numeral)
qed

lemma put_bitmap_written:
  "off = length p \<Longrightarrow> 3 \<le> length r \<Longrightarrow> put_bitmap off (written p r) = written (p @ [0, 1, 0x40]) (drop 3 r)"
proof -
  assume a: "off = length p" "3 \<le> length r"
  have "put_bitmap off (written p r) = written (((p @ [word_of_int 0]) @ [word_of_int 1]) @ [word_of_int 0x40]) (drop 1 (drop 1 (drop 1 r)))"
    using a unfolding put_bitmap_def by (simp add: set_byte_written del: append_assoc drop_drop append.simps)
  then show ?thesis by (simp add: eval_nat_numeral)
qed

section \<open>Reading names back\<close>

lemma pointer_tag: "unat (b :: 8 word) AND 0xC0 = 0xC0 \<longleftrightarrow> 192 \<le> unat b"
proof -
  let ?n = "unat b"
  have n: "?n < 256" using unsigned_less [of b] by simp
  have c: "push_bit 6 (mask 2) = (0xC0 :: nat)" by (simp add: mask_eq_exp_minus_1)
  have "?n AND push_bit 6 (mask 2) = push_bit 6 (take_bit 2 (drop_bit 6 ?n))"
    by (rule bit_eqI) (auto simp: bit_and_iff bit_push_bit_iff bit_mask_iff bit_take_bit_iff bit_drop_bit_eq)
  then have "?n AND 0xC0 = push_bit 6 (take_bit 2 (drop_bit 6 ?n))" unfolding c .
  also have "\<dots> = 64 * (?n div 64 mod 4)" by (simp add: push_bit_eq_mult take_bit_eq_mod drop_bit_eq_div)
  finally have "?n AND 0xC0 = 64 * (?n div 64 mod 4)" .
  moreover have "?n div 64 < 4" using n by (simp add: less_mult_imp_div_less)
  moreover have "192 \<le> ?n \<longleftrightarrow> 3 \<le> ?n div 64" by (simp add: less_eq_div_iff_mult_less_eq)
  ultimately show ?thesis by auto
qed

lemma name_loop_end:
  "pos < length buf \<Longrightarrow> unat (buf ! pos) = 0 \<Longrightarrow>
   name_loop dec buf offset pos jumped jumps bytes_read labels
     = Some (labels, pos, jumped, if jumped then bytes_read else pos - offset + 1)"
  by (subst name_loop.simps) simp

lemma name_loop_past:
  "length buf \<le> pos \<Longrightarrow> name_loop dec buf offset pos jumped jumps bytes_read labels = Some (labels, pos, jumped, bytes_read)"
  by (subst name_loop.simps) simp

lemma name_loop_label:
  "pos < length buf \<Longrightarrow> 0 < unat (buf ! pos) \<Longrightarrow> unat (buf ! pos) < 192 \<Longrightarrow>
   name_loop dec buf offset pos jumped jumps bytes_read labels
     = name_loop dec buf offset (pos + 1 + unat (buf ! pos)) jumped jumps bytes_read
         (labels @ [dec (take (unat (buf ! pos)) (drop (pos + 1) buf))])"
  by (subst name_loop.simps) (simp add: pointer_tag Let_def)

lemma name_loop_pointer:
  "pos < length buf \<Longrightarrow> 192 \<le> unat (buf ! pos) \<Longrightarrow>
   name_loop dec buf offset pos jumped jumps bytes_read labels =
     (if 255 < jumps + 1 then None
      else name_loop dec buf offset (push_bit 8 (unat (buf ! pos) AND 0x3F) OR
          (if pos + 1 < length buf then unat (buf ! (pos + 1)) else 0)) True (jumps + 1)
        (if jumped then bytes_read else pos - offset + 2) labels)"
  by (subst name_loop.simps) (simp add: pointer_tag Let_def)

text \<open>Labels the wire format can carry: not empty, and short enough not to look like a pointer.\<close>

definition wire_label :: "(bytes \<Rightarrow> string) \<Rightarrow> string \<Rightarrow> bool" where
  "wire_label dec l \<longleftrightarrow> l \<noteq> [] \<and> length (utf8 l) < 192 \<and> dec (utf8 l) = l"

definition wire_name :: "(bytes \<Rightarrow> string) \<Rightarrow> string \<Rightarrow> bool" where
  "wire_name dec name \<longleftrightarrow> list_all (wire_label dec) (split_on (CHR ''.'') name)"

lemma utf8_nonempty: "l \<noteq> [] \<Longrightarrow> utf8 l \<noteq> []"
  by (cases l) (auto simp: utf8_def utf8_char_def Let_def)

lemma decode_labels:
  assumes "list_all (wire_label dec) ls"
  shows "name_loop dec (pre @ concat (map label_bytes ls) @ 0 # post) offset (length pre) jumped jumps bytes_read acc =
    Some (acc @ ls, length pre + length (concat (map label_bytes ls)), jumped,
      if jumped then bytes_read else length pre + length (concat (map label_bytes ls)) - offset + 1)"
  using assms
proof (induction ls arbitrary: pre acc)
  case Nil
  show ?case using name_loop_end [of "length pre" "pre @ 0 # post"] by simp
next
  case (Cons l ls)
  let ?n = "length (utf8 l)" and ?rest = "concat (map label_bytes ls) @ 0 # post"
  have l: "0 < ?n" "?n < 192" "dec (utf8 l) = l"
    using Cons.prems utf8_nonempty [of l] by (auto simp: wire_label_def)
  then have n: "unat (of_nat ?n :: 8 word) = ?n" by (simp add: unsigned_of_nat take_bit_nat_eq_self)
  have buf: "pre @ concat (map label_bytes (l # ls)) @ 0 # post = pre @ label_bytes l @ ?rest" by simp
  have at: "(pre @ label_bytes l @ ?rest) ! length pre = of_nat ?n" by (simp add: nth_append label_bytes_def)
  have tk: "take ?n (drop (length pre + 1) (pre @ label_bytes l @ ?rest)) = utf8 l" by (simp add: label_bytes_def)
  have "name_loop dec (pre @ label_bytes l @ ?rest) offset (length pre) jumped jumps bytes_read acc
      = name_loop dec (pre @ label_bytes l @ ?rest) offset (length pre + 1 + ?n) jumped jumps bytes_read (acc @ [l])"
    by (subst name_loop_label) (use at n l tk in \<open>simp_all add: label_bytes_def\<close>)
  also have "\<dots> = name_loop dec ((pre @ label_bytes l) @ ?rest) offset (length (pre @ label_bytes l)) jumped jumps bytes_read (acc @ [l])"
    by (simp add: label_bytes_def)
  also have "\<dots> = Some (acc @ l # ls, length pre + length (concat (map label_bytes (l # ls))), jumped,
      if jumped then bytes_read else length pre + length (concat (map label_bytes (l # ls))) - offset + 1)"
    using Cons.IH [of "pre @ label_bytes l" "acc @ [l]"] Cons.prems by (simp add: add.assoc)
  finally show ?case unfolding buf .
qed

lemma length_name_bytes: "length (name_bytes name) = length (concat (map label_bytes (split_on (CHR ''.'') name))) + 1"
  by (simp add: name_bytes_def)

text \<open>A name in the middle of a packet, read where it stands and through a pointer to it.\<close>

lemma decode_name_inline:
  assumes "wire_name dec name"
  shows "decode_name dec (pre @ name_bytes name @ post) (length pre) = Some (name, length (name_bytes name))"
proof -
  let ?ls = "split_on (CHR ''.'') name"
  have "name_loop dec (pre @ concat (map label_bytes ?ls) @ 0 # post) (length pre) (length pre) False 0 0 []
      = Some ([] @ ?ls, length pre + length (concat (map label_bytes ?ls)), False, length pre + length (concat (map label_bytes ?ls)) - length pre + 1)"
    using decode_labels [of dec ?ls pre post "length pre" False 0 0 "[]"] assms by (simp add: wire_name_def)
  then show ?thesis by (simp add: decode_name_def length_name_bytes) (simp add: name_bytes_def)
qed

lemma decode_name_pointer:
  assumes n: "wire_name dec name" and b: "buf = pre @ name_bytes name @ post"
    and p: "pos + 1 < length buf" "192 \<le> unat (buf ! pos)" "push_bit 8 (unat (buf ! pos) AND 0x3F) OR unat (buf ! (pos + 1)) = length pre"
  shows "decode_name dec buf pos = Some (name, 2)"
proof -
  let ?ls = "split_on (CHR ''.'') name"
  have "name_loop dec buf pos pos False 0 0 [] = name_loop dec buf pos (length pre) True 1 2 []"
    by (subst name_loop_pointer) (use p in \<open>simp_all add: numeral_2_eq_2\<close>)
  also have "\<dots> = Some ([] @ ?ls, length pre + length (concat (map label_bytes ?ls)), True, 2)"
    using decode_labels [of dec ?ls pre post pos True 1 2 "[]"] n by (simp add: wire_name_def b name_bytes_def)
  finally show ?thesis by (simp add: decode_name_def)
qed

lemma name_loop_reads:
  assumes "name_loop dec buf offset pos jumped jumps bytes_read labels = Some (ls, pos', jumped', n)"
    "jumped \<longrightarrow> 0 < bytes_read" "\<not> jumped \<longrightarrow> offset \<le> pos"
  shows "jumped' \<longrightarrow> 0 < n"
  using assms
proof (induction dec buf offset pos jumped jumps bytes_read labels rule: name_loop.induct)
  case (1 dec buf offset pos jumped jumps bytes_read labels)
  consider (past) "length buf \<le> pos" | (stop) "pos < length buf" "unat (buf ! pos) = 0"
    | (pointer) "pos < length buf" "192 \<le> unat (buf ! pos)" | (label) "pos < length buf" "0 < unat (buf ! pos)" "unat (buf ! pos) < 192"
    by linarith
  then show ?case
  proof cases
    case past
    with 1(3-) show ?thesis by (simp add: name_loop_past)
  next
    case stop
    with 1(3-) show ?thesis by (auto simp: name_loop_end)
  next
    case pointer
    with 1(3) have j: "\<not> 255 < jumps + 1" by (auto simp: name_loop_pointer split: if_splits)
    show ?thesis
      by (rule "1.IH"(1) [OF _ refl _ _ refl j]) (use pointer 1(3-) j in \<open>auto simp: name_loop_pointer pointer_tag\<close>)
  next
    case label
    show ?thesis
      by (rule "1.IH"(2) [OF _ refl]) (use label 1(3-) in \<open>auto simp: name_loop_label pointer_tag\<close>)
  qed
qed

lemma decode_name_progress: "decode_name dec buf offset = Some (name, n) \<Longrightarrow> 0 < n"
  by (auto simp: decode_name_def split: option.splits if_splits dest: name_loop_reads)

section \<open>Packets as written\<close>

lemma flag_values: "int (response_flag OR authoritative_answer) = 0x8400" "int type_a = 1" "int type_nsec = 47"
  "int class_in = 1" "int class_flush = 0x8001"
  by (simp_all add: response_flag_def authoritative_answer_def type_a_def type_nsec_def class_in_def class_flush_def push_bit_eq_mult)

lemma a_record_bytes:
  "build_a_record_response mem num name ip ttl =
     (if u32 ttl then Some (header_bytes 0 0x8400 0 1 0 1 @ name_bytes name @ record_bytes type_a class_flush ttl 4
        @ octet_bytes num ip @ be16 0xC00C @ record_bytes type_nsec class_flush ttl 5 @ be16 0xC00C @ [0, 1, 0x40])
      else None)"
proof (cases "u32 ttl")
  case True
  let ?n = "name_bytes name" and ?h = "header_bytes 0 0x8400 0 1 0 1"
  let ?size = "12 + length ?n + 14 + (2 + 2 + 2 + 4 + 2 + (2 + 3))"
  let ?a = "record_bytes type_a class_flush ttl 4" and ?s = "record_bytes type_nsec class_flush ttl 5" and ?o = "octet_bytes num ip"
  let ?r = "drop 3 (drop 2 (drop 10 (drop 2 (drop 4 (drop 10 (drop (length ?n) (drop 12 (alloc_unsafe mem ?size))))))))"
  have v: "u16 0" "u16 0x8400" "u16 1" "u16 4" "u16 5" "u16 0xC00C" "u16 (int type_a)" "u16 (int type_nsec)" "u16 (int class_flush)"
    by (simp_all add: u16_def flag_values)
  have "build_a_record_response mem num name ip ttl
      = Some (written (((((((?h @ ?n) @ ?a) @ ?o) @ be16 0xC00C) @ ?s) @ be16 0xC00C) @ [0, 1, 0x40]) ?r)"
    unfolding build_a_record_response_def encode_name_bytes flag_values(1) Let_def
    using True v by (simp add: write_header_written copy_written write_record_written put_octets_written
        write16_fits put_bitmap_written del: append_assoc drop_drop append_Cons append_Nil)
  then show ?thesis using True by (simp add: written_done)
qed (simp add: build_a_record_response_def Let_def write_record_range Option.bind_eq_None_conv)

lemma nsec_bytes:
  "build_nsec_response mem name ttl =
     (if u32 ttl \<and> length (name_bytes name) + 3 < 2 ^ 16
      then Some (header_bytes 0 0x8400 0 1 0 0 @ name_bytes name
        @ record_bytes type_nsec class_flush ttl (int (length (name_bytes name) + 3)) @ name_bytes name @ [0, 1, 0x40])
      else None)"
proof (cases "u32 ttl \<and> length (name_bytes name) + 3 < 2 ^ 16")
  case True
  let ?n = "name_bytes name" and ?h = "header_bytes 0 0x8400 0 1 0 0"
  let ?size = "12 + length ?n + 2 + 2 + 4 + 2 + (length ?n + 3)"
  let ?a = "record_bytes type_nsec class_flush ttl (int (length ?n + 3))"
  let ?r = "drop 3 (drop (length ?n) (drop 10 (drop (length ?n) (drop 12 (alloc_unsafe mem ?size)))))"
  have v: "u16 0" "u16 0x8400" "u16 1" "u16 (int (length ?n + 3))" "u16 (int type_nsec)" "u16 (int class_flush)"
    using True by (simp_all add: u16_def flag_values)
  have "build_nsec_response mem name ttl = Some (written ((((?h @ ?n) @ ?a) @ ?n) @ [0, 1, 0x40]) ?r)"
    unfolding build_nsec_response_def encode_name_bytes flag_values(1) Let_def
    using True v by (simp add: write_header_written copy_written write_record_written put_bitmap_written
        del: append_assoc drop_drop append_Cons append_Nil of_nat_add)
  then show ?thesis using True by (simp add: written_done)
next
  case False
  have "write_record off ty cls ttl (int (length (name_bytes name) + 3)) buf = None" for off ty cls buf
    using False by (auto simp: write_record_def write16_def write32_def u32_def Option.bind_eq_None_conv)
  then show ?thesis using False by (simp add: build_nsec_response_def encode_name_bytes Let_def Option.bind_eq_None_conv)
qed

lemma unat_byte: "unat (word_of_int v :: 8 word) = nat (v mod 256)"
proof -
  have "int (unat (word_of_int v :: 8 word)) = uint (word_of_int v :: 8 word)" by simp
  also have "\<dots> = v mod 256" by (simp add: unsigned_of_int take_bit_eq_mod)
  finally have "int (unat (word_of_int v :: 8 word)) = v mod 256" .
  then show ?thesis by (metis nat_int)
qed

lemma read16_be16:
  assumes "u16 v" shows "read16 (p @ be16 v @ r) (length p) = nat v"
proof -
  have b: "0 \<le> v" "v < 65536" using assms by (simp_all add: u16_def)
  then have "0 \<le> v div 256 \<and> v div 256 < 256" by (auto intro: pos_imp_zdiv_nonneg_iff [THEN iffD2])
  then have v: "0 \<le> v" "v div 256 mod 256 = v div 256" using b by simp_all
  have "int (nat (v div 256) * 256 + nat (v mod 256)) = v" using v(1) by (simp add: pos_imp_zdiv_nonneg_iff)
  then have "nat (v div 256 mod 256) * 256 + nat (v mod 256) = nat v" unfolding v(2) by (metis nat_int)
  then have "nat (drop_bit 8 v mod 256) * 256 + nat (v mod 256) = nat v" by (simp add: drop_bit_eq_div)
  then show ?thesis by (simp add: read16_def be16_def nth_append unat_byte)
qed

lemma put_questions_written:
  assumes "\<forall>q \<in> set qs. u16 (type_to_number (snd q))" "off = length p"
    "sum_list (map (\<lambda>q. length (name_bytes (fst q)) + 4) qs) \<le> length r"
  defines "body \<equiv> concat (map (\<lambda>q. name_bytes (fst q) @ be16 (type_to_number (snd q)) @ be16 1) qs)"
  shows "put_questions mem qs off (written p r) = Some (written (p @ body) (drop (length body) r))"
  using assms(1-3) unfolding body_def
proof (induction qs arbitrary: off p r)
  case (Cons q qs)
  obtain name t where q: "q = (name, t)" by (cases q)
  let ?n = "name_bytes name"
  have v: "u16 (type_to_number t)" "u16 1" using Cons.prems(1) q by (simp_all add: u16_def)
  let ?p = "((p @ ?n) @ be16 (type_to_number t)) @ be16 1" and ?r = "drop 2 (drop 2 (drop (length ?n) r))"
  have "put_questions mem (q # qs) off (written p r) = put_questions mem qs (off + length ?n + 4) (written ?p ?r)"
    using Cons.prems(2,3) v unfolding q
    by (simp add: encode_name_bytes Let_def copy_written write16_fits flag_values del: append_assoc drop_drop)
  also have "\<dots> = Some (written (?p @ concat (map (\<lambda>q. name_bytes (fst q) @ be16 (type_to_number (snd q)) @ be16 1) qs))
      (drop (length (concat (map (\<lambda>q. name_bytes (fst q) @ be16 (type_to_number (snd q)) @ be16 1) qs))) ?r))"
    by (rule Cons.IH) (use Cons.prems q in auto)
  finally show ?case by (simp add: q add.assoc add.commute)
qed simp

definition question_bytes :: "(string \<times> query_type) list \<Rightarrow> bytes" where
  "question_bytes qs = concat (map (\<lambda>q. name_bytes (fst q) @ be16 (type_to_number (snd q)) @ be16 1) qs)"

lemma query_bytes:
  assumes "u16 i" "length qs < 2 ^ 16" "\<forall>q \<in> set qs. u16 (type_to_number (snd q))"
  shows "encode_query mem (Some i) qs = Some (header_bytes i 0 (int (length qs)) 0 0 0 @ question_bytes qs)"
proof -
  let ?size = "12 + sum_list (map (\<lambda>q. length (name_bytes (fst q)) + 4) qs)"
  have v: "u16 0" "u16 (int (length qs))" using assms(2) by (simp_all add: u16_def)
  have len: "length (question_bytes qs) = sum_list (map (\<lambda>q. length (name_bytes (fst q)) + 4) qs)"
    unfolding question_bytes_def by (induction qs) simp_all
  have "encode_query mem (Some i) qs = put_questions mem qs 12 (written (header_bytes i 0 (int (length qs)) 0 0 0) (drop 12 (alloc_unsafe mem ?size)))"
    using assms(1) v by (simp add: encode_query_def encode_name_bytes write_header_written)
  also have "\<dots> = Some (written (header_bytes i 0 (int (length qs)) 0 0 0 @ question_bytes qs)
      (drop (length (question_bytes qs)) (drop 12 (alloc_unsafe mem ?size))))"
    unfolding question_bytes_def by (rule put_questions_written) (use assms(3) in simp_all)
  finally show ?thesis by (simp add: written_done len)
qed

lemma read16_at: "u16 v \<Longrightarrow> length p = off \<Longrightarrow> buf = p @ be16 v @ r \<Longrightarrow> read16 buf off = nat v"
  using read16_be16 [of v p r] by simp

lemma question_loop_reads:
  assumes "\<forall>q \<in> set qs. wire_name dec (fst q) \<and> u16 (type_to_number (snd q))"
  shows "question_loop dec (pre @ question_bytes qs) (length qs) (length pre) =
    Some (map (\<lambda>q. \<lparr>dq_name = fst q, dq_type = nat (type_to_number (snd q)), dq_class = 1, dq_unicast = False\<rparr>) qs)"
  using assms
proof (induction qs arbitrary: pre)
  case (Cons q qs)
  let ?n = "name_bytes (fst q)" and ?t = "type_to_number (snd q)"
  let ?pre = "pre @ ?n @ be16 ?t @ be16 1" and ?rest = "question_bytes qs"
  have buf: "pre @ question_bytes (q # qs) = pre @ ?n @ be16 ?t @ be16 1 @ ?rest" by (simp add: question_bytes_def)
  have dn: "decode_name dec (pre @ ?n @ be16 ?t @ be16 1 @ ?rest) (length pre) = Some (fst q, length ?n)"
    by (rule decode_name_inline) (use Cons.prems in simp)
  have ty: "read16 (pre @ ?n @ be16 ?t @ be16 1 @ ?rest) (length pre + length ?n) = nat ?t"
    by (rule read16_at [of _ "pre @ ?n" _ _ "be16 1 @ ?rest"]) (use Cons.prems in simp_all)
  have cl: "read16 (pre @ ?n @ be16 ?t @ be16 1 @ ?rest) (length pre + length ?n + 2) = nat 1"
    by (rule read16_at [of _ "pre @ ?n @ be16 ?t" _ _ ?rest]) (simp_all add: u16_def)
  have "length ?pre = length pre + length ?n + 4" by simp
  then have "question_loop dec (pre @ ?n @ be16 ?t @ be16 1 @ ?rest) (length qs) (length pre + length ?n + 4) =
      Some (map (\<lambda>q. \<lparr>dq_name = fst q, dq_type = nat (type_to_number (snd q)), dq_class = 1, dq_unicast = False\<rparr>) qs)"
    using Cons.IH [of ?pre] Cons.prems by (simp add: add.assoc)
  then show ?case unfolding buf using dn ty cl by (simp add: Let_def)
qed (simp add: question_bytes_def)

end
