(* ===== verification/DnsProperties.thy ===== *)
theory DnsProperties
  imports DnsFacts
begin

text \<open>What the DNS codec promises: round trips, the layout of responses, and bounds on hostile packets.\<close>

section \<open>Queries\<close>

lemma decode_query_bytes:
  assumes "u16 i" "qs \<noteq> []" "length qs < 2 ^ 16" "\<forall>q \<in> set qs. wire_name dec (fst q) \<and> u16 (type_to_number (snd q))"
  shows "decode_query dec (header_bytes i 0 (int (length qs)) 0 0 0 @ question_bytes qs) = Some (Some (nat i,
    map (\<lambda>q. \<lparr>dq_name = fst q, dq_type = nat (type_to_number (snd q)), dq_class = 1, dq_unicast = False\<rparr>) qs))"
proof -
  let ?n = "int (length qs)" and ?h = "header_bytes i 0 (int (length qs)) 0 0 0"
  have v: "u16 ?n" "u16 0" using assms(3) by (simp_all add: u16_def)
  have h: "?h @ question_bytes qs = be16 i @ be16 0 @ be16 ?n @ be16 0 @ be16 0 @ be16 0 @ question_bytes qs"
    by (simp add: header_bytes_def)
  have r: "read16 (?h @ question_bytes qs) 0 = nat i"
    unfolding h by (rule read16_at [of _ "[]" _ _ "be16 0 @ be16 ?n @ be16 0 @ be16 0 @ be16 0 @ question_bytes qs"]) (use assms(1) in simp_all)
  have r2: "read16 (?h @ question_bytes qs) 2 = nat 0"
    unfolding h by (rule read16_at [of _ "be16 i" _ _ "be16 ?n @ be16 0 @ be16 0 @ be16 0 @ question_bytes qs"]) (use v in simp_all)
  have r4: "read16 (?h @ question_bytes qs) 4 = nat ?n"
    unfolding h by (rule read16_at [of _ "be16 i @ be16 0" _ _ "be16 0 @ be16 0 @ be16 0 @ question_bytes qs"]) (use v in simp_all)
  have "question_loop dec (?h @ question_bytes qs) (length qs) 12 =
    Some (map (\<lambda>q. \<lparr>dq_name = fst q, dq_type = nat (type_to_number (snd q)), dq_class = 1, dq_unicast = False\<rparr>) qs)"
    using question_loop_reads [OF assms(4), of ?h] by simp
  then show ?thesis using assms(2) by (simp add: decode_query_def r r2 r4)
qed

text \<open>C31. Decoding an encoded query gives back its transaction identity and its questions, with types as
  numbers and class IN, for every query whose names consist of labels of 1 to 191 bytes and whose numbers
  fit in 16 bits, whatever memory the buffer was allocated from.\<close>

theorem query_round_trip:
  assumes "u16 i" "qs \<noteq> []" "length qs < 2 ^ 16" "\<forall>q \<in> set qs. wire_name dec (fst q) \<and> u16 (type_to_number (snd q))"
  shows "Option.bind (encode_query mem (Some i) qs) (decode_query dec) = Some (Some (nat i,
    map (\<lambda>q. \<lparr>dq_name = fst q, dq_type = nat (type_to_number (snd q)), dq_class = 1, dq_unicast = False\<rparr>) qs))"
proof -
  have "encode_query mem (Some i) qs = Some (header_bytes i 0 (int (length qs)) 0 0 0 @ question_bytes qs)"
    by (rule query_bytes) (use assms in auto)
  then show ?thesis by (simp add: decode_query_bytes [OF assms])
qed

section \<open>Responses\<close>

text \<open>A prepared answer, stamped with the identity of a query, is the same packet whatever memory it was
  allocated from: it carries that identity, the address record and the denial of other types, its name
  reads back at offset 12 and through both compression pointers, and no responder takes it for a query;
  an out-of-range lifetime throws.\<close>

lemma stamped_answer:
  assumes n: "wire_name dec name" and i: "u16 i"
  shows "if u32 ttl then \<exists>buf. Option.bind (build_a_record_response mem num name ip ttl) (\<lambda>b. stamp_transaction_id b i) = Some buf \<and>
      buf = header_bytes i 0x8400 0 1 0 1 @ name_bytes name @ record_bytes type_a class_flush ttl 4 @ octet_bytes num ip
        @ be16 0xC00C @ record_bytes type_nsec class_flush ttl 5 @ be16 0xC00C @ [0, 1, 0x40] \<and>
      decode_name dec buf 12 = Some (name, length (name_bytes name)) \<and>
      decode_name dec buf (26 + length (name_bytes name)) = Some (name, 2) \<and>
      decode_name dec buf (38 + length (name_bytes name)) = Some (name, 2) \<and>
      decode_query dec buf = Some None
    else build_a_record_response mem num name ip ttl = None"
proof (cases "u32 ttl")
  case True
  let ?n = "name_bytes name" and ?a = "record_bytes type_a class_flush ttl 4" and ?o = "octet_bytes num ip"
    and ?s = "record_bytes type_nsec class_flush ttl 5" and ?p = "be16 0xC00C"
  let ?h = "header_bytes i 0x8400 0 1 0 1"
  let ?t = "?n @ ?a @ ?o @ ?p @ ?s @ ?p @ [0, 1, 0x40]"
  let ?buf = "?h @ ?t"
  have "stamp_transaction_id (header_bytes 0 0x8400 0 1 0 1 @ ?t) i = write16 0 i (written [] (header_bytes 0 0x8400 0 1 0 1 @ ?t))"
    by (simp add: stamp_transaction_id_def written_def)
  also have "\<dots> = Some (written ([] @ be16 i) (drop 2 (header_bytes 0 0x8400 0 1 0 1 @ ?t)))"
    by (rule write16_fits [OF i]) (simp_all add: header_bytes_def)
  also have "\<dots> = Some ?buf" by (simp add: written_def header_bytes_def be16_def)
  finally have st: "Option.bind (build_a_record_response mem num name ip ttl) (\<lambda>b. stamp_transaction_id b i) = Some ?buf"
    using True by (simp add: a_record_bytes)
  have ptr: "decode_name dec ?buf pos = Some (name, 2)" if "?buf = pre @ ?p @ post" "length pre = pos" for pre post pos
  proof (rule decode_name_pointer [OF n, of _ ?h "?a @ ?o @ ?p @ ?s @ ?p @ [0, 1, 0x40]"])
    have p: "?p = [0xC0, 0x0C]" by (simp add: be16_def drop_bit_eq_div)
    have "(pre @ ?p @ post) ! pos = 0xC0" "(pre @ ?p @ post) ! (pos + 1) = 0x0C"
      unfolding p using that(2) by (simp_all add: nth_append)
    then have "?buf ! pos = 0xC0" "?buf ! (pos + 1) = 0x0C" by (simp_all only: that(1))
    then show "192 \<le> unat (?buf ! pos)" "push_bit 8 (unat (?buf ! pos) AND 0x3F) OR unat (?buf ! (pos + 1)) = length ?h" by simp_all
    show "pos + 1 < length ?buf" unfolding that(1) using that(2) by simp
  qed simp
  have "decode_name dec ?buf (26 + length ?n) = Some (name, 2)"
    by (rule ptr [of "?h @ ?n @ ?a @ ?o" "?s @ ?p @ [0, 1, 0x40]"]) simp_all
  moreover have "decode_name dec ?buf (38 + length ?n) = Some (name, 2)"
    by (rule ptr [of "?h @ ?n @ ?a @ ?o @ ?p @ ?s" "[0, 1, 0x40]"]) simp_all
  moreover have "decode_name dec ?buf 12 = Some (name, length ?n)"
    using decode_name_inline [OF n, of ?h "?a @ ?o @ ?p @ ?s @ ?p @ [0, 1, 0x40]"] by simp
  moreover have "read16 ?buf 2 = nat 0x8400"
    unfolding header_bytes_def append_assoc
    by (rule read16_at [of _ "be16 i" _ _ "be16 0 @ be16 1 @ be16 0 @ be16 1 @ ?t"]) (simp_all add: u16_def)
  then have "decode_query dec ?buf = Some None"
    by (simp add: decode_query_def response_flag_def)
  ultimately show ?thesis using st True by (auto intro!: exI [of _ ?buf])
qed (simp add: a_record_bytes)

section \<open>Hostile packets\<close>

lemma question_loop_bounds:
  "question_loop dec buf n offset = Some qs \<Longrightarrow> 12 \<le> offset \<Longrightarrow>
   length qs \<le> n \<and> (offset \<le> length buf \<longrightarrow> offset + 5 * length qs \<le> length buf) \<and> (length buf < offset \<longrightarrow> qs = [])"
proof (induction dec buf n offset arbitrary: qs rule: question_loop.induct)
  case (2 dec buf n offset)
  show ?case
  proof (cases "offset < length buf")
    case True
    from "2.prems"(1) True obtain name r where d: "decode_name dec buf offset = Some (name, r)"
      by (auto split: option.splits)
    show ?thesis
    proof (cases "length buf < offset + r + 4")
      case False
      from "2.prems"(1) True d False obtain rest where rest: "question_loop dec buf n (offset + r + 4) = Some rest" "length qs = Suc (length rest)"
        by (auto simp: Let_def)
      have "length rest \<le> n \<and> (offset + r + 4 \<le> length buf \<longrightarrow> offset + r + 4 + 5 * length rest \<le> length buf)"
        using "2.IH" [OF True d refl refl False refl] rest(1) "2.prems"(2) by simp
      then show ?thesis using rest(2) False decode_name_progress [OF d] by simp
    qed (use "2.prems" True d in \<open>auto simp: Let_def\<close>)
  qed (use "2.prems" in auto)
qed auto

text \<open>Whatever bytes arrive, decoding a query ends, and when it does not throw it reports no more
  questions than the header announces nor than fit in the packet at five bytes each.\<close>

lemma hostile_query_bounds:
  assumes "decode_query dec buf = Some (Some (i, qs))"
  shows "i < 2 ^ 16 \<and> length qs \<le> read16 buf 4 \<and> 12 + 5 * length qs \<le> length buf"
proof -
  have l: "\<not> length buf < 12" and q: "question_loop dec buf (read16 buf 4) 12 = Some qs" and i: "i = read16 buf 0"
    using assms by (auto simp: decode_query_def split: if_splits)
  have "unat (buf ! 0) < 256" "unat (buf ! 1) < 256" using unsigned_less [of "buf ! 0"] unsigned_less [of "buf ! 1"] by simp_all
  then have "i < 2 ^ 16" unfolding i read16_def by simp
  then show ?thesis using question_loop_bounds [OF q] l by simp
qed

lemma self_pointer_loops:
  assumes "13 < length buf" "buf ! 12 = 0xC0" "buf ! 13 = 0x0C" "jumps \<le> 255"
  shows "name_loop dec buf offset 12 jumped jumps n labels = None"
  using assms(4)
proof (induction "255 - jumps" arbitrary: jumped jumps n)
  case 0
  then show ?case by (subst name_loop_pointer) (use assms in simp_all)
next
  case (Suc k)
  have t: "push_bit 8 (unat (0xC0 :: 8 word) AND 0x3F) OR unat (0x0C :: 8 word) = 12" by simp
  have "k = 255 - (jumps + 1)" "jumps + 1 \<le> 255" using Suc.hyps(2) by simp_all
  then have "name_loop dec buf offset 12 True (jumps + 1) m labels = None" for m by (rule Suc.hyps(1))
  then show ?case by (subst name_loop_pointer) (use assms t in simp_all)
qed

text \<open>A query whose first name is a pointer to itself makes the decoder throw, so one short packet
  from the local network raises an exception out of the socket's message handler.\<close>

lemma self_pointer_query_throws:
  assumes "13 < length buf" "buf ! 12 = 0xC0" "buf ! 13 = 0x0C" "read16 buf 2 AND response_flag = 0" "0 < read16 buf 4"
  shows "decode_query dec buf = None"
proof -
  obtain m where m: "read16 buf 4 = Suc m" using assms(5) by (cases "read16 buf 4") auto
  have "decode_name dec buf 12 = None"
    by (simp add: decode_name_def self_pointer_loops [OF assms(1-3)])
  then show ?thesis using assms(1,4) m by (simp add: decode_query_def)
qed

section \<open>Concrete packets\<close>

definition ascii :: "bytes \<Rightarrow> string" where
  "ascii bs = map (\<lambda>b. char_of (unat b)) bs"

definition old_memory :: "nat \<Rightarrow> nat \<Rightarrow> 8 word" where
  "old_memory n i = of_nat (170 + i)"

definition loop_packet :: bytes where
  "loop_packet = [0, 7, 0, 0, 0, 1, 0, 0, 0, 0, 0, 0, 0xC0, 0x0C]"

lemma shop_name: "wire_name ascii ''shop.local''"
  by code_simp

lemma query_round_trip_witness:
  "Option.bind (encode_query old_memory (Some 7) [(''shop.local'', Type_number 28)]) (decode_query ascii)
     = Some (Some (7, [\<lparr>dq_name = ''shop.local'', dq_type = 28, dq_class = 1, dq_unicast = False\<rparr>]))"
  using query_round_trip [of 7 "[(''shop.local'', Type_number 28)]" ascii old_memory] shop_name
  by (simp add: u16_def type_to_number_def)

lemma stamped_answer_witness:
  "\<exists>buf. Option.bind (build_a_record_response old_memory (\<lambda>_. 10) ''shop.local'' ''10.10.10.10'' 120) (\<lambda>b. stamp_transaction_id b 7) = Some buf
     \<and> decode_name ascii buf 12 = Some (''shop.local'', 12)"
proof -
  have "u16 7" "u32 120" by (simp_all add: u16_def u32_def)
  moreover have "length (name_bytes ''shop.local'') = 12" by code_simp
  ultimately show ?thesis using stamped_answer [OF shop_name, of 7 120 old_memory "\<lambda>_. 10" "''10.10.10.10''"] by auto
qed

lemma hostile_query_bounds_witness:
  "\<exists>i qs. decode_query ascii (header_bytes 7 0 1 0 0 0 @ question_bytes [(''shop.local'', Type_number 28)]) = Some (Some (i, qs))
     \<and> i < 2 ^ 16 \<and> length qs \<le> 1"
proof -
  let ?qs = "[(''shop.local'', Type_number 28)]"
  have "decode_query ascii (header_bytes 7 0 (int (length ?qs)) 0 0 0 @ question_bytes ?qs) = Some (Some (nat 7,
    map (\<lambda>q. \<lparr>dq_name = fst q, dq_type = nat (type_to_number (snd q)), dq_class = 1, dq_unicast = False\<rparr>) ?qs))"
    by (rule decode_query_bytes) (simp_all add: u16_def type_to_number_def shop_name)
  then have d: "decode_query ascii (header_bytes 7 0 1 0 0 0 @ question_bytes ?qs) = Some (Some (7,
    [\<lparr>dq_name = ''shop.local'', dq_type = 28, dq_class = 1, dq_unicast = False\<rparr>]))" by (simp add: type_to_number_def)
  from hostile_query_bounds [OF d] d show ?thesis by auto
qed

lemma loop_packet_facts: "13 < length loop_packet" "loop_packet ! 12 = 0xC0" "loop_packet ! 13 = 0x0C"
  "read16 loop_packet 2 AND response_flag = 0" "0 < read16 loop_packet 4"
  by (simp_all add: loop_packet_def read16_def)

lemma self_pointer_query_throws_witness: "decode_query dec loop_packet = None"
  by (rule self_pointer_query_throws) (rule loop_packet_facts)+

end
