(* ===== verification/MdnsProperties.thy ===== *)
theory MdnsProperties
  imports Mdns DnsProperties
begin

text \<open>
  What the responder promises across messages: a registered host stays answerable until it is registered
  again or removed, and how many malformed packets the exception guard lets the process survive.
\<close>

section \<open>Names\<close>

lemma lower_char_idem [simp]: "lower_char (lower_char c) = lower_char c"
proof -
  let ?n = "of_char c :: nat"
  have n: "?n < 256" by (rule nat_of_char_less_256)
  show ?thesis
  proof (cases "(65 \<le> ?n \<and> ?n \<le> 90) \<or> (192 \<le> ?n \<and> ?n \<le> 222 \<and> ?n \<noteq> 215)")
    case True
    then have "of_char (char_of (?n + 32) :: char) = ?n + 32" using n by auto
    with True show ?thesis by (auto simp: lower_char_def Let_def)
  next
    case False
    then have "lower_char c = c" by (auto simp: lower_char_def Let_def)
    then show ?thesis by simp
  qed
qed

lemma to_lower_idem [simp]: "to_lower (to_lower s) = to_lower s"
  by (simp add: to_lower_def)

lemma normalize_host [simp]: "normalize_hostname (host_of name) = host_of name"
proof -
  have "to_lower ''.local'' = ''.local''" by code_simp
  then have "to_lower (host_of name) = host_of name" by (simp add: host_of_def to_lower_def)
  then show ?thesis by (simp add: normalize_hostname_def host_of_def)
qed

section \<open>Prepared answers\<close>

definition answer_tail :: "(string \<Rightarrow> int) \<Rightarrow> string \<Rightarrow> string \<Rightarrow> bytes" where
  "answer_tail num host ip = be16 0x8400 @ be16 0 @ be16 1 @ be16 0 @ be16 1 @ name_bytes host
     @ record_bytes type_a class_flush 120 4 @ octet_bytes num ip @ be16 0xC00C
     @ record_bytes type_nsec class_flush 120 5 @ be16 0xC00C @ [0, 1, 0x40]"

definition prepared :: "string \<Rightarrow> bytes \<Rightarrow> responder \<Rightarrow> bool" where
  "prepared host body st \<longleftrightarrow> (\<exists>i. jm_get (r_answers st) host = Some (be16 i @ body))"

lemma stamp_tail: "u16 i \<Longrightarrow> stamp_transaction_id (be16 j @ body) i = Some (be16 i @ body)"
proof -
  assume i: "u16 i"
  have "write16 0 i (written [] (be16 j @ body)) = Some (written ([] @ be16 i) (drop 2 (be16 j @ body)))"
    by (rule write16_fits [OF i]) simp_all
  then show ?thesis by (simp add: stamp_transaction_id_def written_def)
qed

lemma read16_u16: "u16 (int (read16 buf off))"
proof -
  have "unat (buf ! off) < 256" "unat (buf ! (off + 1)) < 256"
    using unsigned_less [of "buf ! off"] unsigned_less [of "buf ! (off + 1)"] by simp_all
  then have "read16 buf off < 65536" by (simp add: read16_def)
  then show ?thesis by (simp add: u16_def)
qed

lemma send_cached_get:
  "jm_get (fst (send_cached cache name i target)) h = (if h = name then
     (case jm_get cache name of None \<Rightarrow> None
      | Some buf \<Rightarrow> (case stamp_transaction_id buf (int i) of None \<Rightarrow> Some buf | Some s \<Rightarrow> Some s)) else jm_get cache h)"
  by (auto simp: send_cached_def split: option.splits)

lemma answer_keeps_prepared:
  "u16 (int i) \<Longrightarrow> prepared h body (fst st) \<Longrightarrow> prepared h body (fst (answer_question me from i q st))"
  by (auto simp: answer_question_def Let_def split_beta prepared_def send_cached_get stamp_tail)

lemma message_keeps_prepared:
  assumes "on_message dec me from message st = Some (st', out)" "prepared h body st"
  shows "prepared h body st'"
proof (cases "decode_query dec message")
  case (Some r)
  show ?thesis
  proof (cases r)
    case None
    with Some assms show ?thesis by (simp add: on_message_def)
  next
    case (Some p)
    obtain i qs where p: "p = (i, qs)" by (cases p)
    have "u16 (int i)"
      using \<open>decode_query dec message = Some r\<close> Some p read16_u16 by (auto simp: decode_query_def split: if_splits)
    then have "prepared h body (fst s) \<Longrightarrow> prepared h body (fst (fold (answer_question me from i) qs s))" for s
      by (induction qs arbitrary: s) (simp_all add: answer_keeps_prepared)
    from this [of "(st, [])"] assms \<open>decode_query dec message = Some r\<close> Some p show ?thesis by (simp add: on_message_def)
  qed
qed (use assms in \<open>simp add: on_message_def\<close>)

lemma register_prepares: "prepared (host_of name) (answer_tail num (host_of name) ip) (fst (register_response mem num (host_of name) ip 120 st))"
proof -
  have "u32 120" by (simp add: u32_def)
  then have "build_a_record_response mem num (host_of name) ip 120 = Some (be16 0 @ answer_tail num (host_of name) ip)"
    by (simp add: a_record_bytes header_bytes_def answer_tail_def)
  then show ?thesis by (auto simp: register_response_def Let_def prepared_def split: option.splits)
qed

lemma register_other: "host \<noteq> h \<Longrightarrow> normalize_hostname host = host \<Longrightarrow>
    prepared h body st \<Longrightarrow> prepared h body (fst (register_response mem num host ip ttl st))"
  by (auto simp: register_response_def Let_def prepared_def split: option.splits)

fun concerns :: "string \<Rightarrow> process_event \<Rightarrow> bool" where
  "concerns host (Packet_at now from message) = False"
| "concerns host (Register_host ip name) = (host_of name = host)"
| "concerns host (Unregister_host name) = (host_of name = host)"

fun running_prepared :: "string \<Rightarrow> bytes \<Rightarrow> process \<Rightarrow> bool" where
  "running_prepared h body Exited = True"
| "running_prepared h body (Running g recent) = prepared h body (g_responder g)"

lemma process_keeps_prepared:
  "running_prepared h body p \<Longrightarrow> \<not> concerns h e \<Longrightarrow> running_prepared h body (process_step mem num dec me e p)"
proof (induction mem num dec me e p rule: process_step.induct)
  case (2 mem num dec me now src message g recent)
  then show ?case by (auto simp: Let_def split_beta split: option.splits intro: message_keeps_prepared)
next
  case (3 mem num dec me ip name g recent)
  then show ?case by (auto simp: register_host_def Let_def split_beta intro: register_other)
next
  case (4 mem num dec me name g recent)
  then show ?case by (auto simp: unregister_host_def unregister_response_def Let_def prepared_def)
qed simp

interpretation answerable: guarded_machine "process_step mem num dec me" "running_prepared h body" "\<lambda>e _. \<not> concerns h e"
  for mem num dec me h body
  by unfold_locales (rule process_keeps_prepared)


section \<open>Bursts of malformed packets\<close>

definition burst :: "int list \<Rightarrow> bool" where
  "burst ts \<longleftrightarrow> (\<exists>k < length ts. max_exceptions < length (filter (\<lambda>t. ts ! k - t < window_ms) (take (Suc k) ts)))"

definition recent_of :: "int list \<Rightarrow> int list" where
  "recent_of ts = (if ts = [] then [] else filter (\<lambda>t. last ts - t < window_ms) ts)"

lemma burst_snoc: "burst (ts @ [t]) \<longleftrightarrow> burst ts \<or> max_exceptions < length (recent_of (ts @ [t]))"
proof -
  have "(\<exists>k < Suc (length ts). max_exceptions < length (filter (\<lambda>s. (ts @ [t]) ! k - s < window_ms) (take (Suc k) (ts @ [t]))))
      \<longleftrightarrow> burst ts \<or> max_exceptions < length (filter (\<lambda>s. (ts @ [t]) ! length ts - s < window_ms) (take (Suc (length ts)) (ts @ [t])))"
    unfolding burst_def Ex_less_Suc by (simp add: nth_append cong: conj_cong) blast
  then show ?thesis by (auto simp: burst_def recent_of_def)
qed

lemma crash_guard_recent:
  assumes "sorted (ts @ [t])"
  shows "crash_guard t (recent_of ts) = (recent_of (ts @ [t]), max_exceptions < length (recent_of (ts @ [t])))"
proof -
  have "filter (\<lambda>s. t - s < window_ms) (recent_of ts) = filter (\<lambda>s. t - s < window_ms) ts"
  proof (cases "ts = []")
    case False
    then have "last ts \<le> t" using assms by (auto simp: sorted_append)
    then show ?thesis using False by (auto simp: recent_of_def intro!: filter_cong)
  qed (simp add: recent_of_def)
  then have "filter (\<lambda>s. t - s < window_ms) (recent_of ts) @ [t] = recent_of (ts @ [t])"
    by (simp add: recent_of_def window_ms_def)
  then show ?thesis by (simp add: crash_guard_def Let_def)
qed

text \<open>The server process survives packets that make the decoder throw until more than 25 of them fall
  within one minute, and then it exits: this is exactly when a burst from the local network takes the
  ingress down.\<close>

lemma throwing_packets_exit_iff_burst:
  assumes "decode_query dec message = None" "sorted ts"
  shows "fold (process_step mem num dec me) (map (\<lambda>t. Packet_at t from message) ts) (Running g []) = Exited \<longleftrightarrow> burst ts"
proof -
  have "fold (process_step mem num dec me) (map (\<lambda>t. Packet_at t from message) ts) (Running g [])
      = (if burst ts then Exited else Running g (recent_of ts))"
    using assms(2)
  proof (induction ts rule: rev_induct)
    case (snoc t ts)
    then have ih: "fold (process_step mem num dec me) (map (\<lambda>t. Packet_at t from message) ts) (Running g [])
      = (if burst ts then Exited else Running g (recent_of ts))" by (simp add: sorted_append)
    show ?case
      using ih by (simp add: on_message_def assms(1) crash_guard_recent [OF snoc.prems] burst_snoc)
  qed (simp add: burst_def recent_of_def)
  then show ?thesis by simp
qed

section \<open>Concrete runs\<close>

definition mdns_group :: peer where
  "mdns_group = \<lparr>pr_port = 5353, pr_address = ''224.0.0.251''\<rparr>"

definition quiet :: registry where
  "quiet = \<lparr>g_hosts = [], g_responder = \<lparr>r_answers = [], r_denials = []\<rparr>\<rparr>"


lemma throwing_packets_exit_iff_burst_witness:
  "fold (process_step old_memory (\<lambda>_. 0) ascii mdns_group) (map (\<lambda>t. Packet_at t mdns_group loop_packet) (map int [0..<26])) (Running quiet []) = Exited"
proof -
  have "decode_query ascii loop_packet = None"
    using self_pointer_loops [of loop_packet 0 ascii 12 False 0 "[]"] loop_packet_facts
    by (simp add: decode_query_def decode_name_def loop_packet_def read16_def response_flag_def)
  moreover have "sorted (map int [0..<26])" by code_simp
  ultimately have "fold (process_step old_memory (\<lambda>_. 0) ascii mdns_group) (map (\<lambda>t. Packet_at t mdns_group loop_packet) (map int [0..<26]))
      (Running quiet []) = Exited \<longleftrightarrow> burst (map int [0..<26])"
    by (rule throwing_packets_exit_iff_burst)
  moreover have "burst (map int [0..<26])"
    unfolding burst_def by (rule exI [of _ 25]) code_simp
  ultimately show ?thesis by blast
qed

end
