(* ===== verification/Admission.thy ===== *)
theory Admission
  imports Prelude "HOL-Library.Sublist"
begin

text \<open>
  \<open>deploy-admission.ts\<close>: the queue that bounds concurrent builds and runs at most one per application.
  A promise is identified by its ticket, the lease it resolves to by its place in \<open>ad_leases\<close>;
  \<open>ad_notified\<close> is what the last round of \<open>onPosition\<close> callbacks reported.
\<close>

section \<open>State\<close>

record waiter =
  wt_ticket :: nat
  wt_name :: string
  wt_user :: string

record deploy_lease =
  dl_ticket :: nat
  dl_name :: string
  dl_released :: bool

record admission =
  ad_active :: "(string, string) jmap"
  ad_queue :: "waiter list"
  ad_leases :: "deploy_lease list"
  ad_rejected :: "nat list"
  ad_notified :: "(nat \<times> nat) list"
  ad_next :: nat

definition no_deploys :: admission where
  "no_deploys = \<lparr>ad_active = [], ad_queue = [], ad_leases = [], ad_rejected = [], ad_notified = [], ad_next = 0\<rparr>"

text \<open>The limit: the configured number when it is positive, else half the processors but at least one.\<close>

definition max_concurrent :: "int option \<Rightarrow> nat \<Rightarrow> nat" where
  "max_concurrent configured cpus =
     (case configured of Some n \<Rightarrow> if 0 < n then nat n else max 1 (cpus div 2) | None \<Rightarrow> max 1 (cpus div 2))"

section \<open>Operations\<close>

text \<open>\<open>findIndex\<close> and \<open>splice\<close>: the first element that satisfies the test, and the others.\<close>

fun pop_first :: "('a \<Rightarrow> bool) \<Rightarrow> 'a list \<Rightarrow> ('a \<times> 'a list) option" where
  "pop_first P [] = None"
| "pop_first P (x # xs) = (if P x then Some (x, xs) else map_option (\<lambda>(y, ys). (y, x # ys)) (pop_first P xs))"

lemma pop_first_length: "pop_first P xs = Some (y, ys) \<Longrightarrow> length xs = Suc (length ys)"
  by (induction xs arbitrary: ys) (auto split: if_splits)

definition admit :: "waiter \<Rightarrow> waiter list \<Rightarrow> admission \<Rightarrow> admission" where
  "admit w rest st = st\<lparr>ad_queue := rest, ad_active := jm_set (ad_active st) (wt_name w) (wt_user w),
     ad_leases := ad_leases st @ [\<lparr>dl_ticket = wt_ticket w, dl_name = wt_name w, dl_released = False\<rparr>]\<rparr>"

function dispatch_loop :: "nat \<Rightarrow> admission \<Rightarrow> admission" where
  "dispatch_loop limit st =
     (if length (ad_active st) < limit then
        (case pop_first (\<lambda>w. \<not> jm_has (ad_active st) (wt_name w)) (ad_queue st) of
           None \<Rightarrow> st
         | Some (w, rest) \<Rightarrow> dispatch_loop limit (admit w rest st))
      else st)"
  by pat_completeness auto
termination
  by (relation "measure (\<lambda>(limit, st). length (ad_queue st))") (auto simp: admit_def dest: pop_first_length)

declare dispatch_loop.simps [simp del]

definition dispatch :: "nat \<Rightarrow> admission \<Rightarrow> admission" where
  "dispatch limit st =
     (let st = dispatch_loop limit st; q = ad_queue st in
      st\<lparr>ad_notified := map (\<lambda>i. (wt_ticket (q ! i), i + 1)) [0..<length q]\<rparr>)"

definition acquire_slot :: "nat \<Rightarrow> string \<Rightarrow> string \<Rightarrow> admission \<Rightarrow> admission" where
  "acquire_slot limit name user st =
     dispatch limit (st\<lparr>ad_queue := ad_queue st @ [\<lparr>wt_ticket = ad_next st, wt_name = name, wt_user = user\<rparr>],
       ad_next := ad_next st + 1\<rparr>)"

definition release_slot :: "nat \<Rightarrow> nat \<Rightarrow> admission \<Rightarrow> admission" where
  "release_slot limit l st =
     (if l < length (ad_leases st) \<and> \<not> dl_released (ad_leases st ! l) then
        dispatch limit (st\<lparr>ad_leases := (ad_leases st)[l := (ad_leases st ! l)\<lparr>dl_released := True\<rparr>],
          ad_active := jm_delete (ad_active st) (dl_name (ad_leases st ! l))\<rparr>)
      else st)"

definition cancel_queued :: "nat \<Rightarrow> string \<Rightarrow> string \<Rightarrow> admission \<Rightarrow> admission \<times> bool" where
  "cancel_queued limit name user st =
     (case pop_first (\<lambda>w. wt_name w = name \<and> wt_user w = user) (ad_queue st) of
        None \<Rightarrow> (st, False)
      | Some (w, rest) \<Rightarrow> (dispatch limit (st\<lparr>ad_queue := rest, ad_rejected := ad_rejected st @ [wt_ticket w]\<rparr>), True))"

record admission_report =
  ar_active :: nat
  ar_queued :: nat
  ar_limit :: nat
  ar_deployments :: "string list"
  ar_positions :: "(string \<times> nat) list"

text \<open>\<open>getDeployAdmissionState\<close>: an absent or empty user sees everything.\<close>

definition admission_state :: "nat \<Rightarrow> string option \<Rightarrow> admission \<Rightarrow> admission_report" where
  "admission_state limit user st =
     (let sees = (\<lambda>owner. user = None \<or> user = Some [] \<or> user = Some owner);
          active = filter (\<lambda>kv. sees (snd kv)) (ad_active st);
          queued = filter (\<lambda>i. sees (wt_user (ad_queue st ! i))) [0..<length (ad_queue st)] in
      \<lparr>ar_active = length active, ar_queued = length queued, ar_limit = limit, ar_deployments = map fst active,
       ar_positions = map (\<lambda>i. (wt_name (ad_queue st ! i), i + 1)) queued\<rparr>)"

section \<open>Histories\<close>

datatype admission_event = Acquire string string | Release_slot nat | Cancel string string

fun admission_step :: "nat \<Rightarrow> admission_event \<Rightarrow> admission \<Rightarrow> admission" where
  "admission_step limit (Acquire name user) st = acquire_slot limit name user st"
| "admission_step limit (Release_slot l) st = release_slot limit l st"
| "admission_step limit (Cancel name user) st = fst (cancel_queued limit name user st)"

end
