(* ===== verification/AdmissionProperties.thy ===== *)
theory AdmissionProperties
  imports Admission
begin

text \<open>
  The admission queue keeps its bounds over every history, never leaves a slot idle that a waiter could
  take, and lets no build overtake another unless the overtaken application is already building.
\<close>

section \<open>The dispatch loop\<close>

lemma pop_first_None: "pop_first P xs = None \<longleftrightarrow> (\<forall>x \<in> set xs. \<not> P x)"
  by (induction xs) auto

lemma pop_first_Some:
  "pop_first P xs = Some (y, ys) \<Longrightarrow> \<exists>pre post. xs = pre @ y # post \<and> ys = pre @ post \<and> P y \<and> (\<forall>x \<in> set pre. \<not> P x)"
proof (induction xs arbitrary: ys)
  case (Cons x xs)
  show ?case
  proof (cases "P x")
    case True
    with Cons.prems show ?thesis by (intro exI [of _ "[]"] exI [of _ xs]) auto
  next
    case False
    then obtain zs where "pop_first P xs = Some (y, zs)" "ys = x # zs" using Cons.prems by auto
    with Cons.IH obtain pre post where "xs = pre @ y # post \<and> zs = pre @ post \<and> P y \<and> (\<forall>x \<in> set pre. \<not> P x)" by blast
    with False \<open>ys = x # zs\<close> show ?thesis by (intro exI [of _ "x # pre"] exI [of _ post]) simp
  qed
qed simp

definition eligible :: "admission \<Rightarrow> waiter \<Rightarrow> bool" where
  "eligible st w \<longleftrightarrow> wt_name w \<notin> set (jm_keys (ad_active st))"

lemma dispatch_cases:
  obtains (stop) "dispatch_loop limit st = st"
      "limit \<le> length (ad_active st) \<or> (\<forall>w \<in> set (ad_queue st). \<not> eligible st w)"
  | (admit) w pre post where "length (ad_active st) < limit" "ad_queue st = pre @ w # post" "eligible st w"
      "\<forall>x \<in> set pre. \<not> eligible st x" "dispatch_loop limit st = dispatch_loop limit (admit w (pre @ post) st)"
proof (cases "length (ad_active st) < limit")
  case True
  show thesis
  proof (cases "pop_first (\<lambda>w. \<not> jm_has (ad_active st) (wt_name w)) (ad_queue st)")
    case None
    have "dispatch_loop limit st = st" by (subst dispatch_loop.simps) (simp add: None del: jm_has_iff)
    moreover have "\<forall>w \<in> set (ad_queue st). \<not> eligible st w" using None by (simp add: pop_first_None eligible_def)
    ultimately show thesis by (blast intro: stop)
  next
    case (Some p)
    obtain w rest where p: "p = (w, rest)" by (cases p)
    obtain pre post where pp: "ad_queue st = pre @ w # post" "rest = pre @ post" "eligible st w" "\<forall>x \<in> set pre. \<not> eligible st x"
      using pop_first_Some [OF Some [unfolded p]] unfolding eligible_def jm_has_iff by blast
    have "dispatch_loop limit st = dispatch_loop limit (admit w rest st)"
      by (subst dispatch_loop.simps) (simp add: True Some p del: jm_has_iff)
    with pp True show thesis by (intro admit) auto
  qed
next
  case False
  then have "dispatch_loop limit st = st" by (subst dispatch_loop.simps) simp
  then show thesis using False by (intro stop) auto
qed

lemma dispatch_induct [case_names stop admit]:
  assumes stop: "\<And>st. dispatch_loop limit st = st \<Longrightarrow>
      limit \<le> length (ad_active st) \<or> (\<forall>w \<in> set (ad_queue st). \<not> eligible st w) \<Longrightarrow> P st"
    and admit: "\<And>st w pre post. length (ad_active st) < limit \<Longrightarrow> ad_queue st = pre @ w # post \<Longrightarrow> eligible st w \<Longrightarrow>
      \<forall>x \<in> set pre. \<not> eligible st x \<Longrightarrow> dispatch_loop limit st = dispatch_loop limit (admit w (pre @ post) st) \<Longrightarrow>
      P (admit w (pre @ post) st) \<Longrightarrow> P st"
  shows "P st"
proof (induction "length (ad_queue st)" arbitrary: st rule: less_induct)
  case less
  show ?case
  proof (cases rule: dispatch_cases [of limit st])
    case (admit w pre post)
    moreover have "length (ad_queue (admit w (pre @ post) st)) < length (ad_queue st)"
      by (simp add: admit(2) admit_def)
    ultimately show ?thesis using less assms(2) by blast
  qed (rule stop)
qed

section \<open>The invariant\<close>

definition open_names :: "admission \<Rightarrow> string list" where
  "open_names st = map dl_name (filter (\<lambda>l. \<not> dl_released l) (ad_leases st))"

text \<open>The active applications are those of the open leases, one each; tickets are handed out in order.\<close>

definition slots_ok :: "nat \<Rightarrow> admission \<Rightarrow> bool" where
  "slots_ok limit st \<longleftrightarrow> distinct (jm_keys (ad_active st)) \<and> distinct (open_names st) \<and>
     set (open_names st) = set (jm_keys (ad_active st)) \<and> length (ad_active st) \<le> limit \<and>
     sorted_wrt (<) (map wt_ticket (ad_queue st)) \<and> (\<forall>w \<in> set (ad_queue st). wt_ticket w < ad_next st) \<and>
     (\<forall>l \<in> set (ad_leases st). dl_ticket l < ad_next st \<and> dl_ticket l \<notin> wt_ticket ` set (ad_queue st))"

definition no_idle_slot :: "nat \<Rightarrow> admission \<Rightarrow> bool" where
  "no_idle_slot limit st \<longleftrightarrow> limit \<le> length (ad_active st) \<or> (\<forall>w \<in> set (ad_queue st). \<not> eligible st w)"

definition admission_ok :: "nat \<Rightarrow> admission \<Rightarrow> bool" where
  "admission_ok limit st \<longleftrightarrow> slots_ok limit st \<and> no_idle_slot limit st"

lemma length_jm_set_new: "k \<notin> set (jm_keys m) \<Longrightarrow> length (jm_set m k v) = Suc (length m)"
proof -
  assume "k \<notin> set (jm_keys m)"
  then have "length (jm_keys (jm_set m k v)) = Suc (length (jm_keys m))" by (simp add: jm_keys_set)
  then show ?thesis by simp
qed

lemma admit_ok:
  assumes "slots_ok limit st" "length (ad_active st) < limit" "ad_queue st = pre @ w # post" "eligible st w"
  shows "slots_ok limit (admit w (pre @ post) st)"
proof -
  have q: "sorted_wrt (<) (map wt_ticket (pre @ post))" "\<forall>w \<in> set (pre @ post). wt_ticket w < ad_next st"
    "wt_ticket w < ad_next st" "wt_ticket w \<notin> wt_ticket ` set (pre @ post)"
    using assms(1,3) by (auto simp: slots_ok_def sorted_wrt_append)
  have l: "\<forall>l \<in> set (ad_leases st). dl_ticket l < ad_next st \<and> dl_ticket l \<notin> wt_ticket ` set (pre @ post)"
    using assms(1,3) by (auto simp: slots_ok_def)
  have n: "distinct (jm_keys (ad_active st))" "distinct (open_names st)" "set (open_names st) = set (jm_keys (ad_active st))"
    "wt_name w \<notin> set (jm_keys (ad_active st))"
    using assms(1,4) by (simp_all add: slots_ok_def eligible_def)
  have o: "open_names (admit w (pre @ post) st) = open_names st @ [wt_name w]" by (simp add: open_names_def admit_def)
  have "length (ad_active (admit w (pre @ post) st)) \<le> limit"
    using assms(2) n(4) by (simp add: admit_def length_jm_set_new)
  moreover have "jm_keys (ad_active (admit w (pre @ post) st)) = jm_keys (ad_active st) @ [wt_name w]"
    using n(4) by (simp add: admit_def jm_keys_set)
  moreover have "ad_queue (admit w (pre @ post) st) = pre @ post" "ad_next (admit w (pre @ post) st) = ad_next st"
    "ad_leases (admit w (pre @ post) st) = ad_leases st @ [\<lparr>dl_ticket = wt_ticket w, dl_name = wt_name w, dl_released = False\<rparr>]"
    by (simp_all add: admit_def)
  ultimately show ?thesis unfolding slots_ok_def o using n q l by auto
qed

lemma dispatch_ok: "slots_ok limit st \<Longrightarrow> admission_ok limit (dispatch_loop limit st)"
proof (induction st rule: dispatch_induct [where limit = limit])
  case (stop st)
  then show ?case by (simp add: admission_ok_def no_idle_slot_def)
next
  case (admit st w pre post)
  then show ?case by (simp add: admit_ok)
qed

lemma dispatch_keeps: "admission_ok limit (dispatch limit st) = admission_ok limit (dispatch_loop limit st)"
  by (simp add: dispatch_def Let_def admission_ok_def slots_ok_def no_idle_slot_def open_names_def eligible_def)

lemma length_jm_delete: "length (jm_delete m k) \<le> length m"
  by (simp add: jm_delete_def)

lemma released_names:
  assumes "l < length ls" "\<not> dl_released (ls ! l)" "distinct (map dl_name (filter (\<lambda>x. \<not> dl_released x) ls))"
  shows "distinct (map dl_name (filter (\<lambda>x. \<not> dl_released x) (ls[l := (ls ! l)\<lparr>dl_released := True\<rparr>])))"
    "set (map dl_name (filter (\<lambda>x. \<not> dl_released x) (ls[l := (ls ! l)\<lparr>dl_released := True\<rparr>])))
      = set (map dl_name (filter (\<lambda>x. \<not> dl_released x) ls)) - {dl_name (ls ! l)}"
proof -
  have ls: "ls = take l ls @ ls ! l # drop (Suc l) ls" using assms(1) by (simp add: id_take_nth_drop)
  have up: "ls[l := x] = take l ls @ x # drop (Suc l) ls" for x using assms(1) by (simp add: upd_conv_take_nth_drop)
  let ?f = "\<lambda>xs. map dl_name (filter (\<lambda>x. \<not> dl_released x) xs)"
  have a: "?f ls = ?f (take l ls) @ dl_name (ls ! l) # ?f (drop (Suc l) ls)" using assms(2) by (subst ls) simp
  have b: "?f (ls[l := (ls ! l)\<lparr>dl_released := True\<rparr>]) = ?f (take l ls) @ ?f (drop (Suc l) ls)" by (simp add: up)
  show "distinct (?f (ls[l := (ls ! l)\<lparr>dl_released := True\<rparr>]))"
    "set (?f (ls[l := (ls ! l)\<lparr>dl_released := True\<rparr>])) = set (?f ls) - {dl_name (ls ! l)}"
    using assms(3) unfolding a b by auto
qed

lemma admission_step_ok: "admission_ok limit st \<Longrightarrow> admission_ok limit (admission_step limit e st)"
proof (cases e)
  case (Acquire name user)
  assume ok: "admission_ok limit st"
  have "slots_ok limit (st\<lparr>ad_queue := ad_queue st @ [\<lparr>wt_ticket = ad_next st, wt_name = name, wt_user = user\<rparr>], ad_next := ad_next st + 1\<rparr>)"
    using ok by (force simp: admission_ok_def slots_ok_def open_names_def sorted_wrt_append)
  then show ?thesis by (simp add: Acquire acquire_slot_def dispatch_keeps dispatch_ok)
next
  case (Release_slot l)
  assume ok: "admission_ok limit st"
  show ?thesis
  proof (cases "l < length (ad_leases st) \<and> \<not> dl_released (ad_leases st ! l)")
    case True
    have d: "distinct (map dl_name (filter (\<lambda>x. \<not> dl_released x) (ad_leases st)))"
      using ok by (simp add: admission_ok_def slots_ok_def open_names_def)
    note r = released_names [OF conjunct1 [OF True] conjunct2 [OF True] d]
    have m: "ad_leases st ! l \<in> set (ad_leases st)" using True by simp
    have "slots_ok limit (st\<lparr>ad_leases := (ad_leases st)[l := (ad_leases st ! l)\<lparr>dl_released := True\<rparr>],
        ad_active := jm_delete (ad_active st) (dl_name (ad_leases st ! l))\<rparr>)"
      using ok r m le_trans [OF length_jm_delete, of "ad_active st" limit]
      unfolding admission_ok_def slots_ok_def open_names_def
      by (auto simp: jm_keys_delete dest!: set_update_subset_insert [THEN subsetD])
    then show ?thesis using True by (simp add: Release_slot release_slot_def dispatch_keeps dispatch_ok)
  qed (use ok Release_slot in \<open>auto simp: release_slot_def\<close>)
next
  case (Cancel name user)
  assume ok: "admission_ok limit st"
  show ?thesis
  proof (cases "pop_first (\<lambda>w. wt_name w = name \<and> wt_user w = user) (ad_queue st)")
    case (Some p)
    obtain w rest where p: "p = (w, rest)" by (cases p)
    obtain pre post where "ad_queue st = pre @ w # post" "rest = pre @ post"
      using pop_first_Some [OF Some [unfolded p]] by blast
    then have "slots_ok limit (st\<lparr>ad_queue := rest, ad_rejected := ad_rejected st @ [wt_ticket w]\<rparr>)"
      using ok by (auto simp: admission_ok_def slots_ok_def open_names_def sorted_wrt_append)
    then show ?thesis by (simp add: Cancel cancel_queued_def Some p dispatch_keeps dispatch_ok)
  qed (use ok Cancel in \<open>simp add: cancel_queued_def\<close>)
qed

interpretation admission_machine: event_machine "admission_step limit" "admission_ok limit" for limit
  by unfold_locales (rule admission_step_ok)

lemma no_deploys_ok: "admission_ok limit no_deploys"
  by (simp add: admission_ok_def slots_ok_def no_idle_slot_def no_deploys_def open_names_def)

lemmas reachable_admission_ok = admission_machine.inv_fold [OF no_deploys_ok]

text \<open>C8. After any history of requests, releases and cancellations at most the limit of builds hold a lease
  and no application holds two, the queue is in the order of its tickets, and no slot is idle while a
  queued build could take it: the limit is used up or every queued application is already building.\<close>

theorem admission_is_bounded_and_busy:
  assumes "st = fold (admission_step limit) es no_deploys"
  shows "distinct (open_names st) \<and> length (open_names st) \<le> limit \<and> length (open_names st) = length (ad_active st)
    \<and> sorted_wrt (<) (map wt_ticket (ad_queue st))
    \<and> (length (open_names st) = limit \<or> (\<forall>w \<in> set (ad_queue st). wt_name w \<in> set (open_names st)))"
proof -
  have ok: "slots_ok limit st" "no_idle_slot limit st"
    using reachable_admission_ok [of limit es] by (simp_all add: assms admission_ok_def)
  have "length (open_names st) = length (ad_active st)"
    using ok(1) unfolding slots_ok_def by (metis distinct_card length_map)
  then show ?thesis using ok by (auto simp: slots_ok_def no_idle_slot_def eligible_def)
qed

section \<open>No overtaking\<close>

definition admitted :: "admission \<Rightarrow> nat set" where
  "admitted st = dl_ticket ` set (ad_leases st)"

lemma admit_fields [simp]: "ad_queue (admit w rest st) = rest"
  "ad_leases (admit w rest st) = ad_leases st @ [\<lparr>dl_ticket = wt_ticket w, dl_name = wt_name w, dl_released = False\<rparr>]"
  "jm_keys (ad_active (admit w rest st)) = (if wt_name w \<in> set (jm_keys (ad_active st)) then jm_keys (ad_active st)
     else jm_keys (ad_active st) @ [wt_name w])"
  by (simp_all add: admit_def jm_keys_set)

lemma dispatch_active: "set (jm_keys (ad_active st)) \<subseteq> set (jm_keys (ad_active (dispatch_loop limit st)))"
proof (induction st rule: dispatch_induct [where limit = limit])
  case (admit st w pre post)
  then show ?case by (auto split: if_splits)
qed simp

lemma remove_between:
  assumes "distinct (pre @ w # mid @ v # post)" "pre @ w # mid @ v # post = front @ x # rear" "x \<noteq> w" "x \<noteq> v"
  shows "\<exists>pre' mid' post'. front @ rear = pre' @ w # mid' @ v # post'"
proof -
  have r: "front @ rear = remove1 x (pre @ w # mid @ v # post)" using assms(1,2) by (auto simp: remove1_append)
  consider "x \<in> set pre" | "x \<notin> set pre" "x \<in> set mid" | "x \<notin> set pre" "x \<notin> set mid" by blast
  then show ?thesis unfolding r using assms(3,4) by cases (auto simp: remove1_append)
qed

lemma distinct_tickets: "sorted_wrt (<) (map wt_ticket q) \<Longrightarrow> distinct (map wt_ticket q) \<and> distinct q"
  by (metis distinct_map strict_sorted_iff)

lemma dispatch_no_overtaking:
  assumes "ad_queue st = pre @ w # mid @ v # post" "sorted_wrt (<) (map wt_ticket (ad_queue st))"
    "w \<in> set (ad_queue (dispatch_loop limit st))"
    "wt_ticket v \<in> admitted (dispatch_loop limit st)" "wt_ticket v \<notin> admitted st"
  shows "\<not> eligible (dispatch_loop limit st) w"
  using assms
proof (induction st arbitrary: pre mid post rule: dispatch_induct [where limit = limit])
  case (stop st)
  then show ?case by simp
next
  case (admit st x front rear)
  let ?st = "admit x (front @ rear) st"
  have sorted: "sorted_wrt (<) (map wt_ticket (ad_queue ?st))"
    using admit.hyps(2) admit.prems(2) by (auto simp: sorted_wrt_append)
  consider (w) "x = w" | (v) "x = v" | (other) "x \<noteq> w" "x \<noteq> v" by blast
  then show ?case
  proof cases
    case w
    have "wt_name w \<in> set (jm_keys (ad_active ?st))" using w by simp
    then show ?thesis using dispatch_active [of ?st limit] unfolding admit.hyps(5) eligible_def by blast
  next
    case v
    have "w \<in> set front"
    proof -
      have t: "wt_ticket w < wt_ticket v" using admit.prems(1,2) by (auto simp: sorted_wrt_append)
      have "w \<in> set front \<or> w \<in> set rear \<or> w = x" using admit.hyps(2) admit.prems(1) by (metis in_set_conv_decomp UnE set_append set_ConsD)
      moreover have "w \<notin> set rear" using admit.hyps(2) admit.prems(2) v t by (auto simp: sorted_wrt_append)
      ultimately show ?thesis using v t by auto
    qed
    then have "wt_name w \<in> set (jm_keys (ad_active st))" using admit.hyps(4) by (simp add: eligible_def)
    then show ?thesis using dispatch_active [of st limit] by (auto simp: eligible_def)
  next
    case other
    have d: "distinct (pre @ w # mid @ v # post)"
      using distinct_tickets [OF admit.prems(2)] unfolding admit.prems(1) by simp
    have q: "pre @ w # mid @ v # post = front @ x # rear" using admit.hyps(2) admit.prems(1) by simp
    from remove_between [OF d q other]
    obtain pre' mid' post' where "ad_queue ?st = pre' @ w # mid' @ v # post'" by auto
    moreover have "wt_ticket v \<notin> admitted ?st"
    proof -
      have "wt_ticket x \<noteq> wt_ticket v"
      proof
        assume e: "wt_ticket x = wt_ticket v"
        have "distinct (map wt_ticket (ad_queue st))" using distinct_tickets [OF admit.prems(2)] by simp
        moreover have "x \<in> set (ad_queue st)" unfolding admit.hyps(2) by simp
        moreover have "v \<in> set (ad_queue st)" unfolding admit.prems(1) by simp
        ultimately show False using e other(2) by (auto simp: distinct_map dest: inj_onD)
      qed
      then show ?thesis using admit.prems(5) by (auto simp: admitted_def)
    qed
    ultimately show ?thesis
      using admit.IH sorted admit.prems(3,4) unfolding admit.hyps(5) by blast
  qed
qed

lemma dispatch_admitted: "admitted (dispatch_loop limit st) \<subseteq> admitted st \<union> wt_ticket ` set (ad_queue st)"
  "admitted st \<subseteq> admitted (dispatch_loop limit st)"
  "set (ad_queue (dispatch_loop limit st)) \<subseteq> set (ad_queue st)"
proof -
  have "admitted (dispatch_loop limit st) \<subseteq> admitted st \<union> wt_ticket ` set (ad_queue st) \<and>
    admitted st \<subseteq> admitted (dispatch_loop limit st) \<and> set (ad_queue (dispatch_loop limit st)) \<subseteq> set (ad_queue st)"
  proof (induction st rule: dispatch_induct [where limit = limit])
    case (admit st w pre post)
    then show ?case by (auto simp: admitted_def)
  qed simp
  then show "admitted (dispatch_loop limit st) \<subseteq> admitted st \<union> wt_ticket ` set (ad_queue st)"
    "admitted st \<subseteq> admitted (dispatch_loop limit st)" "set (ad_queue (dispatch_loop limit st)) \<subseteq> set (ad_queue st)" by auto
qed

lemma dispatch_fields: "ad_queue (dispatch limit st) = ad_queue (dispatch_loop limit st)"
  "ad_leases (dispatch limit st) = ad_leases (dispatch_loop limit st)"
  "ad_active (dispatch limit st) = ad_active (dispatch_loop limit st)"
  by (simp_all add: dispatch_def Let_def)

text \<open>C9. Nothing overtakes without a reason: when one step gives a build its slot while a build queued
  before it keeps waiting, the application of the waiting one is itself building after the step.\<close>

theorem no_overtaking:
  assumes st: "st = fold (admission_step limit) es no_deploys" and st': "st' = admission_step limit e st"
    and q: "ad_queue st = pre @ w # mid @ v # post"
    and w: "w \<in> set (ad_queue st')" and v: "wt_ticket v \<in> admitted st'"
  shows "wt_name w \<in> set (open_names st')"
proof -
  have ok: "slots_ok limit st" using reachable_admission_ok [of limit es] by (simp add: st admission_ok_def)
  have ok': "slots_ok limit st'" using reachable_admission_ok [of limit "es @ [e]"] by (simp add: st st' admission_ok_def)
  have s: "sorted_wrt (<) (map wt_ticket (ad_queue st))" and nv: "wt_ticket v \<notin> admitted st"
    using ok q by (auto simp: slots_ok_def admitted_def)
  have d: "distinct (pre @ w # mid @ v # post)" using distinct_tickets [OF s] unfolding q by simp
  have core: "wt_name w \<in> set (open_names st')"
    if s1: "ad_queue st1 = pre' @ w # mid' @ v # post'" "sorted_wrt (<) (map wt_ticket (ad_queue st1))" "wt_ticket v \<notin> admitted st1"
      and f: "ad_queue st' = ad_queue (dispatch_loop limit st1)" "ad_leases st' = ad_leases (dispatch_loop limit st1)"
        "ad_active st' = ad_active (dispatch_loop limit st1)" for st1 pre' mid' post'
  proof -
    have "\<not> eligible (dispatch_loop limit st1) w"
      by (rule dispatch_no_overtaking [OF s1(1,2) _ _ s1(3)]) (use w v f in \<open>simp_all add: admitted_def\<close>)
    then show ?thesis using ok' f(3) by (simp add: eligible_def slots_ok_def)
  qed
  show ?thesis
  proof (cases e)
    case (Acquire name user)
    let ?new = "\<lparr>wt_ticket = ad_next st, wt_name = name, wt_user = user\<rparr>"
    show ?thesis
    proof (rule core [of "st\<lparr>ad_queue := ad_queue st @ [?new], ad_next := ad_next st + 1\<rparr>" pre mid "post @ [?new]"])
      show "sorted_wrt (<) (map wt_ticket (ad_queue (st\<lparr>ad_queue := ad_queue st @ [?new], ad_next := ad_next st + 1\<rparr>)))"
        using ok by (auto simp: slots_ok_def sorted_wrt_append)
    qed (use q nv in \<open>simp_all add: st' Acquire acquire_slot_def dispatch_fields admitted_def\<close>)
  next
    case (Release_slot l)
    show ?thesis
    proof (cases "l < length (ad_leases st) \<and> \<not> dl_released (ad_leases st ! l)")
      case True
      let ?st = "st\<lparr>ad_leases := (ad_leases st)[l := (ad_leases st ! l)\<lparr>dl_released := True\<rparr>],
          ad_active := jm_delete (ad_active st) (dl_name (ad_leases st ! l))\<rparr>"
      have "wt_ticket v \<notin> admitted ?st"
        using nv True by (auto simp: admitted_def dest!: set_update_subset_insert [THEN subsetD])
      then show ?thesis
        by (intro core [of ?st pre mid post]) (use q s True in \<open>simp_all add: st' Release_slot release_slot_def dispatch_fields\<close>)
    next
      case False
      then show ?thesis using v nv by (auto simp: st' Release_slot release_slot_def)
    qed
  next
    case (Cancel name user)
    show ?thesis
    proof (cases "pop_first (\<lambda>w. wt_name w = name \<and> wt_user w = user) (ad_queue st)")
      case None
      then show ?thesis using v nv by (simp add: st' Cancel cancel_queued_def)
    next
      case (Some p)
      obtain u rest where p: "p = (u, rest)" by (cases p)
      obtain front rear where fr: "ad_queue st = front @ u # rear" "rest = front @ rear"
        using pop_first_Some [OF Some [unfolded p]] by blast
      let ?st = "st\<lparr>ad_queue := rest, ad_rejected := ad_rejected st @ [wt_ticket u]\<rparr>"
      have f: "ad_queue st' = ad_queue (dispatch_loop limit ?st)" "ad_leases st' = ad_leases (dispatch_loop limit ?st)"
        "ad_active st' = ad_active (dispatch_loop limit ?st)"
        by (simp_all add: st' Cancel cancel_queued_def Some p dispatch_fields)
      have sf: "sorted_wrt (<) (map wt_ticket (front @ rear))" "wt_ticket u \<notin> wt_ticket ` set (front @ rear)"
        using s unfolding fr by (auto simp: sorted_wrt_append)
      have "u \<noteq> w" using w dispatch_admitted(3) [of limit ?st] sf(2) by (auto simp: f fr)
      moreover have "u \<noteq> v"
      proof
        assume "u = v"
        moreover have "wt_ticket v \<in> admitted ?st \<union> wt_ticket ` set rest"
          using v dispatch_admitted(1) [of limit ?st] by (auto simp: f admitted_def)
        ultimately show False using nv sf(2) by (auto simp: fr admitted_def)
      qed
      ultimately obtain pre' mid' post' where "front @ rear = pre' @ w # mid' @ v # post'"
        using remove_between [OF d, of front u rear] q fr(1) by auto
      then show ?thesis
        by (intro core [of ?st pre' mid' post']) (use sf nv f fr in \<open>simp_all add: admitted_def\<close>)
    qed
  qed
qed

section \<open>Waiting is bounded\<close>

lemma remove_one:
  assumes "pre @ w # post = front @ x # rear" "x \<noteq> w"
  shows "\<exists>pre' post'. front @ rear = pre' @ w # post' \<and> length pre' \<le> length pre \<and> (w \<notin> set front \<longrightarrow> length pre' < length pre)"
proof -
  from assms(1) consider us where "pre = front @ us" "us @ w # post = x # rear" | us where "pre @ us = front" "w # post = us @ x # rear"
    by (auto simp: append_eq_append_conv2)
  then show ?thesis
  proof cases
    case 1
    then obtain vs where "us = x # vs" "rear = vs @ w # post" using assms(2) by (cases us) auto
    then show ?thesis using 1 by (intro exI [of _ "front @ vs"] exI [of _ post]) simp
  next
    case 2
    then obtain vs where "us = w # vs" "post = vs @ x # rear" using assms(2) by (cases us) auto
    then show ?thesis using 2 by (intro exI [of _ pre] exI [of _ "vs @ rear"]) auto
  qed
qed

lemma dispatch_position:
  assumes "ad_queue st = pre @ w # post"
  shows "wt_ticket w \<in> admitted (dispatch_loop limit st) \<or>
    (\<exists>pre' post'. ad_queue (dispatch_loop limit st) = pre' @ w # post' \<and> length pre' \<le> length pre)"
  using assms
proof (induction st arbitrary: pre post rule: dispatch_induct [where limit = limit])
  case (stop st)
  then show ?case by (auto intro: exI [of _ pre])
next
  case (admit st x front rear)
  let ?st = "admit x (front @ rear) st"
  have q: "pre @ w # post = front @ x # rear" using admit.hyps(2) admit.prems by simp
  show ?case
  proof (cases "x = w")
    case True
    then have "wt_ticket w \<in> admitted ?st" by (auto simp: admitted_def)
    then show ?thesis using dispatch_admitted(2) [of ?st limit] unfolding admit.hyps(5) by blast
  next
    case False
    obtain pre' post' where n: "ad_queue ?st = pre' @ w # post'" "length pre' \<le> length pre"
      using remove_one [OF q False] by auto
    show ?thesis using admit.IH [OF n(1)] n(2) unfolding admit.hyps(5) by (meson le_trans)
  qed
qed

text \<open>A queued build whose application is not building waits for at most as many releases as builds are
  queued before it: every release either gives it its slot or moves it forward.\<close>

lemma release_advances_eligible:
  assumes st: "st = fold (admission_step limit) es no_deploys"
    and q: "ad_queue st = pre @ w # post" and w: "wt_name w \<notin> set (open_names st)"
    and l: "l < length (ad_leases st)" "\<not> dl_released (ad_leases st ! l)" and st': "st' = admission_step limit (Release_slot l) st"
  shows "wt_ticket w \<in> admitted st' \<or> (\<exists>pre' post'. ad_queue st' = pre' @ w # post' \<and> length pre' < length pre)"
proof -
  have ok: "slots_ok limit st" using reachable_admission_ok [of limit es] by (simp add: st admission_ok_def)
  let ?n = "dl_name (ad_leases st ! l)"
  let ?st = "st\<lparr>ad_leases := (ad_leases st)[l := (ad_leases st ! l)\<lparr>dl_released := True\<rparr>], ad_active := jm_delete (ad_active st) ?n\<rparr>"
  have s: "st' = dispatch limit ?st" using l by (simp add: st' release_slot_def)
  have "?n \<in> set (open_names st)" using l by (auto simp: open_names_def)
  then have "?n \<in> set (jm_keys (ad_active st))" using ok by (simp add: slots_ok_def)
  then have "length (jm_delete (ad_active st) ?n) < length (ad_active st)"
    unfolding jm_delete_def by (auto intro: length_filter_less)
  then have len: "length (ad_active ?st) < limit" using ok by (simp add: slots_ok_def)
  have e: "eligible ?st w" using w ok by (auto simp: eligible_def slots_ok_def jm_keys_delete)
  show ?thesis
  proof (cases rule: dispatch_cases [of limit ?st])
    case stop
    then show ?thesis using len e q by auto
  next
    case (admit x front rear)
    let ?st1 = "Admission.admit x (front @ rear) ?st"
    have fx: "pre @ w # post = front @ x # rear" using admit(2) q by simp
    have nw: "w \<notin> set front" using admit(4) e by blast
    show ?thesis
    proof (cases "x = w")
      case True
      then have "wt_ticket w \<in> admitted ?st1" by (auto simp: admitted_def)
      then show ?thesis using dispatch_admitted(2) [of ?st1 limit] unfolding s admitted_def dispatch_fields admit(5) by blast
    next
      case False
      obtain pre' post' where n: "ad_queue ?st1 = pre' @ w # post'" "length pre' < length pre"
        using remove_one [OF fx False] nw by auto
      show ?thesis using dispatch_position [OF n(1), of limit] n(2) unfolding s dispatch_fields admitted_def admit(5)
        by (meson le_less_trans)
    qed
  qed
qed

section \<open>A concrete history\<close>

definition busy_morning :: "admission_event list" where
  "busy_morning = [Acquire ''a'' ''u'', Acquire ''b'' ''u'', Acquire ''a'' ''v'', Acquire ''c'' ''v'']"

abbreviation morning :: admission where
  "morning \<equiv> fold (admission_step 2) busy_morning no_deploys"

definition second_a :: waiter where
  "second_a = \<lparr>wt_ticket = 2, wt_name = ''a'', wt_user = ''v''\<rparr>"

definition first_c :: waiter where
  "first_c = \<lparr>wt_ticket = 3, wt_name = ''c'', wt_user = ''v''\<rparr>"

lemma morning_queue: "ad_queue morning = [] @ second_a # [] @ first_c # []"
  by code_simp

lemma admission_is_bounded_and_busy_witness: "length (open_names morning) \<le> 2"
  using admission_is_bounded_and_busy [of morning 2 busy_morning, OF refl] by simp

lemma no_overtaking_witness: "''a'' \<in> set (open_names (admission_step 2 (Release_slot 1) morning))"
proof -
  have "second_a \<in> set (ad_queue (admission_step 2 (Release_slot 1) morning))"
    "wt_ticket first_c \<in> admitted (admission_step 2 (Release_slot 1) morning)" by (code_simp+)
  from no_overtaking [OF refl refl morning_queue this] show ?thesis by (simp add: second_a_def)
qed

lemma release_advances_eligible_witness:
  "wt_ticket first_c \<in> admitted (admission_step 2 (Release_slot 1) morning)
     \<or> (\<exists>pre' post'. ad_queue (admission_step 2 (Release_slot 1) morning) = pre' @ first_c # post' \<and> length pre' < 1)"
proof -
  have "ad_queue morning = [second_a] @ first_c # []" using morning_queue by simp
  moreover have "wt_name first_c \<notin> set (open_names morning)" by code_simp
  moreover have "1 < length (ad_leases morning)" "\<not> dl_released (ad_leases morning ! 1)" by (code_simp+)
  ultimately show ?thesis using release_advances_eligible [OF refl _ _ _ _ refl, of 2 busy_morning "[second_a]" first_c "[]" 1] by simp
qed

end
