(* ===== verification/DataMerge.thy ===== *)
theory DataMerge
  imports JsValue
begin

text \<open>
  The value level of \<open>data-reconciliation.ts\<close>: the canonical text two values are compared by, the
  three-way decision, and the merge of file manifests. Entries and rows are JavaScript objects, because
  the code looks paths up in plain objects; the collation key \<open>ck\<close> of \<open>localeCompare\<close> and the hash
  \<open>sha\<close> are parameters.
\<close>

section \<open>Canonical text\<close>

fun canonical_text :: "(string \<Rightarrow> nat list) \<Rightarrow> jsv \<Rightarrow> string option" where
  "canonical_text ck (Arr xs) =
     Some (''['' @ js_join '','' (map (\<lambda>x. case canonical_text ck x of None \<Rightarrow> [] | Some t \<Rightarrow> t) xs) @ '']'')"
| "canonical_text ck (Obj kvs) =
     Some (''{'' @ js_join '','' (map snd (sort_key (\<lambda>kt. ck (fst kt))
       (map (\<lambda>(k, v). (k, quote_str k @ '':'' @
          (case canonical_text ck v of None \<Rightarrow> ''undefined'' | Some t \<Rightarrow> t))) kvs))) @ ''}'')"
| "canonical_text ck v = json_text v"

text \<open>\<open>digest\<close>: the canonical text of an object is never undefined.\<close>

definition value_digest :: "(string \<Rightarrow> string) \<Rightarrow> (string \<Rightarrow> nat list) \<Rightarrow> jsv \<Rightarrow> string" where
  "value_digest sha ck v = ''sha256:'' @ sha (case canonical_text ck v of None \<Rightarrow> ''undefined'' | Some t \<Rightarrow> t)"

definition values_equal :: "(string \<Rightarrow> nat list) \<Rightarrow> jsv \<Rightarrow> jsv \<Rightarrow> bool" where
  "values_equal ck l r \<longleftrightarrow> canonical_text ck l = canonical_text ck r"

definition three_way :: "(string \<Rightarrow> nat list) \<Rightarrow> jsv \<Rightarrow> jsv \<Rightarrow> jsv \<Rightarrow> jsv \<times> bool" where
  "three_way ck base home suitcase =
     (if values_equal ck home suitcase then (home, False)
      else if values_equal ck home base then (suitcase, False)
      else if values_equal ck suitcase base then (home, False)
      else (home, True))"

section \<open>Conflicts\<close>

datatype conflict_kind = Sqlite_row | File_path | Schema_conflict | Validation_conflict

fun kind_text :: "conflict_kind \<Rightarrow> string" where
  "kind_text Sqlite_row = ''sqlite-row''"
| "kind_text File_path = ''file-path''"
| "kind_text Schema_conflict = ''schema''"
| "kind_text Validation_conflict = ''validation''"

datatype conflict_policy = Collect | Prefer_home | Prefer_suitcase

datatype conflict_resolution = Take_home | Take_suitcase | Keep_both

datatype suggestion = Suggest_home | Suggest_suitcase | Suggest_keep_both | Suggest_manual

record conflict =
  cf_kind :: conflict_kind
  cf_address :: string
  cf_base :: jsv
  cf_home :: jsv
  cf_suitcase :: jsv
  cf_suggested :: suggestion
  cf_reason :: string

definition conflict_key :: "conflict_kind \<Rightarrow> string \<Rightarrow> string" where
  "conflict_key k address = kind_text k @ '':'' @ address"

type_synonym resolutions = "(string, conflict_resolution) jmap"

definition or_null :: "jsv \<Rightarrow> jsv" where
  "or_null v = (if truthy v then v else Null)"

section \<open>Manifests\<close>

definition manifest_entries :: "jsv \<Rightarrow> jsv" where
  "manifest_entries m = fld m ''entries''"

definition mk_manifest :: "(string \<Rightarrow> string) \<Rightarrow> (string \<Rightarrow> nat list) \<Rightarrow> jsv \<Rightarrow> jsv" where
  "mk_manifest sha ck entries =
     Obj [(''formatVersion'', Num (JInt 1)), (''rootDigest'', Str (value_digest sha ck entries)), (''entries'', entries)]"

definition empty_file_manifest :: "(string \<Rightarrow> string) \<Rightarrow> (string \<Rightarrow> nat list) \<Rightarrow> jsv" where
  "empty_file_manifest sha ck = mk_manifest sha ck (Obj [])"

text \<open>\<open>entries[path] = entry\<close>; assigning to \<open>__proto__\<close> creates no key.\<close>

definition set_entry :: "fields \<Rightarrow> string \<Rightarrow> jsv \<Rightarrow> fields" where
  "set_entry kvs k v = (if k = ''__proto__'' then kvs else jm_set kvs k v)"

text \<open>\<open>s.replace(p, '')\<close> for a literal pattern: the first occurrence is dropped.\<close>

fun drop_first :: "string \<Rightarrow> string \<Rightarrow> string" where
  "drop_first p [] = []"
| "drop_first p (c # s) = (if starts_with (c # s) p then drop (length p) (c # s) else c # drop_first p s)"

definition site_char :: "char \<Rightarrow> bool" where
  "site_char c \<longleftrightarrow> (CHR ''a'' \<le> c \<and> c \<le> CHR ''z'') \<or> (CHR ''A'' \<le> c \<and> c \<le> CHR ''Z'') \<or> is_digit c
     \<or> c = CHR ''_'' \<or> c = CHR ''-''"

definition conflict_copy_path :: "string \<Rightarrow> string \<Rightarrow> string \<Rightarrow> string" where
  "conflict_copy_path path site content_digest =
     (let suffix = take 32 (map (\<lambda>c. if site_char c then c else CHR ''-'') site);
          suffix = (if suffix = [] then ''suitcase'' else suffix);
          short = take 10 (drop_first ''sha256:'' content_digest) in
      path @ ''.conflict-'' @ suffix @ ''-'' @ short)"

record conflict_copy =
  cc_original :: string
  cc_preserved :: string
  cc_digest :: string

record file_merge =
  fg_entries :: fields
  fg_conflicts :: "conflict list"
  fg_copies :: "conflict_copy list"
  fg_unresolved :: nat

definition merge_path ::
    "(string \<Rightarrow> nat list) \<Rightarrow> string \<Rightarrow> conflict_policy \<Rightarrow> resolutions \<Rightarrow> jsv \<Rightarrow> jsv \<Rightarrow> jsv \<Rightarrow> string \<Rightarrow> file_merge \<Rightarrow> file_merge" where
  "merge_path ck site policy res base home suitcase path m =
     (let b = fld base path; h = fld home path; s = fld suitcase path; merged = three_way ck b h s in
      if \<not> snd merged then
        (if truthy (fst merged) then m\<lparr>fg_entries := set_entry (fg_entries m) path (fst merged)\<rparr> else m)
      else
        (let c = \<lparr>cf_kind = File_path, cf_address = path, cf_base = or_null b, cf_home = or_null h, cf_suitcase = or_null s,
                cf_suggested = (if truthy h \<and> truthy s then Suggest_keep_both else Suggest_manual),
                cf_reason = ''Both sites changed the same path differently from their shared base.''\<rparr>;
             m = m\<lparr>fg_conflicts := fg_conflicts m @ [c]\<rparr>;
             r = jm_get res (conflict_key File_path path);
             keep_home = (if truthy h then set_entry (fg_entries m) path h else fg_entries m) in
         if r = Some Take_home \<or> r = None \<and> policy = Prefer_home then m\<lparr>fg_entries := keep_home\<rparr>
         else if r = Some Take_suitcase \<or> r = None \<and> policy = Prefer_suitcase then
           (if truthy s then m\<lparr>fg_entries := set_entry (fg_entries m) path s\<rparr> else m)
         else
           (let m = m\<lparr>fg_entries := keep_home, fg_unresolved := fg_unresolved m + (if r = Some Keep_both then 0 else 1)\<rparr>;
                d = str_of (fld s ''digest''); p = conflict_copy_path path site d in
            if fld s ''kind'' = Str ''file'' \<and> truthy (fld s ''digest'') then
              m\<lparr>fg_entries := set_entry (fg_entries m) p (Obj (jm_set (own_fields s) ''path'' (Str p))),
                fg_copies := fg_copies m @ [\<lparr>cc_original = path, cc_preserved = p, cc_digest = d\<rparr>]\<rparr>
            else m)))"

definition merge_paths :: "jsv \<Rightarrow> jsv \<Rightarrow> jsv \<Rightarrow> string list" where
  "merge_paths base home suitcase = sort (uniq (obj_keys base @ obj_keys home @ obj_keys suitcase))"

record file_reconciliation =
  fr_merged :: bool
  fr_manifest :: jsv
  fr_conflicts :: "conflict list"
  fr_copies :: "conflict_copy list"

definition merge_entries ::
    "(string \<Rightarrow> nat list) \<Rightarrow> string \<Rightarrow> conflict_policy \<Rightarrow> resolutions \<Rightarrow> jsv \<Rightarrow> jsv \<Rightarrow> jsv \<Rightarrow> file_merge" where
  "merge_entries ck site policy res base home suitcase =
     fold (merge_path ck site policy res base home suitcase) (merge_paths base home suitcase)
       \<lparr>fg_entries = [], fg_conflicts = [], fg_copies = [], fg_unresolved = 0\<rparr>"

definition reconcile_file_manifests ::
    "(string \<Rightarrow> string) \<Rightarrow> (string \<Rightarrow> nat list) \<Rightarrow> jsv option \<Rightarrow> jsv \<Rightarrow> jsv \<Rightarrow> string \<Rightarrow> conflict_policy option \<Rightarrow> resolutions
      \<Rightarrow> file_reconciliation" where
  "reconcile_file_manifests sha ck base home suitcase site policy res =
     (let policy = (case policy of Some p \<Rightarrow> p | None \<Rightarrow> Collect);
          base = (case base of Some b \<Rightarrow> b | None \<Rightarrow> empty_file_manifest sha ck);
          m = merge_entries ck site policy res (manifest_entries base) (manifest_entries home) (manifest_entries suitcase) in
      \<lparr>fr_merged = (fg_unresolved m = 0), fr_manifest = mk_manifest sha ck (mk_obj (fg_entries m)),
       fr_conflicts = fg_conflicts m, fr_copies = fg_copies m\<rparr>)"

end
