(* ===== verification/FileTree.thy ===== *)
theory FileTree
  imports DataMerge
begin

text \<open>
  Manifests and directories (\<open>createFileManifest\<close>, \<open>createFileManifestAsync\<close>, \<open>materializeFileManifest\<close>
  of \<open>data-reconciliation.ts\<close>, \<open>putArtifactFile\<close> and \<open>getArtifact\<close> of \<open>content-store.ts\<close> as far as they
  take part). A captured directory is a tree; the disk a manifest is written to maps absolute paths, as
  lists of segments, to nodes. The process umask is a parameter.
\<close>

section \<open>Trees and the content store\<close>

datatype file_tree = Folder nat "(string \<times> file_tree) list" | File nat string | Special

type_synonym content_store = "(string, string) jmap"

definition file_digest :: "(string \<Rightarrow> string) \<Rightarrow> string \<Rightarrow> string" where
  "file_digest sha content = ''sha256:'' @ sha content"

definition put_artifact_file :: "(string \<Rightarrow> string) \<Rightarrow> content_store \<Rightarrow> string \<Rightarrow> content_store" where
  "put_artifact_file sha store content =
     (if jm_has store (file_digest sha content) then store else jm_set store (file_digest sha content) content)"

section \<open>Capturing a directory\<close>

definition directory_entry :: "string \<Rightarrow> nat \<Rightarrow> jsv" where
  "directory_entry path mode =
     Obj [(''path'', Str path), (''kind'', Str ''directory''), (''byteSize'', Num (JInt 0)), (''mode'', Num (JInt (int (mode mod 512))))]"

definition file_entry :: "string \<Rightarrow> string \<Rightarrow> nat \<Rightarrow> nat \<Rightarrow> jsv" where
  "file_entry path dig bytes mode =
     Obj [(''path'', Str path), (''kind'', Str ''file''), (''digest'', Str dig), (''byteSize'', Num (JInt (int bytes))),
          (''mode'', Num (JInt (int (mode mod 512))))]"

definition manifest_limit :: nat where
  "manifest_limit = 100000"

definition child_path :: "string \<Rightarrow> string \<Rightarrow> string" where
  "child_path parent name = (if parent = [] then name else parent @ ''/'' @ name)"

text \<open>Children in descending order, so that popping the stack visits them in ascending order; the stack is
  kept with its last element first.\<close>

definition push_children :: "(string \<Rightarrow> nat list) \<Rightarrow> string \<Rightarrow> (string \<times> file_tree) list \<Rightarrow> (string \<times> file_tree) list \<Rightarrow> (string \<times> file_tree) list" where
  "push_children ck path kids stack =
     map (\<lambda>kid. (child_path path (fst kid), snd kid)) (sort_key (\<lambda>kid. ck (fst kid)) (rev kids)) @ stack"

definition special_file_error :: "string \<Rightarrow> string" where
  "special_file_error path = ''Unsupported special file in reconciliation manifest: '' @ path"

function walk_tree ::
    "(string \<Rightarrow> string) \<Rightarrow> (string \<Rightarrow> nat list) \<Rightarrow> nat \<Rightarrow> (string \<times> file_tree) list \<Rightarrow> fields \<times> content_store
      \<Rightarrow> string + fields \<times> content_store" where
  "walk_tree sha ck visited [] st = Inr st"
| "walk_tree sha ck visited ((path, t) # stack) (entries, store) =
     (if manifest_limit < visited + 1 then Inl ''File manifest exceeds the 100,000-entry safety limit''
      else (case t of
          Special \<Rightarrow> Inl (special_file_error path)
        | Folder mode kids \<Rightarrow>
            walk_tree sha ck (visited + 1) (push_children ck path kids stack)
              (if path = [] then entries else set_entry entries path (directory_entry path mode), store)
        | File mode content \<Rightarrow>
            walk_tree sha ck (visited + 1) stack
              (set_entry entries path (file_entry path (file_digest sha content) (length content) mode),
               put_artifact_file sha store content)))"
  by pat_completeness auto
termination
  by (relation "measure (\<lambda>(sha, ck, visited, stack, st). manifest_limit - visited)") (auto simp: manifest_limit_def)

text \<open>\<open>createFileManifest\<close> leaves the content store alone; \<open>createFileManifestAsync\<close> puts every file into it.\<close>

definition create_file_manifest :: "(string \<Rightarrow> string) \<Rightarrow> (string \<Rightarrow> nat list) \<Rightarrow> file_tree \<Rightarrow> string + jsv" where
  "create_file_manifest sha ck root =
     (case walk_tree sha ck 0 [([], root)] ([], []) of Inl e \<Rightarrow> Inl e | Inr (entries, _) \<Rightarrow> Inr (mk_manifest sha ck (mk_obj entries)))"

definition create_file_manifest_async ::
    "(string \<Rightarrow> string) \<Rightarrow> (string \<Rightarrow> nat list) \<Rightarrow> content_store \<Rightarrow> file_tree \<Rightarrow> string + jsv \<times> content_store" where
  "create_file_manifest_async sha ck store root =
     (case walk_tree sha ck 0 [([], root)] ([], store) of
        Inl e \<Rightarrow> Inl e
      | Inr (entries, store) \<Rightarrow> Inr (mk_manifest sha ck (mk_obj entries), store))"

section \<open>Writing a manifest\<close>

datatype node = Directory nat | Regular string nat

type_synonym disk = "(string list, node) jmap"

text \<open>\<open>resolve(destination, path)\<close> on POSIX: an absolute path replaces the base, \<open>.\<close> and empty segments
  disappear, \<open>..\<close> drops the segment before it.\<close>

fun normalize_segments :: "string list \<Rightarrow> string list \<Rightarrow> string list" where
  "normalize_segments acc [] = acc"
| "normalize_segments acc (s # ss) =
     (if s = [] \<or> s = ''.'' then normalize_segments acc ss
      else if s = ''..'' then normalize_segments (butlast acc) ss
      else normalize_segments (acc @ [s]) ss)"

definition resolve_path :: "string list \<Rightarrow> string \<Rightarrow> string list" where
  "resolve_path base path =
     normalize_segments (if starts_with path ''/'' then [] else base) (split_on (CHR ''/'') path)"

text \<open>The calls below change the disk until one of them throws: the disk so far, and the error if any.\<close>

type_synonym disk_result = "disk \<times> string option"

definition and_then :: "disk_result \<Rightarrow> (disk \<Rightarrow> disk_result) \<Rightarrow> disk_result" where
  "and_then r f = (case r of (d, Some err) \<Rightarrow> (d, Some err) | (d, None) \<Rightarrow> f d)"

text \<open>\<open>mkdirSync(path, { recursive: true, mode })\<close>: missing ancestors are created with the same mode, a
  regular file on the way is an error.\<close>

fun make_dirs :: "nat \<Rightarrow> string list \<Rightarrow> string list \<Rightarrow> disk \<Rightarrow> disk_result" where
  "make_dirs mode up [] d = (d, None)"
| "make_dirs mode up (s # ss) d =
     (case jm_get d (up @ [s]) of
        None \<Rightarrow> make_dirs mode (up @ [s]) ss (jm_set d (up @ [s]) (Directory mode))
      | Some (Directory _) \<Rightarrow> make_dirs mode (up @ [s]) ss d
      | Some (Regular _ _) \<Rightarrow> (d, Some (if ss = [] then ''EEXIST'' else ''ENOTDIR'')))"

text \<open>Files of the content store are read-only for their owner, and a copy takes the mode of its source.\<close>

definition artifact_mode :: nat where
  "artifact_mode = 256"

definition copy_file :: "string \<Rightarrow> string list \<Rightarrow> disk \<Rightarrow> disk_result" where
  "copy_file content path d =
     (case jm_get d path of
        Some (Directory _) \<Rightarrow> (d, Some ''EISDIR'')
      | _ \<Rightarrow> (jm_set d path (Regular content artifact_mode), None))"

definition write_entry ::
    "(nat \<Rightarrow> nat) \<Rightarrow> content_store \<Rightarrow> string list \<Rightarrow> jsv \<Rightarrow> disk \<Rightarrow> disk_result" where
  "write_entry umask store destination e d =
     (let path = resolve_path destination (str_of (fld e ''path'')) in
      if path \<noteq> destination \<and> \<not> (destination \<noteq> [] \<and> take (length destination) path = destination) then
        (d, Some (''Manifest path escapes destination: '' @ str_of (fld e ''path'')))
      else if fld e ''kind'' = Str ''directory'' then
        make_dirs (umask (case int_of (fld e ''mode'') of Some m \<Rightarrow> nat m | None \<Rightarrow> 511)) [] path d
      else if \<not> truthy (fld e ''digest'') then
        (d, Some (''File manifest entry is missing a digest: '' @ str_of (fld e ''path'')))
      else (case jm_get store (str_of (fld e ''digest'')) of
          None \<Rightarrow> (d, Some (''Required file blob is not materialized: '' @ str_of (fld e ''digest'')))
        | Some content \<Rightarrow> and_then (make_dirs (umask 511) [] (butlast path) d) (copy_file content path)))"

fun write_entries :: "(nat \<Rightarrow> nat) \<Rightarrow> content_store \<Rightarrow> string list \<Rightarrow> jsv list \<Rightarrow> disk \<Rightarrow> disk_result" where
  "write_entries umask store destination [] d = (d, None)"
| "write_entries umask store destination (e # es) d =
     and_then (write_entry umask store destination e d) (write_entries umask store destination es)"

text \<open>\<open>Object.values(entries).sort(...)\<close> calls \<open>localeCompare\<close> on every \<open>path\<close>.\<close>

definition materialize_file_manifest ::
    "(nat \<Rightarrow> nat) \<Rightarrow> (string \<Rightarrow> nat list) \<Rightarrow> content_store \<Rightarrow> jsv \<Rightarrow> string list \<Rightarrow> disk \<Rightarrow> disk_result" where
  "materialize_file_manifest umask ck store manifest destination d =
     (let es = map snd (own_fields (manifest_entries manifest)) in
      and_then (make_dirs (umask 511) [] destination d) (\<lambda>d.
        if list_ex (\<lambda>e. \<not> is_str (fld e ''path'')) es then (d, Some ''TypeError'')
        else write_entries umask store destination (sort_key (\<lambda>e. ck (str_of (fld e ''path''))) es) d))"

end
