(* ===== verification/DataMergeFacts.thy ===== *)
theory DataMergeFacts
  imports DataMerge
begin

text \<open>
  Equality by canonical text is equality of documents up to the order of their keys, and agrees with the
  planner's \<open>semanticEqual\<close>; the entries a manifest merge writes, path by path.
\<close>

section \<open>Canonical text of documents\<close>

text \<open>The document whose \<open>JSON.stringify\<close> the canonical text is.\<close>

fun sort_doc :: "(string \<Rightarrow> nat list) \<Rightarrow> jsv \<Rightarrow> jsv" where
  "sort_doc ck (Arr xs) = Arr (map (sort_doc ck) xs)"
| "sort_doc ck (Obj kvs) = Obj (sort_key (\<lambda>kv. ck (fst kv)) (map (\<lambda>(k, v). (k, sort_doc ck v)) kvs))"
| "sort_doc ck v = v"

lemma plain_sort_doc [simp]: "plain v \<Longrightarrow> plain (sort_doc ck v)"
  by (induction v) (fastforce simp: list_all_iff)+

lemma sort_key_map: "sort_key f (map g xs) = map g (sort_key (\<lambda>x. f (g x)) xs)"
proof (induction xs)
  case (Cons x xs)
  have "insort_key f (g x) (map g ys) = map g (insort_key (\<lambda>x. f (g x)) x ys)" for ys
    by (induction ys) auto
  then show ?case using Cons by simp
qed simp

lemma canonical_text_plain: "plain v \<Longrightarrow> canonical_text ck v = json_text (sort_doc ck v)"
proof (induction v)
  case (Arr xs)
  have "canonical_text ck x = Some (doc_text (sort_doc ck x))" if "x \<in> set xs" for x
    using Arr that by (simp add: list_all_iff plain_text)
  then have "map (\<lambda>x. case canonical_text ck x of None \<Rightarrow> [] | Some t \<Rightarrow> t) xs = map doc_text (map (sort_doc ck) xs)" by simp
  moreover have "json_text (sort_doc ck (Arr xs)) = Some (''['' @ js_join '','' (map doc_text (map (sort_doc ck) xs)) @ '']'')"
    using Arr.prems plain_sort_doc [of "Arr xs" ck] txt_Arr [of "map (sort_doc ck) xs"] by (simp add: plain_text del: json_text.simps)
  ultimately show ?case by (simp only: canonical_text.simps)
next
  case (Obj kvs)
  let ?s = "sort_key (\<lambda>kv. ck (fst kv)) (map (\<lambda>(k, v). (k, sort_doc ck v)) kvs)"
  have t: "canonical_text ck (snd kv) = Some (doc_text (sort_doc ck (snd kv)))" if "kv \<in> set kvs" for kv
    using Obj that by (cases kv) (auto simp: list_all_iff plain_text intro: snds.intros)
  have "map (\<lambda>(k, v). (k, quote_str k @ '':'' @ (case canonical_text ck v of None \<Rightarrow> ''undefined'' | Some t \<Rightarrow> t))) kvs
      = map (\<lambda>kv. (fst kv, member_text kv)) (map (\<lambda>(k, v). (k, sort_doc ck v)) kvs)"
    using t by (fastforce simp: member_text_def)
  then have "map snd (sort_key (\<lambda>kt. ck (fst kt)) (map (\<lambda>(k, v). (k, quote_str k @ '':'' @
      (case canonical_text ck v of None \<Rightarrow> ''undefined'' | Some t \<Rightarrow> t))) kvs)) = map member_text ?s"
    by (simp only: sort_key_map) (simp add: comp_def)
  moreover have "json_text (sort_doc ck (Obj kvs)) = Some (''{'' @ js_join '','' (map member_text ?s) @ ''}'')"
    using plain_sort_doc [OF Obj.prems, of ck] txt_Obj [of ?s] by (simp add: plain_text del: json_text.simps)
  ultimately show ?case by (simp only: canonical_text.simps)
qed simp_all

lemma values_equal_iff: "plain v \<Longrightarrow> plain w \<Longrightarrow> values_equal ck v w \<longleftrightarrow> sort_doc ck v = sort_doc ck w"
  using doc_text_inj [of "sort_doc ck v" "sort_doc ck w"] by (simp add: values_equal_def canonical_text_plain)

lemma values_equal_refl [simp]: "values_equal ck v v"
  by (simp add: values_equal_def)

lemma values_equal_sym: "values_equal ck v w \<longleftrightarrow> values_equal ck w v"
  by (auto simp: values_equal_def)

lemma values_equal_trans: "values_equal ck u v \<Longrightarrow> values_equal ck v w \<Longrightarrow> values_equal ck u w"
  by (simp add: values_equal_def)

text \<open>A document: distinct keys everywhere, none of them \<open>__proto__\<close>.\<close>

fun proto_free :: "jsv \<Rightarrow> bool" where
  "proto_free (Arr xs) = list_all proto_free xs"
| "proto_free (Obj kvs) = list_all (\<lambda>kv. fst kv \<noteq> ''__proto__'' \<and> proto_free (snd kv)) kvs"
| "proto_free v = True"

lemma distinct_sorted_fields: "distinct (map fst (sort_key f kvs)) \<longleftrightarrow> distinct (map fst kvs)"
  by (rule mset_eq_imp_distinct_iff) simp

lemma map_of_sorted_fields: "distinct (map fst kvs) \<Longrightarrow> map_of (sort_key f kvs) = map_of kvs"
  by (rule map_of_perm) (simp_all add: distinct_sorted_fields)

lemma canonicalize_sort_doc: "js_wf v \<Longrightarrow> canonicalize (sort_doc ck v) = canonicalize v"
proof (induction v)
  case (Obj kvs)
  let ?m = "map (\<lambda>(k, v). (k, sort_doc ck v)) kvs"
  have d: "distinct (map fst kvs)" "distinct (map fst ?m)" using Obj.prems by simp_all
  have "map_option canonicalize (map_of (sort_key (\<lambda>kv. ck (fst kv)) ?m) k) = map_option canonicalize (map_of kvs k)" for k
    using Obj d by (cases "map_of kvs k")
      (auto simp: map_of_sorted_fields map_of_map list_all_iff dest!: map_of_SomeD intro: snds.intros)
  then have "canonicalize (Obj (sort_key (\<lambda>kv. ck (fst kv)) ?m)) = canonicalize (Obj kvs)"
    using d by (subst canonicalize_Obj_eq_iff) (simp_all add: distinct_sorted_fields)
  then show ?case by (simp only: sort_doc.simps)
qed (auto simp: list_all_iff)

lemma sort_key_unique:
  fixes ck :: "string \<Rightarrow> nat list"
  assumes "inj ck" "distinct (map fst xs)" "set xs = set ys" "distinct (map fst ys)"
  shows "sort_key (\<lambda>kv. ck (fst kv)) xs = sort_key (\<lambda>kv. ck (fst kv)) ys"
proof (rule map_sorted_distinct_set_unique [where f = "\<lambda>kv. ck (fst kv)"])
  show "inj_on (\<lambda>kv. ck (fst kv)) (set (sort_key (\<lambda>kv. ck (fst kv)) xs) \<union> set (sort_key (\<lambda>kv. ck (fst kv)) ys))"
  proof (rule inj_onI)
    fix a b assume "a \<in> set (sort_key (\<lambda>kv. ck (fst kv)) xs) \<union> set (sort_key (\<lambda>kv. ck (fst kv)) ys)"
      "b \<in> set (sort_key (\<lambda>kv. ck (fst kv)) xs) \<union> set (sort_key (\<lambda>kv. ck (fst kv)) ys)" and eq: "ck (fst a) = ck (fst b)"
    then have "a \<in> set xs" "b \<in> set xs" using assms(3) by auto
    moreover have "fst a = fst b" using eq by (rule injD [OF assms(1)])
    moreover have "inj_on fst (set xs)" using assms(2) by (simp add: distinct_map)
    ultimately show "a = b" by (simp add: inj_on_def)
  qed
  have "distinct (map (\<lambda>kv. ck (fst kv)) (sort_key (\<lambda>kv. ck (fst kv)) zs))" if "distinct (map fst zs)" for zs :: "(string \<times> 'a) list"
  proof -
    have "distinct (map (\<lambda>kv. ck (fst kv)) zs)"
      using that by (simp add: distinct_map inj_on_def) (metis injD [OF \<open>inj ck\<close>])
    then show ?thesis by (subst mset_eq_imp_distinct_iff [where ys = "map (\<lambda>kv. ck (fst kv)) zs"]) simp_all
  qed
  with assms show "distinct (map (\<lambda>kv. ck (fst kv)) (sort_key (\<lambda>kv. ck (fst kv)) xs))"
    "distinct (map (\<lambda>kv. ck (fst kv)) (sort_key (\<lambda>kv. ck (fst kv)) ys))" by blast+
qed (use assms in simp_all)

lemma sort_doc_canonicalize: "inj ck \<Longrightarrow> js_wf v \<Longrightarrow> proto_free v \<Longrightarrow> sort_doc ck (canonicalize v) = sort_doc ck v"
proof (induction v)
  case (Obj kvs)
  have d: "distinct (map fst kvs)" using Obj.prems by simp
  have set: "set (canon_fields kvs) = (\<lambda>(k, v). (k, canonicalize v)) ` set kvs"
    using Obj.prems by (force simp: canon_fields_def list_all_iff)
  have "(k, v) \<in> set kvs \<Longrightarrow> sort_doc ck (canonicalize v) = sort_doc ck v" for k v
    using Obj by (force simp: list_all_iff intro: snds.intros)
  then have "(\<lambda>(k, v). (k, sort_doc ck v)) ` set (js_order (canon_fields kvs)) = (\<lambda>(k, v). (k, sort_doc ck v)) ` set kvs"
    by (force simp: set)
  then have "sort_doc ck (Obj (js_order (canon_fields kvs))) = sort_doc ck (Obj kvs)"
    unfolding sort_doc.simps jsv.inject
    by (intro sort_key_unique) (use Obj.prems d in \<open>simp_all add: distinct_canon_fields\<close>)
  then show ?case by (simp only: canonicalize_Obj)
qed (auto simp: list_all_iff)

lemma values_equal_semantic:
  assumes "inj ck" "plain v" "plain w" "js_wf v" "js_wf w" "proto_free v" "proto_free w"
  shows "values_equal ck v w \<longleftrightarrow> semantic_equal v w"
proof -
  have "sort_doc ck v = sort_doc ck w \<longleftrightarrow> canonicalize v = canonicalize w"
  proof
    assume "sort_doc ck v = sort_doc ck w"
    then have "canonicalize (sort_doc ck v) = canonicalize (sort_doc ck w)" by simp
    then show "canonicalize v = canonicalize w" by (simp add: canonicalize_sort_doc assms)
  next
    assume "canonicalize v = canonicalize w"
    then have "sort_doc ck (canonicalize v) = sort_doc ck (canonicalize w)" by simp
    then show "sort_doc ck v = sort_doc ck w" by (simp add: sort_doc_canonicalize assms)
  qed
  then show ?thesis using assms(2,3) by (simp add: values_equal_iff semantic_equal_iff)
qed

section \<open>What a merge writes\<close>

text \<open>The entry kept at a path and the conflict copy beside it.\<close>

definition kept ::
    "(string \<Rightarrow> nat list) \<Rightarrow> conflict_policy \<Rightarrow> resolutions \<Rightarrow> jsv \<Rightarrow> jsv \<Rightarrow> jsv \<Rightarrow> string \<Rightarrow> jsv option" where
  "kept ck policy res base home suitcase p =
     (let h = fld home p; s = fld suitcase p; merged = three_way ck (fld base p) h s; r = jm_get res (conflict_key File_path p);
          v = (if \<not> snd merged then fst merged
               else if (r = Some Take_suitcase \<or> r = None \<and> policy = Prefer_suitcase) then s else h) in
      if truthy v then Some v else None)"

definition both_kept :: "(string \<Rightarrow> nat list) \<Rightarrow> conflict_policy \<Rightarrow> resolutions \<Rightarrow> jsv \<Rightarrow> jsv \<Rightarrow> jsv \<Rightarrow> string \<Rightarrow> bool" where
  "both_kept ck policy res base home suitcase p \<longleftrightarrow>
     snd (three_way ck (fld base p) (fld home p) (fld suitcase p)) \<and>
     (let r = jm_get res (conflict_key File_path p) in r = Some Keep_both \<or> r = None \<and> policy = Collect)"

definition copy_path :: "string \<Rightarrow> jsv \<Rightarrow> string \<Rightarrow> string" where
  "copy_path site suitcase p = conflict_copy_path p site (str_of (fld (fld suitcase p) ''digest''))"

definition copied ::
    "(string \<Rightarrow> nat list) \<Rightarrow> string \<Rightarrow> conflict_policy \<Rightarrow> resolutions \<Rightarrow> jsv \<Rightarrow> jsv \<Rightarrow> jsv \<Rightarrow> string \<Rightarrow> (string \<times> jsv) option" where
  "copied ck site policy res base home suitcase p =
     (let s = fld suitcase p in
      if both_kept ck policy res base home suitcase p \<and> fld s ''kind'' = Str ''file'' \<and> truthy (fld s ''digest'') then
        Some (copy_path site suitcase p, Obj (jm_set (own_fields s) ''path'' (Str (copy_path site suitcase p))))
      else None)"

definition place :: "(string \<times> jsv) option \<Rightarrow> fields \<Rightarrow> fields" where
  "place w es = (case w of None \<Rightarrow> es | Some (k, v) \<Rightarrow> set_entry es k v)"

lemma merge_path_entries:
  "fg_entries (merge_path ck site policy res base home suitcase p m) =
     place (copied ck site policy res base home suitcase p)
       (place (map_option (Pair p) (kept ck policy res base home suitcase p)) (fg_entries m))"
proof (cases "snd (three_way ck (fld base p) (fld home p) (fld suitcase p))")
  case False
  then show ?thesis by (simp add: merge_path_def kept_def copied_def both_kept_def place_def Let_def)
next
  case True
  show ?thesis
  proof (cases "jm_get res (conflict_key File_path p)")
    case None
    then show ?thesis
      by (cases policy) (simp_all add: True merge_path_def kept_def copied_def both_kept_def copy_path_def place_def Let_def)
  next
    case (Some r)
    then show ?thesis
      by (cases r) (simp_all add: True merge_path_def kept_def copied_def both_kept_def copy_path_def place_def Let_def)
  qed
qed

lemma merge_path_conflicts:
  "map cf_address (fg_conflicts (merge_path ck site policy res base home suitcase p m)) = map cf_address (fg_conflicts m)
     @ (if snd (three_way ck (fld base p) (fld home p) (fld suitcase p)) then [p] else [])"
  by (simp add: merge_path_def Let_def)

lemma merge_path_unresolved:
  "fg_unresolved (merge_path ck site policy res base home suitcase p m) = fg_unresolved m
     + (if both_kept ck policy res base home suitcase p \<and> jm_get res (conflict_key File_path p) \<noteq> Some Keep_both then 1 else 0)"
proof (cases "jm_get res (conflict_key File_path p)")
  case None
  then show ?thesis by (cases policy) (simp_all add: merge_path_def both_kept_def Let_def)
next
  case (Some r)
  then show ?thesis by (cases r) (simp_all add: merge_path_def both_kept_def Let_def)
qed

lemma merge_path_copies:
  "fg_copies (merge_path ck site policy res base home suitcase p m) = fg_copies m
     @ (case copied ck site policy res base home suitcase p of None \<Rightarrow> []
        | Some (q, e) \<Rightarrow> [\<lparr>cc_original = p, cc_preserved = q, cc_digest = str_of (fld (fld suitcase p) ''digest'')\<rparr>])"
proof (cases "jm_get res (conflict_key File_path p)")
  case None
  then show ?thesis by (cases policy) (simp_all add: merge_path_def both_kept_def copied_def copy_path_def Let_def)
next
  case (Some r)
  then show ?thesis by (cases r) (simp_all add: merge_path_def both_kept_def copied_def copy_path_def Let_def)
qed

text \<open>A conflict copy has a longer name than the path it stands for, so the loop comes to that name later.\<close>

lemma conflict_copy_longer: "\<exists>c t. conflict_copy_path p site d = p @ CHR ''.'' # c # t"
  by (simp add: conflict_copy_path_def Let_def)

lemma less_append: "(p :: string) < p @ c # t"
  by (induction p) auto

lemma copy_after: "p < copy_path site suitcase p"
  using conflict_copy_longer less_append unfolding copy_path_def by metis

lemma copy_not_proto: "copy_path site suitcase p \<noteq> ''__proto__''"
proof -
  obtain c t where "copy_path site suitcase p = p @ CHR ''.'' # c # t" using conflict_copy_longer unfolding copy_path_def by metis
  then have "CHR ''.'' \<in> set (copy_path site suitcase p)" by simp
  then show ?thesis by auto
qed

lemma copied_name: "copied ck site policy res base home suitcase p = Some (q, e) \<Longrightarrow> q = copy_path site suitcase p"
  by (auto simp: copied_def Let_def split: if_splits)

lemma jm_get_set_entry: "k \<noteq> ''__proto__'' \<Longrightarrow> jm_get (set_entry es k v) q = (if q = k then Some v else jm_get es q)"
  by (simp add: set_entry_def)

text \<open>The last copy written under a name.\<close>

definition copy_at ::
    "(string \<Rightarrow> nat list) \<Rightarrow> string \<Rightarrow> conflict_policy \<Rightarrow> resolutions \<Rightarrow> jsv \<Rightarrow> jsv \<Rightarrow> jsv \<Rightarrow> string list \<Rightarrow> string \<Rightarrow> jsv option" where
  "copy_at ck site policy res base home suitcase ps =
     map_of (rev (List.map_filter (copied ck site policy res base home suitcase) ps))"

lemma merge_entries_at:
  assumes "sorted ps" "distinct ps" "''__proto__'' \<notin> set ps" "fg_entries m = []"
  shows "jm_get (fg_entries (fold (merge_path ck site policy res base home suitcase) ps m)) q =
    (case (if q \<in> set ps then kept ck policy res base home suitcase q else None) of
       Some v \<Rightarrow> Some v | None \<Rightarrow> copy_at ck site policy res base home suitcase ps q)"
  using assms
proof (induction ps rule: rev_induct)
  case Nil
  then show ?case by (simp add: copy_at_def)
next
  case (snoc p ps)
  let ?kept = "kept ck policy res base home suitcase" and ?copied = "copied ck site policy res base home suitcase"
    and ?copy = "copy_at ck site policy res base home suitcase"
  have IH: "jm_get (fg_entries (fold (merge_path ck site policy res base home suitcase) ps m)) q = (case (if q \<in> set ps then ?kept q else None) of Some v \<Rightarrow> Some v | None \<Rightarrow> ?copy ps q)"
    using snoc by (simp add: sorted_append)
  have p: "p \<notin> set ps" "p \<noteq> ''__proto__''" "\<forall>x \<in> set ps. x \<le> p" using snoc.prems by (auto simp: sorted_append)
  have later: "x \<notin> set (ps @ [p])" if "?copied p = Some (x, e)" for x e
    using copy_after [of p site suitcase] copied_name [OF that] p(3) by auto
  have own: "jm_get (place (map_option (Pair p) (?kept p)) es) q = (if q = p \<and> ?kept p \<noteq> None then ?kept p else jm_get es q)" for es
    using p(2) by (auto simp: place_def jm_get_set_entry split: option.splits)
  have cop: "jm_get (place (?copied p) es) q = (case ?copied p of Some (x, e) \<Rightarrow> if q = x then Some e else jm_get es q | None \<Rightarrow> jm_get es q)" for es
    by (auto simp: place_def jm_get_set_entry copy_not_proto dest!: copied_name split: option.splits)
  have copy: "?copy (ps @ [p]) q = (case ?copied p of Some (x, e) \<Rightarrow> if q = x then Some e else ?copy ps q | None \<Rightarrow> ?copy ps q)"
    by (auto simp: copy_at_def map_filter_def split: option.splits)
  show ?case
    unfolding fold_append comp_def fold.simps id_apply merge_path_entries cop own IH copy
    using later p(1) by (auto split: option.splits)
qed

end
