(* ===== verification/FileTreeFacts.thy ===== *)
theory FileTreeFacts
  imports FileTree DataMergeFacts
begin

text \<open>
  The walk of \<open>createFileManifest\<close> lists the tree, and writing the manifest of a tree restores it.
\<close>

section \<open>The walk\<close>

fun nodes :: "file_tree \<Rightarrow> nat" where
  "nodes (Folder mode kids) = Suc (sum_list (map (\<lambda>kid. nodes (snd kid)) kids))"
| "nodes (File mode content) = 1"
| "nodes Special = 1"

fun regular_tree :: "file_tree \<Rightarrow> bool" where
  "regular_tree (Folder mode kids) = list_all (\<lambda>kid. regular_tree (snd kid)) kids"
| "regular_tree (File mode content) = True"
| "regular_tree Special = False"

text \<open>The nodes in the order of the walk, with their paths.\<close>

fun listed :: "(string \<Rightarrow> nat list) \<Rightarrow> string \<Rightarrow> file_tree \<Rightarrow> (string \<times> file_tree) list" where
  "listed ck path (Folder mode kids) =
     (path, Folder mode kids) #
     concat (map snd (sort_key (\<lambda>kid. ck (fst kid)) (rev (map (\<lambda>kid. (fst kid, listed ck (child_path path (fst kid)) (snd kid))) kids))))"
| "listed ck path (File mode content) = [(path, File mode content)]"
| "listed ck path Special = []"

fun record_node :: "(string \<Rightarrow> string) \<Rightarrow> string \<times> file_tree \<Rightarrow> fields \<times> content_store \<Rightarrow> fields \<times> content_store" where
  "record_node sha (path, Folder mode kids) (es, store) = (if path = [] then es else set_entry es path (directory_entry path mode), store)"
| "record_node sha (path, File mode content) (es, store) =
     (set_entry es path (file_entry path (file_digest sha content) (length content) mode), put_artifact_file sha store content)"
| "record_node sha (path, Special) st = st"

lemma push_children_listed:
  "concat (map (\<lambda>(p, t). listed ck p t) (push_children ck path kids stack)) =
     concat (map snd (sort_key (\<lambda>kid. ck (fst kid)) (rev (map (\<lambda>kid. (fst kid, listed ck (child_path path (fst kid)) (snd kid))) kids))))
     @ concat (map (\<lambda>(p, t). listed ck p t) stack)"
proof -
  have "sort_key (\<lambda>kid. ck (fst kid)) (rev (map (\<lambda>kid. (fst kid, listed ck (child_path path (fst kid)) (snd kid))) kids))
      = map (\<lambda>kid. (fst kid, listed ck (child_path path (fst kid)) (snd kid))) (sort_key (\<lambda>kid. ck (fst kid)) (rev kids))"
    by (simp only: rev_map sort_key_map) (simp add: comp_def)
  then show ?thesis by (simp add: push_children_def comp_def split_beta)
qed

lemma sum_push:
  "sum_list (map (\<lambda>x. nodes (snd x)) (push_children ck path kids stack)) =
     sum_list (map (\<lambda>kid. nodes (snd kid)) kids) + sum_list (map (\<lambda>x. nodes (snd x)) stack)"
proof -
  have "mset (map (\<lambda>kid. nodes (snd kid)) (sort_key (\<lambda>kid. ck (fst kid)) (rev kids))) = mset (map (\<lambda>kid. nodes (snd kid)) kids)" by simp
  then have "sum_list (map (\<lambda>kid. nodes (snd kid)) (sort_key (\<lambda>kid. ck (fst kid)) (rev kids))) = sum_list (map (\<lambda>kid. nodes (snd kid)) kids)"
    by (metis sum_mset_sum_list)
  then show ?thesis by (simp add: push_children_def comp_def)
qed

lemma regular_push:
  "list_all (\<lambda>x. regular_tree (snd x)) (push_children ck path kids stack) \<longleftrightarrow>
     list_all (\<lambda>kid. regular_tree (snd kid)) kids \<and> list_all (\<lambda>x. regular_tree (snd x)) stack"
  by (simp add: push_children_def list_all_iff ball_Un)

lemma nodes_pos: "0 < nodes t"
  by (cases t) auto

lemma walk_tree_lists:
  "visited + sum_list (map (\<lambda>x. nodes (snd x)) stack) \<le> manifest_limit \<and> list_all (\<lambda>x. regular_tree (snd x)) stack \<Longrightarrow>
    walk_tree sha ck visited stack st = Inr (fold (record_node sha) (concat (map (\<lambda>(p, t). listed ck p t) stack)) st)"
proof (induction sha ck visited stack st rule: walk_tree.induct)
  case (2 sha ck visited path t stack es store)
  have l: "visited + 1 \<le> manifest_limit" using 2(3) nodes_pos [of t] by auto
  show ?case
  proof (cases t)
    case (Folder mode kids)
    have "visited + 1 + sum_list (map (\<lambda>x. nodes (snd x)) (push_children ck path kids stack)) \<le> manifest_limit"
      "list_all (\<lambda>x. regular_tree (snd x)) (push_children ck path kids stack)"
      using 2(3) Folder by (simp_all add: sum_push regular_push)
    with 2(1) [OF _ Folder] l Folder show ?thesis by (simp add: push_children_listed)
  next
    case (File mode content)
    then show ?thesis using 2(2) [OF _ File] 2(3) l by simp
  qed (use 2(3) in simp)
qed simp

lemma walk_tree_refuses:
  "\<not> (visited + sum_list (map (\<lambda>x. nodes (snd x)) stack) \<le> manifest_limit \<and> list_all (\<lambda>x. regular_tree (snd x)) stack) \<Longrightarrow>
    visited \<le> manifest_limit \<Longrightarrow> \<exists>e. walk_tree sha ck visited stack st = Inl e"
proof (induction sha ck visited stack st rule: walk_tree.induct)
  case (2 sha ck visited path t stack es store)
  show ?case
  proof (cases "manifest_limit < visited + 1")
    case False
    show ?thesis
    proof (cases t)
      case (Folder mode kids)
      have "\<not> (visited + 1 + sum_list (map (\<lambda>x. nodes (snd x)) (push_children ck path kids stack)) \<le> manifest_limit \<and>
        list_all (\<lambda>x. regular_tree (snd x)) (push_children ck path kids stack))"
        using 2(3) Folder by (simp add: sum_push regular_push)
      with 2(1) [OF False Folder] False Folder show ?thesis by simp
    next
      case (File mode content)
      then show ?thesis using 2(2) [OF False File] 2(3) False by simp
    qed (use False in simp)
  qed simp
qed simp

section \<open>Paths of a tree\<close>

definition good_name :: "string \<Rightarrow> bool" where
  "good_name n \<longleftrightarrow> n \<noteq> [] \<and> CHR ''/'' \<notin> set n \<and> n \<noteq> ''.'' \<and> n \<noteq> ''..'' \<and> n \<noteq> ''__proto__''"

fun good_tree :: "file_tree \<Rightarrow> bool" where
  "good_tree (Folder mode kids) = (distinct (map fst kids) \<and> list_all (\<lambda>kid. good_name (fst kid) \<and> good_tree (snd kid)) kids)"
| "good_tree t = True"

fun node_at :: "file_tree \<Rightarrow> string list \<Rightarrow> file_tree option" where
  "node_at t [] = Some t"
| "node_at (Folder mode kids) (s # ss) = (case map_of kids s of None \<Rightarrow> None | Some t \<Rightarrow> node_at t ss)"
| "node_at t (s # ss) = None"

abbreviation path_of :: "string list \<Rightarrow> string" where
  "path_of \<equiv> js_join ''/''"

lemma path_of_nonempty: "list_all good_name ss \<Longrightarrow> path_of ss = [] \<longleftrightarrow> ss = []"
  by (cases ss rule: remdups_adj.cases) (auto simp: good_name_def)

lemma path_of_snoc: "ss \<noteq> [] \<Longrightarrow> path_of (ss @ [n]) = path_of ss @ ''/'' @ n"
  by (induction ss rule: remdups_adj.induct) (auto simp: js_join_Cons)

lemma child_path_of: "list_all good_name ss \<Longrightarrow> child_path (path_of ss) n = path_of (ss @ [n])"
  by (cases "ss = []") (simp_all add: child_path_def path_of_nonempty path_of_snoc)

lemma path_of_inj: "list_all good_name ss \<Longrightarrow> list_all good_name ts \<Longrightarrow> path_of ss = path_of ts \<longleftrightarrow> ss = ts"
proof
  assume g: "list_all good_name ss" "list_all good_name ts" and eq: "path_of ss = path_of ts"
  show "ss = ts"
  proof (cases "ss = [] \<or> ts = []")
    case True
    then show ?thesis using g eq path_of_nonempty by fastforce
  next
    case False
    then have "split_on (CHR ''/'') (path_of ss) = ss" "split_on (CHR ''/'') (path_of ts) = ts"
      using g by (auto intro!: split_join simp: list_all_iff good_name_def)
    with eq show ?thesis by metis
  qed
qed simp

lemma node_at_good: "good_tree t \<Longrightarrow> node_at t ss = Some n \<Longrightarrow> list_all good_name ss \<and> good_tree n"
  by (induction t ss rule: node_at.induct) (auto simp: list_all_iff split: option.splits dest!: map_of_SomeD)

lemma node_at_prefix: "node_at t (ss @ ts) = Some n \<Longrightarrow> ts \<noteq> [] \<Longrightarrow> \<exists>mode kids. node_at t ss = Some (Folder mode kids)"
proof (induction t ss rule: node_at.induct)
  case (1 t)
  then show ?case by (cases t; cases ts) auto
qed (auto split: option.splits)

lemma set_listed_Folder:
  "set (listed ck path (Folder mode kids)) =
     insert (path, Folder mode kids) (\<Union>kid \<in> set kids. set (listed ck (child_path path (fst kid)) (snd kid)))"
  by auto

lemma in_listed:
  "good_tree t \<Longrightarrow> regular_tree t \<Longrightarrow> list_all good_name up \<Longrightarrow>
    (p, n) \<in> set (listed ck (path_of up) t) \<longleftrightarrow> (\<exists>ss. p = path_of (up @ ss) \<and> node_at t ss = Some n)"
proof (induction t arbitrary: up)
  case (Folder mode kids)
  have d: "distinct (map fst kids)" using Folder.prems by simp
  have kid: "(p, n) \<in> set (listed ck (child_path (path_of up) (fst kid)) (snd kid)) \<longleftrightarrow>
      (\<exists>ss. p = path_of (up @ fst kid # ss) \<and> node_at (snd kid) ss = Some n)" if "kid \<in> set kids" for kid
  proof -
    have "good_tree (snd kid)" "regular_tree (snd kid)" "list_all good_name (up @ [fst kid])"
      using Folder.prems that by (auto simp: list_all_iff)
    then show ?thesis using Folder.IH [of kid "snd kid" "up @ [fst kid]"] that Folder.prems(3)
      by (simp add: child_path_of snds.intros prod_set_simps)
  qed
  show ?case
  proof
    assume "(p, n) \<in> set (listed ck (path_of up) (Folder mode kids))"
    then consider "p = path_of up" "n = Folder mode kids"
      | kid where "kid \<in> set kids" "(p, n) \<in> set (listed ck (child_path (path_of up) (fst kid)) (snd kid))"
      unfolding set_listed_Folder by auto
    then show "\<exists>ss. p = path_of (up @ ss) \<and> node_at (Folder mode kids) ss = Some n"
    proof cases
      case 1
      then show ?thesis by (intro exI [of _ "[]"]) simp
    next
      case 2
      then obtain ss where ss: "p = path_of (up @ fst kid # ss)" "node_at (snd kid) ss = Some n" using kid by blast
      have "map_of kids (fst kid) = Some (snd kid)" using d 2(1) by simp
      with ss show ?thesis by (intro exI [of _ "fst kid # ss"]) simp
    qed
  next
    assume "\<exists>ss. p = path_of (up @ ss) \<and> node_at (Folder mode kids) ss = Some n"
    then obtain ss where ss: "p = path_of (up @ ss)" "node_at (Folder mode kids) ss = Some n" by blast
    show "(p, n) \<in> set (listed ck (path_of up) (Folder mode kids))"
    proof (cases ss)
      case Nil
      with ss show ?thesis unfolding set_listed_Folder by simp
    next
      case (Cons s rest)
      with ss obtain t where t: "map_of kids s = Some t" "node_at t rest = Some n" by (auto split: option.splits)
      then have m: "(s, t) \<in> set kids" by (simp add: map_of_SomeD)
      moreover have "(p, n) \<in> set (listed ck (child_path (path_of up) s) t)"
        using kid [OF m] t(2) ss(1) Cons by auto
      ultimately show ?thesis unfolding set_listed_Folder by force
    qed
  qed
next
  case (File mode content)
  have "node_at (File mode content) ss = Some n \<longleftrightarrow> ss = [] \<and> n = File mode content" for ss by (cases ss) auto
  then show ?case by auto
qed simp

section \<open>The captured entries\<close>

definition entry_of :: "(string \<Rightarrow> string) \<Rightarrow> string \<Rightarrow> file_tree \<Rightarrow> jsv" where
  "entry_of sha p n =
     (case n of Folder mode _ \<Rightarrow> directory_entry p mode
      | File mode content \<Rightarrow> file_entry p (file_digest sha content) (length content) mode | Special \<Rightarrow> Undef)"

lemma record_node_entry:
  "p \<noteq> [] \<Longrightarrow> p \<noteq> ''__proto__'' \<Longrightarrow> n \<noteq> Special \<Longrightarrow>
    jm_get (fst (record_node sha (p, n) st)) q = (if q = p then Some (entry_of sha p n) else jm_get (fst st) q)"
  by (cases st; cases n) (auto simp: entry_of_def jm_get_set_entry)

lemma record_other [simp]: "fst (record_node sha ([], Folder mode kids) st) = fst st"
  by (cases st) auto

lemma fold_record:
  assumes "\<forall>x \<in> set L. fst x \<noteq> ''__proto__'' \<and> snd x \<noteq> Special \<and> (fst x = [] \<longrightarrow> (\<exists>mode kids. snd x = Folder mode kids))"
    and "\<forall>a b c. (a, b) \<in> set L \<longrightarrow> (a, c) \<in> set L \<longrightarrow> b = c"
  shows "jm_get (fst (fold (record_node sha) L st)) q =
    (case (if q = [] then None else map_of L q) of Some n \<Rightarrow> Some (entry_of sha q n) | None \<Rightarrow> jm_get (fst st) q)"
  using assms
proof (induction L arbitrary: st)
  case (Cons x L)
  obtain p n where x: "x = (p, n)" by (cases x)
  have IH: "jm_get (fst (fold (record_node sha) L st')) q =
    (case (if q = [] then None else map_of L q) of Some n \<Rightarrow> Some (entry_of sha q n) | None \<Rightarrow> jm_get (fst st') q)" for st'
    using Cons by (intro Cons.IH) auto
  have same: "map_of L p = Some m \<Longrightarrow> m = n" for m using Cons.prems(2) x by (auto dest: map_of_SomeD)
  show ?case
  proof (cases "p = []")
    case True
    then show ?thesis using Cons.prems(1) x by (auto simp: IH split: option.splits)
  next
    case False
    then show ?thesis using Cons.prems(1) x same by (auto simp: IH record_node_entry split: option.splits)
  qed
qed simp

lemma captured_entries:
  assumes g: "good_tree t" "regular_tree t" "t = Folder mode kids"
    and es: "es = fst (fold (record_node sha) (listed ck [] t) ([], store))"
  shows "ss \<noteq> [] \<Longrightarrow> node_at t ss = Some n \<Longrightarrow> jm_get es (path_of ss) = Some (entry_of sha (path_of ss) n)"
    and "jm_get es q = Some e \<Longrightarrow> \<exists>ss n. ss \<noteq> [] \<and> q = path_of ss \<and> node_at t ss = Some n \<and> e = entry_of sha q n"
proof -
  let ?L = "listed ck [] t"
  have L: "(p, n) \<in> set ?L \<longleftrightarrow> (\<exists>ss. p = path_of ss \<and> node_at t ss = Some n)" for p n
    using in_listed [OF g(1,2), of "[]" p n ck] by simp
  have not_special: "node_at t ss \<noteq> Some Special" for ss
  proof -
    have "regular_tree t \<Longrightarrow> node_at t ss = Some n \<Longrightarrow> regular_tree n" for t n
      by (induction t ss rule: node_at.induct) (auto simp: list_all_iff split: option.splits dest!: map_of_SomeD)
    then show ?thesis using g(2) by fastforce
  qed
  have root: "path_of ss = [] \<longleftrightarrow> ss = []" if "node_at t ss = Some n" for ss n
    using node_at_good [OF g(1) that] by (simp add: path_of_nonempty)
  have proto: "path_of ss \<noteq> ''__proto__''" if "node_at t ss = Some n" for ss n
  proof (cases "length ss \<le> 1")
    case True
    then show ?thesis using node_at_good [OF g(1) that] by (cases ss) (auto simp: good_name_def)
  next
    case False
    then obtain a b r where "ss = a # b # r" by (cases ss rule: remdups_adj.cases) auto
    then have "CHR ''/'' \<in> set (path_of ss)" by simp
    then show ?thesis by auto
  qed
  have ok: "\<forall>x \<in> set ?L. fst x \<noteq> ''__proto__'' \<and> snd x \<noteq> Special \<and> (fst x = [] \<longrightarrow> (\<exists>mode kids. snd x = Folder mode kids))"
  proof (intro ballI conjI impI)
    fix x assume "x \<in> set ?L"
    then obtain ss where ss: "fst x = path_of ss" "node_at t ss = Some (snd x)" using L [of "fst x" "snd x"] by auto
    show "fst x \<noteq> ''__proto__''" "snd x \<noteq> Special" using ss proto not_special by auto
    assume "fst x = []"
    then have "ss = []" using ss root by simp
    then have "snd x = Folder mode kids" using ss g(3) by simp
    then show "\<exists>mode kids. snd x = Folder mode kids" by blast
  qed
  have uniq: "\<forall>a b c. (a, b) \<in> set ?L \<longrightarrow> (a, c) \<in> set ?L \<longrightarrow> b = c"
  proof (intro allI impI)
    fix a b c assume "(a, b) \<in> set ?L" "(a, c) \<in> set ?L"
    then obtain ss ts where "a = path_of ss" "node_at t ss = Some b" "a = path_of ts" "node_at t ts = Some c" using L by blast
    then show "b = c" using node_at_good [OF g(1)] path_of_inj by (metis option.inject)
  qed
  have get: "jm_get es q = (case (if q = [] then None else map_of ?L q) of Some n \<Rightarrow> Some (entry_of sha q n) | None \<Rightarrow> None)" for q
    using fold_record [OF ok uniq, of sha "([], store)" q] by (simp add: es split: option.splits)
  show "jm_get es (path_of ss) = Some (entry_of sha (path_of ss) n)" if "ss \<noteq> []" "node_at t ss = Some n"
  proof -
    have "(path_of ss, n) \<in> set ?L" using L that(2) by blast
    then obtain m where m: "map_of ?L (path_of ss) = Some m" by (metis map_of_eq_None_iff fst_conv image_eqI not_None_eq)
    then have "m = n" using uniq \<open>(path_of ss, n) \<in> set ?L\<close> map_of_SomeD by metis
    then show ?thesis using m root that by (simp add: get)
  qed
  show "\<exists>ss n. ss \<noteq> [] \<and> q = path_of ss \<and> node_at t ss = Some n \<and> e = entry_of sha q n" if "jm_get es q = Some e"
  proof -
    from that obtain n where n: "q \<noteq> []" "map_of ?L q = Some n" "e = entry_of sha q n" by (auto simp: get split: if_splits option.splits)
    then have "(q, n) \<in> set ?L" by (simp add: map_of_SomeD)
    then obtain ss where "q = path_of ss" "node_at t ss = Some n" using L by blast
    with n show ?thesis by (metis js_join.simps(1))
  qed
qed

text \<open>Every stored content sits under its own digest; contents with different digests stay apart.\<close>

definition store_ok :: "(string \<Rightarrow> string) \<Rightarrow> string set \<Rightarrow> content_store \<Rightarrow> bool" where
  "store_ok sha A store \<longleftrightarrow> (\<forall>d c. jm_get store d = Some c \<longrightarrow> d = file_digest sha c \<and> c \<in> A)"

lemma put_keeps: "jm_get store d = Some c \<Longrightarrow> jm_get (put_artifact_file sha store content) d = Some c"
  by (auto simp: put_artifact_file_def dest: map_of_SomeD intro: rev_image_eqI)

lemma put_ok: "store_ok sha A store \<Longrightarrow> c \<in> A \<Longrightarrow> store_ok sha A (put_artifact_file sha store c)"
  by (auto simp: store_ok_def put_artifact_file_def split: if_splits)

lemma put_stores:
  assumes "store_ok sha A store" "inj_on sha A" "c \<in> A"
  shows "jm_get (put_artifact_file sha store c) (file_digest sha c) = Some c"
proof (cases "jm_get store (file_digest sha c)")
  case None
  then show ?thesis by (simp add: put_artifact_file_def jm_has_def del: jm_has_iff)
next
  case (Some c')
  then have "file_digest sha c = file_digest sha c'" "c' \<in> A" using assms(1) by (auto simp: store_ok_def)
  then have "c' = c" using assms(2,3) by (auto simp: file_digest_def inj_on_def)
  with Some put_keeps show ?thesis by metis
qed

lemma record_store:
  "snd (record_node sha x st) = (case snd x of File m c \<Rightarrow> put_artifact_file sha (snd st) c | _ \<Rightarrow> snd st)"
  by (cases x; cases st; cases "snd x") auto

lemma record_keeps: "jm_get (snd st) d = Some c \<Longrightarrow> jm_get (snd (record_node sha x st)) d = Some c"
  by (auto simp: record_store put_keeps split: file_tree.split)

lemma fold_keeps: "jm_get (snd st) d = Some c \<Longrightarrow> jm_get (snd (fold (record_node sha) L st)) d = Some c"
  by (induction L arbitrary: st) (simp_all add: record_keeps)

lemma stored_contents:
  assumes "inj_on sha A" "store_ok sha A (snd st)" "\<And>p m c. (p, File m c) \<in> set L \<Longrightarrow> c \<in> A" "(p, File m c) \<in> set L"
  shows "jm_get (snd (fold (record_node sha) L st)) (file_digest sha c) = Some c"
  using assms(2-)
proof (induction L arbitrary: st)
  case (Cons x L)
  have c: "snd x = File m c \<Longrightarrow> c \<in> A" for m c using Cons.prems(2) [of "fst x" m c] by (cases x) auto
  have ok: "store_ok sha A (snd (record_node sha x st))"
    using Cons.prems(1) c by (auto simp: record_store put_ok split: file_tree.split)
  show ?case
  proof (cases "(p, File m c) = x")
    case True
    then have "jm_get (snd (record_node sha x st)) (file_digest sha c) = Some c"
      using put_stores [OF Cons.prems(1) assms(1)] c by (auto simp: record_store)
    then show ?thesis by (simp add: fold_keeps)
  next
    case False
    with Cons.IH [OF ok] Cons.prems show ?thesis by auto
  qed
qed simp

section \<open>Writing the entries of a tree\<close>

definition is_regular :: "node option \<Rightarrow> bool" where
  "is_regular x \<longleftrightarrow> (\<exists>c m. x = Some (Regular c m))"

lemma make_dirs_ok:
  assumes "\<And>k. 0 < k \<Longrightarrow> k \<le> length ss \<Longrightarrow> \<not> is_regular (jm_get d (up @ take k ss))"
  shows "\<exists>d'. make_dirs mode up ss d = (d', None) \<and>
    (\<forall>q. jm_get d' q = (if jm_get d q = None \<and> (\<exists>k. 0 < k \<and> k \<le> length ss \<and> q = up @ take k ss) then Some (Directory mode) else jm_get d q))"
  using assms
proof (induction ss arbitrary: up d)
  case (Cons s ss)
  have prefixes: "(\<exists>k. 0 < k \<and> k \<le> length (s # ss) \<and> q = up @ take k (s # ss)) \<longleftrightarrow>
      q = up @ [s] \<or> (\<exists>k. 0 < k \<and> k \<le> length ss \<and> q = (up @ [s]) @ take k ss)" for q
  proof
    assume "\<exists>k. 0 < k \<and> k \<le> length (s # ss) \<and> q = up @ take k (s # ss)"
    then obtain k where "0 < k" "k \<le> length (s # ss)" "q = up @ take k (s # ss)" by blast
    then show "q = up @ [s] \<or> (\<exists>k. 0 < k \<and> k \<le> length ss \<and> q = (up @ [s]) @ take k ss)"
      by (cases "k = 1") (auto simp: take_Cons' intro!: exI [of _ "k - 1"])
  next
    assume "q = up @ [s] \<or> (\<exists>k. 0 < k \<and> k \<le> length ss \<and> q = (up @ [s]) @ take k ss)"
    then show "\<exists>k. 0 < k \<and> k \<le> length (s # ss) \<and> q = up @ take k (s # ss)"
      by (auto intro: exI [of _ 1] exI [of _ "Suc k" for k])
  qed
  have tail: "\<not> is_regular (jm_get d ((up @ [s]) @ take k ss))" if "0 < k" "k \<le> length ss" for k
    using Cons.prems [of "Suc k"] that by simp
  have first: "\<not> is_regular (jm_get d (up @ [s]))" using Cons.prems [of 1] by simp
  have longer: "up @ [s] \<noteq> (up @ [s]) @ take k ss" if "0 < k" "k \<le> length ss" for k using that by auto
  show ?case
  proof (cases "jm_get d (up @ [s])")
    case None
    let ?d = "jm_set d (up @ [s]) (Directory mode)"
    have "\<not> is_regular (jm_get ?d ((up @ [s]) @ take k ss))" if "0 < k" "k \<le> length ss" for k
      using tail [OF that] by (simp add: is_regular_def)
    from Cons.IH [of ?d "up @ [s]", OF this] None show ?thesis unfolding prefixes by (auto simp: longer)
  next
    case (Some x)
    with first obtain m where "x = Directory m" by (cases x) (auto simp: is_regular_def)
    with Some Cons.IH [of d "up @ [s]", OF tail] show ?thesis unfolding prefixes by auto
  qed
qed simp

end
