(* ===== verification/FileTreeProperties.thy ===== *)
theory FileTreeProperties
  imports FileTreeFacts
begin

text \<open>
  Capturing a directory and writing it back: what survives, what is refused, and where the writes go.
\<close>

section \<open>Writing the entries of a tree\<close>

lemma normalize_good: "list_all good_name ss \<Longrightarrow> normalize_segments acc ss = acc @ ss"
  by (induction acc ss rule: normalize_segments.induct) (auto simp: good_name_def)

lemma resolve_path_of:
  assumes "list_all good_name ss" "ss \<noteq> []"
  shows "resolve_path dest (path_of ss) = dest @ ss"
proof -
  have "split_on (CHR ''/'') (path_of ss) = ss" using assms by (intro split_join) (auto simp: list_all_iff good_name_def)
  moreover obtain c r where "path_of ss = c # r" "c \<noteq> CHR ''/''"
    using assms by (cases ss rule: remdups_adj.cases) (auto simp: good_name_def neq_Nil_conv)
  ultimately show ?thesis using assms(1) by (simp add: resolve_path_def starts_with_def normalize_good)
qed

text \<open>The disk while the entries of a tree are written below a destination.\<close>

definition node_matches :: "file_tree \<Rightarrow> node \<Rightarrow> bool" where
  "node_matches n x = (case n of Folder _ _ \<Rightarrow> (\<exists>m. x = Directory m) | File _ c \<Rightarrow> x = Regular c artifact_mode | Special \<Rightarrow> False)"

definition writing :: "file_tree \<Rightarrow> string list \<Rightarrow> string list set \<Rightarrow> disk \<Rightarrow> bool" where
  "writing t dest done_paths d \<longleftrightarrow>
     (\<forall>k. 0 < k \<longrightarrow> k \<le> length dest \<longrightarrow> (\<exists>m. jm_get d (take k dest) = Some (Directory m))) \<and>
     (\<forall>ss x. ss \<noteq> [] \<longrightarrow> jm_get d (dest @ ss) = Some x \<longrightarrow> (\<exists>n. node_at t ss = Some n \<and> node_matches n x)) \<and>
     (\<forall>ss \<in> done_paths. jm_get d (dest @ ss) \<noteq> None)"

lemma prefix_cases:
  assumes "0 < k" "k \<le> length (dest @ ss)"
  obtains "k \<le> length dest" "take k (dest @ ss) = take k dest"
  | j where "0 < j" "j \<le> length ss" "take k (dest @ ss) = dest @ take j ss"
proof (cases "k \<le> length dest")
  case False
  then show thesis using assms by (intro that(2) [of "k - length dest"]) auto
qed (auto intro: that)

lemma writing_node: "writing t dest W d \<Longrightarrow> q \<noteq> [] \<Longrightarrow> jm_get d (dest @ q) = Some x \<Longrightarrow> \<exists>n. node_at t q = Some n \<and> node_matches n x"
  by (simp add: writing_def)

lemma writing_base: "writing t dest W d \<Longrightarrow> 0 < k \<Longrightarrow> k \<le> length dest \<Longrightarrow> \<exists>m. jm_get d (take k dest) = Some (Directory m)"
  by (simp add: writing_def)

lemma writing_subset: "writing t dest W d \<Longrightarrow> W' \<subseteq> W \<Longrightarrow> writing t dest W' d"
  by (auto simp: writing_def)

definition folder_path :: "file_tree \<Rightarrow> string list \<Rightarrow> bool" where
  "folder_path t ss \<longleftrightarrow> (\<forall>j. \<exists>mode kids. node_at t (take j ss) = Some (Folder mode kids))"

lemma folder_path_self: "node_at t ss = Some (Folder mode kids) \<Longrightarrow> folder_path t ss"
  unfolding folder_path_def
proof
  fix j assume n: "node_at t ss = Some (Folder mode kids)"
  show "\<exists>mode kids. node_at t (take j ss) = Some (Folder mode kids)"
  proof (cases "drop j ss = []")
    case True
    then show ?thesis using n by simp
  next
    case False
    then show ?thesis using n by (intro node_at_prefix [where ts = "drop j ss"]) auto
  qed
qed

lemma folder_path_parent: "node_at t (ss @ [r]) = Some n \<Longrightarrow> folder_path t ss"
  using node_at_prefix [of t ss "[r]" n] folder_path_self by auto

lemma writing_prefix:
  assumes w: "writing t dest W d" and n: "folder_path t ss" and k: "0 < k" "k \<le> length (dest @ ss)"
  shows "\<not> is_regular (jm_get d ([] @ take k (dest @ ss)))"
proof (rule prefix_cases [OF k])
  assume "k \<le> length dest" "take k (dest @ ss) = take k dest"
  moreover from this obtain m where "jm_get d (take k dest) = Some (Directory m)" using writing_base [OF w k(1)] by blast
  ultimately show ?thesis by (simp add: is_regular_def)
next
  fix j assume j: "0 < j" "j \<le> length ss" "take k (dest @ ss) = dest @ take j ss"
  obtain mode kids where f: "node_at t (take j ss) = Some (Folder mode kids)" using n unfolding folder_path_def by blast
  have ne: "take j ss \<noteq> []" using j by (cases ss) auto
  have "\<exists>m. x = Directory m" if "jm_get d (dest @ take j ss) = Some x" for x
  proof -
    obtain m where m: "node_at t (take j ss) = Some m" "node_matches m x" using writing_node [OF w ne \<open>_ = Some x\<close>] by blast
    with f have "m = Folder mode kids" by simp
    then show ?thesis using m(2) by (simp add: node_matches_def)
  qed
  then show ?thesis unfolding append_Nil j(3) by (auto simp: is_regular_def)
qed

lemma writing_dirs:
  assumes w: "writing t dest W d" and n: "folder_path t ss"
  shows "\<exists>d'. make_dirs mode [] (dest @ ss) d = (d', None) \<and> writing t dest W d' \<and> (ss \<noteq> [] \<longrightarrow> jm_get d' (dest @ ss) \<noteq> None)
    \<and> (\<forall>q. q \<noteq> [] \<longrightarrow> (\<forall>j. q \<noteq> take j ss) \<longrightarrow> jm_get d' (dest @ q) = jm_get d (dest @ q))"
proof -
  obtain d' where d': "make_dirs mode [] (dest @ ss) d = (d', None)"
    and g: "\<And>q. jm_get d' q = (if jm_get d q = None \<and> (\<exists>k. 0 < k \<and> k \<le> length (dest @ ss) \<and> q = [] @ take k (dest @ ss)) then Some (Directory mode) else jm_get d q)"
    using make_dirs_ok [of "dest @ ss" d "[]" mode] writing_prefix [OF w n] by blast
  have keep: "jm_get d q = Some x \<Longrightarrow> jm_get d' q = Some x" for q x by (simp add: g)
  have fresh: "\<exists>m. node_at t q = Some m \<and> node_matches m (Directory mode)"
    if "q \<noteq> []" "0 < k" "k \<le> length (dest @ ss)" "dest @ q = take k (dest @ ss)" for q k
  proof (rule prefix_cases [OF that(2,3)])
    assume "k \<le> length dest" "take k (dest @ ss) = take k dest"
    then have "length (dest @ q) \<le> length dest" using that(4) by simp
    then show ?thesis using that(1) by simp
  next
    fix j assume j: "0 < j" "j \<le> length ss" "take k (dest @ ss) = dest @ take j ss"
    then have "q = take j ss" using that(4) by simp
    moreover have "\<exists>m kids. node_at t (take j ss) = Some (Folder m kids)" using n by (simp add: folder_path_def)
    ultimately show ?thesis by (auto simp: node_matches_def)
  qed
  have "writing t dest W d'"
    unfolding writing_def
  proof (intro conjI allI impI ballI)
    fix k assume "0 < k" "k \<le> length dest"
    then show "\<exists>m. jm_get d' (take k dest) = Some (Directory m)" using w keep unfolding writing_def by blast
  next
    fix q x assume q: "q \<noteq> []" "jm_get d' (dest @ q) = Some x"
    show "\<exists>m. node_at t q = Some m \<and> node_matches m x"
    proof (cases "jm_get d (dest @ q)")
      case None
      then have x: "x = Directory mode" "\<exists>k. 0 < k \<and> k \<le> length (dest @ ss) \<and> dest @ q = take k (dest @ ss)"
        using q(2) by (auto simp: g split: if_splits)
      then show ?thesis using fresh [OF q(1)] by blast
    next
      case (Some y)
      then show ?thesis using q w keep [OF Some] by (auto simp: writing_def)
    qed
  next
    fix q assume "q \<in> W"
    then show "jm_get d' (dest @ q) \<noteq> None" using w keep unfolding writing_def by fastforce
  qed
  moreover have "jm_get d' (dest @ ss) \<noteq> None" if "ss \<noteq> []"
  proof (cases "jm_get d (dest @ ss)")
    case None
    have "0 < length (dest @ ss)" "dest @ ss = [] @ take (length (dest @ ss)) (dest @ ss)" using that by auto
    then show ?thesis unfolding g by (metis le_refl option.distinct(1))
  qed (simp add: keep)
  moreover have "jm_get d' (dest @ q) = jm_get d (dest @ q)" if "q \<noteq> []" "\<forall>j. q \<noteq> take j ss" for q
  proof -
    have "\<not> (\<exists>k. 0 < k \<and> k \<le> length (dest @ ss) \<and> dest @ q = take k (dest @ ss))"
    proof
      assume "\<exists>k. 0 < k \<and> k \<le> length (dest @ ss) \<and> dest @ q = take k (dest @ ss)"
      then obtain k where k: "0 < k" "k \<le> length (dest @ ss)" "dest @ q = take k (dest @ ss)" by blast
      show False
      proof (rule prefix_cases [OF k(1,2)])
        assume "k \<le> length dest" "take k (dest @ ss) = take k dest"
        then have "length (dest @ q) \<le> length dest" using k(3) by simp
        then show False using that(1) by simp
      qed (use k(3) that(2) in auto)
    qed
    then show ?thesis by (simp add: g)
  qed
  ultimately show ?thesis using d' by blast
qed

lemma write_tree_entry:
  assumes w: "writing t dest W d" and dest: "dest \<noteq> []" and g: "good_tree t"
    and n: "ss \<noteq> []" "node_at t ss = Some n" "n \<noteq> Special"
    and store: "\<And>m c. n = File m c \<Longrightarrow> jm_get store (file_digest sha c) = Some c"
  shows "\<exists>d'. write_entry umask store dest (entry_of sha (path_of ss) n) d = (d', None) \<and> writing t dest (insert ss W) d'"
proof -
  have good: "list_all good_name ss" using node_at_good [OF g n(2)] by simp
  have r: "resolve_path dest (path_of ss) = dest @ ss" using resolve_path_of [OF good n(1)] by simp
  have inside: "dest \<noteq> [] \<and> take (length dest) (dest @ ss) = dest" using dest by simp
  show ?thesis
  proof (cases n)
    case (Folder mode kids)
    have f: "folder_path t ss" using n(2) Folder by (simp add: folder_path_self)
    let ?m = "umask (mode mod 512)"
    obtain d' where d': "make_dirs ?m [] (dest @ ss) d = (d', None)" "writing t dest W d'" "jm_get d' (dest @ ss) \<noteq> None"
      using writing_dirs [OF w f, of ?m] n(1) by blast
    have e: "fld (entry_of sha (path_of ss) n) ''path'' = Str (path_of ss)" "fld (entry_of sha (path_of ss) n) ''kind'' = Str ''directory''"
      "fld (entry_of sha (path_of ss) n) ''mode'' = Num (JInt (int (mode mod 512)))"
      by (simp_all add: Folder entry_of_def directory_entry_def fld_def)
    have "write_entry umask store dest (entry_of sha (path_of ss) n) d = (d', None)"
      using d'(1) inside by (simp add: write_entry_def e r)
    moreover have "writing t dest (insert ss W) d'" using d'(2,3) by (auto simp: writing_def)
    ultimately show ?thesis by blast
  next
    case (File mode content)
    obtain ps s where ps: "ss = ps @ [s]" using n(1) by (metis rev_exhaust)
    have f: "folder_path t ps" using n(2) ps folder_path_parent by blast
    let ?m = "umask 511" and ?x = "Regular content artifact_mode"
    obtain d' where d': "make_dirs ?m [] (dest @ ps) d = (d', None)" "writing t dest W d'"
      using writing_dirs [OF w f, of ?m] by blast
    have not_dir: "jm_get d' (dest @ ss) \<noteq> Some (Directory m)" for m
    proof
      assume "jm_get d' (dest @ ss) = Some (Directory m)"
      then obtain n' where n': "node_at t ss = Some n'" "node_matches n' (Directory m)" using writing_node [OF d'(2) n(1)] by blast
      then have "n' = File mode content" using n(2) File by simp
      then show False using n'(2) by (simp add: node_matches_def)
    qed
    have e: "fld (entry_of sha (path_of ss) n) ''path'' = Str (path_of ss)" "fld (entry_of sha (path_of ss) n) ''kind'' = Str ''file''"
      "fld (entry_of sha (path_of ss) n) ''digest'' = Str (file_digest sha content)"
      by (simp_all add: File entry_of_def file_entry_def fld_def)
    have tr: "file_digest sha content \<noteq> []" by (simp add: file_digest_def)
    have c: "copy_file content (dest @ ss) d' = (jm_set d' (dest @ ss) ?x, None)"
      using not_dir by (auto simp: copy_file_def split: option.split node.split)
    have "write_entry umask store dest (entry_of sha (path_of ss) n) d = (jm_set d' (dest @ ss) ?x, None)"
      using d'(1) c inside tr
      by (simp add: write_entry_def e r store [OF File] and_then_def ps [THEN arg_cong, of butlast] butlast_append [of dest ss] n(1))
    moreover have "writing t dest (insert ss W) (jm_set d' (dest @ ss) ?x)"
      unfolding writing_def
    proof (intro conjI allI impI ballI)
      fix k assume k: "0 < k" "k \<le> length dest"
      have "length (take k dest) < length (dest @ ss)" using n(1) k(2) by (cases ss) auto
      then have "take k dest \<noteq> dest @ ss" by (metis less_irrefl)
      then show "\<exists>m. jm_get (jm_set d' (dest @ ss) ?x) (take k dest) = Some (Directory m)"
        using d'(2) k by (simp add: writing_def)
    next
      fix q x assume q: "q \<noteq> []" "jm_get (jm_set d' (dest @ ss) ?x) (dest @ q) = Some x"
      show "\<exists>n. node_at t q = Some n \<and> node_matches n x"
      proof (cases "q = ss")
        case True
        then show ?thesis using q n(2) File by (simp add: node_matches_def)
      next
        case False
        then show ?thesis using q d'(2) by (simp add: writing_def)
      qed
    next
      fix q assume "q \<in> insert ss W"
      then show "jm_get (jm_set d' (dest @ ss) ?x) (dest @ q) \<noteq> None" using d'(2) by (auto simp: writing_def)
    qed
    ultimately show ?thesis by blast
  qed (use n in simp)
qed

lemma write_tree_entries:
  assumes "writing t dest W d" "dest \<noteq> []" "good_tree t"
    and "\<And>e. e \<in> set es \<Longrightarrow> \<exists>ss n. ss \<noteq> [] \<and> node_at t ss = Some n \<and> n \<noteq> Special \<and> e = entry_of sha (path_of ss) n"
    and store: "\<And>ss m c. node_at t ss = Some (File m c) \<Longrightarrow> jm_get store (file_digest sha c) = Some c"
  shows "\<exists>d'. write_entries umask store dest es d = (d', None) \<and>
    writing t dest (W \<union> {ss. ss \<noteq> [] \<and> (\<exists>n. node_at t ss = Some n \<and> entry_of sha (path_of ss) n \<in> set es)}) d'"
  using assms(1,4)
proof (induction es arbitrary: W d)
  case (Cons e es)
  obtain ss n where e: "ss \<noteq> []" "node_at t ss = Some n" "n \<noteq> Special" "e = entry_of sha (path_of ss) n"
    using Cons.prems(2) [of e] by auto
  obtain d1 where d1: "write_entry umask store dest e d = (d1, None)" "writing t dest (insert ss W) d1"
    using write_tree_entry [OF Cons.prems(1) assms(2,3) e(1-3), where store = store and sha = sha and umask = umask] store e(2,4) by blast
  obtain d2 where d2: "write_entries umask store dest es d1 = (d2, None)"
    "writing t dest (insert ss W \<union> {ss. ss \<noteq> [] \<and> (\<exists>n. node_at t ss = Some n \<and> entry_of sha (path_of ss) n \<in> set es)}) d2"
    using Cons.IH [OF d1(2)] Cons.prems(2) by auto
  have same: "q = ss" if q: "node_at t q = Some m" "entry_of sha (path_of q) m = e" for q m
  proof -
    have p: "fld (entry_of sha (path_of q) m) ''path'' = Str (path_of q) \<or> m = Special" for q m
      by (cases m) (auto simp: entry_of_def directory_entry_def file_entry_def fld_def)
    have "m \<noteq> Special" using q(2) e(3,4) by (cases n) (auto simp: entry_of_def directory_entry_def file_entry_def)
    then have "path_of q = path_of ss" using p [of q m] p [of ss n] q(2) e(3,4) by auto
    then show ?thesis using path_of_inj node_at_good [OF assms(3)] q(1) e(2) by blast
  qed
  have "{q. q \<noteq> [] \<and> (\<exists>n. node_at t q = Some n \<and> entry_of sha (path_of q) n \<in> set (e # es))}
      \<subseteq> insert ss {q. q \<noteq> [] \<and> (\<exists>n. node_at t q = Some n \<and> entry_of sha (path_of q) n \<in> set es)}"
    using same by auto
  then have "writing t dest (W \<union> {q. q \<noteq> [] \<and> (\<exists>n. node_at t q = Some n \<and> entry_of sha (path_of q) n \<in> set (e # es))}) d2"
    by (intro writing_subset [OF d2(2)]) auto
  then show ?case using d1(1) d2(1) by (simp add: and_then_def)
qed simp

section \<open>Capture and restore\<close>

definition fresh_below :: "string list \<Rightarrow> disk \<Rightarrow> bool" where
  "fresh_below dest d \<longleftrightarrow> dest \<noteq> [] \<and> (\<forall>k. \<not> is_regular (jm_get d (take k dest))) \<and> (\<forall>ss. ss \<noteq> [] \<longrightarrow> jm_get d (dest @ ss) = None)"

lemma writing_start:
  assumes "fresh_below dest d"
  shows "\<exists>d'. make_dirs mode [] dest d = (d', None) \<and> writing t dest {} d'"
proof -
  obtain d' where d': "make_dirs mode [] dest d = (d', None)"
    and g: "\<And>q. jm_get d' q = (if jm_get d q = None \<and> (\<exists>k. 0 < k \<and> k \<le> length dest \<and> q = [] @ take k dest) then Some (Directory mode) else jm_get d q)"
    using make_dirs_ok [of dest d "[]" mode] assms by (auto simp: fresh_below_def)
  have "\<exists>m. jm_get d' (take k dest) = Some (Directory m)" if "0 < k" "k \<le> length dest" for k
  proof (cases "jm_get d (take k dest)")
    case None
    then show ?thesis using that by (auto simp: g)
  next
    case (Some x)
    then obtain m where "x = Directory m" using assms by (cases x) (auto simp: fresh_below_def is_regular_def)
    then show ?thesis using Some by (simp add: g)
  qed
  moreover have "jm_get d' (dest @ ss) = None" if "ss \<noteq> []" for ss
  proof -
    have "dest @ ss \<noteq> take k dest" for k
    proof
      assume "dest @ ss = take k dest"
      then have "length (dest @ ss) \<le> length dest" by (metis length_take min.cobounded1)
      then show False using that by simp
    qed
    then show ?thesis using assms that by (simp add: g fresh_below_def)
  qed
  ultimately show ?thesis using d' by (auto simp: writing_def)
qed

definition contents :: "file_tree \<Rightarrow> string set" where
  "contents t = {c. \<exists>ss m. node_at t ss = Some (File m c)}"

lemma keys_captured:
  assumes g: "good_tree t" "regular_tree t" "t = Folder mode kids"
    and es: "es = fst (fold (record_node sha) (listed ck [] t) ([], store))"
  shows "distinct (jm_keys es)"
proof -
  have step: "distinct (jm_keys (fst (record_node sha x st)))" if "distinct (jm_keys (fst st))" for x :: "string \<times> file_tree" and st
    using that by (cases x; cases st; cases "snd x") (auto simp: set_entry_def)
  have "distinct (jm_keys (fst st)) \<Longrightarrow> distinct (jm_keys (fst (fold (record_node sha) L st)))" for L st
    by (induction L arbitrary: st) (simp_all add: step)
  then show ?thesis by (simp add: es)
qed

lemma node_regular: "regular_tree t \<Longrightarrow> node_at t ss = Some n \<Longrightarrow> regular_tree n"
  by (induction t ss rule: node_at.induct) (auto simp: list_all_iff split: option.splits dest!: map_of_SomeD)

text \<open>The manifest of a tree lists exactly the nodes below its root, and the store holds every file.\<close>

definition captured_values :: "(string \<Rightarrow> string) \<Rightarrow> file_tree \<Rightarrow> jsv set" where
  "captured_values sha t = {e. \<exists>ss n. ss \<noteq> [] \<and> node_at t ss = Some n \<and> n \<noteq> Special \<and> e = entry_of sha (path_of ss) n}"

lemma capture_result:
  assumes t: "t = Folder mode kids" "good_tree t" "regular_tree t" "nodes t \<le> manifest_limit"
    and store: "inj_on sha A" "contents t \<subseteq> A" "store_ok sha A store"
  obtains m store' where "create_file_manifest_async sha ck store t = Inr (m, store')"
    "snd ` set (own_fields (manifest_entries m)) = captured_values sha t"
    "\<And>ss md c. node_at t ss = Some (File md c) \<Longrightarrow> jm_get store' (file_digest sha c) = Some c"
proof -
  let ?r = "fold (record_node sha) (listed ck [] t) ([], store)"
  let ?m = "mk_manifest sha ck (mk_obj (fst ?r))"
  have "walk_tree sha ck 0 [([], t)] ([], store) = Inr ?r"
    using walk_tree_lists [of 0 "[([], t)]" sha ck "([], store)"] t by simp
  then have created: "create_file_manifest_async sha ck store t = Inr (?m, snd ?r)"
    by (simp add: create_file_manifest_async_def split_beta del: walk_tree.simps)
  note captured = captured_entries [where sha = sha and ck = ck and store = store, OF t(2,3,1) refl]
  have dist: "distinct (jm_keys (fst ?r))" using keys_captured [OF t(2,3,1) refl] .
  have listed: "(p, n) \<in> set (listed ck [] t) \<longleftrightarrow> (\<exists>ss. p = path_of ss \<and> node_at t ss = Some n)" for p n
    using in_listed [OF t(2,3), of "[]" p n ck] by simp
  have stored: "jm_get (snd ?r) (file_digest sha c) = Some c" if "node_at t ss = Some (File md c)" for ss md c
  proof (rule stored_contents [OF store(1)])
    show "(path_of ss, File md c) \<in> set (listed ck [] t)" using listed that by blast
    show "store_ok sha A (snd ([] :: fields, store))" using store(3) by simp
    show "c \<in> A" if "(p, File m c) \<in> set (listed ck [] t)" for p m c
      using that listed store(2) unfolding contents_def by blast
  qed
  have "snd ` set (fst ?r) = captured_values sha t"
  proof (intro set_eqI iffI)
    fix e assume "e \<in> snd ` set (fst ?r)"
    then obtain q where "jm_get (fst ?r) q = Some e" using dist by auto
    then obtain ss n where n: "ss \<noteq> []" "node_at t ss = Some n" "e = entry_of sha (path_of ss) n" using captured(2) by blast
    then have "n \<noteq> Special" using node_regular [OF t(3) n(2)] by auto
    with n show "e \<in> captured_values sha t" by (auto simp: captured_values_def)
  next
    fix e assume "e \<in> captured_values sha t"
    then have "\<exists>q. jm_get (fst ?r) q = Some e" using captured(1) unfolding captured_values_def by blast
    then show "e \<in> snd ` set (fst ?r)" by (force dest: map_of_SomeD)
  qed
  then have "snd ` set (own_fields (manifest_entries ?m)) = captured_values sha t"
    by (simp add: manifest_entries_def mk_manifest_def fld_def)
  from that [OF created this stored] show thesis .
qed



text \<open>C25. A capture is refused exactly when the tree has more than 100,000 nodes or contains a symbolic link or another
  special file; the walk terminates on every tree, because it counts the nodes it pops.\<close>
theorem capture_limit:
  "(\<exists>m. create_file_manifest sha ck t = Inr m) \<longleftrightarrow> nodes t \<le> 100000 \<and> regular_tree t"
proof (cases "nodes t \<le> manifest_limit \<and> regular_tree t")
  case True
  then have "walk_tree sha ck 0 [([], t)] ([], []) = Inr (fold (record_node sha) (listed ck [] t) ([], []))"
    using walk_tree_lists [of 0 "[([], t)]" sha ck "([], [])"] by simp
  then show ?thesis using True by (simp add: create_file_manifest_def split_beta manifest_limit_def del: walk_tree.simps)
next
  case False
  then have "\<not> (0 + sum_list (map (\<lambda>x. nodes (snd x)) [([] :: string, t)]) \<le> manifest_limit \<and> list_all (\<lambda>x. regular_tree (snd x)) [([] :: string, t)])"
    by simp
  from walk_tree_refuses [OF this, of sha ck "([], [])"]
  obtain e where "walk_tree sha ck 0 [([], t)] ([], []) = Inl e" by blast
  moreover have "\<not> (nodes t \<le> 100000 \<and> regular_tree t)" using False by (simp add: manifest_limit_def)
  ultimately show ?thesis unfolding create_file_manifest_def by simp
qed

section \<open>Where the writes go\<close>

definition inside :: "string list \<Rightarrow> string list \<Rightarrow> bool" where
  "inside dest q \<longleftrightarrow> (\<exists>r. q = dest @ r) \<or> (\<exists>k. q = take k dest)"

definition stays_inside :: "string list \<Rightarrow> disk \<Rightarrow> disk \<Rightarrow> bool" where
  "stays_inside dest d d' \<longleftrightarrow> (\<forall>q. inside dest q \<or> jm_get d' q = jm_get d q)"

lemma stays_inside_refl [simp]: "stays_inside dest d d"
  by (simp add: stays_inside_def)

lemma stays_inside_trans: "stays_inside dest d d' \<Longrightarrow> stays_inside dest d' d'' \<Longrightarrow> stays_inside dest d d''"
  unfolding stays_inside_def by metis

lemma stays_inside_set: "inside dest q \<Longrightarrow> stays_inside dest d (jm_set d q x)"
  by (auto simp: stays_inside_def)

lemma stays_inside_and_then:
  "stays_inside dest d (fst r) \<Longrightarrow> (\<And>d'. stays_inside dest d' (fst (f d'))) \<Longrightarrow> stays_inside dest d (fst (and_then r f))"
  by (cases r) (auto simp: and_then_def intro: stays_inside_trans split: option.split)

lemma inside_prefix: "inside dest (take k (dest @ r))"
  by (cases "k \<le> length dest") (auto simp: inside_def)

lemma inside_below [simp]: "inside dest (dest @ r)" "inside dest dest"
  by (auto simp: inside_def)

lemma make_dirs_inside: "(\<And>k. inside dest (up @ take k ss)) \<Longrightarrow> stays_inside dest d (fst (make_dirs mode up ss d))"
proof (induction mode up ss d rule: make_dirs.induct)
  case (2 mode up s ss d)
  have deeper: "inside dest ((up @ [s]) @ take k ss)" for k using 2(3) [of "Suc k"] by simp
  have here: "inside dest (up @ [s])" using 2(3) [of 1] by simp
  show ?case
  proof (cases "jm_get d (up @ [s])")
    case None
    then show ?thesis using stays_inside_trans [OF stays_inside_set [OF here] 2(1) [OF None deeper]] by simp
  next
    case (Some x)
    then show ?thesis using 2(2) [OF Some _ deeper] by (cases x) auto
  qed
qed simp

lemma copy_file_inside: "inside dest path \<Longrightarrow> stays_inside dest d (fst (copy_file content path d))"
  by (auto simp: copy_file_def stays_inside_set split: option.splits node.splits)

lemma write_entry_inside: "stays_inside dest d (fst (write_entry umask store dest e d))"
proof -
  let ?path = "resolve_path dest (str_of (fld e ''path''))"
  show ?thesis
  proof (cases "?path \<noteq> dest \<and> \<not> (dest \<noteq> [] \<and> take (length dest) ?path = dest)")
    case True
    then show ?thesis by (simp add: write_entry_def)
  next
    case False
    then obtain r where r: "?path = dest @ r" by (metis append_Nil2 append_take_drop_id)
    have dirs: "stays_inside dest d (fst (make_dirs m [] (dest @ r) d))" for m
      by (intro make_dirs_inside) (simp only: append_Nil inside_prefix)
    have "take k (butlast (dest @ r)) = take (min k (length (dest @ r) - 1)) (dest @ r)" for k
      by (simp only: butlast_conv_take take_take)
    then have parents: "stays_inside dest d (fst (make_dirs m [] (butlast (dest @ r)) d))" for m
      by (intro make_dirs_inside) (simp only: append_Nil inside_prefix)
    have copied: "stays_inside dest d (fst (and_then (make_dirs m [] (butlast (dest @ r)) d) (copy_file c (dest @ r))))" for m c
      by (intro stays_inside_and_then parents copy_file_inside) simp
    show ?thesis using False dirs copied by (simp add: write_entry_def Let_def r split: option.split)
  qed
qed

lemma write_entries_inside: "stays_inside dest d (fst (write_entries umask store dest es d))"
  by (induction es arbitrary: d) (simp_all add: stays_inside_and_then write_entry_inside)

text \<open>C24. Writing a manifest, whatever its entries say and whether it succeeds or throws half way, changes nothing outside
  the destination: only nodes below it and the directories that lead to it.\<close>
theorem materialize_stays_inside:
  "jm_get (fst (materialize_file_manifest umask ck store m dest d)) q = jm_get d q \<or> (\<exists>r. q = dest @ r) \<or> (\<exists>k. q = take k dest)"
proof -
  have "inside dest (take k dest)" for k by (auto simp: inside_def)
  then have "stays_inside dest d (fst (materialize_file_manifest umask ck store m dest d))"
    unfolding materialize_file_manifest_def Let_def
    by (intro stays_inside_and_then make_dirs_inside) (simp_all add: write_entries_inside)
  then show ?thesis by (auto simp: stays_inside_def inside_def)
qed

end
