(* ===== verification/DataMergeProperties.thy ===== *)
theory DataMergeProperties
  imports FileTreeProperties
begin

text \<open>
  What a merge of three manifests keeps: one-sided changes, both sides of a conflict, the agreement of
  the two orders of merging; and two ways it goes wrong, a reported copy that is overwritten and a merged
  tree that cannot be written.
\<close>

section \<open>Manifests whose lookups are their own\<close>

definition entries_ok :: "jsv \<Rightarrow> bool" where
  "entries_ok es \<longleftrightarrow> is_record es \<and> distinct (obj_keys es) \<and>
     list_all (\<lambda>(k, v). is_record v \<and> k \<notin> set proto_functions \<and> k \<noteq> ''__proto__'') (own_fields es)"

lemma entries_fld:
  assumes "entries_ok es" "k \<notin> set proto_functions" "k \<noteq> ''__proto__''"
  shows "fld es k = (case jm_get (own_fields es) k of Some v \<Rightarrow> v | None \<Rightarrow> Undef)"
  using assms by (cases es) (auto simp: entries_ok_def fld_def split: option.splits)

lemma entries_own: "entries_ok es \<Longrightarrow> jm_get (own_fields es) k = Some v \<Longrightarrow> fld es k = v \<and> truthy v \<and> k \<in> set (obj_keys es)"
  by (cases es) (force simp: entries_ok_def fld_def obj_keys_def list_all_iff dest: map_of_SomeD)+

lemma entries_key: "entries_ok es \<Longrightarrow> k \<in> set (obj_keys es) \<Longrightarrow> k \<notin> set proto_functions \<and> k \<noteq> ''__proto__''"
  by (auto simp: entries_ok_def obj_keys_def list_all_iff)

lemma values_equal_absent: "is_record v \<Longrightarrow> \<not> values_equal ck Undef v" "is_record v \<Longrightarrow> \<not> values_equal ck v Undef"
  by (cases v; simp add: values_equal_def)+

section \<open>Entries of a merged manifest\<close>

lemma set_merge_paths: "set (merge_paths b h s) = set (obj_keys b) \<union> set (obj_keys h) \<union> set (obj_keys s)"
  by (auto simp: merge_paths_def)

lemma merge_paths_facts:
  assumes "entries_ok b" "entries_ok h" "entries_ok s"
  shows "sorted (merge_paths b h s)" "distinct (merge_paths b h s)" "''__proto__'' \<notin> set (merge_paths b h s)"
proof -
  show "sorted (merge_paths b h s)" "distinct (merge_paths b h s)" by (simp_all add: merge_paths_def)
  show "''__proto__'' \<notin> set (merge_paths b h s)"
    using entries_key [OF assms(1)] entries_key [OF assms(2)] entries_key [OF assms(3)] by (auto simp: set_merge_paths)
qed

lemma distinct_merged: "distinct (jm_keys (fg_entries (merge_entries ck site policy res b h s)))"
proof -
  have place: "distinct (jm_keys es) \<Longrightarrow> distinct (jm_keys (place w es))" for w es
    by (auto simp: place_def set_entry_def split: option.split)
  have "distinct (jm_keys (fg_entries m)) \<Longrightarrow> distinct (jm_keys (fg_entries (fold (merge_path ck site policy res b h s) ps m)))" for ps m
    by (induction ps arbitrary: m) (simp_all add: merge_path_entries place)
  then show ?thesis by (simp add: merge_entries_def)
qed

lemma merged_at:
  fixes b h s :: jsv
  assumes "entries_ok b" "entries_ok h" "entries_ok s"
    and "r = reconcile_file_manifests sha ck (Some base) home suitcase site policy res"
    and "b = manifest_entries base" "h = manifest_entries home" "s = manifest_entries suitcase"
    and "pol = (case policy of Some p \<Rightarrow> p | None \<Rightarrow> Collect)"
  shows "jm_get (own_fields (manifest_entries (fr_manifest r))) q =
    (case (if q \<in> set (merge_paths b h s) then kept ck pol res b h s q else None) of
       Some v \<Rightarrow> Some v | None \<Rightarrow> copy_at ck site pol res b h s (merge_paths b h s) q)"
proof -
  let ?m = "merge_entries ck site pol res b h s"
  have "own_fields (manifest_entries (fr_manifest r)) = js_order (fg_entries ?m)"
    using assms(4-) by (simp add: reconcile_file_manifests_def Let_def mk_manifest_def manifest_entries_def fld_def)
  then show ?thesis
    using distinct_merged [of ck site pol res b h s]
      merge_entries_at [OF merge_paths_facts [OF assms(1-3)], of "\<lparr>fg_entries = [], fg_conflicts = [], fg_copies = [], fg_unresolved = 0\<rparr>" ck site pol res b h s q]
    by (simp add: merge_entries_def)
qed

lemma kept_at:
  fixes b h s :: jsv
  assumes "entries_ok b" "entries_ok h" "entries_ok s"
    and "r = reconcile_file_manifests sha ck (Some base) home suitcase site policy res"
    and "b = manifest_entries base" "h = manifest_entries home" "s = manifest_entries suitcase"
    and "kept ck (case policy of Some p \<Rightarrow> p | None \<Rightarrow> Collect) res b h s p = Some v"
    and "p \<in> set (obj_keys b) \<union> set (obj_keys h) \<union> set (obj_keys s)"
  shows "jm_get (own_fields (manifest_entries (fr_manifest r))) p = Some v"
  using merged_at [OF assms(1-7) refl, of p] assms(8,9) by (simp add: set_merge_paths)



lemma merge_grows:
  "set (fg_copies m) \<subseteq> set (fg_copies (fold (merge_path ck site pol res b h s) ps m)) \<and>
     fg_unresolved m \<le> fg_unresolved (fold (merge_path ck site pol res b h s) ps m)"
proof (induction ps arbitrary: m)
  case (Cons p ps)
  have "set (fg_copies m) \<subseteq> set (fg_copies (merge_path ck site pol res b h s p m))"
    "fg_unresolved m \<le> fg_unresolved (merge_path ck site pol res b h s p m)"
    by (auto simp: merge_path_copies merge_path_unresolved)
  with Cons [of "merge_path ck site pol res b h s p m"] show ?case by auto
qed simp

text \<open>A conflict without a chosen side keeps both: home stays at the path, the merge is not clean unless the conflict
  was resolved as keep-both, and the suitcase's file is reported and stored beside it under the name of its copy
  (when no manifest has an entry of that name).\<close>
lemma conflict_keeps_both:
  assumes ok: "entries_ok (manifest_entries base)" "entries_ok (manifest_entries home)" "entries_ok (manifest_entries suitcase)"
    and r: "r = reconcile_file_manifests sha ck (Some base) home suitcase site policy res"
    and files: "jm_get (own_fields (manifest_entries home)) p = Some h" "jm_get (own_fields (manifest_entries suitcase)) p = Some s"
      "fld s ''kind'' = Str ''file''" "fld s ''digest'' = Str dig" "dig \<noteq> []"
    and conflict: "\<not> values_equal ck h s" "\<not> values_equal ck h (fld (manifest_entries base) p)" "\<not> values_equal ck s (fld (manifest_entries base) p)"
    and choice: "jm_get res (conflict_key File_path p) = Some Keep_both \<or> jm_get res (conflict_key File_path p) = None \<and> policy \<in> {None, Some Collect}"
    and q: "q = conflict_copy_path p site dig" "q \<notin> set (merge_paths (manifest_entries base) (manifest_entries home) (manifest_entries suitcase))"
    and alone: "\<And>p'. p' \<in> set (merge_paths (manifest_entries base) (manifest_entries home) (manifest_entries suitcase)) \<Longrightarrow>
      copy_path site (manifest_entries suitcase) p' = q \<Longrightarrow> p' = p"
  shows "jm_get (own_fields (manifest_entries (fr_manifest r))) p = Some h
    \<and> (fr_merged r \<longrightarrow> jm_get res (conflict_key File_path p) = Some Keep_both)
    \<and> \<lparr>cc_original = p, cc_preserved = q, cc_digest = dig\<rparr> \<in> set (fr_copies r)
    \<and> jm_get (own_fields (manifest_entries (fr_manifest r))) q = Some (Obj (jm_set (own_fields s) ''path'' (Str q)))"
proof -
  let ?b = "manifest_entries base" and ?h = "manifest_entries home" and ?s = "manifest_entries suitcase"
  define pol where "pol = (case policy of Some p \<Rightarrow> p | None \<Rightarrow> Collect)"
  have pol: "jm_get res (conflict_key File_path p) = None \<Longrightarrow> pol = Collect" using choice by (auto simp: pol_def)
  note at = merged_at [OF ok r refl refl refl pol_def]
  have hs: "fld ?h p = h" "fld ?s p = s" "truthy h" "truthy s" "p \<in> set (obj_keys ?s)"
    using entries_own [OF ok(2) files(1)] entries_own [OF ok(3) files(2)] by simp_all
  have t: "three_way ck (fld ?b p) h s = (h, True)" using conflict by (simp add: three_way_def)
  have p: "p \<in> set (merge_paths ?b ?h ?s)" using hs(5) by (simp add: set_merge_paths)
  have both: "both_kept ck pol res ?b ?h ?s p" using choice pol by (auto simp: both_kept_def hs t)
  have kept: "kept ck pol res ?b ?h ?s p = Some h"
    using choice pol by (auto simp: kept_def hs t Let_def)
  let ?e = "Obj (jm_set (own_fields s) ''path'' (Str q))"
  have copied: "copied ck site pol res ?b ?h ?s p = Some (q, ?e)"
    using both files by (simp add: copied_def hs copy_path_def q(1))
  have only: "p' = p" if "p' \<in> set (merge_paths ?b ?h ?s)" "copied ck site pol res ?b ?h ?s p' = Some (q, e)" for p' e
    using alone [OF that(1)] copied_name [OF that(2)] by simp
  have "copy_at ck site pol res ?b ?h ?s (merge_paths ?b ?h ?s) q = Some ?e"
  proof -
    let ?L = "List.map_filter (copied ck site pol res ?b ?h ?s) (merge_paths ?b ?h ?s)"
    have L: "set ?L = {w. \<exists>x \<in> set (merge_paths ?b ?h ?s). copied ck site pol res ?b ?h ?s x = Some w}"
      by (rule set_map_filter)
    have mem: "e = ?e" if "(q, e) \<in> set ?L" for e
    proof -
      from that have "\<exists>x \<in> set (merge_paths ?b ?h ?s). copied ck site pol res ?b ?h ?s x = Some (q, e)" unfolding L by simp
      then obtain x where x: "x \<in> set (merge_paths ?b ?h ?s)" "copied ck site pol res ?b ?h ?s x = Some (q, e)" by (elim bexE)
      then have "x = p" by (rule only)
      then show ?thesis using x(2) copied by simp
    qed
    have "(q, ?e) \<in> set ?L" unfolding L using p copied by blast
    then have "map_of (rev ?L) q \<noteq> None" by (simp add: map_of_eq_None_iff image_iff) (metis fst_conv)
    then obtain e where e: "map_of (rev ?L) q = Some e" by blast
    from map_of_SomeD [OF this] mem have "e = ?e" by simp
    then show ?thesis using e by (simp add: copy_at_def)
  qed
  then have copy: "jm_get (own_fields (manifest_entries (fr_manifest r))) q = Some ?e" using at [of q] q(2) by simp
  have home: "jm_get (own_fields (manifest_entries (fr_manifest r))) p = Some h" using at [of p] p kept by simp
  let ?step = "merge_path ck site pol res ?b ?h ?s"
  have reported: "\<lparr>cc_original = p, cc_preserved = q, cc_digest = dig\<rparr> \<in> set (fg_copies (fold ?step ps m))
      \<and> (jm_get res (conflict_key File_path p) \<noteq> Some Keep_both \<longrightarrow> 0 < fg_unresolved (fold ?step ps m))" if in_ps: "p \<in> set ps" for ps m
  proof -
    obtain xs ys where ps: "ps = xs @ p # ys" using split_list [OF in_ps] by blast
    let ?m = "?step p (fold ?step xs m)"
    have "\<lparr>cc_original = p, cc_preserved = q, cc_digest = dig\<rparr> \<in> set (fg_copies ?m)"
      by (simp add: merge_path_copies copied hs files(4))
    moreover have "jm_get res (conflict_key File_path p) \<noteq> Some Keep_both \<Longrightarrow> 0 < fg_unresolved ?m"
      by (simp add: merge_path_unresolved both)
    ultimately show ?thesis using merge_grows [of ?m ck site pol res ?b ?h ?s ys] by (fastforce simp: ps)
  qed
  have "fr_copies r = fg_copies (merge_entries ck site pol res ?b ?h ?s)" "fr_merged r \<longleftrightarrow> fg_unresolved (merge_entries ck site pol res ?b ?h ?s) = 0"
    by (simp_all add: r reconcile_file_manifests_def Let_def pol_def)
  then show ?thesis
    using copy home reported [OF p, of "\<lparr>fg_entries = [], fg_conflicts = [], fg_copies = [], fg_unresolved = 0\<rparr>"]
    by (auto simp: merge_entries_def)
qed

text \<open>The copy can be overwritten: when some manifest already has an entry under the copy's name and that name is kept,
  the reported copy is not in the merged manifest, the existing entry is.\<close>
lemma reported_copy_overwritten:
  assumes ok: "entries_ok (manifest_entries base)" "entries_ok (manifest_entries home)" "entries_ok (manifest_entries suitcase)"
    and r: "r = reconcile_file_manifests sha ck (Some base) home suitcase site policy res" and c: "c \<in> set (fr_copies r)"
    and taken: "jm_get (own_fields (manifest_entries home)) (cc_preserved c) = Some v"
      "jm_get (own_fields (manifest_entries suitcase)) (cc_preserved c) = Some v" "fld v ''digest'' \<noteq> Str (cc_digest c)"
  shows "jm_get (own_fields (manifest_entries (fr_manifest r))) (cc_preserved c) = Some v \<and>
    fld (fld (manifest_entries (fr_manifest r)) (cc_preserved c)) ''digest'' \<noteq> Str (cc_digest c)"
proof -
  have v: "fld (manifest_entries home) (cc_preserved c) = v" "fld (manifest_entries suitcase) (cc_preserved c) = v" "truthy v"
    "cc_preserved c \<in> set (obj_keys (manifest_entries home))"
    using entries_own [OF ok(2) taken(1)] entries_own [OF ok(3) taken(2)] by simp_all
  then have "kept ck pol res (manifest_entries base) (manifest_entries home) (manifest_entries suitcase) (cc_preserved c) = Some v" for pol
    by (simp add: kept_def three_way_def Let_def)
  from kept_at [OF ok r refl refl refl this] v(4)
  have e: "jm_get (own_fields (manifest_entries (fr_manifest r))) (cc_preserved c) = Some v" by blast
  then have "fld (manifest_entries (fr_manifest r)) (cc_preserved c) = v"
    by (cases "manifest_entries (fr_manifest r)") (simp_all add: fld_def)
  with e taken(3) show ?thesis by simp
qed


section \<open>The order of the sides\<close>

lemma three_way_swap:
  "snd (three_way ck b h s) = snd (three_way ck b s h) \<and>
    (\<not> snd (three_way ck b h s) \<longrightarrow> values_equal ck (fst (three_way ck b h s)) (fst (three_way ck b s h)))"
  by (auto simp: three_way_def values_equal_def)

lemma conflict_addresses:
  "map cf_address (fg_conflicts (fold (merge_path ck site policy res b h s) ps m)) =
     map cf_address (fg_conflicts m) @ filter (\<lambda>p. snd (three_way ck (fld b p) (fld h p) (fld s p))) ps"
  by (induction ps arbitrary: m) (simp_all add: merge_path_conflicts)

lemma merge_paths_swap: "merge_paths b h s = merge_paths b s h"
  by (rule sorted_distinct_set_unique) (auto simp: merge_paths_def)



section \<open>A clean merge that cannot be written\<close>

text \<open>A directory of the base became a file at home, and the suitcase wrote a file into the directory.\<close>

definition shelf :: "(string \<times> jsv) list \<Rightarrow> jsv" where
  "shelf es = mk_manifest id (\<lambda>_. []) (Obj es)"

definition photo :: "string \<Rightarrow> string \<Rightarrow> jsv" where
  "photo path content = file_entry path (file_digest id content) (length content) 420"

definition base_shelf :: jsv where "base_shelf = shelf [(''d'', directory_entry ''d'' 493)]"
definition home_shelf :: jsv where "home_shelf = shelf [(''d'', photo ''d'' ''x'')]"
definition trip_shelf :: jsv where "trip_shelf = shelf [(''d'', directory_entry ''d'' 493), (''d/a'', photo ''d/a'' ''y'')]"

definition shelf_merge :: file_reconciliation where
  "shelf_merge = reconcile_file_manifests id (\<lambda>_. []) (Some base_shelf) home_shelf trip_shelf ''trip'' None []"

text \<open>A merge without conflicts need not describe a directory: home turned a directory into a file, the suitcase
  added a file inside it, both changes are one-sided, the merge is clean, and writing its manifest fails.\<close>
lemma clean_merge_not_writable:
  "fr_merged shelf_merge \<and> fr_conflicts shelf_merge = [] \<and>
   snd (materialize_file_manifest id (\<lambda>_. []) [(file_digest id ''x'', ''x''), (file_digest id ''y'', ''y'')]
     (fr_manifest shelf_merge) [''srv''] []) = Some ''EEXIST''"
proof -
  have "fr_merged shelf_merge" by code_simp
  moreover have "fr_conflicts shelf_merge = []" by code_simp
  moreover have "snd (materialize_file_manifest id (\<lambda>_. []) [(file_digest id ''x'', ''x''), (file_digest id ''y'', ''y'')]
     (fr_manifest shelf_merge) [''srv''] []) = Some ''EEXIST''" by code_simp
  ultimately show ?thesis by blast
qed

section \<open>Witnesses\<close>

text \<open>The same file edited at home and on the suitcase, and another only at home.\<close>

definition base_notes :: jsv where
  "base_notes = shelf [(''a'', photo ''a'' ''1''), (''b'', photo ''b'' ''1'')]"
definition home_notes :: jsv where
  "home_notes = shelf [(''a'', photo ''a'' ''2''), (''b'', photo ''b'' ''2'')]"
definition trip_notes :: jsv where
  "trip_notes = shelf [(''a'', photo ''a'' ''3''), (''b'', photo ''b'' ''1'')]"

definition notes_merge :: file_reconciliation where
  "notes_merge = reconcile_file_manifests id (\<lambda>_. []) (Some base_notes) home_notes trip_notes ''trip'' None []"

lemma notes_ok: "entries_ok (manifest_entries base_notes)" "entries_ok (manifest_entries home_notes)" "entries_ok (manifest_entries trip_notes)"
  by code_simp+


lemma conflict_keeps_both_witness:
  "jm_get (own_fields (manifest_entries (fr_manifest notes_merge))) ''a'' = Some (photo ''a'' ''2'') \<and> \<not> fr_merged notes_merge \<and>
   jm_get (own_fields (manifest_entries (fr_manifest notes_merge))) ''a.conflict-trip-3''
     = Some (Obj (jm_set (own_fields (photo ''a'' ''3'')) ''path'' (Str ''a.conflict-trip-3'')))"
proof -
  have f: "jm_get (own_fields (manifest_entries home_notes)) ''a'' = Some (photo ''a'' ''2'')"
    "jm_get (own_fields (manifest_entries trip_notes)) ''a'' = Some (photo ''a'' ''3'')"
    "fld (photo ''a'' ''3'') ''kind'' = Str ''file''" "fld (photo ''a'' ''3'') ''digest'' = Str ''sha256:3''" "''sha256:3'' \<noteq> []"
    by code_simp+
  have c: "\<not> values_equal (\<lambda>_. []) (photo ''a'' ''2'') (photo ''a'' ''3'')"
    "\<not> values_equal (\<lambda>_. []) (photo ''a'' ''2'') (fld (manifest_entries base_notes) ''a'')"
    "\<not> values_equal (\<lambda>_. []) (photo ''a'' ''3'') (fld (manifest_entries base_notes) ''a'')"
    by code_simp+
  have paths: "merge_paths (manifest_entries base_notes) (manifest_entries home_notes) (manifest_entries trip_notes) = [''a'', ''b'']" by code_simp
  have q: "''a.conflict-trip-3'' = conflict_copy_path ''a'' ''trip'' ''sha256:3''" by code_simp
  have b: "copy_path ''trip'' (manifest_entries trip_notes) ''b'' = ''b.conflict-trip-1''" by code_simp
  have nq: "''a.conflict-trip-3'' \<notin> set (merge_paths (manifest_entries base_notes) (manifest_entries home_notes) (manifest_entries trip_notes))"
    by (simp add: paths)
  have alone: "p' = ''a''"
    if p': "p' \<in> set (merge_paths (manifest_entries base_notes) (manifest_entries home_notes) (manifest_entries trip_notes))"
      and cp: "copy_path ''trip'' (manifest_entries trip_notes) p' = ''a.conflict-trip-3''" for p'
  proof (rule ccontr)
    assume "p' \<noteq> ''a''"
    then have "p' = ''b''" using p' by (simp add: paths)
    with cp b show False by simp
  qed
  have choice: "jm_get ([] :: resolutions) (conflict_key File_path ''a'') = Some Keep_both \<or>
    jm_get ([] :: resolutions) (conflict_key File_path ''a'') = None \<and> None \<in> {None, Some Collect}" by simp
  from conflict_keeps_both [OF notes_ok notes_merge_def f c choice q nq alone]
  have "jm_get (own_fields (manifest_entries (fr_manifest notes_merge))) ''a'' = Some (photo ''a'' ''2'')"
    "\<not> fr_merged notes_merge"
    "jm_get (own_fields (manifest_entries (fr_manifest notes_merge))) ''a.conflict-trip-3''
     = Some (Obj (jm_set (own_fields (photo ''a'' ''3'')) ''path'' (Str ''a.conflict-trip-3'')))" by simp_all
  then show ?thesis by blast
qed

text \<open>Both sites already hold an edited file under the name the copy gets.\<close>

definition taken_home :: jsv where
  "taken_home = shelf [(''a'', photo ''a'' ''2''), (''a.conflict-trip-3'', photo ''a.conflict-trip-3'' ''9'')]"
definition taken_trip :: jsv where
  "taken_trip = shelf [(''a'', photo ''a'' ''3''), (''a.conflict-trip-3'', photo ''a.conflict-trip-3'' ''9'')]"
definition taken_merge :: file_reconciliation where
  "taken_merge = reconcile_file_manifests id (\<lambda>_. []) (Some base_notes) taken_home taken_trip ''trip'' None []"
definition taken_copy :: conflict_copy where
  "taken_copy = \<lparr>cc_original = ''a'', cc_preserved = ''a.conflict-trip-3'', cc_digest = ''sha256:3''\<rparr>"

lemma reported_copy_overwritten_witness:
  "taken_copy \<in> set (fr_copies taken_merge) \<and>
   jm_get (own_fields (manifest_entries (fr_manifest taken_merge))) ''a.conflict-trip-3'' = Some (photo ''a.conflict-trip-3'' ''9'')"
proof -
  have ok: "entries_ok (manifest_entries taken_home)" "entries_ok (manifest_entries taken_trip)" by code_simp+
  have c: "fr_copies taken_merge = [taken_copy]" by code_simp
  then have m: "taken_copy \<in> set (fr_copies taken_merge)" by simp
  have f: "jm_get (own_fields (manifest_entries taken_home)) (cc_preserved taken_copy) = Some (photo ''a.conflict-trip-3'' ''9'')"
    "jm_get (own_fields (manifest_entries taken_trip)) (cc_preserved taken_copy) = Some (photo ''a.conflict-trip-3'' ''9'')"
    "fld (photo ''a.conflict-trip-3'' ''9'') ''digest'' \<noteq> Str (cc_digest taken_copy)"
    by code_simp+
  from reported_copy_overwritten [OF notes_ok(1) ok taken_merge_def m f] m show ?thesis by (simp add: taken_copy_def)
qed


end
