(* ===== verification/SqliteMerge.thy ===== *)
theory SqliteMerge
  imports DataMerge "HOL-Library.Word"
begin

text \<open>
  Databases in \<open>data-reconciliation.ts\<close>: the encoding of cell values, reading a database into keyed rows,
  capturing a branch as a changeset and the three-way merge of rows with its staged, verified result.
  SQLite itself is third-party: what its queries return is a record (\<open>sqlite_file\<close>), what its write
  paths do is a record of outcomes.
\<close>

section \<open>Cell values\<close>

type_synonym byte_string = "8 word list"

datatype cell = Cell_null | Cell_buffer byte_string | Cell_bigint int | Cell_number jsnum | Cell_text string

text \<open>\<open>Buffer.toString('base64')\<close> and \<open>Buffer.from(text, 'base64')\<close>.\<close>

definition base64_alphabet :: string where
  "base64_alphabet = ''ABCDEFGHIJKLMNOPQRSTUVWXYZabcdefghijklmnopqrstuvwxyz0123456789+/''"

definition base64_char :: "nat \<Rightarrow> char" where
  "base64_char n = base64_alphabet ! (n mod 64)"

fun base64 :: "byte_string \<Rightarrow> string" where
  "base64 (a # b # c # bs) =
     (let n = unat a * 65536 + unat b * 256 + unat c in
      [base64_char (n div 262144), base64_char (n div 4096), base64_char (n div 64), base64_char n] @ base64 bs)"
| "base64 [a, b] =
     (let n = unat a * 65536 + unat b * 256 in
      [base64_char (n div 262144), base64_char (n div 4096), base64_char (n div 64), CHR ''=''])"
| "base64 [a] =
     (let n = unat a * 65536 in [base64_char (n div 262144), base64_char (n div 4096), CHR ''='', CHR ''=''])"
| "base64 [] = []"

fun index_of :: "char \<Rightarrow> string \<Rightarrow> nat" where
  "index_of c [] = 0"
| "index_of c (x # xs) = (if x = c then 0 else Suc (index_of c xs))"

definition base64_digit :: "char \<Rightarrow> nat" where
  "base64_digit c = index_of c base64_alphabet"

fun unbase64 :: "string \<Rightarrow> byte_string" where
  "unbase64 (p # q # r # s # cs) =
     (let n = base64_digit p * 262144 + base64_digit q * 4096 in
      if r = CHR ''='' then [word_of_nat (n div 65536)]
      else (let n = n + base64_digit r * 64 in
            if s = CHR ''='' then [word_of_nat (n div 65536), word_of_nat (n div 256)]
            else (let n = n + base64_digit s in
                  [word_of_nat (n div 65536), word_of_nat (n div 256), word_of_nat n] @ unbase64 cs)))"
| "unbase64 cs = []"

definition tagged :: "string \<Rightarrow> jsv \<Rightarrow> jsv" where
  "tagged t v = Obj [(''type'', Str t), (''value'', v)]"

fun encode_value :: "cell \<Rightarrow> jsv" where
  "encode_value Cell_null = Obj [(''type'', Str ''null'')]"
| "encode_value (Cell_buffer bs) = tagged ''blob'' (Str (base64 bs))"
| "encode_value (Cell_bigint z) = tagged ''integer'' (Str (int_str z))"
| "encode_value (Cell_number n) =
     (if num_int n \<noteq> None then tagged ''integer'' (Str (num_str n)) else tagged ''real'' (Num n))"
| "encode_value (Cell_text s) = tagged ''text'' (Str s)"

text \<open>\<open>BigInt(text)\<close> on a numeral with an optional sign; anything else is a \<open>SyntaxError\<close>.\<close>

definition parse_bigint :: "string \<Rightarrow> int option" where
  "parse_bigint s =
     (case s of
        CHR ''-'' # ds \<Rightarrow> if ds \<noteq> [] \<and> list_all is_digit ds then Some (- int (nat_of_str ds)) else None
      | _ \<Rightarrow> if list_all is_digit s then Some (int (nat_of_str s)) else None)"

definition decode_integer :: "string \<Rightarrow> cell option" where
  "decode_integer s =
     map_option (\<lambda>z. if z \<le> max_safe_integer \<and> - max_safe_integer \<le> z then Cell_number (JInt z) else Cell_bigint z) (parse_bigint s)"

fun num_of :: "jsv \<Rightarrow> jsnum" where
  "num_of (Num n) = n"
| "num_of _ = NaN"

definition decode_value :: "jsv \<Rightarrow> cell option" where
  "decode_value v =
     (let t = str_of (fld v ''type''); x = fld v ''value'' in
      if t = ''null'' then Some Cell_null
      else if t = ''blob'' then Some (Cell_buffer (unbase64 (str_of x)))
      else if t = ''real'' then Some (Cell_number (num_of x))
      else if t = ''integer'' then decode_integer (str_of x)
      else Some (Cell_text (str_of x)))"

section \<open>Reading a database\<close>

record column_info =
  ci_name :: string
  ci_type :: string
  ci_notnull :: bool
  ci_pk :: nat
  ci_hidden :: nat

record schema_row =
  sr_type :: string
  sr_name :: string
  sr_table :: string
  sr_sql :: string

record table_entry =
  te_schema :: string
  te_name :: string
  te_wr :: bool
  te_strict :: bool

text \<open>What the queries of \<open>readSqliteState\<close> return.\<close>

record sqlite_file =
  sf_path :: string
  sf_integrity :: "string list"
  sf_violations :: nat
  sf_schema :: "schema_row list"
  sf_columns :: "(string, column_info list) jmap"
  sf_tables :: "table_entry list"
  sf_rows :: "(string, (string \<times> cell) list list) jmap"

record sqlite_table =
  st_name :: string
  st_create_sql :: string
  st_primary_key :: "string list"
  st_insert_columns :: "string list"
  st_rows :: "(string, jsv) jmap"

record sqlite_state =
  ss_fingerprint :: string
  ss_schema :: "schema_row list"
  ss_tables :: "(string, sqlite_table) jmap"

definition is_space :: "char \<Rightarrow> bool" where
  "is_space c \<longleftrightarrow> (of_char c :: nat) \<in> {9, 10, 11, 12, 13, 32, 160}"

text \<open>A word, in any case, and then at least one blank; the rest of the text.\<close>

definition keyword_then :: "string \<Rightarrow> string \<Rightarrow> string option" where
  "keyword_then w s =
     (if to_lower (take (length w) s) = w then
        (case drop (length w) s of [] \<Rightarrow> None | c # r \<Rightarrow> if is_space c then Some (dropWhile is_space r) else None)
      else None)"

text \<open>\<open>/^\s*CREATE\s+VIRTUAL\s+TABLE/i\<close>\<close>

definition is_virtual_table :: "string \<Rightarrow> bool" where
  "is_virtual_table sql =
     (case keyword_then ''create'' (dropWhile is_space sql) of
        None \<Rightarrow> False
      | Some r \<Rightarrow> (case keyword_then ''virtual'' r of None \<Rightarrow> False | Some r \<Rightarrow> to_lower (take 5 r) = ''table''))"

definition schema_value :: "schema_row \<Rightarrow> jsv" where
  "schema_value r = Obj [(''type'', Str (sr_type r)), (''name'', Str (sr_name r)), (''tableName'', Str (sr_table r)), (''sql'', Str (sr_sql r))]"

definition text_of :: "(string \<Rightarrow> nat list) \<Rightarrow> jsv \<Rightarrow> string" where
  "text_of ck v = (case canonical_text ck v of None \<Rightarrow> [] | Some t \<Rightarrow> t)"

definition row_value :: "(string \<times> cell) list \<Rightarrow> jsv" where
  "row_value raw = mk_obj (map (\<lambda>(k, c). (k, encode_value c)) raw)"

definition row_key :: "(string \<Rightarrow> nat list) \<Rightarrow> string list \<Rightarrow> jsv \<Rightarrow> string" where
  "row_key ck pk row = text_of ck (Arr (map (fld row) pk))"

fun read_rows ::
    "(string \<Rightarrow> nat list) \<Rightarrow> string \<Rightarrow> string \<Rightarrow> string list \<Rightarrow> (string \<times> cell) list list \<Rightarrow> (string, jsv) jmap \<Rightarrow> string + (string, jsv) jmap" where
  "read_rows ck path table pk [] rows = Inr rows"
| "read_rows ck path table pk (raw # raws) rows =
     (let row = row_value raw; key = row_key ck pk row in
      if jm_has rows key then Inl (path @ '' table '' @ table @ '' has a duplicate primary key'')
      else read_rows ck path table pk raws (jm_set rows key row))"

definition nullable_key :: "sqlite_file \<Rightarrow> string \<Rightarrow> column_info \<Rightarrow> bool" where
  "nullable_key f table c =
     (let meta = find (\<lambda>e. te_schema e = ''main'' \<and> te_name e = table) (sf_tables f) in
      \<not> (ci_notnull c \<or> to_lower (ci_type c) = ''integer''
         \<or> (case meta of None \<Rightarrow> False | Some e \<Rightarrow> te_wr e) \<or> (case meta of None \<Rightarrow> False | Some e \<Rightarrow> te_strict e)))"

definition read_table :: "(string \<Rightarrow> nat list) \<Rightarrow> sqlite_file \<Rightarrow> schema_row \<Rightarrow> string + sqlite_table" where
  "read_table ck f r =
     (let columns = (case jm_get (sf_columns f) (sr_name r) of None \<Rightarrow> [] | Some cs \<Rightarrow> cs);
          keys = sort_key ci_pk (filter (\<lambda>c. 0 < ci_pk c) columns);
          pk = map ci_name keys in
      if keys = [] then Inl (sf_path f @ '' table '' @ sr_name r @ '' has no primary key'')
      else if list_ex (nullable_key f (sr_name r)) keys then Inl (sf_path f @ '' table '' @ sr_name r @ '' has a nullable primary key'')
      else (case read_rows ck (sf_path f) (sr_name r) pk (case jm_get (sf_rows f) (sr_name r) of None \<Rightarrow> [] | Some rs \<Rightarrow> rs) [] of
          Inl e \<Rightarrow> Inl e
        | Inr rows \<Rightarrow> Inr \<lparr>st_name = sr_name r, st_create_sql = sr_sql r, st_primary_key = pk,
            st_insert_columns = map ci_name (filter (\<lambda>c. ci_hidden c = 0) columns), st_rows = rows\<rparr>))"

fun read_tables :: "(string \<Rightarrow> nat list) \<Rightarrow> sqlite_file \<Rightarrow> schema_row list \<Rightarrow> (string, sqlite_table) jmap \<Rightarrow> string + (string, sqlite_table) jmap" where
  "read_tables ck f [] tables = Inr tables"
| "read_tables ck f (r # rs) tables =
     (case read_table ck f r of
        Inl e \<Rightarrow> Inl e
      | Inr t \<Rightarrow> read_tables ck f rs (jm_set tables (sr_name r) t))"

definition read_sqlite_state :: "(string \<Rightarrow> string) \<Rightarrow> (string \<Rightarrow> nat list) \<Rightarrow> sqlite_file \<Rightarrow> string + sqlite_state" where
  "read_sqlite_state sha ck f =
     (let tables = filter (\<lambda>r. sr_type r = ''table'') (sf_schema f) in
      if sf_integrity f \<noteq> [''ok''] then Inl (sf_path f @ '' failed SQLite integrity_check'')
      else if 0 < sf_violations f then Inl (sf_path f @ '' has '' @ nat_str (sf_violations f) @ '' foreign-key violation(s)'')
      else if list_ex (\<lambda>r. is_virtual_table (sr_sql r)) tables then Inl (sf_path f @ '' has a virtual table without a rebuild adapter'')
      else (case read_tables ck f tables [] of
          Inl e \<Rightarrow> Inl e
        | Inr ts \<Rightarrow> Inr \<lparr>ss_fingerprint = value_digest sha ck (Arr (map schema_value (sf_schema f))), ss_schema = sf_schema f, ss_tables = ts\<rparr>))"

section \<open>Capturing a branch\<close>

type_synonym table_rows = "(string, (string, jsv) jmap) jmap"

text \<open>\<open>canonical([...tables].map(([table, rows]) => [table, [...rows].sort(...)]))\<close>\<close>

definition tables_value :: "(string \<Rightarrow> nat list) \<Rightarrow> table_rows \<Rightarrow> jsv" where
  "tables_value ck ts =
     Arr (map (\<lambda>(t, rows). Arr [Str t, Arr (map (\<lambda>(k, r). Arr [Str k, r]) (sort_key (\<lambda>kr. ck (fst kr)) rows))]) ts)"

definition state_rows :: "sqlite_state \<Rightarrow> table_rows" where
  "state_rows s = map (\<lambda>(t, st). (t, st_rows st)) (ss_tables s)"

definition rows_of :: "sqlite_state \<Rightarrow> string \<Rightarrow> (string, jsv) jmap" where
  "rows_of s t = (case jm_get (ss_tables s) t of None \<Rightarrow> [] | Some st \<Rightarrow> st_rows st)"

definition projection :: "sqlite_state \<Rightarrow> sqlite_state \<Rightarrow> string list \<Rightarrow> table_rows" where
  "projection base branch included =
     map (\<lambda>(t, st). (t, if t \<in> set included then rows_of branch t else st_rows st)) (ss_tables base)"

definition matches_projection :: "(string \<Rightarrow> nat list) \<Rightarrow> sqlite_state \<Rightarrow> sqlite_state \<Rightarrow> sqlite_state \<Rightarrow> string list \<Rightarrow> bool" where
  "matches_projection ck actual base branch included \<longleftrightarrow>
     ss_fingerprint actual = ss_fingerprint base \<and> ss_fingerprint branch = ss_fingerprint base \<and>
     values_equal ck (tables_value ck (state_rows actual)) (tables_value ck (projection base branch included))"

text \<open>A missing row of a \<open>Map\<close> is undefined.\<close>

definition row_at :: "(string, jsv) jmap \<Rightarrow> string \<Rightarrow> jsv" where
  "row_at rows k = (case jm_get rows k of Some r \<Rightarrow> r | None \<Rightarrow> Undef)"

definition changed_keys :: "(string \<Rightarrow> nat list) \<Rightarrow> (string, jsv) jmap \<Rightarrow> (string, jsv) jmap \<Rightarrow> string list" where
  "changed_keys ck base branch =
     filter (\<lambda>k. \<not> values_equal ck (row_at base k) (row_at branch k)) (sort (uniq (jm_keys base @ jm_keys branch)))"

datatype row_op = Remove_row string string "cell list" | Insert_row string string "cell list"

text \<open>\<open>columns.map((column) => decodeValue(row[column]))\<close>; an integer that \<open>BigInt\<close> does not read throws.\<close>

fun bind_cells :: "jsv \<Rightarrow> string list \<Rightarrow> cell list option" where
  "bind_cells row [] = Some []"
| "bind_cells row (c # cs) =
     (case decode_value (fld row c) of
        None \<Rightarrow> None
      | Some x \<Rightarrow> map_option (\<lambda>xs. x # xs) (bind_cells row cs))"

text \<open>The statements run one by one: a list of them, and whether the loop reached its end.\<close>

definition then_more :: "'a list \<times> bool \<Rightarrow> 'a list \<times> bool \<Rightarrow> 'a list \<times> bool" where
  "then_more r r' = (if snd r then (fst r @ fst r', snd r') else r)"

fun row_ops :: "(string \<Rightarrow> cell list \<Rightarrow> row_op) \<Rightarrow> string list \<Rightarrow> (string, jsv) jmap \<Rightarrow> string list \<Rightarrow> row_op list \<times> bool" where
  "row_ops op columns rows [] = ([], True)"
| "row_ops op columns rows (k # ks) =
     (case jm_get rows k of
        None \<Rightarrow> row_ops op columns rows ks
      | Some row \<Rightarrow>
          (case bind_cells row columns of
             None \<Rightarrow> ([], False)
           | Some cells \<Rightarrow> then_more ([op k cells], True) (row_ops op columns rows ks)))"

text \<open>Every changed old row goes before the new rows come.\<close>

definition table_ops :: "(string \<Rightarrow> nat list) \<Rightarrow> sqlite_table \<Rightarrow> string \<Rightarrow> (string, jsv) jmap \<Rightarrow> row_op list \<times> bool" where
  "table_ops ck base table branch =
     (let ks = changed_keys ck (st_rows base) branch in
      then_more (row_ops (Remove_row table) (st_primary_key base) (st_rows base) ks)
        (row_ops (Insert_row table) (st_insert_columns base) branch ks))"

fun capture_ops :: "(string \<Rightarrow> nat list) \<Rightarrow> (string, sqlite_table) jmap \<Rightarrow> sqlite_state \<Rightarrow> string list \<Rightarrow> row_op list \<times> bool" where
  "capture_ops ck [] branch included = ([], True)"
| "capture_ops ck ((t, base) # ts) branch included =
     (if t \<notin> set included then capture_ops ck ts branch included
      else then_more (table_ops ck base t (rows_of branch t)) (capture_ops ck ts branch included))"

text \<open>The session database after the operations, the changeset it yields, whether replaying it on the base
  succeeds, and the replayed database.\<close>

record session_run =
  sn_execute :: "row_op list \<Rightarrow> string + sqlite_file"
  sn_changeset :: string
  sn_replay :: "string + bool"
  sn_replayed :: sqlite_file

record changeset_artifact =
  ca_fingerprint :: string
  ca_bytes :: string

definition create_changeset ::
    "(string \<Rightarrow> string) \<Rightarrow> (string \<Rightarrow> nat list) \<Rightarrow> session_run \<Rightarrow> sqlite_file \<Rightarrow> sqlite_file \<Rightarrow> string list option \<Rightarrow> string + changeset_artifact" where
  "create_changeset sha ck run base_file branch_file tables =
     (case read_sqlite_state sha ck base_file of
        Inl e \<Rightarrow> Inl e
      | Inr base \<Rightarrow>
     (case read_sqlite_state sha ck branch_file of
        Inl e \<Rightarrow> Inl e
      | Inr branch \<Rightarrow>
          (let included = uniq (case tables of Some ts \<Rightarrow> ts | None \<Rightarrow> jm_keys (ss_tables base)) in
           if ss_fingerprint base \<noteq> ss_fingerprint branch then
             Inl ''SQLite changesets require an exact shared-base schema fingerprint''
           else (case find (\<lambda>t. t \<notin> set (jm_keys (ss_tables base))) included of
             Some t \<Rightarrow> Inl (''SQLite changeset profile names unknown table '' @ t)
           | None \<Rightarrow>
          (case sn_execute run (fst (capture_ops ck (ss_tables base) branch included)) of
             Inl e \<Rightarrow> Inl e
           | Inr file \<Rightarrow>
          if \<not> snd (capture_ops ck (ss_tables base) branch included) then Inl ''SyntaxError''
          else (case read_sqlite_state sha ck file of
             Inl e \<Rightarrow> Inl e
           | Inr captured \<Rightarrow>
               if \<not> matches_projection ck captured base branch included then
                 Inl ''SQLite session capture did not reproduce the admitted branch state''
               else (case sn_replay run of
                 Inl e \<Rightarrow> Inl e
               | Inr applied \<Rightarrow>
                   if \<not> applied then
                     Inl ''SQLite could not replay this branch changeset losslessly; keep it local and use a custom adapter''
                   else (case read_sqlite_state sha ck (sn_replayed run) of
                     Inl e \<Rightarrow> Inl e
                   | Inr replayed \<Rightarrow>
                       if \<not> matches_projection ck replayed base branch included then
                         Inl ''SQLite branch changeset replay did not reproduce the admitted branch state''
                       else Inr \<lparr>ca_fingerprint = ss_fingerprint base, ca_bytes = sn_changeset run\<rparr>))))))))"

section \<open>Merging rows\<close>

record row_merge =
  rm_rows :: "(string, jsv) jmap"
  rm_conflicts :: "conflict list"
  rm_unresolved :: nat

definition merge_row ::
    "(string \<Rightarrow> nat list) \<Rightarrow> conflict_policy \<Rightarrow> resolutions \<Rightarrow> string \<Rightarrow> (string, jsv) jmap \<Rightarrow> (string, jsv) jmap \<Rightarrow> (string, jsv) jmap
      \<Rightarrow> string \<Rightarrow> row_merge \<Rightarrow> row_merge" where
  "merge_row ck policy res table base home suitcase key m =
     (let b = row_at base key; h = row_at home key; s = row_at suitcase key; merged = three_way ck b h s in
      if \<not> snd merged then
        (if truthy (fst merged) then m\<lparr>rm_rows := jm_set (rm_rows m) key (fst merged)\<rparr> else m)
      else
        (let address = table @ '':'' @ key;
             c = \<lparr>cf_kind = Sqlite_row, cf_address = address, cf_base = or_null b, cf_home = or_null h, cf_suitcase = or_null s,
                  cf_suggested = Suggest_manual,
                  cf_reason = ''Both sites changed the same primary-key row differently from their shared base.''\<rparr>;
             m = m\<lparr>rm_conflicts := rm_conflicts m @ [c]\<rparr>;
             r = jm_get res (conflict_key Sqlite_row address) in
         if r = Some Keep_both then m\<lparr>rm_unresolved := rm_unresolved m + 1\<rparr>
         else
           (let m = (if r = None \<and> policy = Collect then m\<lparr>rm_unresolved := rm_unresolved m + 1\<rparr> else m);
                chosen = (if r = Some Take_suitcase \<or> r = None \<and> policy = Prefer_suitcase then s else h) in
            if truthy chosen then m\<lparr>rm_rows := jm_set (rm_rows m) key chosen\<rparr> else m)))"

definition merge_keys :: "(string, jsv) jmap \<Rightarrow> (string, jsv) jmap \<Rightarrow> (string, jsv) jmap \<Rightarrow> string list" where
  "merge_keys base home suitcase = sort (uniq (jm_keys base @ jm_keys home @ jm_keys suitcase))"

definition merge_table ::
    "(string \<Rightarrow> nat list) \<Rightarrow> conflict_policy \<Rightarrow> resolutions \<Rightarrow> string \<Rightarrow> (string, jsv) jmap \<Rightarrow> (string, jsv) jmap \<Rightarrow> (string, jsv) jmap \<Rightarrow> row_merge" where
  "merge_table ck policy res table base home suitcase =
     fold (merge_row ck policy res table base home suitcase) (merge_keys base home suitcase)
       \<lparr>rm_rows = [], rm_conflicts = [], rm_unresolved = 0\<rparr>"

definition merge_tables ::
    "(string \<Rightarrow> nat list) \<Rightarrow> conflict_policy \<Rightarrow> resolutions \<Rightarrow> sqlite_state \<Rightarrow> sqlite_state \<Rightarrow> sqlite_state \<Rightarrow> (string \<times> row_merge) list" where
  "merge_tables ck policy res base home suitcase =
     map (\<lambda>(t, st). (t, merge_table ck policy res t (st_rows st) (rows_of home t) (rows_of suitcase t))) (ss_tables base)"

text \<open>What SQLite does with the staged copy: applying the session changeset, or rewriting every table with
  the bound rows; the checks that follow; and the database read back.\<close>

record staging =
  sg_native :: "string + bool"
  sg_rewrite :: "(string \<times> cell list list) list \<Rightarrow> string + unit"
  sg_checks :: "string + string list \<times> jsv list"
  sg_staged :: sqlite_file

datatype merge_status = Merged | Conflicted | Blocked

record sqlite_reconciliation =
  sq_status :: merge_status
  sq_fingerprint :: "string option"
  sq_conflicts :: "conflict list"

definition validation :: "string \<Rightarrow> jsv \<Rightarrow> jsv \<Rightarrow> jsv \<Rightarrow> string \<Rightarrow> conflict" where
  "validation address b h s reason =
     \<lparr>cf_kind = Validation_conflict, cf_address = address, cf_base = b, cf_home = h, cf_suitcase = s,
      cf_suggested = Suggest_manual, cf_reason = reason\<rparr>"

fun bind_rows :: "string list \<Rightarrow> jsv list \<Rightarrow> cell list list \<times> bool" where
  "bind_rows columns [] = ([], True)"
| "bind_rows columns (r # rs) =
     (case bind_cells r columns of
        None \<Rightarrow> ([], False)
      | Some cells \<Rightarrow> then_more ([cells], True) (bind_rows columns rs))"

fun rewrite_plan :: "sqlite_state \<Rightarrow> table_rows \<Rightarrow> (string \<times> cell list list) list \<times> bool" where
  "rewrite_plan home [] = ([], True)"
| "rewrite_plan home ((t, rows) # ts) =
     (let r = bind_rows (case jm_get (ss_tables home) t of None \<Rightarrow> [] | Some st \<Rightarrow> st_insert_columns st) (map snd rows) in
      then_more ([(t, fst r)], snd r) (rewrite_plan home ts))"

definition stage_merge ::
    "(string \<Rightarrow> string) \<Rightarrow> (string \<Rightarrow> nat list) \<Rightarrow> staging \<Rightarrow> bool \<Rightarrow> sqlite_state \<Rightarrow> sqlite_state \<Rightarrow> table_rows \<Rightarrow> conflict list \<Rightarrow> sqlite_reconciliation" where
  "stage_merge sha ck sg session base home merged conflicts =
     (let blocked = (\<lambda>cs. \<lparr>sq_status = Blocked, sq_fingerprint = Some (ss_fingerprint base), sq_conflicts = cs\<rparr>);
          native = session \<and> conflicts = [];
          failed = (\<lambda>reason. blocked (conflicts @ [validation ''merged-database'' Null Null Null reason])) in
      if native \<and> sg_native sg \<noteq> Inr True then
        blocked [validation ''sqlite-changeset'' Null Null Null
          (case sg_native sg of Inl e \<Rightarrow> e | Inr _ \<Rightarrow> ''SQLite Session Extension aborted the staged merge'')]
      else (case (if native then Inr () else
                   (case sg_rewrite sg (fst (rewrite_plan home merged)) of
                      Inl e \<Rightarrow> Inl e
                    | Inr _ \<Rightarrow> if snd (rewrite_plan home merged) then Inr () else Inl ''SyntaxError'')) of
          Inl e \<Rightarrow> failed e
        | Inr _ \<Rightarrow>
       (case sg_checks sg of
          Inl e \<Rightarrow> failed e
        | Inr (integrity, violations) \<Rightarrow>
            if integrity \<noteq> [''ok''] \<or> violations \<noteq> [] then
              blocked (conflicts @ [validation ''merged-database'' Null (Arr (map (\<lambda>i. Obj [(''integrity_check'', Str i)]) integrity)) (Arr violations)
                ''The staged merge failed integrity or foreign-key validation.''])
            else (case read_sqlite_state sha ck (sg_staged sg) of
                Inl e \<Rightarrow> failed e
              | Inr staged \<Rightarrow>
                  if ss_fingerprint staged \<noteq> ss_fingerprint base
                     \<or> \<not> values_equal ck (tables_value ck (state_rows staged)) (tables_value ck merged) then
                    blocked (conflicts @ [validation ''merged-database'' (Str (text_of ck (tables_value ck merged)))
                      (Str (text_of ck (tables_value ck (state_rows staged)))) Null
                      ''The staged database does not exactly match the intended merged rows after triggers and constraints ran.''])
                  else \<lparr>sq_status = Merged, sq_fingerprint = Some (ss_fingerprint base), sq_conflicts = conflicts\<rparr>))))"

definition reconcile_sqlite_databases ::
    "(string \<Rightarrow> string) \<Rightarrow> (string \<Rightarrow> nat list) \<Rightarrow> staging \<Rightarrow> bool \<Rightarrow> conflict_policy option \<Rightarrow> resolutions
      \<Rightarrow> sqlite_file \<Rightarrow> sqlite_file \<Rightarrow> sqlite_file \<Rightarrow> sqlite_reconciliation" where
  "reconcile_sqlite_databases sha ck sg session policy res base_file home_file suitcase_file =
     (case (case read_sqlite_state sha ck base_file of Inl e \<Rightarrow> Inl e | Inr base \<Rightarrow>
            (case read_sqlite_state sha ck home_file of Inl e \<Rightarrow> Inl e | Inr home \<Rightarrow>
             (case read_sqlite_state sha ck suitcase_file of Inl e \<Rightarrow> Inl e | Inr suitcase \<Rightarrow> Inr (base, home, suitcase)))) of
        Inl e \<Rightarrow> \<lparr>sq_status = Blocked, sq_fingerprint = None, sq_conflicts = [validation ''database'' Null Null Null e]\<rparr>
      | Inr (base, home, suitcase) \<Rightarrow>
          if ss_fingerprint base \<noteq> ss_fingerprint home \<or> ss_fingerprint base \<noteq> ss_fingerprint suitcase then
            \<lparr>sq_status = Blocked, sq_fingerprint = None,
             sq_conflicts = [\<lparr>cf_kind = Schema_conflict, cf_address = ''sqlite_schema'', cf_base = Str (ss_fingerprint base),
               cf_home = Str (ss_fingerprint home), cf_suitcase = Str (ss_fingerprint suitcase), cf_suggested = Suggest_manual,
               cf_reason = ''All branches must use the exact reconciliation-profile schema fingerprint.''\<rparr>]\<rparr>
          else
            (let policy = (case policy of Some p \<Rightarrow> p | None \<Rightarrow> Collect);
                 ms = merge_tables ck policy res base home suitcase;
                 conflicts = concat (map (\<lambda>(t, m). rm_conflicts m) ms) in
             if 0 < sum_list (map (\<lambda>(t, m). rm_unresolved m) ms) then
               \<lparr>sq_status = Conflicted, sq_fingerprint = Some (ss_fingerprint base), sq_conflicts = conflicts\<rparr>
             else stage_merge sha ck sg session base home (map (\<lambda>(t, m). (t, rm_rows m)) ms) conflicts))"

text \<open>\<open>materializeSqliteChangeset\<close>: the branch rebuilt from its base and its changeset.\<close>

definition materialize_changeset ::
    "(string \<Rightarrow> string) \<Rightarrow> (string \<Rightarrow> nat list) \<Rightarrow> (string + bool) \<Rightarrow> sqlite_file \<Rightarrow> string option \<Rightarrow> string + sqlite_state" where
  "materialize_changeset sha ck applied output expected =
     (case applied of
        Inl e \<Rightarrow> Inl e
      | Inr ok \<Rightarrow>
          if \<not> ok then Inl ''SQLite changeset application was aborted''
          else (case read_sqlite_state sha ck output of
              Inl e \<Rightarrow> Inl e
            | Inr st \<Rightarrow>
                if (case expected of None \<Rightarrow> False | Some f \<Rightarrow> f \<noteq> [] \<and> ss_fingerprint st \<noteq> f) then
                  Inl ''Materialized SQLite changeset has an unexpected schema fingerprint''
                else Inr st))"

end
