(* ===== verification/SqliteMergeFacts.thy ===== *)
theory SqliteMergeFacts
  imports SqliteMerge DataMergeFacts
begin

text \<open>
  Cells survive their encoding, canonical equality of whole databases is equality row by row, and what the
  row merge writes.
\<close>

section \<open>Base 64\<close>

lemma base64_alphabet_facts: "length base64_alphabet = 64" "distinct base64_alphabet" "CHR ''='' \<notin> set base64_alphabet"
  by (simp_all add: base64_alphabet_def)

lemma index_of_nth: "distinct s \<Longrightarrow> i < length s \<Longrightarrow> index_of (s ! i) s = i"
proof (induction s arbitrary: i)
  case (Cons c s)
  then show ?case by (cases i) auto
qed simp

lemma base64_digit_char [simp]: "base64_digit (base64_char n) = n mod 64"
  using index_of_nth [OF base64_alphabet_facts(2), of "n mod 64"] base64_alphabet_facts(1)
  by (simp add: base64_digit_def base64_char_def)

lemma base64_char_pad [simp]: "base64_char n \<noteq> CHR ''=''"
proof -
  have "n mod 64 < length base64_alphabet" by (simp add: base64_alphabet_facts)
  then have "base64_char n \<in> set base64_alphabet" by (simp add: base64_char_def)
  then show ?thesis using base64_alphabet_facts(3) by auto
qed

lemmas base64_pad_char [simp] = base64_char_pad [symmetric]

lemma unat_byte_bound: "unat (b :: 8 word) < 256"
  using unsigned_less [of b] by simp

lemma word_of_parts:
  fixes a b c :: "8 word"
  shows "word_of_nat ((unat a * 65536 + unat b * 256 + unat c) div 65536) = a"
    and "word_of_nat ((unat a * 65536 + unat b * 256 + unat c) div 256) = b"
    and "word_of_nat (unat a * 65536 + unat b * 256 + unat c) = c"
proof -
  have lt: "unat a < 256" "unat b < 256" "unat c < 256" by (rule unat_byte_bound)+
  have "(unat a * 65536 + unat b * 256 + unat c) div 65536 = unat a" using lt by simp
  then show "word_of_nat ((unat a * 65536 + unat b * 256 + unat c) div 65536) = a" by simp
  have zero: "(256 :: 8 word) = 0" "(65536 :: 8 word) = 0" by simp_all
  have "(unat a * 65536 + unat b * 256 + unat c) div 256 = unat a * 256 + unat b" using lt by simp
  then show "word_of_nat ((unat a * 65536 + unat b * 256 + unat c) div 256) = b" by (simp add: zero)
  show "word_of_nat (unat a * 65536 + unat b * 256 + unat c) = c" by (simp add: zero)
qed

lemma sextets:
  fixes n :: nat
  assumes "n < 16777216"
  shows "(n div 262144) mod 64 * 262144 + (n div 4096) mod 64 * 4096 + (n div 64) mod 64 * 64 + n mod 64 = n"
proof -
  have q: "n div 4096 = n div 64 div 64" "n div 262144 = n div 4096 div 64" by (simp_all add: div_mult2_eq [symmetric])
  have "n = n div 64 * 64 + n mod 64" by simp
  moreover have "n div 64 = n div 4096 * 64 + n div 64 mod 64" unfolding q(1) by simp
  moreover have "n div 4096 = n div 262144 * 64 + n div 4096 mod 64" unfolding q(2) by simp
  moreover have "n div 262144 mod 64 = n div 262144" using assms by simp
  ultimately show ?thesis by linarith
qed

lemma word_sum_bound: "unat (a :: 8 word) * 65536 + unat (b :: 8 word) * 256 + unat (c :: 8 word) < 16777216"
  using unat_byte_bound [of a] unat_byte_bound [of b] unat_byte_bound [of c] by linarith

lemma unbase64_quad:
  assumes "p = base64_char (n div 262144)" "q = base64_char (n div 4096)" "n < 16777216"
    and r: "r = base64_char (n div 64) \<or> r = CHR ''='' \<and> n div 64 mod 64 = 0"
    and s: "s = base64_char n \<or> s = CHR ''='' \<and> n mod 64 = 0"
  shows "unbase64 (p # q # r # s # cs) =
     (if r = CHR ''='' then [word_of_nat (n div 65536)]
      else if s = CHR ''='' then [word_of_nat (n div 65536), word_of_nat (n div 256)]
      else [word_of_nat (n div 65536), word_of_nat (n div 256), word_of_nat n] @ unbase64 cs)"
proof (cases "r = CHR ''=''")
  case True
  define k where "k = n div 262144 mod 64 * 262144 + n div 4096 mod 64 * 4096"
  have "n div 64 mod 64 = 0" using r True by auto
  then have "n = k + n mod 64" using sextets [OF assms(3)] unfolding k_def by linarith
  moreover have "k = (n div 262144 mod 64 * 64 + n div 4096 mod 64) * 4096" by (simp add: k_def)
  ultimately have "\<exists>j. k = j * 4096 \<and> n = j * 4096 + n mod 64" by metis
  then obtain j where j: "k = j * 4096" "n = j * 4096 + n mod 64" by blast
  have "n mod 64 < 64" by simp
  then have "(j * 4096 + n mod 64) div 4096 = j" by simp
  then have "n div 4096 = k div 4096" using j by simp
  then have "n div 4096 div 16 = k div 4096 div 16" by simp
  then have "k div 65536 = n div 65536" by (simp add: div_mult2_eq [symmetric])
  then show ?thesis using True assms(1,2) by (simp add: Let_def k_def [symmetric])
next
  case False
  then have r: "r = base64_char (n div 64)" using r by simp
  show ?thesis
  proof (cases "s = CHR ''=''")
    case True
    have "n mod 64 = 0" using s True by auto
    then have "n div 262144 mod 64 * 262144 + n div 4096 mod 64 * 4096 + n div 64 mod 64 * 64 = n"
      using sextets [OF assms(3)] by linarith
    then show ?thesis unfolding unbase64.simps Let_def assms(1,2) r True base64_digit_char base64_char_pad if_False
      by (simp only: simp_thms if_True base64_char_pad if_False)
  next
    case False
    then have "s = base64_char n" using s by simp
    then show ?thesis unfolding unbase64.simps Let_def assms(1,2) r base64_digit_char base64_char_pad if_False
      by (simp only: base64_digit_char base64_char_pad if_False sextets [OF assms(3)])
  qed
qed

lemma unbase64_base64 [simp]: "unbase64 (base64 bs) = bs"
proof (induction bs rule: base64.induct)
  case (1 a b c bs)
  have "unbase64 (base64 (a # b # c # bs)) = [a, b, c] @ unbase64 (base64 bs)"
    unfolding base64.simps Let_def append_Cons append_Nil
    by (subst unbase64_quad [OF refl refl word_sum_bound [of a b c] disjI1 [OF refl] disjI1 [OF refl]])
      (simp only: word_of_parts base64_char_pad if_False append_Cons append_Nil)
  then show ?case using 1 [OF refl] by simp
next
  case (2 a b)
  have n: "unat a * 65536 + unat b * 256 < 16777216" using word_sum_bound [of a b 0] by simp
  have "(unat a * 65536 + unat b * 256) mod 64 = 0" by presburger
  then have "CHR ''='' = base64_char (unat a * 65536 + unat b * 256) \<or> CHR ''='' = CHR ''='' \<and> (unat a * 65536 + unat b * 256) mod 64 = 0" by simp
  from unbase64_quad [OF refl refl n disjI1 [OF refl] this]
  show ?case unfolding base64.simps Let_def using word_of_parts(1,2) [of a b 0] by simp
next
  case (3 a)
  have n: "unat a * 65536 < 16777216" using word_sum_bound [of a 0 0] by simp
  have z: "x * 65536 mod 64 = 0" "x * 65536 div 64 mod 64 = 0" for x :: nat
  proof -
    have x: "x * 65536 = x * 1024 * 64" "x * 1024 = x * 16 * 64" by simp_all
    show "x * 65536 mod 64 = 0" unfolding x(1) by (rule mod_mult_self2_is_0)
    have "x * 65536 div 64 = x * 1024" unfolding x(1) by simp
    then show "x * 65536 div 64 mod 64 = 0" unfolding x(2) using mod_mult_self2_is_0 [of "x * 16" 64] by (simp only:)
  qed
  have "CHR ''='' = base64_char (unat a * 65536 div 64) \<or> CHR ''='' = CHR ''='' \<and> unat a * 65536 div 64 mod 64 = 0"
    "CHR ''='' = base64_char (unat a * 65536) \<or> CHR ''='' = CHR ''='' \<and> unat a * 65536 mod 64 = 0" using z [of "unat a"] by (simp_all only: simp_thms)
  from unbase64_quad [OF refl refl n this]
  show ?case unfolding base64.simps Let_def using word_of_parts(1) [of a 0 0] by simp
qed simp

section \<open>Cells\<close>

lemma parse_int_str [simp]: "parse_bigint (int_str z) = Some z"
proof -
  have d: "list_all is_digit (nat_str n)" for n by (simp add: list_all_iff nat_str_digits)
  show ?thesis
  proof (cases "z < 0")
    case True
    then show ?thesis using d by (simp add: int_str_def parse_bigint_def)
  next
    case False
    obtain c t where ct: "nat_str (nat z) = c # t" using nat_str_nonempty by (cases "nat_str (nat z)") auto
    then have "c \<noteq> CHR ''-''" using nat_str_not_minus by metis
    then have "parse_bigint (nat_str (nat z)) = Some (int (nat_of_str (nat_str (nat z))))"
      using d [of "nat z"] unfolding parse_bigint_def ct by (auto split: list.split char.split bool.split)
    then show ?thesis using False by (simp add: int_str_def)
  qed
qed

lemma nat_of_str_bound: "list_all is_digit s \<Longrightarrow> nat_of_str s < 10 ^ length s"
proof (induction s rule: rev_induct)
  case (snoc c s)
  have "digit_val c < 10" using snoc.prems by (auto simp: digit_val_def is_digit_def less_eq_char_def)
  moreover have "nat_of_str (s @ [c]) = 10 * nat_of_str s + digit_val c" by (simp add: nat_of_str_def)
  moreover have "nat_of_str s + 1 \<le> 10 ^ length s" using snoc by simp
  then have "10 * nat_of_str s + 10 \<le> 10 ^ length (s @ [c])" by simp
  ultimately show ?case by linarith
qed (simp add: nat_of_str_def)

lemma nat_str_long: "10 ^ k \<le> n \<Longrightarrow> k < length (nat_str n)"
proof (rule ccontr)
  assume "10 ^ k \<le> n" "\<not> k < length (nat_str n)"
  moreover have "n < 10 ^ length (nat_str n)"
    using nat_of_str_bound [of "nat_str n"] by (simp add: list_all_iff nat_str_digits)
  ultimately have "10 ^ k < (10 :: nat) ^ length (nat_str n)" "length (nat_str n) \<le> k" by linarith+
  then show False using power_increasing [of "length (nat_str n)" k "10 :: nat"] by linarith
qed

lemma parse_bigint_Cons:
  "parse_bigint (c # ds) =
     (if c = CHR ''-'' then if ds \<noteq> [] \<and> list_all is_digit ds then Some (- int (nat_of_str ds)) else None
      else if list_all is_digit (c # ds) then Some (int (nat_of_str (c # ds))) else None)"
  by (cases "c = CHR ''-''", simp add: parse_bigint_def) (auto simp: parse_bigint_def split: list.split char.split bool.split)

lemma huge_not_bigint:
  assumes "10 ^ 21 \<le> \<bar>z\<bar>"
  shows "parse_bigint (num_str (JInt z)) = None"
proof -
  let ?ds = "nat_str (nat \<bar>z\<bar>)"
  have "10 ^ 21 \<le> nat \<bar>z\<bar>" using assms by (simp add: le_nat_iff)
  then have "21 < length ?ds" by (rule nat_str_long)
  then have "digits_text (strip_zeros ?ds) (int (length ?ds)) = sci_text (strip_zeros ?ds) (int (length ?ds) - 1)"
    by (simp add: digits_text_def Let_def)
  then have e: "CHR ''e'' \<in> set (digits_text (strip_zeros ?ds) (int (length ?ds)))" by (simp add: sci_text_def)
  have ne: "\<not> is_digit (CHR ''e'')" by (simp add: is_digit_def)
  have "num_str (JInt z) = (if z < 0 then ''-'' else '''') @ digits_text (strip_zeros ?ds) (int (length ?ds))"
    using assms by (simp add: Let_def)
  moreover have "parse_bigint s = None" if "CHR ''e'' \<in> set s" for s
    using that ne by (cases s) (auto simp: parse_bigint_Cons list_all_iff)
  ultimately show ?thesis using e by auto
qed

definition too_large :: "cell \<Rightarrow> bool" where
  "too_large c \<longleftrightarrow> (case c of Cell_number (JInt z) \<Rightarrow> 10 ^ 21 \<le> \<bar>z\<bar> | _ \<Rightarrow> False)"

lemma fld_tagged [simp]: "fld (tagged t v) ''type'' = Str t" "fld (tagged t v) ''value'' = v"
  by (simp_all add: tagged_def fld_def)

lemma decode_tagged:
  "decode_value (Obj [(''type'', Str ''null'')]) = Some Cell_null"
  "decode_value (tagged ''blob'' (Str s)) = Some (Cell_buffer (unbase64 s))"
  "decode_value (tagged ''real'' (Num n)) = Some (Cell_number n)"
  "decode_value (tagged ''integer'' (Str s)) = decode_integer s"
  "decode_value (tagged ''text'' (Str s)) = Some (Cell_text s)"
  by (simp add: decode_value_def fld_def) (simp_all add: decode_value_def Let_def)

lemma encode_decoded_integer:
  "\<exists>d. decode_integer (int_str z) = Some d \<and> encode_value d = tagged ''integer'' (Str (int_str z))"
proof (cases "z \<le> max_safe_integer \<and> - max_safe_integer \<le> z")
  case True
  then have "\<bar>z\<bar> < 10 ^ 21" by (auto simp: max_safe_integer_def)
  then show ?thesis using True by (simp add: decode_integer_def)
next
  case False
  then have "decode_integer (int_str z) = Some (Cell_bigint z)" by (simp only: decode_integer_def parse_int_str option.map if_False)
  then show ?thesis by simp
qed

lemma value_round_trip:
  "case decode_value (encode_value c) of None \<Rightarrow> too_large c | Some d \<Rightarrow> encode_value d = encode_value c"
proof (cases c)
  case (Cell_bigint z)
  with encode_decoded_integer [of z] show ?thesis by (auto simp: decode_tagged)
next
  case (Cell_number n)
  show ?thesis
  proof (cases n)
    case (JInt z)
    show ?thesis
    proof (cases "\<bar>z\<bar> < 10 ^ 21")
      case True
      with encode_decoded_integer [of z] Cell_number JInt show ?thesis by (auto simp: decode_tagged)
    next
      case False
      with Cell_number JInt huge_not_bigint [of z] show ?thesis
        by (simp add: decode_tagged decode_integer_def too_large_def del: num_str.simps)
    qed
  next
    case NegZero
    have "int_str 0 = ''0''" by code_simp
    with encode_decoded_integer [of 0] Cell_number NegZero show ?thesis by (auto simp: decode_tagged)
  qed (use Cell_number in \<open>simp_all add: decode_tagged\<close>)
qed (simp_all add: decode_tagged)

section \<open>Rows of a database that was read\<close>

text \<open>A cell whose encoding is a plain document: every number but the infinite ones and \<open>NaN\<close>.\<close>

definition finite_cell :: "cell \<Rightarrow> bool" where
  "finite_cell c \<longleftrightarrow> (case c of Cell_number n \<Rightarrow> num_int n \<noteq> None \<or> plain_num n | _ \<Rightarrow> True)"

definition finite_cells :: "sqlite_file \<Rightarrow> bool" where
  "finite_cells f \<longleftrightarrow> (\<forall>trs \<in> set (sf_rows f). \<forall>row \<in> set (snd trs). \<forall>kc \<in> set row. finite_cell (snd kc))"

lemma plain_encoded [simp]: "finite_cell c \<Longrightarrow> plain (encode_value c)"
  by (cases c) (auto simp: finite_cell_def tagged_def)

definition row_ok :: "jsv \<Rightarrow> bool" where
  "row_ok v \<longleftrightarrow> plain v \<and> truthy v"

definition rows_ok :: "(string, jsv) jmap \<Rightarrow> bool" where
  "rows_ok rows \<longleftrightarrow> distinct (jm_keys rows) \<and> (\<forall>kr \<in> set rows. row_ok (snd kr))"

lemma plain_row: "\<forall>kc \<in> set raw. finite_cell (snd kc) \<Longrightarrow> row_ok (row_value raw)"
  by (auto simp: row_value_def row_ok_def list_all_iff js_order_def)

lemma read_rows_facts:
  assumes "read_rows ck path table pk raws rows = Inr rows'" "rows_ok rows"
    "\<forall>raw \<in> set raws. \<forall>kc \<in> set raw. finite_cell (snd kc)"
  shows "rows_ok rows'"
  using assms
proof (induction raws arbitrary: rows)
  case (Cons raw raws)
  let ?rows = "jm_set rows (row_key ck pk (row_value raw)) (row_value raw)"
  have "\<not> jm_has rows (row_key ck pk (row_value raw))" "read_rows ck path table pk raws ?rows = Inr rows'"
    using Cons.prems(1) by (auto simp: Let_def split: if_splits)
  moreover have "rows_ok ?rows" using Cons.prems(2,3) plain_row [of raw] by (auto simp: rows_ok_def dest!: set_jm_set)
  ultimately show ?case using Cons.IH [of ?rows] Cons.prems(3) by simp
qed simp

definition table_ok :: "sqlite_table \<Rightarrow> bool" where
  "table_ok t \<longleftrightarrow> rows_ok (st_rows t)"

definition state_ok :: "sqlite_state \<Rightarrow> bool" where
  "state_ok s \<longleftrightarrow> distinct (jm_keys (ss_tables s)) \<and> (\<forall>t \<in> set (ss_tables s). table_ok (snd t))"

lemma read_table_ok: "read_table ck f r = Inr t \<Longrightarrow> finite_cells f \<Longrightarrow> table_ok t"
proof -
  assume h: "read_table ck f r = Inr t" "finite_cells f"
  obtain pk raws where pk: "read_rows ck (sf_path f) (sr_name r) pk raws [] = Inr (st_rows t)"
    "raws = (case jm_get (sf_rows f) (sr_name r) of None \<Rightarrow> [] | Some rs \<Rightarrow> rs)"
    using h(1) by (auto simp: read_table_def Let_def split: if_splits sum.splits)
  have "\<forall>raw \<in> set raws. \<forall>kc \<in> set raw. finite_cell (snd kc)"
  proof (cases "jm_get (sf_rows f) (sr_name r)")
    case (Some rs)
    then have "(sr_name r, rs) \<in> set (sf_rows f)" by (rule map_of_SomeD)
    then show ?thesis using h(2) Some pk(2) unfolding finite_cells_def by fastforce
  qed (simp add: pk(2))
  then show "table_ok t" using read_rows_facts [OF pk(1)] by (simp add: table_ok_def rows_ok_def)
qed

lemma read_tables_ok:
  assumes "read_tables ck f rs ts = Inr ts'" "finite_cells f" "distinct (jm_keys ts)" "\<forall>t \<in> set ts. table_ok (snd t)"
  shows "distinct (jm_keys ts') \<and> (\<forall>t \<in> set ts'. table_ok (snd t))"
  using assms
proof (induction rs arbitrary: ts)
  case (Cons r rs)
  obtain t where t: "read_table ck f r = Inr t" "read_tables ck f rs (jm_set ts (sr_name r) t) = Inr ts'"
    using Cons.prems(1) by (auto split: sum.splits)
  have "\<forall>u \<in> set (jm_set ts (sr_name r) t). table_ok (snd u)"
    using Cons.prems(4) read_table_ok [OF t(1) Cons.prems(2)] by (auto dest!: set_jm_set)
  then show ?case using Cons.IH [OF t(2)] Cons.prems(2,3) by simp
qed simp

lemma read_state_ok: "read_sqlite_state sha ck f = Inr s \<Longrightarrow> finite_cells f \<Longrightarrow> state_ok s"
proof -
  assume h: "read_sqlite_state sha ck f = Inr s" "finite_cells f"
  then obtain rs where "read_tables ck f rs [] = Inr (ss_tables s)"
    by (auto simp: read_sqlite_state_def Let_def split: if_splits sum.splits)
  from read_tables_ok [OF this h(2)] show "state_ok s" by (simp add: state_ok_def)
qed

text \<open>Reading rejects a database that fails the checks of SQLite.\<close>

lemma read_state_checked:
  "read_sqlite_state sha ck f = Inr s \<Longrightarrow> sf_integrity f = [''ok''] \<and> sf_violations f = 0"
  by (auto simp: read_sqlite_state_def Let_def split: if_splits)

section \<open>Equal databases\<close>

lemma values_equal_undef [simp]: "plain v \<Longrightarrow> \<not> values_equal ck Undef v" "plain v \<Longrightarrow> \<not> values_equal ck v Undef"
  by (simp_all add: values_equal_def canonical_text_plain plain_text)

lemma plain_tables_value:
  "(\<And>t rows kr. (t, rows) \<in> set ts \<Longrightarrow> kr \<in> set rows \<Longrightarrow> plain (snd kr)) \<Longrightarrow> plain (tables_value ck ts)"
  by (fastforce simp: tables_value_def list_all_iff)

lemma sorted_rows_equal:
  assumes "map (\<lambda>(k, r). (k, f r)) (sort_key (\<lambda>kr. ck (fst kr)) rows) = map (\<lambda>(k, r). (k, f r)) (sort_key (\<lambda>kr. ck (fst kr)) rows')"
    and "distinct (jm_keys rows)" "distinct (jm_keys rows')"
  shows "map_option f (jm_get rows k) = map_option f (jm_get rows' k)"
proof -
  have "map_option f (jm_get xs k) = jm_get (map (\<lambda>(k, r). (k, f r)) (sort_key (\<lambda>kr. ck (fst kr)) xs)) k" if "distinct (jm_keys xs)" for xs
    using map_of_sorted_fields [OF that, of "\<lambda>kr. ck (fst kr)"] by (simp add: map_of_map)
  then show ?thesis using assms by simp
qed

lemma tables_equal:
  assumes "values_equal ck (tables_value ck ts) (tables_value ck ts')"
    and ok: "\<forall>t \<in> set ts \<union> set ts'. rows_ok (snd t)"
  shows "list_all2 (\<lambda>t t'. fst t = fst t' \<and> (\<forall>k. values_equal ck (row_at (snd t) k) (row_at (snd t') k))) ts ts'"
proof -
  let ?rows = "\<lambda>rows. map (\<lambda>(k, r). (k, sort_doc ck r)) (sort_key (\<lambda>kr. ck (fst kr)) rows)"
  have d: "sort_doc ck (tables_value ck xs) = Arr (map (\<lambda>(t, rows). Arr [Str t, Arr (map (\<lambda>(k, r). Arr [Str k, r]) (?rows rows))]) xs)" for xs
    by (simp add: tables_value_def case_prod_beta comp_def)
  have "(t, rows) \<in> set ts \<union> set ts' \<Longrightarrow> kr \<in> set rows \<Longrightarrow> plain (snd kr)" for t rows kr
    using bspec [OF ok, of "(t, rows)"] by (simp add: rows_ok_def row_ok_def)
  then have "plain (tables_value ck ts)" "plain (tables_value ck ts')" by (blast intro: plain_tables_value)+
  then have "sort_doc ck (tables_value ck ts) = sort_doc ck (tables_value ck ts')"
    using assms(1) values_equal_iff by blast
  then have e: "map (\<lambda>(t, rows). Arr [Str t, Arr (map (\<lambda>(k, r). Arr [Str k, r]) (?rows rows))]) ts =
      map (\<lambda>(t, rows). Arr [Str t, Arr (map (\<lambda>(k, r). Arr [Str k, r]) (?rows rows))]) ts'"
    unfolding d by simp
  have inj: "inj (\<lambda>(k, r). Arr [Str k, r])" by (auto simp: inj_def)
  show ?thesis
    unfolding list_all2_conv_all_nth
  proof (intro conjI allI impI)
    show len: "length ts = length ts'" using e by (metis length_map)
    fix i assume i: "i < length ts"
    obtain t rows t' rows' where t: "ts ! i = (t, rows)" "ts' ! i = (t', rows')" by fastforce
    have "Arr [Str t, Arr (map (\<lambda>(k, r). Arr [Str k, r]) (?rows rows))] = Arr [Str t', Arr (map (\<lambda>(k, r). Arr [Str k, r]) (?rows rows'))]"
      using arg_cong [OF e, of "\<lambda>l. l ! i"] i len t by simp
    then have h: "t = t'" "?rows rows = ?rows rows'" using inj_map_eq_map [OF inj] by (blast, blast)
    have m: "(t, rows) \<in> set ts" "(t', rows') \<in> set ts'" using i len t by (metis nth_mem)+
    have o1: "distinct (jm_keys rows)" "distinct (jm_keys rows')" "\<forall>kr \<in> set rows \<union> set rows'. row_ok (snd kr)"
      using bspec [OF ok, of "(t, rows)"] bspec [OF ok, of "(t', rows')"] m by (auto simp: rows_ok_def)
    have "values_equal ck (row_at rows k) (row_at rows' k)" for k
    proof -
      have s: "map_option (sort_doc ck) (jm_get rows k) = map_option (sort_doc ck) (jm_get rows' k)"
        by (rule sorted_rows_equal [OF h(2) o1(1,2)])
      have p: "jm_get rows k = Some v \<Longrightarrow> plain v" "jm_get rows' k = Some v \<Longrightarrow> plain v" for v
        using bspec [OF o1(3), of "(k, v)"] by (auto simp: row_ok_def dest: map_of_SomeD)
      show ?thesis
        using s p by (cases "jm_get rows k"; cases "jm_get rows' k") (auto simp: row_at_def values_equal_iff)
    qed
    then show "fst (ts ! i) = fst (ts' ! i)" "\<And>k. values_equal ck (row_at (snd (ts ! i)) k) (row_at (snd (ts' ! i)) k)"
      using h(1) t by simp_all
  qed
qed

section \<open>Merged rows\<close>

text \<open>What the row merge decides for a key, and when it leaves the decision open.\<close>

definition settled_row ::
    "(string \<Rightarrow> nat list) \<Rightarrow> conflict_policy \<Rightarrow> resolutions \<Rightarrow> string \<Rightarrow> (string, jsv) jmap \<Rightarrow> (string, jsv) jmap \<Rightarrow> (string, jsv) jmap
      \<Rightarrow> string \<Rightarrow> jsv" where
  "settled_row ck policy res table base home suitcase key =
     (let b = row_at base key; h = row_at home key; s = row_at suitcase key; merged = three_way ck b h s;
          r = jm_get res (conflict_key Sqlite_row (table @ '':'' @ key)) in
      if \<not> snd merged then fst merged
      else if r = Some Take_suitcase \<or> r = None \<and> policy = Prefer_suitcase then s else h)"

definition open_row ::
    "(string \<Rightarrow> nat list) \<Rightarrow> conflict_policy \<Rightarrow> resolutions \<Rightarrow> string \<Rightarrow> (string, jsv) jmap \<Rightarrow> (string, jsv) jmap \<Rightarrow> (string, jsv) jmap
      \<Rightarrow> string \<Rightarrow> bool" where
  "open_row ck policy res table base home suitcase key \<longleftrightarrow>
     (let r = jm_get res (conflict_key Sqlite_row (table @ '':'' @ key)) in
      snd (three_way ck (row_at base key) (row_at home key) (row_at suitcase key)) \<and> (r = Some Keep_both \<or> r = None \<and> policy = Collect))"

lemma merge_row_unresolved:
  "rm_unresolved (merge_row ck policy res table base home suitcase k m) =
     rm_unresolved m + (if open_row ck policy res table base home suitcase k then 1 else 0)"
  by (simp add: merge_row_def open_row_def Let_def)

lemma merge_row_rows:
  "\<not> open_row ck policy res table base home suitcase k \<Longrightarrow>
   rm_rows (merge_row ck policy res table base home suitcase k m) =
     (let v = settled_row ck policy res table base home suitcase k in if truthy v then jm_set (rm_rows m) k v else rm_rows m)"
  by (auto simp: merge_row_def open_row_def settled_row_def Let_def)

lemma fold_unresolved:
  "rm_unresolved (fold (merge_row ck policy res table base home suitcase) ks m) =
     rm_unresolved m + length (filter (open_row ck policy res table base home suitcase) ks)"
  by (induction ks arbitrary: m) (simp_all add: merge_row_unresolved)

lemma fold_rows:
  assumes "\<forall>k \<in> set ks. \<not> open_row ck policy res table base home suitcase k" "distinct ks"
  shows "jm_get (rm_rows (fold (merge_row ck policy res table base home suitcase) ks m)) k =
     (if k \<in> set ks \<and> truthy (settled_row ck policy res table base home suitcase k)
      then Some (settled_row ck policy res table base home suitcase k) else jm_get (rm_rows m) k)"
  using assms by (induction ks arbitrary: m) (auto simp: merge_row_rows Let_def)

lemma fold_distinct:
  "distinct (jm_keys (rm_rows m)) \<Longrightarrow> distinct (jm_keys (rm_rows (fold (merge_row ck policy res table base home suitcase) ks m)))"
proof (induction ks arbitrary: m)
  case (Cons k ks)
  then have "distinct (jm_keys (rm_rows (merge_row ck policy res table base home suitcase k m)))"
    by (simp add: merge_row_def Let_def)
  then show ?case using Cons.IH by simp
qed simp

lemma row_at_cases: "rows_ok rows \<Longrightarrow> row_at rows k = Undef \<and> k \<notin> set (jm_keys rows) \<or> row_ok (row_at rows k)"
proof (cases "jm_get rows k")
  case (Some r)
  then have "(k, r) \<in> set rows" by (rule map_of_SomeD)
  then show "rows_ok rows \<Longrightarrow> ?thesis" using Some by (fastforce simp: row_at_def rows_ok_def)
next
  case None
  then have "k \<notin> set (jm_keys rows)" "row_at rows k = Undef" by (simp_all add: row_at_def flip: map_of_eq_None_iff)
  then show ?thesis by blast
qed

lemma settled_cases:
  "settled_row ck policy res table base home suitcase k \<in> {row_at base k, row_at home k, row_at suitcase k}"
  by (simp add: settled_row_def three_way_def Let_def)

lemma merged_table_facts:
  assumes ok: "rows_ok base" "rows_ok home" "rows_ok suitcase"
    and m: "m = merge_table ck policy res table base home suitcase" and none: "rm_unresolved m = 0"
  shows "row_at (rm_rows m) k = settled_row ck policy res table base home suitcase k"
    and "\<not> open_row ck policy res table base home suitcase k" and "rows_ok (rm_rows m)"
proof -
  let ?ks = "merge_keys base home suitcase" and ?s = "settled_row ck policy res table base home suitcase"
  have ks: "set ?ks = set (jm_keys base) \<union> set (jm_keys home) \<union> set (jm_keys suitcase)" "distinct ?ks"
    by (auto simp: merge_keys_def)
  have outside: "row_at base j = Undef \<and> row_at home j = Undef \<and> row_at suitcase j = Undef" if "j \<notin> set ?ks" for j
    using that unfolding ks by (simp add: row_at_def map_of_eq_None_iff [symmetric] split: option.split)
  have "filter (open_row ck policy res table base home suitcase) ?ks = []"
    using none by (simp add: m merge_table_def fold_unresolved)
  then have no: "\<forall>j \<in> set ?ks. \<not> open_row ck policy res table base home suitcase j" by (simp add: filter_empty_conv)
  show "\<not> open_row ck policy res table base home suitcase k"
  proof (cases "k \<in> set ?ks")
    case False
    then show ?thesis using outside by (simp add: open_row_def three_way_def Let_def)
  qed (use no in blast)
  have get: "jm_get (rm_rows m) j = (if j \<in> set ?ks \<and> truthy (?s j) then Some (?s j) else None)" for j
    by (simp add: m merge_table_def fold_rows [OF no ks(2)])
  have s: "?s j = Undef \<or> row_ok (?s j)" for j
    using settled_cases [of ck policy res table base home suitcase j] row_at_cases [OF ok(1), of j] row_at_cases [OF ok(2), of j]
      row_at_cases [OF ok(3), of j] by auto
  show "row_at (rm_rows m) k = ?s k"
  proof (cases "k \<in> set ?ks")
    case True
    then show ?thesis using s [of k] by (auto simp: row_at_def get row_ok_def)
  next
    case False
    then have "?s k = Undef" using outside by (simp add: settled_row_def three_way_def Let_def)
    then show ?thesis using False by (simp add: row_at_def get)
  qed
  have d: "distinct (jm_keys (rm_rows m))" using fold_distinct [of "\<lparr>rm_rows = [], rm_conflicts = [], rm_unresolved = 0\<rparr>"]
    by (simp add: m merge_table_def)
  have "row_ok (snd kr)" if "kr \<in> set (rm_rows m)" for kr
  proof -
    have "jm_get (rm_rows m) (fst kr) = Some (snd kr)" using d that by simp
    then have "snd kr = ?s (fst kr)" "truthy (?s (fst kr))" by (auto simp: get split: if_splits)
    then show ?thesis using s [of "fst kr"] by auto
  qed
  then show "rows_ok (rm_rows m)" using d by (simp add: rows_ok_def)
qed

end
