(* ===== verification/SqliteMergeProperties.thy ===== *)
theory SqliteMergeProperties
  imports SqliteMergeFacts
begin

text \<open>
  What a captured changeset and a merged database promise, whatever SQLite did in between, and the cells
  that do not survive their encoding.
\<close>

section \<open>Cells\<close>


lemma infinite_reals_confused:
  "values_equal ck (row_value [(k, Cell_number PosInf)]) (row_value [(k, Cell_number NegInf)])"
proof -
  have "js_order [x] = [x]" for x :: "string \<times> jsv" by (simp add: js_order_def)
  then show ?thesis by (simp add: values_equal_def row_value_def tagged_def)
qed

section \<open>Merged databases\<close>

lemma merge_tables_at:
  assumes "state_ok base" "ms = merge_tables ck policy res base home suitcase" "sum_list (map (\<lambda>(t, m). rm_unresolved m) ms) = 0"
    and t: "i < length (ss_tables base)"
  shows "\<exists>m. ms ! i = (fst (ss_tables base ! i), m) \<and> rm_unresolved m = 0
    \<and> m = merge_table ck policy res (fst (ss_tables base ! i)) (rows_of base (fst (ss_tables base ! i)))
        (rows_of home (fst (ss_tables base ! i))) (rows_of suitcase (fst (ss_tables base ! i)))"
proof -
  obtain n st where n: "ss_tables base ! i = (n, st)" by fastforce
  then have "(n, st) \<in> set (ss_tables base)" using t by (metis nth_mem)
  then have "rows_of base n = st_rows st" using assms(1) by (simp add: rows_of_def state_ok_def)
  moreover have "ms ! i = (n, merge_table ck policy res n (st_rows st) (rows_of home n) (rows_of suitcase n))" "length ms = length (ss_tables base)"
    using n t assms(2) by (simp_all add: merge_tables_def)
  moreover have "\<forall>m \<in> set ms. rm_unresolved (snd m) = 0" using assms(3) by (auto simp: case_prod_beta)
  then have "rm_unresolved (snd (ms ! i)) = 0" using t calculation(3) by simp
  ultimately show ?thesis using n by simp
qed

lemma state_rows_ok: "state_ok s \<Longrightarrow> rows_ok (rows_of s t)"
proof (cases "jm_get (ss_tables s) t")
  case (Some st)
  assume ok: "state_ok s"
  have "(t, st) \<in> set (ss_tables s)" using Some by (rule map_of_SomeD)
  then have "table_ok st" using ok by (fastforce simp: state_ok_def)
  then show ?thesis using Some by (simp add: rows_of_def table_ok_def)
qed (simp add: rows_of_def rows_ok_def)

lemma merged_rows_settled:
  assumes ok: "state_ok base" "state_ok home" "state_ok suitcase" "state_ok staged"
    and ms: "ms = merge_tables ck policy res base home suitcase" "sum_list (map (\<lambda>(t, m). rm_unresolved m) ms) = 0"
    and eq: "values_equal ck (tables_value ck (state_rows staged)) (tables_value ck (map (\<lambda>(t, m). (t, rm_rows m)) ms))"
    and t: "t \<in> set (jm_keys (ss_tables base))"
  shows "values_equal ck (row_at (rows_of staged t) k)
      (settled_row ck policy res t (rows_of base t) (rows_of home t) (rows_of suitcase t) k)"
    and "\<not> open_row ck policy res t (rows_of base t) (rows_of home t) (rows_of suitcase t) k"
proof -
  obtain i where i: "i < length (ss_tables base)" "fst (ss_tables base ! i) = t"
    using t by (auto simp: in_set_conv_nth)
  obtain m where m: "ms ! i = (t, m)" "rm_unresolved m = 0"
    "m = merge_table ck policy res t (rows_of base t) (rows_of home t) (rows_of suitcase t)"
    using merge_tables_at [OF ok(1) ms i(1)] i(2) by auto
  note table = merged_table_facts [OF state_rows_ok [OF ok(1)] state_rows_ok [OF ok(2)] state_rows_ok [OF ok(3)] m(3,2)]
  have "rows_ok (rm_rows m')" if "(t', m') \<in> set ms" for t' m'
  proof -
    have "length ms = length (ss_tables base)" by (simp add: ms(1) merge_tables_def)
    moreover have "(t', m') \<in> set ms" by (rule that)
    ultimately obtain j where j: "j < length (ss_tables base)" "ms ! j = (t', m')"
      by (auto simp: in_set_conv_nth)
    from merge_tables_at [OF ok(1) ms j(1)] j(2)
    have m': "m' = merge_table ck policy res t' (rows_of base t') (rows_of home t') (rows_of suitcase t')" "rm_unresolved m' = 0" by auto
    show ?thesis by (rule merged_table_facts(3) [OF state_rows_ok [OF ok(1)] state_rows_ok [OF ok(2)] state_rows_ok [OF ok(3)] m'])
  qed
  then have "\<forall>u \<in> set (map (\<lambda>(t, m). (t, rm_rows m)) ms). rows_ok (snd u)" by fastforce
  moreover have "\<forall>u \<in> set (state_rows staged). rows_ok (snd u)"
    using ok(4) by (fastforce simp: state_rows_def state_ok_def table_ok_def)
  ultimately have e: "list_all2 (\<lambda>t t'. fst t = fst t' \<and> (\<forall>k. values_equal ck (row_at (snd t) k) (row_at (snd t') k)))
      (state_rows staged) (map (\<lambda>(t, m). (t, rm_rows m)) ms)"
    by (intro tables_equal [OF eq]) blast
  have len: "i < length ms" using i(1) by (simp add: ms(1) merge_tables_def)
  then have n: "i < length (ss_tables staged)" using list_all2_lengthD [OF e] by (simp add: state_rows_def)
  obtain t' st where st: "ss_tables staged ! i = (t', st)" by fastforce
  then have "state_rows staged ! i = (t', st_rows st)" using n by (simp add: state_rows_def)
  then have h: "t' = t" "values_equal ck (row_at (st_rows st) k) (row_at (rm_rows m) k)" for k
    using list_all2_nthD2 [OF e, of i] len m(1) by auto
  have "(t, st) \<in> set (ss_tables staged)" using st n h(1) by (metis nth_mem)
  then have "rows_of staged t = st_rows st" using ok(4) by (simp add: rows_of_def state_ok_def)
  then show "values_equal ck (row_at (rows_of staged t) k)
      (settled_row ck policy res t (rows_of base t) (rows_of home t) (rows_of suitcase t) k)"
    using h(2) [of k] table(1) by simp
  show "\<not> open_row ck policy res t (rows_of base t) (rows_of home t) (rows_of suitcase t) k" by (rule table(2))
qed

lemma stage_merged:
  assumes "sq_status (stage_merge sha ck sg session base home merged conflicts) = Merged"
  shows "\<exists>staged. read_sqlite_state sha ck (sg_staged sg) = Inr staged \<and> ss_fingerprint staged = ss_fingerprint base
    \<and> values_equal ck (tables_value ck (state_rows staged)) (tables_value ck merged)"
  using assms by (auto simp: stage_merge_def Let_def split: if_splits sum.splits)

lemma merged_status:
  assumes "sq_status (reconcile_sqlite_databases sha ck sg session policy res base_file home_file suitcase_file) = Merged"
  shows "\<exists>base home suitcase staged ms. read_sqlite_state sha ck base_file = Inr base \<and> read_sqlite_state sha ck home_file = Inr home
    \<and> read_sqlite_state sha ck suitcase_file = Inr suitcase \<and> read_sqlite_state sha ck (sg_staged sg) = Inr staged
    \<and> ss_fingerprint home = ss_fingerprint base \<and> ss_fingerprint suitcase = ss_fingerprint base \<and> ss_fingerprint staged = ss_fingerprint base
    \<and> ms = merge_tables ck (case policy of Some p \<Rightarrow> p | None \<Rightarrow> Collect) res base home suitcase
    \<and> sum_list (map (\<lambda>(t, m). rm_unresolved m) ms) = 0
    \<and> values_equal ck (tables_value ck (state_rows staged)) (tables_value ck (map (\<lambda>(t, m). (t, rm_rows m)) ms))"
proof -
  obtain base home suitcase where s: "read_sqlite_state sha ck base_file = Inr base" "read_sqlite_state sha ck home_file = Inr home"
    "read_sqlite_state sha ck suitcase_file = Inr suitcase"
    using assms by (auto simp: reconcile_sqlite_databases_def split: sum.splits)
  let ?ms = "merge_tables ck (case policy of Some p \<Rightarrow> p | None \<Rightarrow> Collect) res base home suitcase"
  let ?cs = "concat (map (\<lambda>(t, m). rm_conflicts m) ?ms)"
  have h: "ss_fingerprint base = ss_fingerprint home" "ss_fingerprint base = ss_fingerprint suitcase"
    "sum_list (map (\<lambda>(t, m). rm_unresolved m) ?ms) = 0"
    "sq_status (stage_merge sha ck sg session base home (map (\<lambda>(t, m). (t, rm_rows m)) ?ms) ?cs) = Merged"
    using assms unfolding reconcile_sqlite_databases_def s sum.case prod.case Let_def by (auto split: if_splits)
  from stage_merged [OF h(4)] obtain staged where "read_sqlite_state sha ck (sg_staged sg) = Inr staged"
    "ss_fingerprint staged = ss_fingerprint base"
    "values_equal ck (tables_value ck (state_rows staged)) (tables_value ck (map (\<lambda>(t, m). (t, rm_rows m)) ?ms))" by blast
  then show ?thesis using s h(1-3) by metis
qed


section \<open>Captured changesets\<close>

lemma created_changeset:
  assumes "create_changeset sha ck run base_file branch_file tables = Inr ca"
  shows "\<exists>base branch replayed. read_sqlite_state sha ck base_file = Inr base \<and> read_sqlite_state sha ck branch_file = Inr branch
    \<and> read_sqlite_state sha ck (sn_replayed run) = Inr replayed \<and> ca_fingerprint ca = ss_fingerprint base \<and> sn_replay run = Inr True
    \<and> (\<forall>ts. tables = Some ts \<longrightarrow> set ts \<subseteq> set (jm_keys (ss_tables base)))
    \<and> matches_projection ck replayed base branch (uniq (case tables of Some ts \<Rightarrow> ts | None \<Rightarrow> jm_keys (ss_tables base)))"
  using assms
  by (fastforce simp: create_changeset_def Let_def find_None_iff split: if_splits sum.splits option.splits)

lemma projection_rows:
  assumes ok: "state_ok actual" "state_ok base" "state_ok branch" and m: "matches_projection ck actual base branch included"
    and t: "t \<in> set (jm_keys (ss_tables base))"
  shows "values_equal ck (row_at (rows_of actual t) k) (row_at (rows_of (if t \<in> set included then branch else base) t) k)"
proof -
  have rows: "rows_ok (st_rows st)" if "(u, st) \<in> set (ss_tables s)" "state_ok s" for u st s
    using that by (fastforce simp: state_ok_def table_ok_def)
  have "\<forall>u \<in> set (state_rows actual) \<union> set (projection base branch included). rows_ok (snd u)"
    using rows ok by (fastforce simp: state_rows_def projection_def state_rows_ok)
  then have e: "list_all2 (\<lambda>t t'. fst t = fst t' \<and> (\<forall>k. values_equal ck (row_at (snd t) k) (row_at (snd t') k)))
      (state_rows actual) (projection base branch included)"
    using m by (intro tables_equal) (simp_all add: matches_projection_def)
  obtain i where i: "i < length (ss_tables base)" "fst (ss_tables base ! i) = t" using t by (auto simp: in_set_conv_nth)
  then obtain st where st: "ss_tables base ! i = (t, st)" by (metis prod.collapse)
  then have "(t, st) \<in> set (ss_tables base)" using i(1) by (metis nth_mem)
  then have b: "rows_of base t = st_rows st" using ok(2) by (simp add: rows_of_def state_ok_def)
  have p: "projection base branch included ! i = (t, if t \<in> set included then rows_of branch t else rows_of base t)"
    using st i(1) b by (simp add: projection_def)
  have n: "i < length (ss_tables actual)" using i(1) list_all2_lengthD [OF e] by (simp add: state_rows_def projection_def)
  obtain t' st' where st': "ss_tables actual ! i = (t', st')" by fastforce
  then have h: "t' = t" "values_equal ck (row_at (st_rows st') k) (row_at (if t \<in> set included then rows_of branch t else rows_of base t) k)"
    using list_all2_nthD [OF e, of i] n p by (auto simp: state_rows_def)
  have "(t, st') \<in> set (ss_tables actual)" using st' n h(1) by (metis nth_mem)
  then have "rows_of actual t = st_rows st'" using ok(1) by (simp add: rows_of_def state_ok_def)
  then show ?thesis using h(2) by (cases "t \<in> set included") simp_all
qed


section \<open>Witnesses\<close>

text \<open>One table with a text key; home changes a row, the suitcase adds one.\<close>

definition shop :: "(string \<times> string) list \<Rightarrow> sqlite_file" where
  "shop rows = \<lparr>sf_path = ''shop.sqlite'', sf_integrity = [''ok''], sf_violations = 0,
     sf_schema = [\<lparr>sr_type = ''table'', sr_name = ''items'', sr_table = ''items'', sr_sql = ''CREATE TABLE items (id TEXT PRIMARY KEY NOT NULL, label TEXT)''\<rparr>],
     sf_columns = [(''items'', [\<lparr>ci_name = ''id'', ci_type = ''TEXT'', ci_notnull = True, ci_pk = 1, ci_hidden = 0\<rparr>,
       \<lparr>ci_name = ''label'', ci_type = ''TEXT'', ci_notnull = False, ci_pk = 0, ci_hidden = 0\<rparr>])],
     sf_tables = [], sf_rows = [(''items'', map (\<lambda>(i, l). [(''id'', Cell_text i), (''label'', Cell_text l)]) rows)]\<rparr>"

lemma finite_shop: "finite_cells (shop rows)"
  by (auto simp: shop_def finite_cells_def finite_cell_def)

definition shop_staging :: staging where
  "shop_staging = \<lparr>sg_native = Inr False, sg_rewrite = (\<lambda>_. Inr ()), sg_checks = Inr ([''ok''], []),
     sg_staged = shop [(''a'', ''A''), (''b'', ''new'')]\<rparr>"

lemma shop_merged:
  "sq_status (reconcile_sqlite_databases (\<lambda>_. []) (\<lambda>_. []) shop_staging False None []
     (shop [(''a'', ''x'')]) (shop [(''a'', ''A'')]) (shop [(''a'', ''x''), (''b'', ''new'')])) = Merged"
  by code_simp


definition shop_session :: session_run where
  "shop_session = \<lparr>sn_execute = (\<lambda>_. Inr (shop [(''a'', ''x''), (''b'', ''new'')])), sn_changeset = ''bytes'', sn_replay = Inr True,
     sn_replayed = shop [(''a'', ''x''), (''b'', ''new'')]\<rparr>"

lemma shop_captured:
  "create_changeset (\<lambda>_. []) (\<lambda>_. []) shop_session (shop [(''a'', ''x'')]) (shop [(''a'', ''x''), (''b'', ''new'')]) None =
     Inr \<lparr>ca_fingerprint = ss_fingerprint (case read_sqlite_state (\<lambda>_. []) (\<lambda>_. []) (shop []) of Inr s \<Rightarrow> s), ca_bytes = ''bytes''\<rparr>"
  by code_simp


end
