(* ===== verification/EdgeCache.thy ===== *)
theory EdgeCache
  imports JsValue
begin

text \<open>
  The response cache of the edge (\<open>edge/response-cache.ts\<close>): one \<open>Map\<close> from keys to responses, whose
  insertion order is its order of use. Headers are JavaScript objects, a body is its bytes.
\<close>

record cached_response =
  cr_status :: nat
  cr_headers :: jsv
  cr_body :: string
  cr_stored_at :: int
  cr_expires_at :: int

definition max_entries :: nat where
  "max_entries = 512"

type_synonym response_cache = "(string, cached_response) jmap"

definition of_deployment :: "string \<Rightarrow> string \<Rightarrow> bool" where
  "of_deployment name key \<longleftrightarrow> starts_with key (name @ '':'')"

definition purge_deployment_cache :: "string \<Rightarrow> response_cache \<Rightarrow> response_cache \<times> nat" where
  "purge_deployment_cache name entries =
     (filter (\<lambda>kr. \<not> of_deployment name (fst kr)) entries,
      length (filter (\<lambda>kr. of_deployment name (fst kr)) entries))"

record cache_stats =
  cs_entries :: nat
  cs_bytes :: nat
  cs_max :: nat

definition response_cache_stats :: "response_cache \<Rightarrow> cache_stats" where
  "response_cache_stats entries =
     \<lparr>cs_entries = length entries, cs_bytes = sum_list (map (\<lambda>kr. length (cr_body (snd kr))) entries), cs_max = max_entries\<rparr>"

text \<open>\<open>DeployConfig['cache']\<close>.\<close>

record cache_config =
  cc_enabled :: bool
  cc_max_age :: "int option"
  cc_paths :: "string list"
  cc_max_bytes :: "nat option"

definition pattern_matches :: "string \<Rightarrow> string \<Rightarrow> bool" where
  "pattern_matches path pattern \<longleftrightarrow>
     (if ends_with pattern ''*'' then starts_with path (butlast pattern) else path = pattern)"

definition path_matches_cache_config :: "string \<Rightarrow> cache_config option \<Rightarrow> bool" where
  "path_matches_cache_config path config \<longleftrightarrow>
     (case config of
        None \<Rightarrow> False
      | Some c \<Rightarrow> cc_enabled c \<and> cc_paths c \<noteq> [] \<and> list_ex (pattern_matches path) (cc_paths c))"

definition get_cached_response :: "int \<Rightarrow> string \<Rightarrow> response_cache \<Rightarrow> response_cache \<times> cached_response option" where
  "get_cached_response now key entries =
     (case jm_get entries key of
        None \<Rightarrow> (entries, None)
      | Some cached \<Rightarrow>
          if cr_expires_at cached \<le> now then (jm_delete entries key, None)
          else (jm_set (jm_delete entries key) key cached, Some cached))"

text \<open>The loop drops the oldest entry until the limit holds; it gives up on an empty key.\<close>

fun evict :: "response_cache \<Rightarrow> response_cache" where
  "evict [] = []"
| "evict ((oldest, r) # entries) =
     (if max_entries < length ((oldest, r) # entries) then
        (if oldest = [] then (oldest, r) # entries else evict entries)
      else (oldest, r) # entries)"

definition put_cached_response :: "string \<Rightarrow> cached_response \<Rightarrow> response_cache \<Rightarrow> response_cache" where
  "put_cached_response key response entries = evict (jm_set (jm_delete entries key) key response)"

text \<open>\<open>String(headers[name] || '').toLowerCase()\<close>\<close>

definition header_text :: "jsv \<Rightarrow> string \<Rightarrow> string" where
  "header_text headers name = to_lower (if truthy (fld headers name) then js_string (fld headers name) else [])"

definition is_public_cacheable :: "jsv \<Rightarrow> bool" where
  "is_public_cacheable headers \<longleftrightarrow>
     (let policy = header_text headers ''cache-control''; vary = header_text headers ''vary'' in
      (str_includes policy ''public'' \<or> str_includes policy ''s-maxage='' \<or> str_includes policy ''max-age='')
      \<and> \<not> str_includes policy ''private'' \<and> \<not> str_includes policy ''no-store''
      \<and> fld headers ''set-cookie'' = Undef
      \<and> (vary = [] \<or> vary = ''accept-encoding''))"

section \<open>Operations\<close>

datatype cache_op = Cache_get int string | Cache_put string cached_response | Cache_purge string | Cache_stats

datatype cache_out = Found "cached_response option" | Stored | Purged nat | Stats cache_stats

fun cache_step :: "cache_op \<Rightarrow> response_cache \<Rightarrow> response_cache \<times> cache_out" where
  "cache_step (Cache_get now k) es = (let r = get_cached_response now k es in (fst r, Found (snd r)))"
| "cache_step (Cache_put k r) es = (put_cached_response k r es, Stored)"
| "cache_step (Cache_purge name) es = (let r = purge_deployment_cache name es in (fst r, Purged (snd r)))"
| "cache_step Cache_stats es = (es, Stats (response_cache_stats es))"

end
