(* ===== verification/Simulation.thy ===== *)
theory Simulation
  imports Prelude
begin

text \<open>
  Running a list of operations, and what a forward simulation between two machines with outputs gives:
  equal outputs along every run, related states at its end.
\<close>

fun run_ops :: "('op \<Rightarrow> 's \<Rightarrow> 's \<times> 'out) \<Rightarrow> 'op list \<Rightarrow> 's \<Rightarrow> 's \<times> 'out list" where
  "run_ops step [] s = (s, [])"
| "run_ops step (x # xs) s =
     (let r = step x s; rest = run_ops step xs (fst r) in (fst rest, snd r # snd rest))"

lemma run_ops_append:
  "run_ops step (xs @ ys) s =
     (let r = run_ops step xs s; r' = run_ops step ys (fst r) in (fst r', snd r @ snd r'))"
  by (induction xs arbitrary: s) (simp_all add: Let_def)

lemma length_run_ops [simp]: "length (snd (run_ops step xs s)) = length xs"
  by (induction xs arbitrary: s) (simp_all add: Let_def)

locale simulation =
  fixes related :: "'c \<Rightarrow> 'a \<Rightarrow> bool"
    and admissible :: "'op \<Rightarrow> bool"
    and concrete :: "'op \<Rightarrow> 'c \<Rightarrow> 'c \<times> 'out"
    and abstract :: "'op \<Rightarrow> 'a \<Rightarrow> 'a \<times> 'out"
  assumes step: "related c a \<Longrightarrow> admissible x \<Longrightarrow>
    related (fst (concrete x c)) (fst (abstract x a)) \<and> snd (concrete x c) = snd (abstract x a)"
begin

lemma run:
  "related c a \<Longrightarrow> list_all admissible xs \<Longrightarrow>
   related (fst (run_ops concrete xs c)) (fst (run_ops abstract xs a)) \<and>
   snd (run_ops concrete xs c) = snd (run_ops abstract xs a)"
proof (induction xs arbitrary: c a)
  case (Cons x xs)
  then show ?case using step [of c a x] by (simp add: Let_def)
qed simp

end

text \<open>An invariant of a machine is a simulation by the machine that has no state.\<close>

locale invariant = simulation "\<lambda>s (_ :: unit). holds s" admissible step "\<lambda>_ u. (u, ())"
  for holds :: "'s \<Rightarrow> bool" and admissible :: "'op \<Rightarrow> bool" and step :: "'op \<Rightarrow> 's \<Rightarrow> 's \<times> unit"
begin

lemma preserved: "holds s \<Longrightarrow> list_all admissible xs \<Longrightarrow> holds (fst (run_ops step xs s))"
  using run [of s xs "()"] by simp

end

end
