(* ===== verification/EdgeProxy.thy ===== *)
theory EdgeProxy
  imports EdgeCache Simulation
begin

text \<open>
  The hot path of the edge (\<open>edge/proxy.ts\<close>): a request is answered from the response cache or becomes
  an attempt against a backend, and the callbacks of that attempt (response head, chunks, end, close,
  error, timeout, client events) are steps on its state that return the effects they have. Sockets, bodies of
  requests, capture files and HTML pages are not modelled; the clock is an argument.
\<close>

section \<open>Requests and routes\<close>

record request =
  rq_method :: string
  rq_headers :: jsv
  rq_path :: string
  rq_search :: string
  rq_remote :: string
  rq_encrypted :: bool

record proxy_route =
  pr_name :: string
  pr_port :: "int option"
  pr_backend_host :: "string option"
  pr_cache :: "cache_config option"
  pr_selects :: bool

record leased_backend =
  bk_host :: string
  bk_port :: int

definition dedicated_hosts :: "string list" where
  "dedicated_hosts = [''deploy.local'', ''discover.local'']"

text \<open>The host of a request without its port, and the split of its URL.\<close>

definition host_header :: "jsv \<Rightarrow> string" where
  "host_header headers =
     (if truthy (fld headers ''host'') then js_string (fld headers ''host'')
      else if truthy (fld headers '':authority'') then js_string (fld headers '':authority'')
      else ''deploy.local'')"

definition hostname_of :: "jsv \<Rightarrow> string" where
  "hostname_of headers = takeWhile (\<lambda>c. c \<noteq> CHR '':'') (host_header headers)"

definition app_of_host :: "string \<Rightarrow> string \<Rightarrow> string option" where
  "app_of_host method hostname =
     (if method \<noteq> ''OPTIONS'' \<and> 6 < length hostname \<and> ends_with hostname ''.local'' \<and> hostname \<notin> set dedicated_hosts
      then Some (take (length hostname - 6) hostname) else None)"

definition split_url :: "string \<Rightarrow> string \<times> string" where
  "split_url url = (takeWhile (\<lambda>c. c \<noteq> CHR ''?'') url, dropWhile (\<lambda>c. c \<noteq> CHR ''?'') url)"

datatype hot_path = Declined | App_not_found string | Proxied proxy_route request

definition hot_path_handler :: "(string \<Rightarrow> proxy_route option) \<Rightarrow> string \<Rightarrow> request \<Rightarrow> hot_path" where
  "hot_path_handler get_route url rq =
     (case app_of_host (rq_method rq) (hostname_of (rq_headers rq)) of
        None \<Rightarrow> Declined
      | Some app \<Rightarrow>
          (case get_route app of
             None \<Rightarrow> App_not_found app
           | Some route \<Rightarrow> Proxied route (rq\<lparr>rq_path := fst (split_url url), rq_search := snd (split_url url)\<rparr>)))"

section \<open>Timeouts and streams\<close>

definition media_extensions :: "string list" where
  "media_extensions = [''m3u8'', ''m4s'', ''ts'', ''mp4'', ''m4v'', ''mov'', ''webm'', ''mkv'', ''mp3'', ''m4a'', ''aac'',
     ''ogg'', ''oga'', ''wav'', ''flac'']"

definition is_media_path :: "string \<Rightarrow> bool" where
  "is_media_path path \<longleftrightarrow> list_ex (\<lambda>x. ends_with (to_lower path) (''.'' @ x)) media_extensions"

definition proxy_response_timeout_ms :: "string \<Rightarrow> string \<Rightarrow> jsv \<Rightarrow> nat" where
  "proxy_response_timeout_ms method path wanted =
     (if truthy wanted \<or> (method = ''GET'' \<or> method = ''HEAD'') \<and> is_media_path path then 120000 else 15000)"

definition is_streaming_response :: "nat \<Rightarrow> string \<Rightarrow> jsv \<Rightarrow> bool" where
  "is_streaming_response status content_type buffering \<longleftrightarrow>
     status = 206 \<or> str_includes content_type ''text/event-stream'' \<or> starts_with content_type ''video/''
     \<or> starts_with content_type ''audio/'' \<or> buffering = Str ''no''"

section \<open>Answering from the cache\<close>

abbreviation header :: "request \<Rightarrow> string \<Rightarrow> jsv" where
  "header rq name \<equiv> fld (rq_headers rq) name"

definition cache_eligible :: "request \<Rightarrow> proxy_route \<Rightarrow> bool" where
  "cache_eligible rq route \<longleftrightarrow>
     (rq_method rq = ''GET'' \<or> rq_method rq = ''HEAD'')
     \<and> \<not> truthy (header rq ''authorization'') \<and> \<not> truthy (header rq ''cookie'')
     \<and> \<not> truthy (header rq ''x-deploy-username'') \<and> \<not> truthy (header rq ''range'')
     \<and> \<not> truthy (header rq ''if-none-match'') \<and> \<not> truthy (header rq ''if-modified-since'')
     \<and> \<not> str_includes (header_text (rq_headers rq) ''cache-control'') ''no-cache''
     \<and> \<not> str_includes (header_text (rq_headers rq) ''cache-control'') ''no-store''
     \<and> header_text (rq_headers rq) ''pragma'' \<noteq> ''no-cache''
     \<and> path_matches_cache_config (rq_path rq) (pr_cache route)"

definition cache_key :: "request \<Rightarrow> proxy_route \<Rightarrow> string" where
  "cache_key rq route =
     pr_name route @ '':'' @ (case pr_port route of None \<Rightarrow> ''null'' | Some p \<Rightarrow> int_str p) @ '':'' @ rq_path rq @ rq_search rq"

definition set_header :: "string \<Rightarrow> jsv \<Rightarrow> jsv \<Rightarrow> jsv" where
  "set_header name v headers = Obj (jm_set (own_fields headers) name v)"

definition delete_header :: "string \<Rightarrow> jsv \<Rightarrow> jsv" where
  "delete_header name headers = Obj (jm_delete (own_fields headers) name)"

record reply =
  rp_status :: nat
  rp_headers :: jsv
  rp_body :: string

definition hit_reply :: "int \<Rightarrow> request \<Rightarrow> cached_response \<Rightarrow> reply" where
  "hit_reply now rq cached =
     \<lparr>rp_status = cr_status cached,
      rp_headers = set_header ''x-deploy-cache'' (Str ''HIT'')
        (set_header ''age'' (Str (int_str ((now - cr_stored_at cached) div 1000))) (cr_headers cached)),
      rp_body = (if rq_method rq = ''HEAD'' then [] else cr_body cached)\<rparr>"

section \<open>Forwarding\<close>

text \<open>The headers of the request are changed in place: HTTP/2 pseudo-headers go, the host becomes the backend's, the
  forwarded headers are set.\<close>

definition forward_headers :: "string \<Rightarrow> int \<Rightarrow> request \<Rightarrow> request" where
  "forward_headers host port rq =
     (let h = Obj (filter (\<lambda>kv. take 1 (fst kv) \<noteq> '':'') (own_fields (rq_headers rq)));
          original = (if truthy (fld h ''host'') then fld h ''host''
                      else if truthy (fld h '':authority'') then fld h '':authority'' else Str []);
          xff = fld h ''x-forwarded-for'';
          h = set_header ''host'' (Str (host @ '':'' @ int_str port)) h;
          h = set_header ''x-forwarded-host'' original h;
          h = set_header ''x-forwarded-proto''
                (if truthy xff \<and> truthy (fld h ''x-forwarded-proto'') then fld h ''x-forwarded-proto''
                 else Str (if rq_encrypted rq then ''https'' else ''http'')) h;
          h = set_header ''x-forwarded-for'' (if truthy xff then xff else Str (rq_remote rq)) h in
      rq\<lparr>rq_headers := h\<rparr>)"

definition hop_headers :: "string list" where
  "hop_headers = [''connection'', ''keep-alive'', ''proxy-authenticate'', ''proxy-authorization'', ''te'', ''trailer'',
     ''transfer-encoding'', ''upgrade'']"

definition strip_hop_headers :: "jsv \<Rightarrow> jsv" where
  "strip_hop_headers headers =
     set_header ''access-control-allow-origin'' (Str ''*'') (fold delete_header hop_headers headers)"

section \<open>An attempt\<close>

record attempt =
  pa_request :: request
  pa_route :: proxy_route
  pa_leased :: bool
  pa_eligible :: bool
  pa_key :: string
  pa_retry :: nat
  pa_response :: "(nat \<times> jsv) option"
  pa_storing :: bool
  pa_streamed :: nat
  pa_chunks :: string
  pa_bytes :: nat
  pa_overflow :: bool
  pa_ended :: bool
  pa_released :: bool
  pa_finished :: bool
  pa_logged :: bool

datatype failure_reason = Timed_out | Refused | Other_error

datatype proxy_effect =
    Release_backend
  | Store_response string cached_response
  | Send_head nat jsv bool
  | Clear_timeout
  | Retry_after nat
  | Starting_page
  | End_response
  | Destroy_upstream
  | Log_completed
  | Log_failure failure_reason

datatype proxy_event =
    Response_head nat jsv
  | Chunk string
  | Upstream_end
  | Upstream_close
  | Upstream_error failure_reason
  | Client_finish
  | Client_close

datatype outcome = Served reply | No_backend "proxy_effect list" | Forwarded attempt

text \<open>\<open>proxyToApp\<close> up to the upstream request; \<open>lease\<close> is what \<open>selectBackend\<close> returned.\<close>

definition proxy_to_app ::
    "int \<Rightarrow> leased_backend option \<Rightarrow> request \<Rightarrow> proxy_route \<Rightarrow> nat \<Rightarrow> response_cache \<Rightarrow> response_cache \<times> outcome" where
  "proxy_to_app now lease rq route retry cache =
     (let eligible = cache_eligible rq route; key = cache_key rq route;
          found = (if eligible then get_cached_response now key cache else (cache, None)) in
      case snd found of
        Some cached \<Rightarrow> (fst found, Served (hit_reply now rq cached))
      | None \<Rightarrow>
          (let lease = (if pr_selects route then lease else None);
               host = (case lease of Some l \<Rightarrow> bk_host l | None \<Rightarrow> []);
               host = (if host \<noteq> [] then host
                       else (case pr_backend_host route of None \<Rightarrow> ''127.0.0.1'' | Some h \<Rightarrow> if h = [] then ''127.0.0.1'' else h));
               port = (case lease of Some l \<Rightarrow> Some (bk_port l) | None \<Rightarrow> pr_port route) in
           if pr_selects route \<and> lease = None then (fst found, No_backend [Starting_page])
           else (case port of
               None \<Rightarrow> (fst found, No_backend [Starting_page])
             | Some p \<Rightarrow>
                 (fst found, Forwarded
                   \<lparr>pa_request = forward_headers host p rq, pa_route = route, pa_leased = (lease \<noteq> None), pa_eligible = eligible,
                    pa_key = key, pa_retry = retry, pa_response = None, pa_storing = False, pa_streamed = 0, pa_chunks = [],
                    pa_bytes = 0, pa_overflow = False, pa_ended = False, pa_released = False, pa_finished = False,
                    pa_logged = False\<rparr>))))"

text \<open>\<open>releaseBackend\<close>: once per attempt, and only a lease has something to release.\<close>

definition release_backend :: "attempt \<Rightarrow> attempt \<times> proxy_effect list" where
  "release_backend a =
     (if pa_released a then (a, [])
      else (a\<lparr>pa_released := True\<rparr>, if pa_leased a then [Release_backend] else []))"

definition max_object_bytes :: "attempt \<Rightarrow> nat" where
  "max_object_bytes a = (case pr_cache (pa_route a) of None \<Rightarrow> 0 | Some c \<Rightarrow> (case cc_max_bytes c of None \<Rightarrow> 0 | Some n \<Rightarrow> n))"

definition max_age_ms :: "attempt \<Rightarrow> int" where
  "max_age_ms a = (case pr_cache (pa_route a) of None \<Rightarrow> 60 | Some c \<Rightarrow> (case cc_max_age c of None \<Rightarrow> 60 | Some n \<Rightarrow> n)) * 1000"

definition on_chunk :: "string \<Rightarrow> attempt \<Rightarrow> attempt" where
  "on_chunk bytes a =
     (let a = a\<lparr>pa_streamed := pa_streamed a + length bytes\<rparr> in
      if pa_eligible a \<and> \<not> pa_overflow a then
        (let a = a\<lparr>pa_bytes := pa_bytes a + length bytes\<rparr> in
         if pa_bytes a \<le> max_object_bytes a then a\<lparr>pa_chunks := pa_chunks a @ bytes\<rparr> else a\<lparr>pa_overflow := True\<rparr>)
      else a)"

definition content_length :: "jsv \<Rightarrow> nat option" where
  "content_length headers =
     (let t = fld headers ''content-length'' in
      if \<not> truthy t then Some 0 else if list_all is_digit (js_string t) then Some (nat_of_str (js_string t)) else None)"

definition content_type :: "jsv \<Rightarrow> string" where
  "content_type headers = (if truthy (fld headers ''content-type'') then js_string (fld headers ''content-type'') else [])"

definition should_compress :: "request \<Rightarrow> nat \<Rightarrow> jsv \<Rightarrow> bool" where
  "should_compress rq status headers \<longleftrightarrow>
     \<not> is_streaming_response status (content_type headers) (fld headers ''x-accel-buffering'')
     \<and> \<not> truthy (fld headers ''content-encoding'') \<and> status \<noteq> 204 \<and> status \<noteq> 304
     \<and> truthy (header rq ''accept-encoding'') \<and> str_includes (js_string (header rq ''accept-encoding'')) ''gzip''
     \<and> (case content_length headers of None \<Rightarrow> False | Some n \<Rightarrow> n = 0 \<or> 1024 \<le> n)
     \<and> (str_includes (content_type headers) ''text/'' \<or> str_includes (content_type headers) ''application/json''
        \<or> str_includes (content_type headers) ''application/javascript'')"

definition on_response :: "nat \<Rightarrow> jsv \<Rightarrow> attempt \<Rightarrow> attempt \<times> proxy_effect list" where
  "on_response status raw a =
     (let h = strip_hop_headers raw;
          streams = is_streaming_response status (content_type h) (fld h ''x-accel-buffering'');
          encoding = fld h ''content-encoding'';
          h = (if pa_eligible a then set_header ''x-deploy-cache'' (Str ''MISS'') h else h);
          compress = should_compress (pa_request a) status h;
          out = (if compress then delete_header ''content-length'' (set_header ''content-encoding'' (Str ''gzip'') h) else h) in
      (a\<lparr>pa_response := Some (status, h),
         pa_storing := (pa_eligible a \<and> rq_method (pa_request a) = ''GET'' \<and> status = 200 \<and> \<not> truthy encoding)\<rparr>,
       (if streams then [Clear_timeout] else []) @ [Send_head status out compress]))"

definition on_end :: "int \<Rightarrow> attempt \<Rightarrow> attempt \<times> proxy_effect list" where
  "on_end now a =
     (let stored = (case pa_response a of
            Some (status, h) \<Rightarrow>
              if pa_storing a \<and> \<not> pa_overflow a \<and> is_public_cacheable h then
                [Store_response (pa_key a)
                  \<lparr>cr_status = status, cr_headers = set_header ''x-deploy-cache'' (Str ''MISS'') h, cr_body = pa_chunks a,
                   cr_stored_at = now, cr_expires_at = now + max_age_ms a\<rparr>]
              else []
          | None \<Rightarrow> []);
          r = release_backend (a\<lparr>pa_ended := True\<rparr>) in
      (fst r, stored @ snd r))"

definition max_retries :: nat where
  "max_retries = 2"

definition retry_delay :: "nat \<Rightarrow> nat" where
  "retry_delay n = min (25 * 2 ^ n) 200"

definition on_error :: "failure_reason \<Rightarrow> attempt \<Rightarrow> attempt \<times> proxy_effect list" where
  "on_error why a =
     (let r = release_backend a; m = rq_method (pa_request a) in
      if pa_retry a < max_retries \<and> why \<noteq> Timed_out \<and> (m = ''GET'' \<or> m = ''HEAD'') then
        (fst r, snd r @ [Retry_after (retry_delay (pa_retry a))])
      else (fst r, snd r @ [Log_failure why, if pa_response a = None then Starting_page else End_response]))"

definition log_completed :: "attempt \<Rightarrow> attempt \<times> proxy_effect list" where
  "log_completed a = (if pa_logged a then (a, []) else (a\<lparr>pa_logged := True\<rparr>, [Log_completed]))"

text \<open>The callbacks. The listeners of the response exist once its head has come, a stream yields nothing after its
  end, and a response has one head.\<close>

fun proxy_step :: "int \<times> proxy_event \<Rightarrow> attempt \<Rightarrow> attempt \<times> proxy_effect list" where
  "proxy_step (now, Response_head status headers) a =
     (if pa_response a = None then on_response status headers a else (a, []))"
| "proxy_step (now, Chunk bytes) a = (if pa_response a \<noteq> None \<and> \<not> pa_ended a then (on_chunk bytes a, []) else (a, []))"
| "proxy_step (now, Upstream_end) a = (if pa_response a \<noteq> None \<and> \<not> pa_ended a then on_end now a else (a, []))"
| "proxy_step (now, Upstream_close) a = (if pa_response a \<noteq> None then release_backend a else (a, []))"
| "proxy_step (now, Upstream_error why) a = on_error why a"
| "proxy_step (now, Client_finish) a = (if pa_response a \<noteq> None then log_completed (a\<lparr>pa_finished := True\<rparr>) else (a, []))"
| "proxy_step (now, Client_close) a =
     (if pa_response a \<noteq> None then
        (let r = log_completed a in (fst r, (if pa_finished a \<or> pa_ended a then [] else [Destroy_upstream]) @ snd r))
      else (a, []))"

section \<open>The edge\<close>

record edge =
  ed_cache :: response_cache
  ed_attempts :: "attempt list"

datatype edge_event =
    Arrive request proxy_route "leased_backend option" nat
  | Callback nat proxy_event
  | Purge string

definition apply_effect :: "proxy_effect \<Rightarrow> response_cache \<Rightarrow> response_cache" where
  "apply_effect e cache = (case e of Store_response k r \<Rightarrow> put_cached_response k r cache | _ \<Rightarrow> cache)"

datatype edge_out = Outcome outcome | Effects "proxy_effect list" | Nothing_done

fun edge_step :: "int \<times> edge_event \<Rightarrow> edge \<Rightarrow> edge \<times> edge_out" where
  "edge_step (now, Arrive rq route lease retry) w =
     (let r = proxy_to_app now lease rq route retry (ed_cache w) in
      (w\<lparr>ed_cache := fst r, ed_attempts := ed_attempts w @ (case snd r of Forwarded a \<Rightarrow> [a] | _ \<Rightarrow> [])\<rparr>, Outcome (snd r)))"
| "edge_step (now, Callback i e) w =
     (if i < length (ed_attempts w) then
        (let r = proxy_step (now, e) (ed_attempts w ! i) in
         (w\<lparr>ed_attempts := (ed_attempts w)[i := fst r], ed_cache := fold apply_effect (snd r) (ed_cache w)\<rparr>, Effects (snd r)))
      else (w, Nothing_done))"
| "edge_step (now, Purge name) w = (w\<lparr>ed_cache := fst (purge_deployment_cache name (ed_cache w))\<rparr>, Nothing_done)"

section \<open>The live feed\<close>

text \<open>Healthy requests are coalesced per application until the timer fires; \<open>sampleCount\<close> tells how many.\<close>

record 'e live_feed =
  lf_pending :: "(string, 'e \<times> nat) jmap"
  lf_timer :: bool

definition live_event_app_cap :: nat where
  "live_event_app_cap = 1000"

definition emit_live_request :: "nat \<Rightarrow> string \<Rightarrow> 'e \<Rightarrow> 'e live_feed \<Rightarrow> 'e live_feed \<times> (string \<times> 'e \<times> nat option) list" where
  "emit_live_request status name entry f =
     (if 400 \<le> status then (f, [(name, entry, None)])
      else (\<lparr>lf_pending =
               (case jm_get (lf_pending f) name of
                  Some (_, n) \<Rightarrow> jm_set (lf_pending f) name (entry, n + 1)
                | None \<Rightarrow> if length (lf_pending f) < live_event_app_cap then jm_set (lf_pending f) name (entry, 1) else lf_pending f),
             lf_timer = True\<rparr>, []))"

definition flush_live :: "'e live_feed \<Rightarrow> 'e live_feed \<times> (string \<times> 'e \<times> nat option) list" where
  "flush_live f = (\<lparr>lf_pending = [], lf_timer = False\<rparr>, map (\<lambda>(name, entry, n). (name, entry, Some n)) (lf_pending f))"

end
