(* ===== verification/EdgeCacheFacts.thy ===== *)
theory EdgeCacheFacts
  imports EdgeCache Simulation
begin

text \<open>
  The cache against its specification: a map with a time of last use per key, from which a store beyond
  the limit drops the key used least recently.
\<close>

section \<open>Specification\<close>

record lru =
  lr_map :: "string \<Rightarrow> cached_response option"
  lr_used :: "string \<Rightarrow> nat"
  lr_clock :: nat

definition empty_lru :: lru where
  "empty_lru = \<lparr>lr_map = Map.empty, lr_used = (\<lambda>_. 0), lr_clock = 0\<rparr>"

definition touch :: "string \<Rightarrow> lru \<Rightarrow> lru" where
  "touch k l = l\<lparr>lr_used := (lr_used l)(k := lr_clock l), lr_clock := lr_clock l + 1\<rparr>"

definition forget :: "string set \<Rightarrow> lru \<Rightarrow> lru" where
  "forget ks l = l\<lparr>lr_map := (lr_map l) |` (- ks)\<rparr>"

definition least_recent :: "lru \<Rightarrow> string" where
  "least_recent l = arg_min_on (lr_used l) (dom (lr_map l))"

definition lru_get :: "int \<Rightarrow> string \<Rightarrow> lru \<Rightarrow> lru \<times> cached_response option" where
  "lru_get now k l =
     (case lr_map l k of
        None \<Rightarrow> (l, None)
      | Some r \<Rightarrow> if cr_expires_at r \<le> now then (forget {k} l, None) else (touch k l, Some r))"

definition lru_put :: "string \<Rightarrow> cached_response \<Rightarrow> lru \<Rightarrow> lru" where
  "lru_put k r l =
     (let l = touch k (l\<lparr>lr_map := (lr_map l)(k \<mapsto> r)\<rparr>) in
      if max_entries < card (dom (lr_map l)) then forget {least_recent l} l else l)"

fun lru_step :: "cache_op \<Rightarrow> lru \<Rightarrow> lru \<times> cache_out" where
  "lru_step (Cache_get now k) l = (let r = lru_get now k l in (fst r, Found (snd r)))"
| "lru_step (Cache_put k r) l = (lru_put k r l, Stored)"
| "lru_step (Cache_purge name) l =
     (forget {k. of_deployment name k} l, Purged (card {k \<in> dom (lr_map l). of_deployment name k}))"
| "lru_step Cache_stats l =
     (l, Stats \<lparr>cs_entries = card (dom (lr_map l)),
                cs_bytes = (\<Sum>k \<in> dom (lr_map l). length (cr_body (the (lr_map l k)))), cs_max = max_entries\<rparr>)"

section \<open>Simulation\<close>

lemma card_keys: "distinct (jm_keys es) \<Longrightarrow> card (set (jm_keys es)) = length es"
  using distinct_card [of "jm_keys es"] by simp

definition lru_related :: "response_cache \<Rightarrow> lru \<Rightarrow> bool" where
  "lru_related es l \<longleftrightarrow>
     distinct (jm_keys es) \<and> [] \<notin> set (jm_keys es) \<and> length es \<le> max_entries \<and> jm_get es = lr_map l
     \<and> sorted_wrt (<) (map (lr_used l) (jm_keys es)) \<and> (\<forall>k \<in> set (jm_keys es). lr_used l k < lr_clock l)"

definition keyed :: "cache_op \<Rightarrow> bool" where
  "keyed x \<longleftrightarrow> (case x of Cache_put k _ \<Rightarrow> k \<noteq> [] | _ \<Rightarrow> True)"

lemma jm_delete_filter: "jm_delete es k = filter (\<lambda>kr. fst kr \<noteq> k) es"
  by (auto simp: jm_delete_def intro: filter_cong)

lemma map_of_filter_keys: "map_of (filter (\<lambda>kr. P (fst kr)) es) = map_of es |` {k. P k}"
  by (induction es) (auto simp: restrict_map_def fun_eq_iff)

lemma jm_set_absent: "k \<notin> set (jm_keys es) \<Longrightarrow> jm_set es k v = es @ [(k, v)]"
  by (induction es k v rule: jm_set.induct) auto

lemma jm_moved: "jm_set (jm_delete es k) k v = filter (\<lambda>kr. fst kr \<noteq> k) es @ [(k, v)]"
  unfolding jm_delete_filter by (rule jm_set_absent) auto

lemma related_filter:
  assumes "lru_related es l"
  shows "lru_related (filter (\<lambda>kr. P (fst kr)) es) (forget {k. \<not> P k} l)"
proof -
  have m: "jm_keys (filter (\<lambda>kr. P (fst kr)) es) = filter P (jm_keys es)" by (simp add: filter_map comp_def)
  have "sorted_wrt (<) (map (lr_used l) (filter P (jm_keys es)))"
    using assms sorted_wrt_filter [of "\<lambda>i j. lr_used l i < lr_used l j" "jm_keys es" P] unfolding lru_related_def sorted_wrt_map by blast
  moreover have "length (filter (\<lambda>kr. P (fst kr)) es) \<le> max_entries"
    using assms length_filter_le [of "\<lambda>kr. P (fst kr)" es] unfolding lru_related_def by linarith
  moreover have "{k. P k} = - {k. \<not> P k}" by auto
  ultimately show ?thesis
    using assms unfolding lru_related_def m by (auto simp: forget_def map_of_filter_keys)
qed

lemma related_moved:
  assumes "lru_related es l" "k \<noteq> []" "es' = filter (\<lambda>kr. fst kr \<noteq> k) es @ [(k, r)]" "l' = touch k (l\<lparr>lr_map := (lr_map l)(k \<mapsto> r)\<rparr>)"
  shows "distinct (jm_keys es') \<and> [] \<notin> set (jm_keys es') \<and> length es' \<le> max_entries + 1 \<and> jm_get es' = lr_map l'
     \<and> sorted_wrt (<) (map (lr_used l') (jm_keys es')) \<and> (\<forall>k \<in> set (jm_keys es'). lr_used l' k < lr_clock l')"
proof -
  let ?es = "filter (\<lambda>kr. fst kr \<noteq> k) es"
  have f: "lru_related ?es (forget {j. \<not> j \<noteq> k} l)" by (rule related_filter [OF assms(1)])
  have k: "k \<notin> set (jm_keys ?es)" by auto
  have u: "map (lr_used l') (jm_keys ?es) = map (lr_used l) (jm_keys ?es)" using k by (auto simp: assms(4) touch_def)
  have "jm_get es' = lr_map l'"
    using assms(1) map_of_filter_keys [of "\<lambda>j. j \<noteq> k" es] unfolding assms(3,4) lru_related_def
    by (auto simp: touch_def restrict_map_def map_add_def fun_eq_iff split: option.splits)
  moreover have "sorted_wrt (<) (map (lr_used l') (jm_keys es'))"
    using f k unfolding assms(3) map_append u by (auto simp: sorted_wrt_append lru_related_def forget_def assms(4) touch_def)
  moreover have "\<forall>j \<in> set (jm_keys es'). lr_used l' j < lr_clock l'"
    using f by (auto simp: lru_related_def forget_def assms(3,4) touch_def less_Suc_eq)
  ultimately show ?thesis using f k assms(2) by (auto simp: lru_related_def assms(3))
qed

lemma related_get:
  assumes "lru_related es l"
  shows "lru_related (fst (get_cached_response now k es)) (fst (lru_get now k l))
    \<and> snd (get_cached_response now k es) = snd (lru_get now k l)"
proof (cases "lr_map l k")
  case None
  then show ?thesis using assms by (simp add: get_cached_response_def lru_get_def lru_related_def)
next
  case (Some r)
  then have g: "jm_get es k = Some r" using assms by (simp add: lru_related_def)
  then have k: "k \<in> set (jm_keys es)" by (metis domI dom_map_of_conv_image_fst image_set)
  show ?thesis
  proof (cases "cr_expires_at r \<le> now")
    case True
    have "lru_related (jm_delete es k) (forget {k} l)"
      using related_filter [OF assms, of "\<lambda>j. j \<noteq> k"] by (simp add: jm_delete_filter)
    then show ?thesis using True Some g by (simp add: get_cached_response_def lru_get_def)
  next
    case False
    let ?es = "filter (\<lambda>kr. fst kr \<noteq> k) es @ [(k, r)]"
    have "k \<noteq> []" using k assms unfolding lru_related_def by metis
    moreover have "lr_map l = (lr_map l)(k \<mapsto> r)" using Some by auto
    then have "l\<lparr>lr_map := (lr_map l)(k \<mapsto> r)\<rparr> = l" by simp
    moreover have "length (filter (\<lambda>kr. fst kr \<noteq> k) es) < length es"
      using k by (auto intro: length_filter_less)
    then have "length ?es \<le> max_entries" using assms by (simp add: lru_related_def)
    ultimately have "lru_related ?es (touch k l)"
      using related_moved [OF assms, of k ?es r "touch k l"] by (simp add: lru_related_def)
    then show ?thesis using False Some g by (simp add: get_cached_response_def lru_get_def jm_moved)
  qed
qed

lemma evict_once:
  "length es \<le> max_entries + 1 \<Longrightarrow> [] \<notin> set (jm_keys es) \<Longrightarrow>
   evict es = (if max_entries < length es then drop 1 es else es)"
proof (cases es)
  case (Cons x entries)
  moreover assume "length es \<le> max_entries + 1"
  moreover obtain oldest r where "x = (oldest, r)" by fastforce
  moreover have "length entries \<le> max_entries \<Longrightarrow> evict entries = entries" by (cases entries rule: evict.cases) simp_all
  moreover assume "[] \<notin> set (jm_keys es)"
  ultimately show ?thesis by auto
qed simp

lemma related_put:
  assumes "lru_related es l" "k \<noteq> []"
  shows "lru_related (put_cached_response k r es) (lru_put k r l)"
proof -
  define es' where "es' = filter (\<lambda>kr. fst kr \<noteq> k) es @ [(k, r)]"
  define l' where "l' = touch k (l\<lparr>lr_map := (lr_map l)(k \<mapsto> r)\<rparr>)"
  note m = related_moved [OF assms es'_def l'_def]
  have dom: "dom (lr_map l') = set (jm_keys es')" using m dom_map_of_conv_image_fst [of es'] by simp
  have card: "card (dom (lr_map l')) = length es'" unfolding dom using m card_keys by blast
  have p: "put_cached_response k r es = evict es'" by (simp add: put_cached_response_def es'_def jm_moved)
  show ?thesis
  proof (cases "max_entries < length es'")
    case False
    then have "evict es' = es'" using m by (subst evict_once) simp_all
    then show ?thesis using False m card p by (simp add: lru_put_def lru_related_def flip: l'_def)
  next
    case True
    then obtain j v rest where es': "es' = (j, v) # rest" by (cases es') auto
    have "evict es' = rest" using m True by (subst evict_once) (simp_all add: es')
    moreover have "least_recent l' = j"
    proof -
      have "lr_used l' j < lr_used l' i" if "i \<in> dom (lr_map l')" "i \<noteq> j" for i
        using m that unfolding dom by (auto simp: es')
      moreover have "j \<in> dom (lr_map l')" unfolding dom by (simp add: es')
      moreover have "finite (dom (lr_map l'))" unfolding dom by simp
      ultimately show ?thesis
        unfolding least_recent_def using arg_min_least [of "dom (lr_map l')" j "lr_used l'"] arg_min_if_finite(1) [of "dom (lr_map l')" "lr_used l'"]
        by (metis empty_iff linorder_not_less)
    qed
    moreover have "lru_related rest (forget {j} l')"
    proof -
      have j: "j \<notin> set (jm_keys rest)" using m by (simp add: es')
      have "jm_get rest = lr_map l' |` (- {j})"
        using m j by (auto simp: es' restrict_map_def fun_eq_iff map_of_eq_None_iff [symmetric] split: if_splits)
      then show ?thesis using m by (auto simp: lru_related_def es' forget_def)
    qed
    ultimately show ?thesis using True card p by (simp add: lru_put_def flip: l'_def)
  qed
qed

lemma related_dom: "lru_related es l \<Longrightarrow> dom (lr_map l) = set (jm_keys es)"
  using dom_map_of_conv_image_fst [of es] by (simp add: lru_related_def)

lemma card_filter_keys: "distinct (jm_keys es) \<Longrightarrow> card {k \<in> set (jm_keys es). P k} = length (filter (\<lambda>kr. P (fst kr)) es)"
proof -
  assume d: "distinct (jm_keys es)"
  have e: "{k \<in> set (jm_keys es). P k} = set (filter P (jm_keys es))" by auto
  have "length (filter P (jm_keys es)) = length (filter (\<lambda>kr. P (fst kr)) es)" by (simp add: filter_map comp_def)
  then show ?thesis unfolding e using d distinct_card [of "filter P (jm_keys es)"] by (metis distinct_filter)
qed

lemma sum_bodies:
  assumes "distinct (jm_keys es)"
  shows "(\<Sum>k \<in> set (jm_keys es). f (the (jm_get es k))) = sum_list (map (\<lambda>kr. f (snd kr)) es)"
proof -
  have "sum_list (map (\<lambda>k. f (the (jm_get es k))) (jm_keys es)) = (\<Sum>k \<in> set (jm_keys es). f (the (jm_get es k)))"
    by (rule sum_list_distinct_conv_sum_set [OF assms])
  moreover have "map (\<lambda>k. f (the (jm_get es k))) (jm_keys es) = map (\<lambda>kr. f (snd kr)) es"
    using assms by (auto simp: map_of_eq_Some_iff comp_def)
  ultimately show ?thesis by metis
qed

interpretation lru_simulation: simulation lru_related keyed cache_step lru_step
proof
  fix es l x
  assume r: "lru_related es l" and x: "keyed x"
  show "lru_related (fst (cache_step x es)) (fst (lru_step x l)) \<and> snd (cache_step x es) = snd (lru_step x l)"
  proof (cases x)
    case (Cache_get now k)
    then show ?thesis using related_get [OF r] by (simp add: Let_def)
  next
    case (Cache_put k v)
    then show ?thesis using related_put [OF r] x by (simp add: keyed_def)
  next
    case (Cache_purge name)
    have "lru_related (filter (\<lambda>kr. \<not> of_deployment name (fst kr)) es) (forget {k. of_deployment name k} l)"
      using related_filter [OF r, of "\<lambda>k. \<not> of_deployment name k"] by simp
    moreover have "card {k \<in> dom (lr_map l). of_deployment name k} = length (filter (\<lambda>kr. of_deployment name (fst kr)) es)"
      unfolding related_dom [OF r] by (rule card_filter_keys) (use r in \<open>simp add: lru_related_def\<close>)
    ultimately show ?thesis using Cache_purge by (simp add: purge_deployment_cache_def)
  next
    case Cache_stats
    have d: "distinct (jm_keys es)" "jm_get es = lr_map l" using r by (simp_all add: lru_related_def)
    have "card (dom (lr_map l)) = length es" unfolding related_dom [OF r] by (rule card_keys [OF d(1)])
    moreover have "(\<Sum>k \<in> dom (lr_map l). length (cr_body (the (lr_map l k)))) = sum_list (map (\<lambda>kr. length (cr_body (snd kr))) es)"
      unfolding related_dom [OF r] using sum_bodies [OF d(1), of "\<lambda>r. length (cr_body r)"] d(2) by simp
    ultimately show ?thesis using Cache_stats r by (simp add: response_cache_stats_def)
  qed
qed

end
