(* ===== verification/EdgeProxyFacts.thy ===== *)
theory EdgeProxyFacts
  imports EdgeProxy EdgeCacheFacts
begin

text \<open>
  What the callbacks of an attempt keep: the bytes held for the cache are the bytes that went to the
  client, the lease is released once, and every cache entry is the body of a finished attempt.
\<close>

section \<open>Attempts\<close>

definition attempt_ok :: "attempt \<Rightarrow> bool" where
  "attempt_ok a \<longleftrightarrow>
     (pa_eligible a \<and> \<not> pa_overflow a \<longrightarrow>
        pa_bytes a = length (pa_chunks a) \<and> pa_streamed a = length (pa_chunks a) \<and> pa_streamed a \<le> max_object_bytes a)
     \<and> (pa_storing a \<longrightarrow> pa_eligible a \<and> rq_method (pa_request a) = ''GET'' \<and> (\<exists>h. pa_response a = Some (200, h)))"

text \<open>The parts of an attempt that nothing changes once its response has ended.\<close>

definition outcome_of :: "attempt \<Rightarrow> string \<times> bool \<times> string \<times> (nat \<times> jsv) option \<times> bool \<times> string \<times> nat \<times> proxy_route \<times> bool" where
  "outcome_of a = (pa_key a, pa_eligible a, rq_method (pa_request a), pa_response a, pa_overflow a, pa_chunks a, pa_streamed a, pa_route a, pa_ended a)"

lemmas attempt_defs = on_response_def on_chunk_def on_end_def on_error_def release_backend_def log_completed_def

lemma proxy_step_ok: "attempt_ok a \<Longrightarrow> attempt_ok (fst (proxy_step (now, e) a))"
  by (cases e) (auto simp: attempt_ok_def attempt_defs max_object_bytes_def Let_def)

lemma proxy_step_ended: "pa_ended a \<Longrightarrow> pa_response a \<noteq> None \<Longrightarrow> outcome_of (fst (proxy_step (now, e) a)) = outcome_of a"
  by (cases e) (auto simp: outcome_of_def attempt_defs Let_def)

lemma proxy_step_ended_response: "pa_ended a \<longrightarrow> pa_response a \<noteq> None \<Longrightarrow>
    pa_ended (fst (proxy_step (now, e) a)) \<longrightarrow> pa_response (fst (proxy_step (now, e) a)) \<noteq> None"
  by (cases e) (auto simp: attempt_defs Let_def)

lemma forwarded_attempt:
  assumes "snd (proxy_to_app now lease rq route retry cache) = Forwarded a"
  shows "pa_key a = cache_key rq route \<and> pa_eligible a = cache_eligible rq route \<and> pa_route a = route \<and> pa_retry a = retry
    \<and> attempt_ok a \<and> \<not> pa_ended a \<and> \<not> pa_released a \<and> pa_response a = None"
  using assms by (auto simp: proxy_to_app_def Let_def attempt_ok_def split: option.splits if_splits)

lemma fld_set_header: "fld (set_header m v h) n = (if n = m then v else fld (Obj (own_fields h)) n)"
  by (simp add: set_header_def fld_def)

lemma own_set_header: "Obj (own_fields (set_header m v h)) = set_header m v h"
  by (simp add: set_header_def)

lemma updated_headers: "rq_headers (rq\<lparr>rq_headers := h\<rparr>) = h"
  by simp

lemma forwarded_fields:
  "fld (set_header ''x-forwarded-for'' x (set_header ''x-forwarded-proto'' y (set_header ''x-forwarded-host'' z (set_header ''host'' u h)))) ''x-forwarded-host'' = z"
  "fld (set_header ''x-forwarded-for'' x (set_header ''x-forwarded-proto'' y (set_header ''x-forwarded-host'' z (set_header ''host'' u h)))) ''host'' = u"
  by (simp_all add: fld_set_header own_set_header)

section \<open>Releases\<close>

text \<open>The events after which the backend is given back: an error, or the end or close of a response.\<close>

fun settles :: "bool \<Rightarrow> proxy_event list \<Rightarrow> bool" where
  "settles responded [] = False"
| "settles responded (e # es) =
     (case e of
        Response_head _ _ \<Rightarrow> settles True es
      | Upstream_end \<Rightarrow> responded \<or> settles responded es
      | Upstream_close \<Rightarrow> responded \<or> settles responded es
      | Upstream_error _ \<Rightarrow> True
      | _ \<Rightarrow> settles responded es)"

abbreviation releases :: "proxy_effect list \<Rightarrow> nat" where
  "releases es \<equiv> count_list es Release_backend"

lemma step_releases:
  "releases (snd (proxy_step (now, e) a)) + (if pa_released a \<and> pa_leased a then 1 else 0) =
     (if pa_released (fst (proxy_step (now, e) a)) \<and> pa_leased a then 1 else 0)"
  by (cases e) (auto simp: attempt_defs Let_def split: option.splits)

lemma step_leased: "pa_leased (fst (proxy_step (now, e) a)) = pa_leased a"
  by (cases e) (auto simp: attempt_defs Let_def)

lemma step_released:
  "pa_ended a \<longrightarrow> pa_released a \<Longrightarrow>
   pa_released (fst (proxy_step (now, e) a)) \<longleftrightarrow> pa_released a \<or> settles (pa_response a \<noteq> None) [e]"
  by (cases e) (auto simp: attempt_defs Let_def)

lemma step_responded: "pa_response (fst (proxy_step (now, e) a)) \<noteq> None \<longleftrightarrow> pa_response a \<noteq> None \<or> (\<exists>s h. e = Response_head s h)"
  by (cases e) (auto simp: attempt_defs Let_def)

lemma step_ended_released:
  "pa_ended a \<longrightarrow> pa_released a \<Longrightarrow> pa_ended (fst (proxy_step (now, e) a)) \<longrightarrow> pa_released (fst (proxy_step (now, e) a))"
  by (cases e) (auto simp: attempt_defs Let_def)

lemma settles_Cons: "settles r (e # es) \<longleftrightarrow> settles r [e] \<or> settles (r \<or> (\<exists>s h. e = Response_head s h)) es"
proof -
  have mono: "settles r es \<Longrightarrow> settles True es" for r es
    by (induction es arbitrary: r) (auto split: proxy_event.splits)
  show ?thesis by (cases e) (use mono in \<open>auto split: proxy_event.splits\<close>)
qed

lemma run_releases:
  assumes "pa_ended a \<longrightarrow> pa_released a" "pa_leased a"
  shows "releases (concat (snd (run_ops proxy_step evs a))) + (if pa_released a then 1 else 0) =
    (if pa_released a \<or> settles (pa_response a \<noteq> None) (map snd evs) then 1 else 0)"
  using assms
proof (induction evs arbitrary: a)
  case (Cons x evs)
  obtain now e where x: "x = (now, e)" by fastforce
  let ?a = "fst (proxy_step x a)"
  have i: "pa_ended ?a \<longrightarrow> pa_released ?a" "pa_leased ?a"
    using step_ended_released [OF Cons.prems(1)] step_leased Cons.prems(2) by (simp_all add: x)
  have n: "settles (pa_response a \<noteq> None) (map snd (x # evs)) \<longleftrightarrow>
      settles (pa_response a \<noteq> None) [e] \<or> settles (pa_response ?a \<noteq> None) (map snd evs)"
    using settles_Cons [of "pa_response a \<noteq> None" e "map snd evs"] step_responded [of now e a] by (simp add: x)
  have c: "releases (concat (snd (run_ops proxy_step (x # evs) a))) =
      releases (snd (proxy_step x a)) + releases (concat (snd (run_ops proxy_step evs ?a)))"
    by (simp add: Let_def)
  show ?case
    unfolding c n using Cons.IH [OF i] step_releases [of now e a] step_released [OF Cons.prems(1), of now e] Cons.prems(2)
    by (auto simp: x split: if_splits)
qed simp

section \<open>Cache entries\<close>

text \<open>An entry holds the complete body of a finished, publicly cacheable \<open>GET\<close> that carried no credentials.\<close>

definition backed :: "attempt \<Rightarrow> string \<Rightarrow> cached_response \<Rightarrow> bool" where
  "backed a k r \<longleftrightarrow>
     pa_key a = k \<and> pa_eligible a \<and> rq_method (pa_request a) = ''GET'' \<and> pa_ended a \<and> \<not> pa_overflow a
     \<and> (\<exists>h. pa_response a = Some (200, h) \<and> is_public_cacheable h) \<and> cr_status r = 200 \<and> cr_body r = pa_chunks a
     \<and> length (pa_chunks a) = pa_streamed a \<and> pa_streamed a \<le> max_object_bytes a
     \<and> cr_expires_at r = cr_stored_at r + max_age_ms a"

lemma backed_outcome: "outcome_of a = outcome_of b \<Longrightarrow> backed a k r = backed b k r"
  by (simp add: outcome_of_def backed_def max_object_bytes_def max_age_ms_def)

definition edge_ok :: "edge \<Rightarrow> bool" where
  "edge_ok w \<longleftrightarrow>
     (\<forall>a \<in> set (ed_attempts w). attempt_ok a \<and> (pa_ended a \<longrightarrow> pa_response a \<noteq> None))
     \<and> (\<forall>kr \<in> set (ed_cache w). \<exists>a \<in> set (ed_attempts w). backed a (fst kr) (snd kr))"

lemma set_get_cached: "set (fst (get_cached_response now k es)) \<subseteq> set es"
  by (auto simp: get_cached_response_def jm_delete_filter split: option.splits dest: map_of_SomeD dest!: set_jm_set)

lemma set_evict: "set (evict es) \<subseteq> set es"
  by (induction es rule: evict.induct) auto

lemma set_put_cached: "set (put_cached_response k r es) \<subseteq> insert (k, r) (set es)"
  using set_evict [of "jm_set (jm_delete es k) k r"] by (auto simp: put_cached_response_def jm_moved)

lemma set_apply_effects:
  "kr \<in> set (fold apply_effect effs cache) \<Longrightarrow> kr \<in> set cache \<or> Store_response (fst kr) (snd kr) \<in> set effs"
proof (induction effs arbitrary: cache)
  case (Cons e effs)
  then have "kr \<in> set (apply_effect e cache) \<or> Store_response (fst kr) (snd kr) \<in> set effs" by simp
  then show ?case
  proof
    assume "kr \<in> set (apply_effect e cache)"
    then show ?thesis using set_put_cached [of _ _ cache] by (cases e) (fastforce simp: apply_effect_def)+
  qed simp
qed simp

lemma stored_backed:
  assumes "attempt_ok a" "Store_response k r \<in> set (snd (proxy_step (now, e) a))"
  shows "backed (fst (proxy_step (now, e) a)) k r"
  using assms
  by (cases e) (auto simp: attempt_ok_def backed_def attempt_defs max_object_bytes_def max_age_ms_def Let_def split: option.splits if_splits)

lemma edge_step_ok: "edge_ok w \<Longrightarrow> edge_ok (fst (edge_step (now, ev) w))"
proof (cases ev)
  case (Arrive rq route lease retry)
  let ?r = "proxy_to_app now lease rq route retry (ed_cache w)"
  let ?new = "case snd ?r of Forwarded a \<Rightarrow> [a] | _ \<Rightarrow> []"
  assume ok: "edge_ok w"
  have "\<forall>a \<in> set ?new. attempt_ok a \<and> (pa_ended a \<longrightarrow> pa_response a \<noteq> None)"
    using forwarded_attempt [of now lease rq route retry "ed_cache w"] by (auto split: outcome.splits)
  moreover have "set (fst ?r) \<subseteq> set (ed_cache w)"
    using set_get_cached [of now "cache_key rq route" "ed_cache w"]
    by (auto simp: proxy_to_app_def Let_def split: option.splits if_splits)
  ultimately show "edge_ok (fst (edge_step (now, ev) w))"
    using ok unfolding edge_ok_def Arrive by (auto simp: Let_def)
next
  case (Callback i e)
  assume ok: "edge_ok w"
  show "edge_ok (fst (edge_step (now, ev) w))"
  proof (cases "i < length (ed_attempts w)")
    case True
    let ?a = "ed_attempts w ! i" and ?r = "proxy_step (now, e) (ed_attempts w ! i)"
    have a: "?a \<in> set (ed_attempts w)" using True by simp
    then have aok: "attempt_ok ?a" "pa_ended ?a \<longrightarrow> pa_response ?a \<noteq> None" using ok by (auto simp: edge_ok_def)
    have new: "fst ?r \<in> set ((ed_attempts w)[i := fst ?r])" using True by (rule set_update_memI)
    have attempts: "\<forall>b \<in> set ((ed_attempts w)[i := fst ?r]). attempt_ok b \<and> (pa_ended b \<longrightarrow> pa_response b \<noteq> None)"
      using ok proxy_step_ok [OF aok(1)] proxy_step_ended_response [OF aok(2)] set_update_subset_insert [of "ed_attempts w" i "fst ?r"]
      by (auto simp: edge_ok_def)
    have "\<exists>b \<in> set ((ed_attempts w)[i := fst ?r]). backed b (fst kr) (snd kr)" if "kr \<in> set (fold apply_effect (snd ?r) (ed_cache w))" for kr
      using set_apply_effects [OF that]
    proof
      assume "kr \<in> set (ed_cache w)"
      then obtain b where b: "b \<in> set (ed_attempts w)" "backed b (fst kr) (snd kr)" using ok by (auto simp: edge_ok_def)
      then obtain j where j: "j < length (ed_attempts w)" "b = ed_attempts w ! j" by (auto simp: in_set_conv_nth)
      show ?thesis
      proof (cases "j = i")
        case True
        then have "outcome_of (fst ?r) = outcome_of b"
          using b(2) j proxy_step_ended [of ?a now e] by (auto simp: backed_def)
        then show ?thesis using backed_outcome [of "fst ?r" b] b(2) new by blast
      next
        case False
        then have "b \<in> set ((ed_attempts w)[i := fst ?r])" using j by (metis length_list_update nth_list_update_neq nth_mem)
        then show ?thesis using b(2) by blast
      qed
    next
      assume "Store_response (fst kr) (snd kr) \<in> set (snd ?r)"
      then show ?thesis using stored_backed [OF aok(1)] new by blast
    qed
    then show ?thesis using attempts True by (simp add: edge_ok_def Callback Let_def)
  qed (use ok in \<open>simp add: Callback\<close>)
next
  case (Purge name)
  assume "edge_ok w"
  then show "edge_ok (fst (edge_step (now, ev) w))" by (auto simp: edge_ok_def Purge purge_deployment_cache_def)
qed

interpretation edge_invariant: invariant edge_ok "\<lambda>_. True" "\<lambda>x w. (fst (edge_step x w), ())"
  by unfold_locales (use edge_step_ok in \<open>auto simp: split_paired_all\<close>)

lemma run_without_outputs: "fst (run_ops (\<lambda>x s. (fst (step x s), ())) xs s) = fst (run_ops step xs s)"
  by (induction xs arbitrary: s) (simp_all add: Let_def)

lemma edge_run_ok: "edge_ok w \<Longrightarrow> edge_ok (fst (run_ops edge_step evs w))"
  using edge_invariant.preserved [of w evs] by (simp add: run_without_outputs list_all_iff)

section \<open>The live feed\<close>

definition sample_count :: "'e live_feed \<Rightarrow> string \<Rightarrow> nat" where
  "sample_count f name = (case jm_get (lf_pending f) name of Some (_, n) \<Rightarrow> n | None \<Rightarrow> 0)"

text \<open>Up to 1000 applications no healthy request is missing from the counts.\<close>

lemma live_feed_counts:
  assumes "list_all (\<lambda>(status, _, _). status < 400) reqs" "card (set (map (fst \<circ> snd) reqs)) \<le> live_event_app_cap"
    and f: "f = fold (\<lambda>(status, name, entry) f. fst (emit_live_request status name entry f)) reqs \<lparr>lf_pending = [], lf_timer = False\<rparr>"
  shows "sample_count f name = length (filter (\<lambda>r. fst (snd r) = name) reqs)
    \<and> distinct (jm_keys (lf_pending f)) \<and> set (jm_keys (lf_pending f)) = set (map (fst \<circ> snd) reqs)"
  using assms
proof (induction reqs arbitrary: f name rule: rev_induct)
  case (snoc r reqs)
  obtain status app entry where r: "r = (status, app, entry)" by (cases r)
  let ?f = "fold (\<lambda>(status, name, entry) f. fst (emit_live_request status name entry f)) reqs \<lparr>lf_pending = [], lf_timer = False\<rparr>"
  have c: "card (insert app (set (map (fst \<circ> snd) reqs))) \<le> live_event_app_cap" using snoc.prems(2) by (simp add: r)
  then have "card (set (map (fst \<circ> snd) reqs)) \<le> live_event_app_cap"
    using card_insert_le [of "set (map (fst \<circ> snd) reqs)" app] by linarith
  then have ih: "sample_count ?f n = length (filter (\<lambda>r. fst (snd r) = n) reqs)" "distinct (jm_keys (lf_pending ?f))"
    "set (jm_keys (lf_pending ?f)) = set (map (fst \<circ> snd) reqs)" for n
    using snoc.IH [OF _ _ refl, of n] snoc.prems(1) by (simp_all only: list_all_append simp_thms)
  have "length (lf_pending ?f) < live_event_app_cap" if "app \<notin> set (jm_keys (lf_pending ?f))"
  proof -
    have "card (set (jm_keys (lf_pending ?f))) = length (lf_pending ?f)" by (rule card_keys [OF ih(2)])
    moreover have "card (insert app (set (jm_keys (lf_pending ?f)))) \<le> live_event_app_cap" using c unfolding ih(3) .
    ultimately show ?thesis using that by simp
  qed
  then have app: "jm_get (lf_pending ?f) app = None \<Longrightarrow> length (lf_pending ?f) < live_event_app_cap"
    by (simp add: map_of_eq_None_iff)
  have s: "\<not> 400 \<le> status" using snoc.prems(1) by (simp add: r)
  have "f = fst (emit_live_request status app entry ?f)" using snoc.prems(3) by (simp add: r)
  then have p: "lf_pending f = jm_set (lf_pending ?f) app (entry, sample_count ?f app + 1)"
    using s app by (auto simp: emit_live_request_def sample_count_def split: option.splits)
  show ?case
  proof (intro conjI)
    show "sample_count f name = length (filter (\<lambda>r. fst (snd r) = name) (reqs @ [r]))"
      using ih(1) [of name] ih(1) [of app] unfolding sample_count_def p by (simp add: r)
    show "distinct (jm_keys (lf_pending f))" unfolding p by (rule distinct_jm_set [OF ih(2)])
    show "set (jm_keys (lf_pending f)) = set (map (fst \<circ> snd) (reqs @ [r]))"
      unfolding p jm_keys_set using ih(3) by (auto simp: r)
  qed
qed (simp add: sample_count_def)

section \<open>Routing by host\<close>

text \<open>The path and the query put together are the URL, and an application is reached under its own name.\<close>

lemma split_url_joins: "fst (split_url url) @ snd (split_url url) = url \<and> CHR ''?'' \<notin> set (fst (split_url url))"
  by (auto simp: split_url_def dest: set_takeWhileD)

lemma ends_with_append: "ends_with (xs @ ys) ys"
  by (simp add: ends_with_def)

lemma hot_path_reaches_app:
  assumes "fld (rq_headers rq) ''host'' = Str (name @ ''.local'')" "CHR '':'' \<notin> set name" "name \<noteq> []"
    "name \<notin> {''deploy'', ''discover''}" "rq_method rq \<noteq> ''OPTIONS''"
  shows "hot_path_handler get_route url rq =
    (case get_route name of None \<Rightarrow> App_not_found name
     | Some route \<Rightarrow> Proxied route (rq\<lparr>rq_path := fst (split_url url), rq_search := snd (split_url url)\<rparr>))"
proof -
  have "CHR '':'' \<notin> set (name @ ''.local'')" using assms(2) by simp
  then have h: "hostname_of (rq_headers rq) = name @ ''.local''"
    using assms(1) by (auto simp: hostname_of_def host_header_def takeWhile_eq_all_conv)
  have "name @ ''.local'' \<notin> set dedicated_hosts"
  proof
    assume "name @ ''.local'' \<in> set dedicated_hosts"
    then have "name @ ''.local'' = ''deploy'' @ ''.local'' \<or> name @ ''.local'' = ''discover'' @ ''.local''" by (simp add: dedicated_hosts_def)
    then show False using assms(4) by (simp only: append_same_eq) simp
  qed
  then have "app_of_host (rq_method rq) (hostname_of (rq_headers rq)) = Some name"
    using assms(3,5) ends_with_append [of name "''.local''"] by (simp add: h app_of_host_def)
  then show ?thesis by (simp add: hot_path_handler_def)
qed

end
