(* ===== verification/EdgeProxyProperties.thy ===== *)
theory EdgeProxyProperties
  imports EdgeProxyFacts
begin

text \<open>The cache as an LRU map, what a cache hit serves, and the life of a backend lease on the hot path.\<close>

section \<open>The response cache\<close>

text \<open>C27. The response cache is a least-recently-used map of at most 512 entries: along every sequence of lookups, stores,
  purges and statistics (with non-empty keys) it answers what the specification with explicit times of use
  answers, and holds the same entries.\<close>
theorem response_cache_is_lru:
  assumes "list_all keyed ops"
  shows "snd (run_ops cache_step ops []) = snd (run_ops lru_step ops empty_lru)
    \<and> jm_get (fst (run_ops cache_step ops [])) = lr_map (fst (run_ops lru_step ops empty_lru))
    \<and> length (fst (run_ops cache_step ops [])) \<le> 512"
proof -
  have "lru_related [] empty_lru" by (simp add: lru_related_def empty_lru_def)
  from lru_simulation.run [OF this assms] show ?thesis by (simp add: lru_related_def max_entries_def)
qed

section \<open>Cache hits\<close>


text \<open>Purging an application does not stop a response that is still on its way: an attempt that began before the purge stores
  its body when it ends, under a key of that application, and the next request is served the old body.\<close>
lemma purge_misses_response_in_flight:
  assumes "i < length (ed_attempts w)" "a = ed_attempts w ! i" "attempt_ok a" "pa_key a = cache_key rq (pa_route a)"
    and "pa_storing a" "\<not> pa_overflow a" "\<not> pa_ended a" "pa_response a = Some (200, h)" "is_public_cacheable h"
    and "cache_eligible rq (pa_route a)" "later < now + max_age_ms a"
    and w': "w' = fst (run_ops edge_step [(now, Purge (pr_name (pa_route a))), (now, Callback i Upstream_end)] w)"
  shows "\<exists>reply. snd (proxy_to_app later lease rq (pa_route a) retry (ed_cache w')) = Served reply
    \<and> rp_body reply = (if rq_method rq = ''HEAD'' then [] else pa_chunks a)"
proof -
  let ?r = "\<lparr>cr_status = 200, cr_headers = set_header ''x-deploy-cache'' (Str ''MISS'') h, cr_body = pa_chunks a,
             cr_stored_at = now, cr_expires_at = now + max_age_ms a\<rparr>"
  let ?cache = "fst (purge_deployment_cache (pr_name (pa_route a)) (ed_cache w))"
  have eff: "fold apply_effect (snd (proxy_step (now, Upstream_end) a)) ?cache = put_cached_response (pa_key a) ?r ?cache"
    using assms(5-9) by (simp add: on_end_def release_backend_def apply_effect_def Let_def)
  then have cache: "ed_cache w' = put_cached_response (pa_key a) ?r ?cache"
    using assms(1,2) by (simp add: w' Let_def)
  have key: "pa_key a \<noteq> []" unfolding assms(4) by (simp add: cache_key_def)
  have last: "jm_get (evict (es @ [(k, v)])) k = Some v" if "k \<noteq> []" "k \<notin> set (jm_keys es)" for es :: response_cache and k v
    using that(2)
  proof (induction es)
    case (Cons x es)
    have "jm_get (xs @ [(k, v)]) k = Some v" if "k \<notin> set (jm_keys xs)" for xs :: response_cache
      using that by (induction xs) auto
    then show ?case using Cons that(1) by (cases x) (simp del: map_of_append)
  qed (simp add: max_entries_def)
  have "jm_get (ed_cache w') (pa_key a) = Some ?r"
    unfolding cache put_cached_response_def jm_moved by (rule last [OF key]) auto
  then show ?thesis
    using assms(4,10,11) by (simp add: proxy_to_app_def get_cached_response_def hit_reply_def Let_def)
qed

section \<open>Backends\<close>

text \<open>C28. A leased backend is given back exactly once: whatever order the callbacks of an attempt come in, and however often, the
  lease is released once if the response ended or closed or the request failed, and not at all before that.\<close>
theorem lease_released_once:
  assumes "snd (proxy_to_app now lease rq route retry cache) = Forwarded a" "pa_leased a"
  shows "releases (concat (snd (run_ops proxy_step evs a))) = (if settles False (map snd evs) then 1 else 0)"
  using run_releases [of a evs] forwarded_attempt [OF assms(1)] assms(2) by simp

text \<open>A retry tells the backend the wrong host: the first attempt changes the headers of the request in place, so the second
  one forwards the address of the first backend as the host the client asked for; and a host that came only in
  the HTTP/2 authority pseudo-header is lost already on the first attempt.\<close>
lemma retry_forwards_backend_as_host:
  "header (forward_headers host port rq) ''x-forwarded-host'' = (if truthy (header rq ''host'') then header rq ''host'' else Str [])
   \<and> header (forward_headers host' port' (forward_headers host port rq)) ''x-forwarded-host'' = Str (host @ '':'' @ int_str port)"
proof -
  let ?h = "\<lambda>rq. Obj (filter (\<lambda>kv. take 1 (fst kv) \<noteq> '':'') (own_fields (rq_headers rq)))"
  let ?original = "\<lambda>rq. if truthy (fld (?h rq) ''host'') then fld (?h rq) ''host''
      else if truthy (fld (?h rq) '':authority'') then fld (?h rq) '':authority'' else Str []"
  have kept: "map_of (filter (\<lambda>kv. take 1 (fst kv) \<noteq> '':'') xs) n = (if take 1 n = '':'' then None else map_of xs n)" for xs :: fields and n
    by (induction xs) auto
  have "fld (?h rq) ''host'' = header rq ''host''" "fld (?h rq) '':authority'' = Undef" for rq
    using kept [of "own_fields (rq_headers rq)"] by (cases "rq_headers rq"; simp add: fld_def proto_functions_def)+
  then have original: "?original rq = (if truthy (header rq ''host'') then header rq ''host'' else Str [])" for rq by simp
  have forwarded: "header (forward_headers host port rq) ''x-forwarded-host'' = ?original rq"
    "header (forward_headers host port rq) ''host'' = Str (host @ '':'' @ int_str port)" for host port rq
    unfolding forward_headers_def Let_def by (simp_all only: updated_headers forwarded_fields)
  show ?thesis
    unfolding forwarded(1) original unfolding forwarded(2) by simp
qed

lemma retry_after_head:
  assumes "rq_method (pa_request a) = ''GET''" "pa_retry a < 2" "pa_response a = None"
  shows "\<exists>out z d. Send_head status out z \<in> set (concat (snd (run_ops proxy_step [(t, Response_head status h), (t', Upstream_error Other_error)] a)))
    \<and> Retry_after d \<in> set (concat (snd (run_ops proxy_step [(t, Response_head status h), (t', Upstream_error Other_error)] a)))"
  using assms by (auto simp: on_response_def on_error_def release_backend_def max_retries_def Let_def)

lemma retries_are_bounded:
  "Retry_after d \<in> set (snd (proxy_step (now, e) a)) \<Longrightarrow> pa_retry a < 2 \<and> d \<in> {25, 50}"
  by (cases e) (auto simp: attempt_defs max_retries_def retry_delay_def less_Suc_eq numeral_2_eq_2 Let_def split: option.splits if_splits)

section \<open>Witnesses\<close>

definition page_cache :: cache_config where
  "page_cache = \<lparr>cc_enabled = True, cc_max_age = Some 60, cc_paths = [''/a*''], cc_max_bytes = Some 100\<rparr>"

definition page_route :: proxy_route where
  "page_route = \<lparr>pr_name = ''web'', pr_port = Some 80, pr_backend_host = None, pr_cache = Some page_cache, pr_selects = False\<rparr>"

definition page_request :: request where
  "page_request = \<lparr>rq_method = ''GET'', rq_headers = Obj [(''host'', Str ''web.local'')], rq_path = ''/a'', rq_search = [],
     rq_remote = ''10.0.0.2'', rq_encrypted = False\<rparr>"

definition page_headers :: jsv where
  "page_headers = Obj [(''cache-control'', Str ''public'')]"

definition page_history :: "(int \<times> edge_event) list" where
  "page_history = [(0, Arrive page_request page_route None 0), (1, Callback 0 (Response_head 200 page_headers)),
     (2, Callback 0 (Chunk ''hi'')), (3, Callback 0 Upstream_end)]"

lemma page_hit:
  "snd (proxy_to_app 4 None page_request page_route 0 (ed_cache (fst (run_ops edge_step page_history \<lparr>ed_cache = [], ed_attempts = []\<rparr>))))
    = Served (hit_reply 4 page_request \<lparr>cr_status = 200, cr_headers = Obj [(''cache-control'', Str ''public''),
        (''access-control-allow-origin'', Str ''*''), (''x-deploy-cache'', Str ''MISS'')], cr_body = ''hi'', cr_stored_at = 3, cr_expires_at = 60003\<rparr>)"
  by code_simp


lemma response_cache_is_lru_witness:
  "length (fst (run_ops cache_step [Cache_purge ''web'', Cache_get 1 ''web:80:/a''] [])) \<le> 512"
  using response_cache_is_lru [of "[Cache_purge ''web'', Cache_get 1 ''web:80:/a'']"] by (simp add: keyed_def)

definition page_edge :: edge where
  "page_edge = fst (run_ops edge_step (take 3 page_history) \<lparr>ed_cache = [], ed_attempts = []\<rparr>)"

lemma page_attempt:
  "0 < length (ed_attempts page_edge) \<and> pa_key (ed_attempts page_edge ! 0) = cache_key page_request (pa_route (ed_attempts page_edge ! 0))
   \<and> pa_storing (ed_attempts page_edge ! 0) \<and> \<not> pa_overflow (ed_attempts page_edge ! 0) \<and> \<not> pa_ended (ed_attempts page_edge ! 0)
   \<and> pa_response (ed_attempts page_edge ! 0) = Some (200, Obj [(''cache-control'', Str ''public''),
        (''access-control-allow-origin'', Str ''*''), (''x-deploy-cache'', Str ''MISS'')])
   \<and> is_public_cacheable (Obj [(''cache-control'', Str ''public''), (''access-control-allow-origin'', Str ''*''), (''x-deploy-cache'', Str ''MISS'')])
   \<and> cache_eligible page_request (pa_route (ed_attempts page_edge ! 0)) \<and> max_age_ms (ed_attempts page_edge ! 0) = 60000"
  by code_simp

lemma page_attempt_ok: "attempt_ok (ed_attempts page_edge ! 0)"
proof -
  have "edge_ok page_edge" unfolding page_edge_def by (rule edge_run_ok) (simp add: edge_ok_def)
  then show ?thesis using page_attempt by (simp add: edge_ok_def)
qed

lemma purge_misses_response_in_flight_witness:
  "\<exists>reply. snd (proxy_to_app 6 None page_request (pa_route (ed_attempts page_edge ! 0)) 0
     (ed_cache (fst (run_ops edge_step [(5, Purge (pr_name (pa_route (ed_attempts page_edge ! 0)))), (5, Callback 0 Upstream_end)] page_edge)))) = Served reply
   \<and> rp_body reply = (if rq_method page_request = ''HEAD'' then [] else pa_chunks (ed_attempts page_edge ! 0))"
  by (rule purge_misses_response_in_flight [OF _ refl page_attempt_ok _ _ _ _ _ _ _ _ refl]) (use page_attempt in auto)

definition leased_route :: proxy_route where
  "leased_route = page_route\<lparr>pr_selects := True\<rparr>"

lemma page_leased:
  "\<exists>a. snd (proxy_to_app 0 (Some \<lparr>bk_host = ''10.0.0.9'', bk_port = 8080\<rparr>) page_request leased_route 0 []) = Forwarded a \<and> pa_leased a"
  by (simp add: proxy_to_app_def get_cached_response_def leased_route_def Let_def)

lemma lease_released_once_witness:
  "\<exists>a. releases (concat (snd (run_ops proxy_step [(1, Response_head 200 page_headers), (2, Upstream_end), (3, Upstream_close)] a))) = 1"
  using page_leased lease_released_once [of 0 "Some \<lparr>bk_host = ''10.0.0.9'', bk_port = 8080\<rparr>" page_request leased_route 0 "[]" _
      "[(1, Response_head 200 page_headers), (2, Upstream_end), (3, Upstream_close)]"] by fastforce

end
