(* ===== verification/DataLineage.thy ===== *)
theory DataLineage
  imports SqliteMerge FileTree
begin

text \<open>
  The lineage of an application's data (\<open>data-reconciliation.ts\<close> from \<open>setDataSyncPolicy\<close> on): policies,
  checkpoints, changesets, conflicts and replicas are tables of one state, every exported function is an
  operation on it. A throw is \<open>Inl\<close> its message, with the writes made before it. What SQLite does in one call is
  a record of outcomes; database bytes are opened by \<open>pf_open\<close>, \<open>JSON.parse\<close> is \<open>pf_parse\<close>, the time and the random part of
  the n-th \<open>sortableId\<close> are \<open>pf_token n\<close>. Timestamps, the payloads
  of fleet events (which are always emitted here) and the readiness certificates a materialization invalidates are not modelled.
\<close>

section \<open>Tables\<close>

datatype sync_policy = Sync_automatic | Sync_manual | Sync_none

record policy_row =
  py_app :: string
  py_site :: string
  py_policy :: sync_policy
  py_conflict :: conflict_policy
  py_risks :: "string list"
  py_revision :: nat
  py_updated_by :: string

record replica =
  rl_app :: string
  rl_site :: string
  rl_replicated :: bool
  rl_policy :: sync_policy
  rl_shared :: bool
  rl_base :: "string option"
  rl_branch :: "string option"
  rl_pending :: nat
  rl_removed :: bool

record checkpoint =
  ck_id :: string
  ck_app :: string
  ck_parent :: "string option"
  ck_origin :: string
  ck_sequence :: nat
  ck_database :: "string option"
  ck_files :: "string option"
  ck_manifest :: string
  ck_schema :: "string option"
  ck_profile :: "string option"
  ck_verified :: bool

datatype changeset_status = Pending_changes | Applied_changes | Conflicted_changes | Blocked_changes

record changeset =
  ch_id :: string
  ch_app :: string
  ch_origin :: string
  ch_base :: string
  ch_manifest :: string
  ch_schema :: "string option"
  ch_database :: "string option"
  ch_files :: "string option"
  ch_signature :: string
  ch_status :: changeset_status
  ch_report :: "conflict list option"
  ch_result :: "string option"

record data_conflict =
  dc_id :: string
  dc_app :: string
  dc_changeset :: "string option"
  dc_kind :: conflict_kind
  dc_address :: string
  dc_base :: jsv
  dc_home :: jsv
  dc_suitcase :: jsv
  dc_resolution :: "conflict_resolution option"
  dc_open :: bool

record profile =
  pl_app :: string
  pl_id :: string
  pl_version :: string
  pl_sqlite_files :: "(string \<times> string) list"
  pl_tables :: "(string \<times> string) list"

record blob_reference =
  br_app :: string
  br_path :: string
  br_checkpoint :: string
  br_digest :: "string option"
  br_size :: int

record site =
  si_id :: string
  si_home :: bool
  si_revoked :: bool

text \<open>The \<open>data\<close> rows of \<open>app_materialization\<close>.\<close>

record materialization =
  mz_app :: string
  mz_site :: string
  mz_desired :: "string option"
  mz_available :: "string option"
  mz_ready :: bool
  mz_blockers :: "string list"

record lineage =
  ln_local_site :: string
  ln_sites :: "site list"
  ln_materializations :: "materialization list"
  ln_policies :: "policy_row list"
  ln_replicas :: "replica list"
  ln_checkpoints :: "checkpoint list"
  ln_changesets :: "changeset list"
  ln_conflicts :: "data_conflict list"
  ln_profiles :: "profile list"
  ln_blobs :: "blob_reference list"
  ln_artifacts :: content_store
  ln_events :: "(string \<times> string) list"
  ln_tokens :: nat

record platform =
  pf_sha :: "string \<Rightarrow> string"
  pf_ck :: "string \<Rightarrow> nat list"
  pf_token :: "nat \<Rightarrow> string"
  pf_parse :: "string \<Rightarrow> jsv option"
  pf_umask :: "nat \<Rightarrow> nat"
  pf_open :: "string \<Rightarrow> sqlite_file"
  pf_sign :: "string \<Rightarrow> string \<Rightarrow> string"

definition sortable_id :: "platform \<Rightarrow> string \<Rightarrow> nat \<Rightarrow> string" where
  "sortable_id pf kind n = kind @ ''_'' @ pf_token pf n"

definition log_event :: "string \<Rightarrow> string \<Rightarrow> lineage \<Rightarrow> lineage" where
  "log_event operation app s = s\<lparr>ln_events := ln_events s @ [(operation, app)]\<rparr>"

definition put_bytes :: "platform \<Rightarrow> string \<Rightarrow> lineage \<Rightarrow> lineage" where
  "put_bytes pf bytes s = s\<lparr>ln_artifacts := put_artifact_file (pf_sha pf) (ln_artifacts s) bytes\<rparr>"

definition bytes_digest :: "platform \<Rightarrow> string \<Rightarrow> string" where
  "bytes_digest pf bytes = file_digest (pf_sha pf) bytes"

definition or_none :: "string option \<Rightarrow> string option" where
  "or_none t = (if t = Some [] then None else t)"

definition null_or :: "string option \<Rightarrow> jsv" where
  "null_or d = (case or_none d of None \<Rightarrow> Null | Some t \<Rightarrow> Str t)"

section \<open>Policies\<close>

definition set_data_sync_policy ::
    "string \<Rightarrow> string option \<Rightarrow> sync_policy \<Rightarrow> conflict_policy option \<Rightarrow> string list \<Rightarrow> string \<Rightarrow> lineage \<Rightarrow> lineage" where
  "set_data_sync_policy app site policy conflicts risks by s =
     (let key = (case site of None \<Rightarrow> [] | Some t \<Rightarrow> t);
          cp = (case conflicts of None \<Rightarrow> Collect | Some c \<Rightarrow> c);
          same = (\<lambda>r. py_app r = app \<and> py_site r = key);
          row = \<lparr>py_app = app, py_site = key, py_policy = policy, py_conflict = cp, py_risks = risks, py_revision = 1, py_updated_by = by\<rparr>;
          rows = (if list_ex same (ln_policies s)
                  then map (\<lambda>r. if same r then row\<lparr>py_revision := py_revision r + 1\<rparr> else r) (ln_policies s)
                  else ln_policies s @ [row]);
          replicas = (if key = [] then ln_replicas s
                      else map (\<lambda>r. if rl_app r = app \<and> rl_site r = key then r\<lparr>rl_policy := policy\<rparr> else r) (ln_replicas s)) in
      log_event ''application.data.policy.updated'' app (s\<lparr>ln_policies := rows, ln_replicas := replicas\<rparr>))"

definition get_data_sync_policy :: "string \<Rightarrow> string option \<Rightarrow> lineage \<Rightarrow> sync_policy \<times> conflict_policy" where
  "get_data_sync_policy app site s =
     (let row = (\<lambda>key. find (\<lambda>r. py_app r = app \<and> py_site r = key) (ln_policies s)) in
      case (case site of None \<Rightarrow> None | Some t \<Rightarrow> if t = [] then None else row t) of
        Some r \<Rightarrow> (py_policy r, py_conflict r)
      | None \<Rightarrow> (case row [] of Some r \<Rightarrow> (py_policy r, py_conflict r) | None \<Rightarrow> (Sync_none, Collect)))"

definition assert_sync_allowed :: "string \<Rightarrow> string \<Rightarrow> bool \<Rightarrow> lineage \<Rightarrow> string option" where
  "assert_sync_allowed app site manual s =
     (case fst (get_data_sync_policy app (Some site) s) of
        Sync_none \<Rightarrow> Some ''Data sync is disabled for this application replica''
      | Sync_manual \<Rightarrow> if manual then None else Some ''Data sync is pending an explicit Sync now action''
      | Sync_automatic \<Rightarrow> None)"

section \<open>Checkpoints\<close>

record checkpoint_input =
  ki_app :: string
  ki_origin :: string
  ki_parent :: "string option"
  ki_database :: "string option"
  ki_files :: "file_tree option"
  ki_schema :: "string option"
  ki_profile :: "string option"
  ki_allow_empty :: bool

text \<open>\<open>SELECT COALESCE(MAX(sequence), 0)\<close>, read before the first \<open>await\<close>.\<close>

definition next_sequence :: "string \<Rightarrow> lineage \<Rightarrow> nat" where
  "next_sequence app s = fold max (map ck_sequence (filter (\<lambda>c. ck_app c = app) (ln_checkpoints s))) 0 + 1"

definition manifest_blobs :: "string \<Rightarrow> string \<Rightarrow> jsv \<Rightarrow> blob_reference list" where
  "manifest_blobs app checkpoint manifest =
     map (\<lambda>(_, e). \<lparr>br_app = app, br_path = str_of (fld e ''path''), br_checkpoint = checkpoint,
                    br_digest = (if truthy (fld e ''digest'') then Some (str_of (fld e ''digest'')) else None),
                    br_size = (case int_of (fld e ''byteSize'') of Some n \<Rightarrow> n | None \<Rightarrow> 0)\<rparr>)
       (own_fields (manifest_entries manifest))"

definition checkpoint_manifest :: "checkpoint_input \<Rightarrow> nat \<Rightarrow> string option \<Rightarrow> string option \<Rightarrow> jsv" where
  "checkpoint_manifest i sequence database files =
     Obj [(''formatVersion'', Num (JInt 1)), (''appId'', Str (ki_app i)), (''originSiteId'', Str (ki_origin i)),
          (''parentId'', null_or (ki_parent i)), (''sequence'', Num (JInt (int sequence))),
          (''databaseArtifactDigest'', null_or database), (''filesystemArtifactDigest'', null_or files),
          (''schemaFingerprint'', null_or (ki_schema i)), (''profileVersion'', null_or (ki_profile i))]"

text \<open>What happens after the awaits: manifests and rows are written under the sequence read before.\<close>

definition save_checkpoint ::
    "platform \<Rightarrow> checkpoint_input \<Rightarrow> nat \<Rightarrow> string option \<Rightarrow> jsv option \<Rightarrow> lineage \<Rightarrow> lineage \<times> string" where
  "save_checkpoint pf i sequence database manifest s =
     (let files = map_option (\<lambda>m. text_of (pf_ck pf) m) manifest;
          s = (case files of None \<Rightarrow> s | Some bytes \<Rightarrow> put_bytes pf bytes s);
          filed = map_option (bytes_digest pf) files;
          record_bytes = text_of (pf_ck pf) (checkpoint_manifest i sequence database filed);
          s = put_bytes pf record_bytes s;
          ident = sortable_id pf ''checkpoint'' (ln_tokens s);
          row = \<lparr>ck_id = ident, ck_app = ki_app i, ck_parent = or_none (ki_parent i), ck_origin = ki_origin i, ck_sequence = sequence,
                 ck_database = database, ck_files = filed, ck_manifest = bytes_digest pf record_bytes,
                 ck_schema = or_none (ki_schema i), ck_profile = or_none (ki_profile i), ck_verified = True\<rparr>;
          blobs = (case manifest of None \<Rightarrow> [] | Some m \<Rightarrow> manifest_blobs (ki_app i) ident m) in
      (log_event ''data.checkpoint.created'' (ki_app i)
         (s\<lparr>ln_checkpoints := ln_checkpoints s @ [row], ln_blobs := ln_blobs s @ blobs, ln_tokens := ln_tokens s + 1\<rparr>), ident))"

definition create_data_checkpoint :: "platform \<Rightarrow> checkpoint_input \<Rightarrow> lineage \<Rightarrow> lineage \<times> (string + string)" where
  "create_data_checkpoint pf i s =
     (if ki_database i = None \<and> ki_files i = None \<and> \<not> ki_allow_empty i then
        (s, Inl ''A checkpoint requires a database or file snapshot'')
      else
        (let sequence = next_sequence (ki_app i) s;
             s = (case ki_database i of None \<Rightarrow> s | Some bytes \<Rightarrow> put_bytes pf bytes s);
             database = map_option (bytes_digest pf) (ki_database i) in
         case ki_files i of
           None \<Rightarrow> (let r = save_checkpoint pf i sequence database None s in (fst r, Inr (snd r)))
         | Some tree \<Rightarrow>
             (case create_file_manifest_async (pf_sha pf) (pf_ck pf) (ln_artifacts s) tree of
                Inl e \<Rightarrow> (s, Inl e)
              | Inr (manifest, store) \<Rightarrow>
                  (let r = save_checkpoint pf i sequence database (Some manifest) (s\<lparr>ln_artifacts := store\<rparr>) in (fst r, Inr (snd r))))))"

definition checkpoint_stats :: "string \<Rightarrow> lineage \<Rightarrow> int \<times> nat \<times> nat" where
  "checkpoint_stats checkpoint s =
     (let rows = filter (\<lambda>b. br_checkpoint b = checkpoint) (ln_blobs s) in
      (sum_list (map br_size rows), length rows, length (uniq (List.map_filter br_digest rows))))"

definition checkpoint_record :: "string \<Rightarrow> string \<Rightarrow> lineage \<Rightarrow> string + checkpoint" where
  "checkpoint_record checkpoint app s =
     (case find (\<lambda>c. ck_id c = checkpoint \<and> ck_app c = app \<and> ck_verified c) (ln_checkpoints s) of
        None \<Rightarrow> Inl (''Verified checkpoint not found: '' @ checkpoint)
      | Some c \<Rightarrow> Inr c)"

section \<open>Conflicts\<close>

fun record_reconciliation_conflicts ::
    "platform \<Rightarrow> string \<Rightarrow> string option \<Rightarrow> conflict list \<Rightarrow> lineage \<Rightarrow> lineage \<times> string list" where
  "record_reconciliation_conflicts pf app changeset [] s = (s, [])"
| "record_reconciliation_conflicts pf app changeset (c # cs) s =
     (let ident = sortable_id pf ''conflict'' (ln_tokens s);
          row = \<lparr>dc_id = ident, dc_app = app, dc_changeset = changeset, dc_kind = cf_kind c, dc_address = cf_address c,
                 dc_base = cf_base c, dc_home = cf_home c, dc_suitcase = cf_suitcase c, dc_resolution = None, dc_open = True\<rparr>;
          r = record_reconciliation_conflicts pf app changeset cs
                (s\<lparr>ln_conflicts := ln_conflicts s @ [row], ln_tokens := ln_tokens s + 1\<rparr>) in
      (fst r, ident # snd r))"

datatype requested_resolution = Choose conflict_resolution | Custom_repair

record resolved_conflict =
  rs_app :: string
  rs_changeset :: "string option"
  rs_origin :: "string option"
  rs_ready :: bool

definition changeset_row :: "string \<Rightarrow> lineage \<Rightarrow> changeset option" where
  "changeset_row ident s = find (\<lambda>c. ch_id c = ident) (ln_changesets s)"

definition update_changeset :: "string \<Rightarrow> (changeset \<Rightarrow> changeset) \<Rightarrow> lineage \<Rightarrow> lineage" where
  "update_changeset ident f s = s\<lparr>ln_changesets := map (\<lambda>c. if ch_id c = ident then f c else c) (ln_changesets s)\<rparr>"

definition open_conflicts :: "string \<Rightarrow> lineage \<Rightarrow> data_conflict list" where
  "open_conflicts changeset s = filter (\<lambda>c. dc_changeset c = Some changeset \<and> dc_open c) (ln_conflicts s)"

text \<open>Home and suitcase name the sides as the operator sees them; for a changeset of the local site they are the other
  way round.\<close>

definition stored_resolution :: "bool \<Rightarrow> conflict_resolution \<Rightarrow> conflict_resolution" where
  "stored_resolution local_origin r =
     (if local_origin \<and> r = Take_home then Take_suitcase
      else if local_origin \<and> r = Take_suitcase then Take_home
      else r)"

definition reopen :: "changeset \<Rightarrow> changeset" where
  "reopen c = (if ch_status c \<in> {Conflicted_changes, Blocked_changes} then c\<lparr>ch_status := Pending_changes, ch_report := None\<rparr> else c)"

definition settle :: "string \<Rightarrow> conflict_resolution \<Rightarrow> data_conflict \<Rightarrow> data_conflict" where
  "settle ident r d = (if dc_id d = ident \<and> dc_open d then d\<lparr>dc_resolution := Some r, dc_open := False\<rparr> else d)"

text \<open>The part after the guards, on the row \<open>c\<close> that was read.\<close>

definition settle_conflict :: "data_conflict \<Rightarrow> conflict_resolution \<Rightarrow> lineage \<Rightarrow> lineage \<times> resolved_conflict" where
  "settle_conflict c resolution s =
     (let origin = (case dc_changeset c of None \<Rightarrow> None | Some h \<Rightarrow> map_option ch_origin (changeset_row h s));
          stored = stored_resolution (origin = Some (ln_local_site s)) resolution;
          s' = s\<lparr>ln_conflicts := map (settle (dc_id c) stored) (ln_conflicts s)\<rparr>;
          settled = (case dc_changeset c of None \<Rightarrow> False | Some h \<Rightarrow> open_conflicts h s' = []);
          s'' = (case dc_changeset c of None \<Rightarrow> s' | Some h \<Rightarrow> if settled then update_changeset h reopen s' else s');
          from_site = (if settled then origin else None) in
      (log_event ''data.conflict.resolved'' (dc_app c) s'',
       \<lparr>rs_app = dc_app c, rs_changeset = dc_changeset c, rs_origin = from_site,
        rs_ready = (settled \<and> from_site \<noteq> None \<and> from_site \<noteq> Some [])\<rparr>))"

definition resolve_data_conflict ::
    "string \<Rightarrow> requested_resolution \<Rightarrow> lineage \<Rightarrow> lineage \<times> (string + resolved_conflict)" where
  "resolve_data_conflict ident request s =
     (case request of
        Custom_repair \<Rightarrow> (s, Inl ''Custom conflict repair requires a new validated branch; choose Home, Suitcase, or keep both'')
      | Choose resolution \<Rightarrow>
     (case find (\<lambda>c. dc_id c = ident \<and> dc_open c) (ln_conflicts s) of
        None \<Rightarrow> (s, Inl ''Open data conflict not found'')
      | Some c \<Rightarrow>
          if dc_kind c = Schema_conflict \<or> dc_kind c = Validation_conflict then
            (s, Inl ''Schema and validation conflicts require a new branch that passes portability validation'')
          else if resolution = Keep_both \<and> dc_kind c \<noteq> File_path then
            (s, Inl ''Keep both is available only for uploaded-file path conflicts'')
          else (let r = settle_conflict c resolution s in (fst r, Inr (snd r)))))"

section \<open>Changesets\<close>

definition load_file_manifest :: "platform \<Rightarrow> string \<Rightarrow> lineage \<Rightarrow> string + jsv" where
  "load_file_manifest pf d s =
     (case jm_get (ln_artifacts s) d of
        None \<Rightarrow> Inl (''File manifest is not materialized: '' @ d)
      | Some bytes \<Rightarrow>
          (case pf_parse pf bytes of
             None \<Rightarrow> Inl ''SyntaxError''
           | Some m \<Rightarrow>
               if fld m ''formatVersion'' \<noteq> Num (JInt 1)
                  \<or> Str (value_digest (pf_sha pf) (pf_ck pf) (manifest_entries m)) \<noteq> fld m ''rootDigest''
               then Inl ''File manifest digest or format is invalid'' else Inr m))"

record changeset_input =
  hi_app :: string
  hi_origin :: string
  hi_base :: string
  hi_database :: "string option"
  hi_logical_path :: "string option"
  hi_files :: "file_tree option"
  hi_schema :: "string option"
  hi_manual :: bool

definition profile_of :: "string \<Rightarrow> string \<Rightarrow> lineage \<Rightarrow> profile option" where
  "profile_of app version s = find (\<lambda>p. pl_app p = app \<and> (pl_id p = version \<or> pl_version p = version)) (rev (ln_profiles s))"

text \<open>The tables of a profile that take part, or none when there is no profile.\<close>

definition profile_tables :: "string option \<Rightarrow> profile option \<Rightarrow> string + string list option" where
  "profile_tables logical p =
     (case p of
        None \<Rightarrow> Inr None
      | Some p \<Rightarrow>
          (case (case logical of
                   Some t \<Rightarrow> if t \<noteq> [] then Some t else None
                 | None \<Rightarrow> None) of
             Some path \<Rightarrow> Inr (Some (map snd (filter (\<lambda>(f, t). f = path) (pl_tables p))))
           | None \<Rightarrow>
               (case pl_sqlite_files p of
                  [(resource, relative)] \<Rightarrow> Inr (Some (map snd (filter (\<lambda>(f, t). f = resource @ ''/'' @ relative) (pl_tables p))))
                | _ \<Rightarrow> Inl ''A reconciliation profile with multiple SQLite files requires databaseLogicalPath'')))"

text \<open>The captured database part: the bytes of its changeset and its schema.\<close>

definition capture_database ::
    "platform \<Rightarrow> session_run \<Rightarrow> changeset_input \<Rightarrow> checkpoint \<Rightarrow> lineage \<Rightarrow> string + (string \<times> string) option" where
  "capture_database pf run i base s =
     (case hi_database i of
        None \<Rightarrow> Inr None
      | Some branch \<Rightarrow>
     (case ck_database base of
        None \<Rightarrow> Inl ''A SQLite changeset requires a database artifact in its shared base''
      | Some d \<Rightarrow>
     (case jm_get (ln_artifacts s) d of
        None \<Rightarrow> Inl (''Shared-base database is not materialized: '' @ d)
      | Some bytes \<Rightarrow>
     (case profile_tables (hi_logical_path i) (case ck_profile base of None \<Rightarrow> None | Some v \<Rightarrow> profile_of (hi_app i) v s) of
        Inl e \<Rightarrow> Inl e
      | Inr tables \<Rightarrow>
     (case create_changeset (pf_sha pf) (pf_ck pf) run (pf_open pf bytes) (pf_open pf branch) tables of
        Inl e \<Rightarrow> Inl e
      | Inr ca \<Rightarrow>
          (case hi_schema i of
             Some f \<Rightarrow> if f \<noteq> [] \<and> f \<noteq> ca_fingerprint ca \<and> Some f \<noteq> ck_schema base
                       then Inl ''Declared SQLite schema fingerprint does not match the captured branch''
                       else Inr (Some (ca_bytes ca, ca_fingerprint ca))
           | None \<Rightarrow> Inr (Some (ca_bytes ca, ca_fingerprint ca))))))))"

definition branch_manifest :: "changeset_input \<Rightarrow> string option \<Rightarrow> string option \<Rightarrow> string option \<Rightarrow> jsv" where
  "branch_manifest i schema database files =
     Obj [(''formatVersion'', Num (JInt 1)), (''appId'', Str (hi_app i)), (''originSiteId'', Str (hi_origin i)),
          (''baseCheckpointId'', Str (hi_base i)), (''schemaFingerprint'', null_or schema),
          (''databaseChangesetArtifactDigest'', null_or database), (''fileManifestDigest'', null_or files)]"

definition save_changeset ::
    "platform \<Rightarrow> changeset_input \<Rightarrow> (string \<times> string) option \<Rightarrow> jsv option \<Rightarrow> lineage \<Rightarrow> lineage \<times> string" where
  "save_changeset pf i captured manifest s =
     (let files = map_option (text_of (pf_ck pf)) manifest;
          s = (case files of None \<Rightarrow> s | Some bytes \<Rightarrow> put_bytes pf bytes s);
          database = map_option (\<lambda>(bytes, _). bytes_digest pf bytes) captured;
          filed = map_option (bytes_digest pf) files;
          schema = (case captured of Some (_, f) \<Rightarrow> if f = [] then or_none (hi_schema i) else Some f | None \<Rightarrow> or_none (hi_schema i));
          branch = text_of (pf_ck pf) (branch_manifest i schema database filed);
          s = put_bytes pf branch s;
          ident = sortable_id pf ''changeset'' (ln_tokens s);
          row = \<lparr>ch_id = ident, ch_app = hi_app i, ch_origin = hi_origin i, ch_base = hi_base i, ch_manifest = bytes_digest pf branch,
                 ch_schema = schema, ch_database = database, ch_files = filed, ch_signature = pf_sign pf (hi_origin i) branch,
                 ch_status = Pending_changes, ch_report = None, ch_result = None\<rparr>;
          replicas = map (\<lambda>r. if rl_app r = hi_app i \<and> rl_site r = hi_origin i
                              then r\<lparr>rl_pending := rl_pending r + 1, rl_branch := Some (hi_base i)\<rparr> else r) (ln_replicas s) in
      (log_event ''data.changeset.created'' (hi_app i)
         (s\<lparr>ln_changesets := ln_changesets s @ [row], ln_replicas := replicas, ln_tokens := ln_tokens s + 1\<rparr>), ident))"

definition create_data_changeset :: "platform \<Rightarrow> session_run \<Rightarrow> changeset_input \<Rightarrow> lineage \<Rightarrow> lineage \<times> (string + string)" where
  "create_data_changeset pf run i s =
     (case assert_sync_allowed (hi_app i) (hi_origin i) (hi_manual i) s of
        Some e \<Rightarrow> (s, Inl e)
      | None \<Rightarrow>
     (case find (\<lambda>c. ck_id c = hi_base i \<and> ck_app c = hi_app i) (ln_checkpoints s) of
        None \<Rightarrow> (s, Inl ''Changesets require a verified retained base checkpoint'')
      | Some base \<Rightarrow>
          if \<not> ck_verified base then (s, Inl ''Changesets require a verified retained base checkpoint'')
          else if hi_database i = None \<and> hi_files i = None then
            (s, Inl ''A changeset requires a database or file branch snapshot'')
          else (case capture_database pf run i base s of
              Inl e \<Rightarrow> (s, Inl e)
            | Inr captured \<Rightarrow>
                (let s = (case captured of None \<Rightarrow> s | Some (bytes, _) \<Rightarrow> put_bytes pf bytes s) in
                 case hi_files i of
                   None \<Rightarrow> (let r = save_changeset pf i captured None s in (fst r, Inr (snd r)))
                 | Some tree \<Rightarrow>
                     (case create_file_manifest_async (pf_sha pf) (pf_ck pf) (ln_artifacts s) tree of
                        Inl e \<Rightarrow> (s, Inl e)
                      | Inr (manifest, store) \<Rightarrow>
                          (let r = save_changeset pf i captured (Some manifest) (s\<lparr>ln_artifacts := store\<rparr>) in (fst r, Inr (snd r))))))))"

end
