(* ===== verification/DataApply.thy ===== *)
theory DataApply
  imports DataLineage
begin

text \<open>
  Applying a changeset (\<open>applyDataChangeset\<close>, \<open>acknowledgeCheckpoint\<close> and \<open>listCheckpointRetentionBlockers\<close> of
  \<open>data-reconciliation.ts\<close>) and the coordinator that drives it (\<open>reconciliation-coordinator.ts\<close>). What a call decides
  before its \<open>await\<close> and what it commits afterwards are two definitions. SQLite's part of one application is a \<open>db_run\<close>;
  capturing and restoring the home branch (\<open>suitcase-data-bridge.ts\<close>) are arguments of the coordinator.
\<close>

section \<open>The staged directory\<close>

definition children :: "disk \<Rightarrow> string list \<Rightarrow> string list" where
  "children d path =
     map last (filter (\<lambda>p. length p = Suc (length path) \<and> take (length path) p = path) (jm_keys d))"

text \<open>What \<open>createFileManifestAsync\<close> finds below a path; \<open>n\<close> bounds the depth.\<close>

fun read_tree :: "nat \<Rightarrow> disk \<Rightarrow> string list \<Rightarrow> file_tree" where
  "read_tree 0 d path = Special"
| "read_tree (Suc n) d path =
     (case jm_get d path of
        Some (Directory m) \<Rightarrow> Folder m (map (\<lambda>name. (name, read_tree n d (path @ [name]))) (children d path))
      | Some (Regular content m) \<Rightarrow> File m content
      | None \<Rightarrow> Special)"

definition staged_tree :: "disk \<Rightarrow> string list \<Rightarrow> file_tree" where
  "staged_tree d path = read_tree (Suc (fold max (map length (jm_keys d)) 0)) d path"

section \<open>One application of a changeset\<close>

record db_run =
  dr_applied :: "string + bool"
  dr_branch :: sqlite_file
  dr_staging :: staging
  dr_output :: string

record apply_input =
  ai_changeset :: string
  ai_current :: string
  ai_coordinator :: string
  ai_database_path :: bool
  ai_files_path :: "string list option"
  ai_policy :: "conflict_policy option"

datatype apply_result = Merged_into string | Waiting merge_status "string list"

text \<open>\<open>artifactPathFor\<close>: no digest is no path, an unknown digest throws.\<close>

definition artifact_for :: "string option \<Rightarrow> string \<Rightarrow> lineage \<Rightarrow> string + string option" where
  "artifact_for d label s =
     (case or_none d of
        None \<Rightarrow> Inr None
      | Some t \<Rightarrow>
          (case jm_get (ln_artifacts s) t of
             None \<Rightarrow> Inl (label @ '' is not materialized: '' @ t)
           | Some bytes \<Rightarrow> Inr (Some bytes)))"

definition stored_resolutions :: "string \<Rightarrow> lineage \<Rightarrow> resolutions" where
  "stored_resolutions changeset s =
     fold (\<lambda>c m. case dc_resolution c of
               Some r \<Rightarrow> if dc_changeset c = Some changeset \<and> \<not> dc_open c
                         then jm_set m (conflict_key (dc_kind c) (dc_address c)) r else m
             | None \<Rightarrow> m) (ln_conflicts s) []"

text \<open>The database part: \<open>None\<close> when the changeset has none, otherwise the outcome of the merge. An error of the
  materialization is caught and becomes a blocked result.\<close>

definition merge_database ::
    "platform \<Rightarrow> db_run \<Rightarrow> apply_input \<Rightarrow> conflict_policy \<Rightarrow> resolutions \<Rightarrow> changeset \<Rightarrow> checkpoint \<Rightarrow> checkpoint \<Rightarrow> lineage
      \<Rightarrow> string + sqlite_reconciliation option" where
  "merge_database pf run i policy res ch base current s =
     (case artifact_for (ch_database ch) ''SQLite session changeset artifact'' s of
        Inl e \<Rightarrow> Inl e
      | Inr None \<Rightarrow> Inr None
      | Inr (Some _) \<Rightarrow>
     (case artifact_for (ck_database base) ''Base database checkpoint'' s of
        Inl e \<Rightarrow> Inl e
      | Inr basedb \<Rightarrow>
     (case artifact_for (ck_database current) ''Current database checkpoint'' s of
        Inl e \<Rightarrow> Inl e
      | Inr homedb \<Rightarrow>
     (case (basedb, homedb, ai_database_path i) of
        (Some b, Some h, True) \<Rightarrow>
          (case materialize_changeset (pf_sha pf) (pf_ck pf) (dr_applied run) (dr_branch run) (ch_schema ch) of
             Inl e \<Rightarrow> Inr (Some \<lparr>sq_status = Blocked, sq_fingerprint = None,
                                 sq_conflicts = [validation ''sqlite-changeset'' Null Null Null e]\<rparr>)
           | Inr _ \<Rightarrow> Inr (Some (reconcile_sqlite_databases (pf_sha pf) (pf_ck pf) (dr_staging run) True (Some policy) res
                                 (pf_open pf b) (pf_open pf h) (dr_branch run))))
      | _ \<Rightarrow> Inl ''Database reconciliation requires base/current artifacts and a staging path''))))"

text \<open>The file part: \<open>None\<close> when the changeset has none, otherwise its conflicts and the merged directory read back
  from the staging path, or \<open>None\<close> for it when conflicts remain.\<close>

definition merge_files ::
    "platform \<Rightarrow> disk \<Rightarrow> apply_input \<Rightarrow> conflict_policy \<Rightarrow> resolutions \<Rightarrow> changeset \<Rightarrow> checkpoint \<Rightarrow> checkpoint \<Rightarrow> lineage
      \<Rightarrow> string + (conflict list \<times> file_tree option) option" where
  "merge_files pf d i policy res ch base current s =
     (case or_none (ch_files ch) of
        None \<Rightarrow> Inr None
      | Some branch \<Rightarrow>
     (case ai_files_path i of
        None \<Rightarrow> Inl ''File reconciliation requires a staging path''
      | Some path \<Rightarrow>
     (case (or_none (ck_files base), or_none (ck_files current)) of
        (Some b, Some h) \<Rightarrow>
          (case load_file_manifest pf b s of
             Inl e \<Rightarrow> Inl e
           | Inr bm \<Rightarrow>
          (case load_file_manifest pf h s of
             Inl e \<Rightarrow> Inl e
           | Inr hm \<Rightarrow>
          (case load_file_manifest pf branch s of
             Inl e \<Rightarrow> Inl e
           | Inr sm \<Rightarrow>
               (let r = reconcile_file_manifests (pf_sha pf) (pf_ck pf) (Some bm) hm sm (ch_origin ch) (Some policy) res in
                if \<not> fr_merged r then Inr (Some (fr_conflicts r, None))
                else if (case jm_get d path of Some (Regular _ _) \<Rightarrow> True | _ \<Rightarrow> False) then Inl ''ENOTDIR''
                else if children d path \<noteq> [] then Inl ''File reconciliation staging directory must be empty''
                else (case materialize_file_manifest (pf_umask pf) (pf_ck pf) (ln_artifacts s) (fr_manifest r) path d of
                    (_, Some e) \<Rightarrow> Inl e
                  | (d', None) \<Rightarrow> Inr (Some (fr_conflicts r, Some (staged_tree d' path))))))))
      | _ \<Rightarrow> Inl ''File reconciliation requires base and current manifests'')))"

definition hold_changeset ::
    "platform \<Rightarrow> changeset \<Rightarrow> changeset_status \<Rightarrow> conflict list \<Rightarrow> lineage \<Rightarrow> lineage \<times> string list" where
  "hold_changeset pf ch status conflicts s =
     (let r = record_reconciliation_conflicts pf (ch_app ch) (Some (ch_id ch)) conflicts s in
      (update_changeset (ch_id ch) (\<lambda>c. c\<lparr>ch_status := status, ch_report := Some conflicts\<rparr>) (fst r), snd r))"

text \<open>The call up to its \<open>await\<close>: an answer, or the checkpoint to publish and the report to store with it.\<close>

datatype decision = Answer "string + apply_result" | Publish changeset checkpoint_input "conflict list"

definition merge_branch ::
    "platform \<Rightarrow> db_run \<Rightarrow> disk \<Rightarrow> apply_input \<Rightarrow> changeset \<Rightarrow> checkpoint \<Rightarrow> checkpoint \<Rightarrow> lineage \<Rightarrow> lineage \<times> decision" where
  "merge_branch pf run d i ch base current s =
     (let policy = (case ai_policy i of Some p \<Rightarrow> p | None \<Rightarrow> snd (get_data_sync_policy (ch_app ch) (Some (ch_origin ch)) s));
          res = stored_resolutions (ch_id ch) s in
      case merge_database pf run i policy res ch base current s of
        Inl e \<Rightarrow> (s, Answer (Inl e))
      | Inr db \<Rightarrow>
          (let found = (case db of None \<Rightarrow> [] | Some r \<Rightarrow> sq_conflicts r);
               db_status = map_option sq_status db in
           if db_status = Some Blocked then
             (let r = hold_changeset pf ch Blocked_changes found s in (fst r, Answer (Inr (Waiting Blocked (snd r)))))
           else (case merge_files pf d i policy res ch base current s of
               Inl e \<Rightarrow> (s, Answer (Inl e))
             | Inr files \<Rightarrow>
                 (let conflicts = found @ (case files of None \<Rightarrow> [] | Some (cs, _) \<Rightarrow> cs);
                      tree = (case files of None \<Rightarrow> None | Some (_, t) \<Rightarrow> t) in
                  if db_status = Some Conflicted \<or> (files \<noteq> None \<and> tree = None) then
                    (let r = hold_changeset pf ch Conflicted_changes conflicts s in (fst r, Answer (Inr (Waiting Conflicted (snd r)))))
                  else (s, Publish ch
                     \<lparr>ki_app = ch_app ch, ki_origin = ai_coordinator i, ki_parent = Some (ai_current i),
                      ki_database = (if db_status = Some Merged then Some (dr_output run) else None), ki_files = tree,
                      ki_schema = (case or_none (ch_schema ch) of Some f \<Rightarrow> Some f | None \<Rightarrow> ck_schema current),
                      ki_profile = ck_profile current, ki_allow_empty = False\<rparr> conflicts)))))"

definition decide_changeset :: "platform \<Rightarrow> db_run \<Rightarrow> disk \<Rightarrow> apply_input \<Rightarrow> lineage \<Rightarrow> lineage \<times> decision" where
  "decide_changeset pf run d i s =
     (case changeset_row (ai_changeset i) s of
        None \<Rightarrow> (s, Answer (Inl ''Changeset not found''))
      | Some ch \<Rightarrow>
          if ch_status ch = Applied_changes \<and> or_none (ch_result ch) \<noteq> None then
            (s, Answer (Inr (Merged_into (the (ch_result ch)))))
          else if ch_status ch = Conflicted_changes then
            (s, Answer (Inr (Waiting Conflicted (map dc_id (open_conflicts (ch_id ch) s)))))
          else if ch_status ch = Blocked_changes then
            (s, Answer (Inr (Waiting Blocked (map dc_id (open_conflicts (ch_id ch) s)))))
          else (case assert_sync_allowed (ch_app ch) (ch_origin ch) True s of
              Some e \<Rightarrow> (s, Answer (Inl e))
            | None \<Rightarrow>
          (case checkpoint_record (ch_base ch) (ch_app ch) s of
              Inl e \<Rightarrow> (s, Answer (Inl e))
            | Inr base \<Rightarrow>
          (case checkpoint_record (ai_current i) (ch_app ch) s of
              Inl e \<Rightarrow> (s, Answer (Inl e))
            | Inr current \<Rightarrow> merge_branch pf run d i ch base current s))))"

definition commit_changeset :: "changeset \<Rightarrow> string \<Rightarrow> conflict list \<Rightarrow> string \<Rightarrow> lineage \<Rightarrow> lineage" where
  "commit_changeset ch coordinator conflicts checkpoint s =
     (let s = update_changeset (ch_id ch)
                (\<lambda>c. if ch_status c = Pending_changes
                     then c\<lparr>ch_status := Applied_changes, ch_report := Some conflicts, ch_result := Some checkpoint\<rparr> else c) s in
      s\<lparr>ln_replicas := map (\<lambda>r. if rl_app r = ch_app ch \<and> (rl_site r = coordinator \<or> rl_site r = ch_origin ch)
                                then r\<lparr>rl_base := Some checkpoint, rl_branch := None, rl_pending := rl_pending r - 1\<rparr> else r)
                          (ln_replicas s)\<rparr>)"

definition apply_data_changeset ::
    "platform \<Rightarrow> db_run \<Rightarrow> disk \<Rightarrow> apply_input \<Rightarrow> lineage \<Rightarrow> lineage \<times> (string + apply_result)" where
  "apply_data_changeset pf run d i s =
     (case decide_changeset pf run d i s of
        (s, Answer a) \<Rightarrow> (s, a)
      | (s, Publish ch ci conflicts) \<Rightarrow>
          (case create_data_checkpoint pf ci s of
             (s, Inl e) \<Rightarrow> (s, Inl e)
           | (s, Inr checkpoint) \<Rightarrow>
               (commit_changeset ch (ai_coordinator i) conflicts checkpoint s, Inr (Merged_into checkpoint))))"

section \<open>Adoption and retention\<close>

definition acknowledge_checkpoint :: "string \<Rightarrow> string \<Rightarrow> string \<Rightarrow> lineage \<Rightarrow> lineage \<times> string option" where
  "acknowledge_checkpoint app site checkpoint s =
     (case checkpoint_record checkpoint app s of
        Inl e \<Rightarrow> (s, Some e)
      | Inr _ \<Rightarrow>
          (let mine = (\<lambda>r. rl_app r = app \<and> rl_site r = site \<and> \<not> rl_removed r);
               n = length (filter mine (ln_replicas s));
               s = s\<lparr>ln_replicas := map (\<lambda>r. if mine r then r\<lparr>rl_base := Some checkpoint, rl_branch := None, rl_pending := 0\<rparr> else r)
                                    (ln_replicas s)\<rparr> in
           if n \<noteq> 1 then (s, Some ''Active application replica not found'')
           else (log_event ''data.checkpoint.adopted'' app s, None)))"

definition site_row :: "string \<Rightarrow> lineage \<Rightarrow> site option" where
  "site_row site s = find (\<lambda>t. si_id t = site) (ln_sites s)"

definition shared_replicas :: "string \<Rightarrow> lineage \<Rightarrow> replica list" where
  "shared_replicas app s =
     filter (\<lambda>r. rl_app r = app \<and> \<not> rl_removed r \<and> rl_shared r
                 \<and> (case site_row (rl_site r) s of Some t \<Rightarrow> \<not> si_revoked t | None \<Rightarrow> False)) (ln_replicas s)"

definition list_checkpoint_retention_blockers :: "string \<Rightarrow> lineage \<Rightarrow> (string \<times> string list) list" where
  "list_checkpoint_retention_blockers app s =
     (let checkpoints = sort_key ck_sequence (filter (\<lambda>c. ck_app c = app) (ln_checkpoints s));
          sequences = fold (\<lambda>c m. jm_set m (ck_id c) (ck_sequence c)) checkpoints [];
          behind = (\<lambda>c r. case or_none (rl_base r) of
                            None \<Rightarrow> True
                          | Some b \<Rightarrow> (case jm_get sequences b of Some n \<Rightarrow> n | None \<Rightarrow> 0) \<le> ck_sequence c) in
      map (\<lambda>c. (ck_id c, map rl_site (filter (behind c) (shared_replicas app s)))) checkpoints)"

section \<open>The coordinator\<close>

definition latest_verified_checkpoint :: "string \<Rightarrow> lineage \<Rightarrow> string option" where
  "latest_verified_checkpoint app s =
     (case sort_key ck_sequence (filter (\<lambda>c. ck_app c = app \<and> ck_verified c) (ln_checkpoints s)) of
        [] \<Rightarrow> None
      | cs \<Rightarrow> Some (ck_id (last cs)))"

definition pending_for_origin :: "string \<Rightarrow> string list option \<Rightarrow> lineage \<Rightarrow> changeset list" where
  "pending_for_origin origin apps s =
     filter (\<lambda>c. ch_origin c = origin \<and> ch_status c = Pending_changes
                 \<and> (case apps of None \<Rightarrow> True | Some as \<Rightarrow> ch_app c \<in> set as)) (ln_changesets s)"

definition home_site :: "lineage \<Rightarrow> string option" where
  "home_site s = map_option si_id (find si_home (ln_sites s))"

definition unresolved_conflict_count :: "string \<Rightarrow> lineage \<Rightarrow> nat" where
  "unresolved_conflict_count app s = length (filter (\<lambda>c. dc_app c = app \<and> dc_open c) (ln_conflicts s))"

definition update_materialization :: "materialization \<Rightarrow> lineage \<Rightarrow> lineage" where
  "update_materialization m s =
     (let same = (\<lambda>x. mz_app x = mz_app m \<and> mz_site x = mz_site m) in
      s\<lparr>ln_materializations := (if list_ex same (ln_materializations s)
          then map (\<lambda>x. if same x then m else x) (ln_materializations s) else ln_materializations s @ [m])\<rparr>)"

record coordinator_result =
  cr_changeset :: string
  cr_status :: string
  cr_checkpoint :: "string option"

text \<open>The part of one iteration after the answer: the result pushed and the materialization stored.\<close>

definition report_apply :: "changeset \<Rightarrow> apply_result \<Rightarrow> lineage \<Rightarrow> lineage \<times> coordinator_result" where
  "report_apply ch r s =
     (let merged = (case r of Merged_into c \<Rightarrow> Some c | Waiting _ _ \<Rightarrow> None);
          blockers = (case r of Merged_into _ \<Rightarrow> []
                      | Waiting _ ids \<Rightarrow> [nat_str (length ids) @ '' reconciliation conflict(s) require resolution'']) in
      (update_materialization \<lparr>mz_app = ch_app ch, mz_site = ch_origin ch, mz_desired = merged, mz_available = merged,
         mz_ready = (merged \<noteq> None), mz_blockers = blockers\<rparr> s,
       \<lparr>cr_changeset = ch_id ch,
        cr_status = (case r of Merged_into _ \<Rightarrow> ''merged'' | Waiting Blocked _ \<Rightarrow> ''blocked'' | Waiting _ _ \<Rightarrow> ''conflicted''),
        cr_checkpoint = merged\<rparr>))"

text \<open>One pass over the pending changesets. The staging root is removed and made anew for each, so every application sees
  the same fresh disk \<open>d\<close>; an error ends the pass, with the results of the changesets before it lost.\<close>

fun apply_pending ::
    "platform \<Rightarrow> (string \<Rightarrow> db_run) \<Rightarrow> disk \<Rightarrow> string list \<Rightarrow> bool \<Rightarrow> changeset list \<Rightarrow> coordinator_result list \<Rightarrow> lineage
      \<Rightarrow> lineage \<times> (string + coordinator_result list)" where
  "apply_pending pf runs d root manual [] results s = (s, Inr results)"
| "apply_pending pf runs d root manual (ch # chs) results s =
     (let policy = get_data_sync_policy (ch_app ch) (Some (ch_origin ch)) s in
      if fst policy = Sync_none \<or> (fst policy = Sync_manual \<and> \<not> manual) then apply_pending pf runs d root manual chs results s
      else (case latest_verified_checkpoint (ch_app ch) s of
          None \<Rightarrow> apply_pending pf runs d root manual chs
                    (results @ [\<lparr>cr_changeset = ch_id ch, cr_status = ''waiting-for-checkpoint'', cr_checkpoint = None\<rparr>]) s
        | Some current \<Rightarrow>
            (case home_site s of
               None \<Rightarrow> (s, Inl ''Home site identity is unavailable for reconciliation'')
             | Some home \<Rightarrow>
                 (case apply_data_changeset pf (runs (ch_id ch)) d
                         \<lparr>ai_changeset = ch_id ch, ai_current = current, ai_coordinator = home,
                          ai_database_path = (or_none (ch_database ch) \<noteq> None),
                          ai_files_path = (if or_none (ch_files ch) \<noteq> None then Some (root @ [''files'']) else None),
                          ai_policy = Some (snd policy)\<rparr> s of
                    (s, Inl e) \<Rightarrow> (s, Inl e)
                  | (s, Inr r) \<Rightarrow>
                      (let p = report_apply ch r s in apply_pending pf runs d root manual chs (results @ [snd p]) (fst p))))))"

definition materialize_home_checkpoint ::
    "(string \<Rightarrow> string \<Rightarrow> lineage \<Rightarrow> lineage \<times> string option) \<Rightarrow> string \<Rightarrow> string \<Rightarrow> lineage \<Rightarrow> lineage \<times> bool" where
  "materialize_home_checkpoint restore app home s =
     (case latest_verified_checkpoint app s of
        None \<Rightarrow> (s, False)
      | Some c \<Rightarrow>
          (let row = \<lparr>mz_app = app, mz_site = home, mz_desired = Some c, mz_available = None, mz_ready = False, mz_blockers = []\<rparr> in
           if 0 < unresolved_conflict_count app s then
             (update_materialization
                (row\<lparr>mz_blockers := [''data conflicts must be resolved before Home adopts a merged checkpoint'']\<rparr>) s, False)
           else (case restore app c s of
               (s, Some e) \<Rightarrow> (update_materialization (row\<lparr>mz_blockers := [e]\<rparr>) s, False)
             | (s, None) \<Rightarrow> (update_materialization (row\<lparr>mz_available := Some c, mz_ready := True\<rparr>) s, True))))"

text \<open>The home branch of every application is captured first; where that throws, its changesets wait.\<close>

fun capture_home ::
    "(string \<Rightarrow> lineage \<Rightarrow> lineage \<times> string option) \<Rightarrow> string \<Rightarrow> changeset list \<Rightarrow> string list \<Rightarrow> lineage
      \<Rightarrow> lineage \<times> string list \<times> coordinator_result list" where
  "capture_home capture home incoming [] s = (s, [], [])"
| "capture_home capture home incoming (app # apps) s =
     (case capture app s of
        (s, None) \<Rightarrow> capture_home capture home incoming apps s
      | (s, Some e) \<Rightarrow>
          (let s = update_materialization \<lparr>mz_app = app, mz_site = home, mz_desired = None, mz_available = None, mz_ready = False,
                     mz_blockers = [''Home branch capture failed: '' @ e]\<rparr> s;
               r = capture_home capture home incoming apps s in
           (fst r, app # fst (snd r),
            map (\<lambda>c. \<lparr>cr_changeset = ch_id c, cr_status = ''waiting-for-home-capture'', cr_checkpoint = None\<rparr>)
              (filter (\<lambda>c. ch_app c = app) incoming) @ snd (snd r))))"

definition eligible :: "bool \<Rightarrow> lineage \<Rightarrow> changeset \<Rightarrow> bool" where
  "eligible manual s ch =
     (case fst (get_data_sync_policy (ch_app ch) (Some (ch_origin ch)) s) of
        Sync_none \<Rightarrow> False | Sync_manual \<Rightarrow> manual | Sync_automatic \<Rightarrow> True)"

text \<open>When home cannot adopt the merged checkpoint, the last result of the application is marked.\<close>

definition mark_blocked :: "string list \<Rightarrow> coordinator_result list \<Rightarrow> coordinator_result list" where
  "mark_blocked mine rs =
     (case filter (\<lambda>k. cr_changeset (rs ! k) \<in> set mine) [0..<length rs] of
        [] \<Rightarrow> rs
      | ks \<Rightarrow> (let k = last ks in
              if cr_status (rs ! k) = ''merged'' then rs[k := (rs ! k)\<lparr>cr_status := ''merged-home-restore-blocked''\<rparr>] else rs))"

fun materialize_apps ::
    "(string \<Rightarrow> string \<Rightarrow> lineage \<Rightarrow> lineage \<times> string option) \<Rightarrow> string \<Rightarrow> changeset list \<Rightarrow> string list \<Rightarrow> coordinator_result list
      \<Rightarrow> lineage \<Rightarrow> lineage \<times> coordinator_result list" where
  "materialize_apps restore home incoming [] rs s = (s, rs)"
| "materialize_apps restore home incoming (app # apps) rs s =
     (let r = materialize_home_checkpoint restore app home s;
          mine = map ch_id (filter (\<lambda>c. ch_app c = app) incoming) in
      materialize_apps restore home incoming apps (if snd r then rs else mark_blocked mine rs) (fst r))"

definition reconcile_pending_changesets ::
    "platform \<Rightarrow> (string \<Rightarrow> db_run) \<Rightarrow> disk \<Rightarrow> string list \<Rightarrow> (string \<Rightarrow> lineage \<Rightarrow> lineage \<times> string option)
      \<Rightarrow> (string \<Rightarrow> string \<Rightarrow> lineage \<Rightarrow> lineage \<times> string option) \<Rightarrow> string \<Rightarrow> bool \<Rightarrow> string list option \<Rightarrow> lineage
      \<Rightarrow> lineage \<times> (string + coordinator_result list)" where
  "reconcile_pending_changesets pf runs d root capture restore origin manual apps s =
     (case home_site s of
        None \<Rightarrow> (s, Inl ''Home site identity is unavailable for reconciliation'')
      | Some home \<Rightarrow>
          (let incoming = filter (eligible manual s) (pending_for_origin origin apps s);
               names = uniq (map ch_app incoming);
               captured = (if origin \<noteq> home then capture_home capture home incoming names s else (s, [], []));
               admissible = filter (\<lambda>a. a \<notin> set (fst (snd captured))) names in
           case apply_pending pf runs d root manual (filter (\<lambda>c. ch_app c \<in> set admissible) incoming) [] (fst captured) of
             (s, Inl e) \<Rightarrow> (s, Inl e)
           | (s, Inr applied) \<Rightarrow>
               (case (if origin \<noteq> home \<and> admissible \<noteq> []
                      then apply_pending pf runs d root True (pending_for_origin home (Some admissible) s) [] s
                      else (s, Inr [])) of
                  (s, Inl e) \<Rightarrow> (s, Inl e)
                | (s, Inr own) \<Rightarrow>
                    (let r = materialize_apps restore home incoming admissible (snd (snd captured) @ applied @ own) s in
                     (fst r, Inr (snd r))))))"


text \<open>Resolving a conflict from the user interface: when it was the last one of its changeset, the pass for the site of
  the changeset runs at once. The flag says whether conflicts of the application remain.\<close>

definition resolve_and_materialize ::
    "platform \<Rightarrow> (string \<Rightarrow> db_run) \<Rightarrow> disk \<Rightarrow> string list \<Rightarrow> (string \<Rightarrow> lineage \<Rightarrow> lineage \<times> string option)
      \<Rightarrow> (string \<Rightarrow> string \<Rightarrow> lineage \<Rightarrow> lineage \<times> string option) \<Rightarrow> string \<Rightarrow> requested_resolution \<Rightarrow> lineage
      \<Rightarrow> lineage \<times> (string + bool \<times> coordinator_result list)" where
  "resolve_and_materialize pf runs d root capture restore ident request s =
     (case resolve_data_conflict ident request s of
        (s, Inl e) \<Rightarrow> (s, Inl e)
      | (s, Inr r) \<Rightarrow>
          (case (rs_ready r, or_none (rs_origin r)) of
             (True, Some origin) \<Rightarrow>
               (case reconcile_pending_changesets pf runs d root capture restore origin True None s of
                  (s, Inl e) \<Rightarrow> (s, Inl e)
                | (s, Inr results) \<Rightarrow> (s, Inr (0 < unresolved_conflict_count (rs_app r) s, results)))
           | _ \<Rightarrow> (s, Inr (True, []))))"

fun reconcile_origins ::
    "(string \<Rightarrow> lineage \<Rightarrow> lineage \<times> (string + coordinator_result list)) \<Rightarrow> string list \<Rightarrow> lineage \<Rightarrow> lineage \<times> string option" where
  "reconcile_origins pass [] s = (s, None)"
| "reconcile_origins pass (origin # origins) s =
     (case pass origin s of
        (s, Inl e) \<Rightarrow> (s, Some e)
      | (s, Inr _) \<Rightarrow> reconcile_origins pass origins s)"

definition reconcile_all_automatic ::
    "platform \<Rightarrow> (string \<Rightarrow> db_run) \<Rightarrow> disk \<Rightarrow> string list \<Rightarrow> (string \<Rightarrow> lineage \<Rightarrow> lineage \<times> string option)
      \<Rightarrow> (string \<Rightarrow> string \<Rightarrow> lineage \<Rightarrow> lineage \<times> string option) \<Rightarrow> lineage \<Rightarrow> lineage \<times> string option" where
  "reconcile_all_automatic pf runs d root capture restore s =
     (case home_site s of
        None \<Rightarrow> (s, None)
      | Some home \<Rightarrow>
          (let origins = uniq (map ch_origin (filter (\<lambda>c. ch_status c = Pending_changes) (ln_changesets s))) in
           case reconcile_origins (\<lambda>origin s. reconcile_pending_changesets pf runs d root capture restore origin False None s) origins s of
             (s, Some e) \<Rightarrow> (s, Some e)
           | (s, None) \<Rightarrow>
               (let apps = map rl_app (filter (\<lambda>r. rl_site r = home \<and> rl_replicated r \<and> rl_shared r \<and> \<not> rl_removed r) (ln_replicas s)) in
                (fold (\<lambda>app s. fst (materialize_home_checkpoint restore app home s)) apps s, None))))"

end
