(* ===== verification/DataLineageFacts.thy ===== *)
theory DataLineageFacts
  imports DataApply Simulation SqliteMergeFacts
begin

text \<open>
  What every operation of the data lineage keeps: a changeset waits exactly while conflicts of it are open, a blocked
  one has a conflict that no resolution settles, an applied one names a verified checkpoint.
\<close>

section \<open>Which tables an operation touches\<close>

definition core :: "lineage \<Rightarrow> changeset list \<times> data_conflict list \<times> checkpoint list \<times> nat" where
  "core s = (ln_changesets s, ln_conflicts s, ln_checkpoints s, ln_tokens s)"

lemma core_log [simp]: "core (log_event op app s) = core s"
  by (simp add: core_def log_event_def)

lemma core_put [simp]: "core (put_bytes pf bytes s) = core s"
  by (simp add: core_def put_bytes_def)

lemma core_replicas [simp]: "core (s\<lparr>ln_replicas := rs\<rparr>) = core s"
  by (simp add: core_def)

lemma core_artifacts [simp]: "core (s\<lparr>ln_artifacts := a\<rparr>) = core s"
  by (simp add: core_def)

lemma core_policy: "core (set_data_sync_policy app site p c risks by s) = core s"
  by (simp add: set_data_sync_policy_def Let_def core_def log_event_def)

lemma core_acknowledge: "core (fst (acknowledge_checkpoint app site k s)) = core s"
  by (simp add: acknowledge_checkpoint_def Let_def split: sum.split)

lemma core_fields:
  "core s = core t \<Longrightarrow> ln_changesets s = ln_changesets t"
  "core s = core t \<Longrightarrow> ln_conflicts s = ln_conflicts t"
  "core s = core t \<Longrightarrow> ln_checkpoints s = ln_checkpoints t"
  "core s = core t \<Longrightarrow> ln_tokens s = ln_tokens t"
  by (simp_all add: core_def)

lemma save_checkpoint_core:
  "\<exists>row. ck_id row = snd (save_checkpoint pf i n db m s) \<and> ck_verified row \<and> ck_app row = ki_app i \<and> ck_sequence row = n
     \<and> ck_database row = db \<and> ck_files row = map_option (\<lambda>v. bytes_digest pf (text_of (pf_ck pf) v)) m
     \<and> ck_parent row = or_none (ki_parent i)
     \<and> core (fst (save_checkpoint pf i n db m s)) =
         (ln_changesets s, ln_conflicts s, ln_checkpoints s @ [row], ln_tokens s + 1)"
  by (auto simp: save_checkpoint_def Let_def core_def log_event_def put_bytes_def option.map_comp comp_def split: option.split)

lemma save_checkpoint_id:
  "snd (save_checkpoint pf i n db m s) = sortable_id pf ''checkpoint'' (ln_tokens s)"
  by (auto simp: save_checkpoint_def Let_def put_bytes_def split: option.split)

text \<open>A checkpoint is one new verified row, or an error and no row.\<close>

lemma create_checkpoint_core:
  assumes "create_data_checkpoint pf i s = (t, r)"
  shows "(\<exists>e. r = Inl e \<and> core t = core s)
    \<or> (\<exists>row. r = Inr (ck_id row) \<and> ck_id row = sortable_id pf ''checkpoint'' (ln_tokens s) \<and> ck_verified row
        \<and> ck_app row = ki_app i \<and> ck_sequence row = next_sequence (ki_app i) s
        \<and> ck_database row = map_option (bytes_digest pf) (ki_database i) \<and> (ck_files row = None \<longleftrightarrow> ki_files i = None)
        \<and> ck_parent row = or_none (ki_parent i)
        \<and> core t = (ln_changesets s, ln_conflicts s, ln_checkpoints s @ [row], ln_tokens s + 1))"
proof -
  define s' where "s' = (case ki_database i of None \<Rightarrow> s | Some bytes \<Rightarrow> put_bytes pf bytes s)"
  have s': "core s' = core s" by (simp add: s'_def split: option.split)
  note f = core_fields [OF s']
  let ?n = "next_sequence (ki_app i) s" and ?d = "map_option (bytes_digest pf) (ki_database i)"
  show ?thesis
  proof (cases "ki_database i = None \<and> ki_files i = None \<and> \<not> ki_allow_empty i")
    case True
    then have "t = s" "r = Inl ''A checkpoint requires a database or file snapshot''"
      using assms by (simp_all add: create_data_checkpoint_def)
    then show ?thesis by blast
  next
    case go: False
    have cr: "create_data_checkpoint pf i s = (case ki_files i of
        None \<Rightarrow> (let r = save_checkpoint pf i ?n ?d None s' in (fst r, Inr (snd r)))
      | Some tree \<Rightarrow> (case create_file_manifest_async (pf_sha pf) (pf_ck pf) (ln_artifacts s') tree of
          Inl e \<Rightarrow> (s', Inl e)
        | Inr (manifest, store) \<Rightarrow>
            (let r = save_checkpoint pf i ?n ?d (Some manifest) (s'\<lparr>ln_artifacts := store\<rparr>) in (fst r, Inr (snd r)))))"
      unfolding create_data_checkpoint_def s'_def Let_def by (rule if_not_P [OF go])
    show ?thesis
    proof (cases "ki_files i")
      case None
      then have tr: "t = fst (save_checkpoint pf i ?n ?d None s')" "r = Inr (snd (save_checkpoint pf i ?n ?d None s'))"
        using assms by (auto simp: cr Let_def)
      show ?thesis
        using save_checkpoint_core [of pf i ?n ?d None s'] save_checkpoint_id [of pf i ?n ?d None s'] None unfolding tr f by auto
    next
      case (Some tree)
      show ?thesis
      proof (cases "create_file_manifest_async (pf_sha pf) (pf_ck pf) (ln_artifacts s') tree")
        case (Inl e)
        then have "t = s'" "r = Inl e"
          using assms Some by (auto simp: cr)
        then show ?thesis using s' by simp
      next
        case (Inr p)
        let ?s = "s'\<lparr>ln_artifacts := snd p\<rparr>"
        have tr: "t = fst (save_checkpoint pf i ?n ?d (Some (fst p)) ?s)" "r = Inr (snd (save_checkpoint pf i ?n ?d (Some (fst p)) ?s))"
          using assms Some Inr by (auto simp: cr Let_def split_beta)
        have g: "ln_changesets ?s = ln_changesets s" "ln_conflicts ?s = ln_conflicts s" "ln_checkpoints ?s = ln_checkpoints s"
          "ln_tokens ?s = ln_tokens s" using f by simp_all
        show ?thesis
          using save_checkpoint_core [of pf i ?n ?d "Some (fst p)" ?s] save_checkpoint_id [of pf i ?n ?d "Some (fst p)" ?s] Some
          unfolding tr g by auto
      qed
    qed
  qed
qed

lemma create_checkpoint_cases:
  assumes "create_data_checkpoint pf i s = (t, r)"
  obtains (failed) e where "r = Inl e" "core t = core s"
  | (created) row where "r = Inr (ck_id row)" "ck_id row = sortable_id pf ''checkpoint'' (ln_tokens s)" "ck_verified row"
      "ck_app row = ki_app i" "ck_sequence row = next_sequence (ki_app i) s"
      "ck_database row = map_option (bytes_digest pf) (ki_database i)" "ck_files row = None \<longleftrightarrow> ki_files i = None"
      "ck_parent row = or_none (ki_parent i)"
      "core t = (ln_changesets s, ln_conflicts s, ln_checkpoints s @ [row], ln_tokens s + 1)"
  using create_checkpoint_core [OF assms]
proof (elim disjE exE conjE)
  fix e assume "r = Inl e" "core t = core s"
  then show thesis by (rule failed)
next
  fix row assume "r = Inr (ck_id row)" "ck_id row = sortable_id pf ''checkpoint'' (ln_tokens s)" "ck_verified row"
      "ck_app row = ki_app i" "ck_sequence row = next_sequence (ki_app i) s"
      "ck_database row = map_option (bytes_digest pf) (ki_database i)" "ck_files row = None \<longleftrightarrow> ki_files i = None"
      "ck_parent row = or_none (ki_parent i)"
      "core t = (ln_changesets s, ln_conflicts s, ln_checkpoints s @ [row], ln_tokens s + 1)"
  then show thesis by (rule created)
qed

lemma create_changeset_core:
  assumes "create_data_changeset pf run i s = (t, r)"
  shows "(\<exists>e. r = Inl e \<and> core t = core s)
    \<or> (\<exists>row. r = Inr (ch_id row) \<and> ch_id row = sortable_id pf ''changeset'' (ln_tokens s) \<and> ch_status row = Pending_changes
        \<and> ch_result row = None
        \<and> core t = (ln_changesets s @ [row], ln_conflicts s, ln_checkpoints s, ln_tokens s + 1))"
proof -
  have save: "\<exists>row. ch_id row = snd (save_changeset pf i c m s') \<and> ch_id row = sortable_id pf ''changeset'' (ln_tokens s)
      \<and> ch_status row = Pending_changes \<and> ch_result row = None
      \<and> core (fst (save_changeset pf i c m s')) = (ln_changesets s @ [row], ln_conflicts s, ln_checkpoints s, ln_tokens s + 1)"
    if "core s' = core s" for c m s'
    using core_fields [OF that]
    by (auto simp: save_changeset_def Let_def core_def log_event_def put_bytes_def split: option.split)
  have put: "core (case c of None \<Rightarrow> s | Some (bytes, _) \<Rightarrow> put_bytes pf bytes s) = core s" for c :: "(string \<times> string) option"
    by (simp add: split_beta split: option.split)
  show ?thesis
  proof (cases "r")
    case (Inl e)
    then show ?thesis
      using assms put
      by (auto simp: create_data_changeset_def Let_def split: option.splits if_splits sum.splits prod.splits)
  next
    case (Inr b)
    have "\<exists>c m s'. core s' = core s \<and> fst (save_changeset pf i c m s') = t \<and> snd (save_changeset pf i c m s') = b"
      using assms Inr
      by (simp add: create_data_changeset_def Let_def split: option.split_asm if_split_asm sum.split_asm prod.split_asm)
        (metis core_artifacts core_put)+
    then obtain c m s' where s': "core s' = core s" "t = fst (save_changeset pf i c m s')" "b = snd (save_changeset pf i c m s')" by blast
    show ?thesis using save [OF s'(1), of c m] unfolding Inr s'(2,3) by auto
  qed
qed


fun conflict_rows :: "platform \<Rightarrow> string \<Rightarrow> string option \<Rightarrow> conflict list \<Rightarrow> nat \<Rightarrow> data_conflict list" where
  "conflict_rows pf app h [] n = []"
| "conflict_rows pf app h (c # cs) n =
     \<lparr>dc_id = sortable_id pf ''conflict'' n, dc_app = app, dc_changeset = h, dc_kind = cf_kind c, dc_address = cf_address c,
      dc_base = cf_base c, dc_home = cf_home c, dc_suitcase = cf_suitcase c, dc_resolution = None, dc_open = True\<rparr>
     # conflict_rows pf app h cs (n + 1)"

lemma record_conflicts_core:
  "core (fst (record_reconciliation_conflicts pf app h cs s))
     = (ln_changesets s, ln_conflicts s @ conflict_rows pf app h cs (ln_tokens s), ln_checkpoints s, ln_tokens s + length cs)
   \<and> snd (record_reconciliation_conflicts pf app h cs s) = map dc_id (conflict_rows pf app h cs (ln_tokens s))"
  by (induction cs arbitrary: s) (simp_all add: Let_def core_def)

lemma conflict_rows_shape:
  "d \<in> set (conflict_rows pf app h cs n) \<Longrightarrow>
     dc_app d = app \<and> dc_changeset d = h \<and> dc_open d \<and> dc_resolution d = None
     \<and> (\<exists>k. n \<le> k \<and> k < n + length cs \<and> dc_id d = sortable_id pf ''conflict'' k)"
proof (induction cs arbitrary: n)
  case (Cons c cs)
  consider "dc_id d = sortable_id pf ''conflict'' n" "dc_app d = app" "dc_changeset d = h" "dc_open d" "dc_resolution d = None"
    | "d \<in> set (conflict_rows pf app h cs (n + 1))" using Cons.prems by auto
  then show ?case
  proof cases
    case 1
    then show ?thesis by (intro conjI exI [of _ n]) simp_all
  next
    case 2
    from Cons.IH [OF 2] show ?thesis by (auto intro: Suc_leD)
  qed
qed simp

lemma conflict_rows_kinds: "map dc_kind (conflict_rows pf app h cs n) = map cf_kind cs"
  by (induction cs arbitrary: n) simp_all

lemma length_conflict_rows [simp]: "length (conflict_rows pf app h cs n) = length cs"
  by (induction cs arbitrary: n) simp_all

lemma sortable_id_eq: "inj (pf_token pf) \<Longrightarrow> sortable_id pf kind j = sortable_id pf kind k \<longleftrightarrow> j = k"
  by (auto simp: sortable_id_def dest: injD)

lemma conflict_rows_distinct:
  assumes "inj (pf_token pf)"
  shows "distinct (map dc_id (conflict_rows pf app h cs n))"
proof (induction cs arbitrary: n)
  case (Cons c cs)
  have "sortable_id pf ''conflict'' n \<notin> dc_id ` set (conflict_rows pf app h cs (n + 1))"
  proof
    assume "sortable_id pf ''conflict'' n \<in> dc_id ` set (conflict_rows pf app h cs (n + 1))"
    then obtain d where "d \<in> set (conflict_rows pf app h cs (n + 1))" "dc_id d = sortable_id pf ''conflict'' n" by auto
    with conflict_rows_shape [of d pf app h cs "n + 1"] assms show False by (auto simp: sortable_id_eq)
  qed
  then show ?case using Cons.IH [of "n + 1"] by simp
qed simp

section \<open>What a changeset, its conflicts and its checkpoint have to do with each other\<close>

definition waits :: "changeset \<Rightarrow> bool" where
  "waits c \<longleftrightarrow> ch_status c = Conflicted_changes \<or> ch_status c = Blocked_changes"

definition final_kind :: "conflict_kind \<Rightarrow> bool" where
  "final_kind k \<longleftrightarrow> k = Schema_conflict \<or> k = Validation_conflict"

definition ids_ok :: "platform \<Rightarrow> changeset list \<Rightarrow> data_conflict list \<Rightarrow> nat \<Rightarrow> bool" where
  "ids_ok pf H C n \<longleftrightarrow> distinct (map ch_id H) \<and> distinct (map dc_id C)
     \<and> ch_id ` set H \<subseteq> sortable_id pf ''changeset'' ` {..<n}
     \<and> dc_id ` set C \<subseteq> sortable_id pf ''conflict'' ` {..<n}
     \<and> (\<forall>d \<in> set C. \<forall>h. dc_changeset d = Some h \<longrightarrow> h \<in> set (map ch_id H))"

definition waiting_ok :: "changeset list \<Rightarrow> data_conflict list \<Rightarrow> bool" where
  "waiting_ok H C \<longleftrightarrow> (\<forall>c \<in> set H.
     (waits c \<longleftrightarrow> (\<exists>d \<in> set C. dc_changeset d = Some (ch_id c) \<and> dc_open d))
     \<and> (ch_status c = Blocked_changes \<longrightarrow> (\<exists>d \<in> set C. dc_changeset d = Some (ch_id c) \<and> dc_open d \<and> final_kind (dc_kind d))))"

definition applied_ok :: "changeset list \<Rightarrow> checkpoint list \<Rightarrow> bool" where
  "applied_ok H K \<longleftrightarrow> (\<forall>c \<in> set H. (ch_status c = Applied_changes \<longleftrightarrow> ch_result c \<noteq> None)
     \<and> (\<forall>r. ch_result c = Some r \<longrightarrow> r \<noteq> [] \<and> (\<exists>k \<in> set K. ck_id k = r \<and> ck_verified k)))"

definition checkpoints_ok :: "platform \<Rightarrow> checkpoint list \<Rightarrow> nat \<Rightarrow> bool" where
  "checkpoints_ok pf K n \<longleftrightarrow> distinct (map ck_id K) \<and> ck_id ` set K \<subseteq> sortable_id pf ''checkpoint'' ` {..<n}"

definition tables_ok :: "platform \<Rightarrow> changeset list \<times> data_conflict list \<times> checkpoint list \<times> nat \<Rightarrow> bool" where
  "tables_ok pf t = (case t of (H, C, K, n) \<Rightarrow> ids_ok pf H C n \<and> waiting_ok H C \<and> applied_ok H K \<and> checkpoints_ok pf K n)"

lemma ids_ok_mono:
  assumes "ids_ok pf H C n" "n \<le> m"
  shows "ids_ok pf H C m"
proof -
  have sub: "sortable_id pf kind ` {..<n} \<subseteq> sortable_id pf kind ` {..<m}" for kind using assms(2) by auto
  show ?thesis using assms(1) unfolding ids_ok_def
    by (elim conjE) (intro conjI; (assumption | erule order_trans [OF _ sub]))
qed

lemma checkpoints_ok_mono: "checkpoints_ok pf K n \<Longrightarrow> n \<le> m \<Longrightarrow> checkpoints_ok pf K m"
  by (auto simp: checkpoints_ok_def intro: order_trans)

lemma tables_ok_checkpoint:
  assumes "tables_ok pf (H, C, K, n)" "inj (pf_token pf)" "ck_id k = sortable_id pf ''checkpoint'' n"
  shows "tables_ok pf (H, C, K @ [k], n + 1)"
proof -
  have K: "distinct (map ck_id K)" "ck_id ` set K \<subseteq> sortable_id pf ''checkpoint'' ` {..<n}"
    using assms(1) by (auto simp: tables_ok_def checkpoints_ok_def)
  have "ck_id k \<notin> ck_id ` set K"
  proof
    assume "ck_id k \<in> ck_id ` set K"
    with K(2) have "sortable_id pf ''checkpoint'' n \<in> sortable_id pf ''checkpoint'' ` {..<n}" unfolding assms(3) by (rule subsetD)
    then show False using sortable_id_eq [OF assms(2)] by auto
  qed
  moreover have "sortable_id pf ''checkpoint'' ` {..<n} \<subseteq> sortable_id pf ''checkpoint'' ` {..<n + 1}" by auto
  ultimately have "checkpoints_ok pf (K @ [k]) (n + 1)"
    using K assms(3) by (auto simp: checkpoints_ok_def)
  then show ?thesis using assms(1) by (auto simp: tables_ok_def applied_ok_def intro: ids_ok_mono)
qed

lemma tables_ok_changeset:
  assumes ok: "tables_ok pf (H, C, K, n)" and inj: "inj (pf_token pf)"
    and row: "ch_id c = sortable_id pf ''changeset'' n" "ch_status c = Pending_changes" "ch_result c = None"
  shows "tables_ok pf (H @ [c], C, K, n + 1)"
proof -
  have ids: "ids_ok pf H C n" and wait: "waiting_ok H C" and app: "applied_ok H K" and cks: "checkpoints_ok pf K n" using ok by (auto simp: tables_ok_def)
  have fresh: "ch_id c \<notin> ch_id ` set H"
  proof
    assume "ch_id c \<in> ch_id ` set H"
    moreover have "ch_id ` set H \<subseteq> sortable_id pf ''changeset'' ` {..<n}" using ids by (simp add: ids_ok_def)
    ultimately have "sortable_id pf ''changeset'' n \<in> sortable_id pf ''changeset'' ` {..<n}" unfolding row(1) by (rule rev_subsetD)
    then show False using sortable_id_eq [OF inj] by auto
  qed
  have "dc_changeset d \<noteq> Some (ch_id c)" if "d \<in> set C" for d using ids fresh that by (auto simp: ids_ok_def)
  then have "waiting_ok (H @ [c]) C" using wait row(2) by (simp add: waiting_ok_def waits_def)
  moreover have "ids_ok pf (H @ [c]) C (n + 1)"
    using ids_ok_mono [OF ids, of "n + 1"] fresh row(1) by (simp add: ids_ok_def)
  moreover have "applied_ok (H @ [c]) K" using app row(2,3) by (simp add: applied_ok_def)
  ultimately show ?thesis using cks checkpoints_ok_mono by (auto simp: tables_ok_def)
qed


lemma updated_row:
  assumes "distinct (map ch_id H)" "ch \<in> set H" "x \<in> set (map (\<lambda>c. if ch_id c = ch_id ch then f c else c) H)"
  shows "x = f ch \<or> (x \<in> set H \<and> ch_id x \<noteq> ch_id ch)"
proof -
  obtain c where c: "c \<in> set H" "x = (if ch_id c = ch_id ch then f c else c)" using assms(3) by auto
  show ?thesis
  proof (cases "ch_id c = ch_id ch")
    case True
    then have "c = ch" using assms(1,2) c(1) by (auto simp: distinct_map dest: inj_onD)
    then show ?thesis using c(2) by simp
  qed (use c in simp)
qed

lemma updated_ids: "(\<And>c. ch_id (f c) = ch_id c) \<Longrightarrow> map ch_id (map (\<lambda>c. if ch_id c = h then f c else c) H) = map ch_id H"
  by (induction H) auto

lemma ids_ok_same:
  assumes "ids_ok pf H C n" "map ch_id H' = map ch_id H" "map dc_id C' = map dc_id C" "map dc_changeset C' = map dc_changeset C"
  shows "ids_ok pf H' C' n"
proof -
  have im: "ch_id ` set H' = ch_id ` set H" "dc_id ` set C' = dc_id ` set C" "dc_changeset ` set C' = dc_changeset ` set C"
    using assms(2-) by (metis list.set_map)+
  have "\<forall>d \<in> set C'. \<forall>h. dc_changeset d = Some h \<longrightarrow> h \<in> ch_id ` set H"
  proof (intro ballI allI impI)
    fix d h assume d: "d \<in> set C'" "dc_changeset d = Some h"
    then have "Some h \<in> dc_changeset ` set C" using im(3) by (metis imageI)
    then obtain d' where "d' \<in> set C" "dc_changeset d' = Some h" by auto
    then show "h \<in> ch_id ` set H" using assms(1) by (simp add: ids_ok_def)
  qed
  then show ?thesis using assms im unfolding ids_ok_def by simp
qed

lemma tables_ok_hold:
  assumes ok: "tables_ok pf (H, C, K, n)" and inj: "inj (pf_token pf)" and ch: "ch \<in> set H" "ch_status ch = Pending_changes"
    and cs: "cs \<noteq> []" and st: "st = Conflicted_changes \<or> (st = Blocked_changes \<and> (\<exists>c \<in> set cs. final_kind (cf_kind c)))"
  shows "tables_ok pf (map (\<lambda>c. if ch_id c = ch_id ch then c\<lparr>ch_status := st, ch_report := rep\<rparr> else c) H,
           C @ conflict_rows pf app (Some (ch_id ch)) cs n, K, n + length cs)"
proof -
  let ?f = "\<lambda>c. c\<lparr>ch_status := st, ch_report := rep\<rparr>"
  let ?H = "map (\<lambda>c. if ch_id c = ch_id ch then ?f c else c) H" and ?N = "conflict_rows pf app (Some (ch_id ch)) cs n"
  have ids: "ids_ok pf H C n" and wait: "waiting_ok H C" and app: "applied_ok H K" and cks: "checkpoints_ok pf K n" using ok by (auto simp: tables_ok_def)
  have dist: "distinct (map ch_id H)" using ids by (simp add: ids_ok_def)
  note upd = updated_row [OF dist ch(1), of _ ?f]
  have N: "dc_changeset d = Some (ch_id ch)" "dc_open d" if "d \<in> set ?N" for d using conflict_rows_shape [OF that] by simp_all
  have ne: "?N \<noteq> []" using cs by (cases cs) simp_all
  have final: "\<exists>d \<in> set ?N. final_kind (dc_kind d)" if "\<exists>c \<in> set cs. final_kind (cf_kind c)"
  proof -
    have "dc_kind ` set ?N = cf_kind ` set cs" using conflict_rows_kinds [of pf app "Some (ch_id ch)" cs n] by (metis list.set_map)
    then show ?thesis using that by (metis imageE imageI)
  qed
  have "waiting_ok ?H (C @ ?N)"
    unfolding waiting_ok_def
  proof
    fix x assume "x \<in> set ?H"
    from upd [OF this] show "(waits x \<longleftrightarrow> (\<exists>d \<in> set (C @ ?N). dc_changeset d = Some (ch_id x) \<and> dc_open d))
       \<and> (ch_status x = Blocked_changes \<longrightarrow> (\<exists>d \<in> set (C @ ?N). dc_changeset d = Some (ch_id x) \<and> dc_open d \<and> final_kind (dc_kind d)))"
    proof
      assume x: "x = ?f ch"
      have w: "waits x" "ch_id x = ch_id ch" "ch_status x = st" using st x by (auto simp: waits_def)
      obtain d where "d \<in> set ?N" using ne by (meson last_in_set)
      then have "\<exists>d \<in> set (C @ ?N). dc_changeset d = Some (ch_id x) \<and> dc_open d" using N w(2) by auto
      moreover have "\<exists>d \<in> set (C @ ?N). dc_changeset d = Some (ch_id x) \<and> dc_open d \<and> final_kind (dc_kind d)" if "st = Blocked_changes"
        using final that st N w(2) by (metis Un_iff changeset_status.distinct(11) set_append)
      ultimately show ?thesis using w by blast
    next
      assume x: "x \<in> set H \<and> ch_id x \<noteq> ch_id ch"
      then have "dc_changeset d \<noteq> Some (ch_id x)" if "d \<in> set ?N" for d using N(1) [OF that] by (metis option.inject)
      then have same: "(\<exists>d \<in> set (C @ ?N). dc_changeset d = Some (ch_id x) \<and> P d) \<longleftrightarrow> (\<exists>d \<in> set C. dc_changeset d = Some (ch_id x) \<and> P d)" for P by auto
      show ?thesis unfolding same using wait x unfolding waiting_ok_def by blast
    qed
  qed
  moreover have "applied_ok ?H K"
    unfolding applied_ok_def
  proof
    fix x assume "x \<in> set ?H"
    from upd [OF this] show "(ch_status x = Applied_changes \<longleftrightarrow> ch_result x \<noteq> None)
       \<and> (\<forall>r. ch_result x = Some r \<longrightarrow> r \<noteq> [] \<and> (\<exists>k \<in> set K. ck_id k = r \<and> ck_verified k))"
    proof
      assume x: "x = ?f ch"
      have "ch_result ch = None" using app ch unfolding applied_ok_def by force
      then show ?thesis using st x by auto
    next
      assume "x \<in> set H \<and> ch_id x \<noteq> ch_id ch"
      then show ?thesis using app unfolding applied_ok_def by blast
    qed
  qed
  moreover have "ids_ok pf H (C @ ?N) (n + length cs)"
  proof -
    have old: "ids_ok pf H C (n + length cs)" using ids_ok_mono [OF ids] by simp
    have new: "dc_id ` set ?N \<subseteq> sortable_id pf ''conflict'' ` {n..<n + length cs}"
      using conflict_rows_shape by fastforce
    have "dc_id ` set C \<inter> dc_id ` set ?N = {}"
    proof -
      have "dc_id ` set C \<subseteq> sortable_id pf ''conflict'' ` {..<n}" using ids by (simp add: ids_ok_def)
      moreover have "sortable_id pf ''conflict'' ` {..<n} \<inter> sortable_id pf ''conflict'' ` {n..<n + length cs} = {}"
        using sortable_id_eq [OF inj] by auto
      ultimately show ?thesis using new by blast
    qed
    moreover have "dc_id ` set ?N \<subseteq> sortable_id pf ''conflict'' ` {..<n + length cs}" using new by auto
    moreover have "ch_id ch \<in> ch_id ` set H" using ch(1) by simp
    ultimately show ?thesis
      using old conflict_rows_distinct [OF inj, of app "Some (ch_id ch)" cs n] N(1) unfolding ids_ok_def by (auto intro!: imageI ch(1))
  qed
  then have "ids_ok pf ?H (C @ ?N) (n + length cs)"
    by (rule ids_ok_same) (simp_all add: updated_ids del: map_map)
  ultimately show ?thesis using cks checkpoints_ok_mono by (auto simp: tables_ok_def)
qed

lemma tables_ok_commit:
  assumes ok: "tables_ok pf (H, C, K, n)" and k: "k \<in> set K" "ck_verified k" "ck_id k \<noteq> []"
  shows "tables_ok pf (map (\<lambda>c. if ch_id c = h then if ch_status c = Pending_changes
            then c\<lparr>ch_status := Applied_changes, ch_report := rep, ch_result := Some (ck_id k)\<rparr> else c else c) H, C, K, n)"
    (is "tables_ok pf (?H, C, K, n)")
proof -
  have ids: "ids_ok pf H C n" and wait: "waiting_ok H C" and app: "applied_ok H K" and cks: "checkpoints_ok pf K n" using ok by (auto simp: tables_ok_def)
  have row: "x \<in> set H \<or> (\<exists>c \<in> set H. ch_status c = Pending_changes
      \<and> x = c\<lparr>ch_status := Applied_changes, ch_report := rep, ch_result := Some (ck_id k)\<rparr>)" if "x \<in> set ?H" for x
    using that by (auto split: if_splits)
  have w: "(waits x \<longleftrightarrow> (\<exists>d \<in> set C. dc_changeset d = Some (ch_id x) \<and> dc_open d))
       \<and> (ch_status x = Blocked_changes \<longrightarrow> (\<exists>d \<in> set C. dc_changeset d = Some (ch_id x) \<and> dc_open d \<and> final_kind (dc_kind d)))"
    if "x \<in> set ?H" for x
    using row [OF that]
  proof
    assume "x \<in> set H"
    then show ?thesis using wait unfolding waiting_ok_def by blast
  next
    assume "\<exists>c \<in> set H. ch_status c = Pending_changes \<and> x = c\<lparr>ch_status := Applied_changes, ch_report := rep, ch_result := Some (ck_id k)\<rparr>"
    then obtain c where c: "c \<in> set H" "ch_status c = Pending_changes"
      "x = c\<lparr>ch_status := Applied_changes, ch_report := rep, ch_result := Some (ck_id k)\<rparr>" by blast
    have "\<not> waits c" using c(2) by (simp add: waits_def)
    then have "\<not> (\<exists>d \<in> set C. dc_changeset d = Some (ch_id c) \<and> dc_open d)" using wait c(1) unfolding waiting_ok_def by blast
    then show ?thesis using c(3) by (simp add: waits_def)
  qed
  have "waiting_ok ?H C" unfolding waiting_ok_def using w by blast
  moreover have "applied_ok ?H K"
    unfolding applied_ok_def
  proof
    fix x assume "x \<in> set ?H"
    from row [OF this] show "(ch_status x = Applied_changes \<longleftrightarrow> ch_result x \<noteq> None)
       \<and> (\<forall>r. ch_result x = Some r \<longrightarrow> r \<noteq> [] \<and> (\<exists>k \<in> set K. ck_id k = r \<and> ck_verified k))"
    proof
      assume "x \<in> set H"
      then show ?thesis using app unfolding applied_ok_def by blast
    next
      assume "\<exists>c \<in> set H. ch_status c = Pending_changes \<and> x = c\<lparr>ch_status := Applied_changes, ch_report := rep, ch_result := Some (ck_id k)\<rparr>"
      then have "ch_status x = Applied_changes" "ch_result x = Some (ck_id k)" by auto
      then show ?thesis using k by auto
    qed
  qed
  moreover have "ids_ok pf ?H C n"
    by (rule ids_ok_same [OF ids]) (simp_all add: comp_def cong: map_cong if_cong)
  ultimately show ?thesis using cks checkpoints_ok_mono by (auto simp: tables_ok_def)
qed


lemma settle_fields [simp]:
  "dc_id (settle ident r d) = dc_id d" "dc_changeset (settle ident r d) = dc_changeset d" "dc_kind (settle ident r d) = dc_kind d"
  "dc_app (settle ident r d) = dc_app d" "dc_open (settle ident r d) \<longleftrightarrow> dc_open d \<and> dc_id d \<noteq> ident"
  by (auto simp: settle_def)

lemma resolve_core:
  assumes "resolve_data_conflict ident request s = (t, r)"
  shows "(\<exists>e. r = Inl e \<and> t = s)
    \<or> (\<exists>c q. c \<in> set (ln_conflicts s) \<and> dc_id c = ident \<and> dc_open c \<and> \<not> final_kind (dc_kind c)
        \<and> (let C = map (settle ident q) (ln_conflicts s) in
           core t = ((case dc_changeset c of None \<Rightarrow> ln_changesets s
             | Some h \<Rightarrow> if filter (\<lambda>d. dc_changeset d = Some h \<and> dc_open d) C = []
                         then map (\<lambda>x. if ch_id x = h then reopen x else x) (ln_changesets s) else ln_changesets s),
             C, ln_checkpoints s, ln_tokens s)))"
proof (cases request)
  case (Choose q)
  show ?thesis
  proof (cases "find (\<lambda>c. dc_id c = ident \<and> dc_open c) (ln_conflicts s)")
    case None
    then show ?thesis using assms Choose by (auto simp: resolve_data_conflict_def)
  next
    case (Some c)
    then have c: "c \<in> set (ln_conflicts s)" "dc_id c = ident" "dc_open c" by (auto simp: find_Some_iff)
    consider "dc_kind c = Schema_conflict \<or> dc_kind c = Validation_conflict"
      | "\<not> (dc_kind c = Schema_conflict \<or> dc_kind c = Validation_conflict)" "q = Keep_both \<and> dc_kind c \<noteq> File_path"
      | (go) "\<not> (dc_kind c = Schema_conflict \<or> dc_kind c = Validation_conflict)" "\<not> (q = Keep_both \<and> dc_kind c \<noteq> File_path)" by blast
    then show ?thesis
    proof cases
      case go
      define q' where "q' = stored_resolution ((case dc_changeset c of None \<Rightarrow> None | Some h \<Rightarrow> map_option ch_origin (changeset_row h s)) = Some (ln_local_site s)) q"
      have t: "t = fst (settle_conflict c q s)" using assms Choose Some go by (simp add: resolve_data_conflict_def Let_def)
      have "core t = ((case dc_changeset c of None \<Rightarrow> ln_changesets s
             | Some h \<Rightarrow> if filter (\<lambda>d. dc_changeset d = Some h \<and> dc_open d) (map (settle ident q') (ln_conflicts s)) = []
                         then map (\<lambda>x. if ch_id x = h then reopen x else x) (ln_changesets s) else ln_changesets s),
             map (settle ident q') (ln_conflicts s), ln_checkpoints s, ln_tokens s)"
        unfolding t settle_conflict_def Let_def fst_conv core_log q'_def [symmetric] c(2)
        by (cases "dc_changeset c") (simp_all add: core_def update_changeset_def open_conflicts_def)
      then show ?thesis using c go(1) unfolding Let_def final_kind_def by blast
    qed (use assms Choose Some in \<open>auto simp: resolve_data_conflict_def\<close>)
  qed
qed (use assms in \<open>auto simp: resolve_data_conflict_def\<close>)

lemma tables_ok_resolve:
  assumes ok: "tables_ok pf (H, C, K, n)"
    and c: "c \<in> set C" "dc_id c = ident" "dc_open c" "\<not> final_kind (dc_kind c)"
  shows "tables_ok pf ((case dc_changeset c of None \<Rightarrow> H
             | Some h \<Rightarrow> if filter (\<lambda>d. dc_changeset d = Some h \<and> dc_open d) (map (settle ident q) C) = []
                         then map (\<lambda>x. if ch_id x = h then reopen x else x) H else H), map (settle ident q) C, K, n)"
proof -
  let ?C = "map (settle ident q) C"
  define over where "over h \<longleftrightarrow> dc_changeset c = Some h \<and> filter (\<lambda>d. dc_changeset d = Some h \<and> dc_open d) ?C = []" for h
  let ?H = "map (\<lambda>x. if over (ch_id x) then reopen x else x) H"
  have ids: "ids_ok pf H C n" and wait: "waiting_ok H C" and app: "applied_ok H K" and cks: "checkpoints_ok pf K n" using ok by (auto simp: tables_ok_def)
  have only: "d = c" if "d \<in> set C" "dc_id d = ident" for d
    using ids c(1,2) that by (auto simp: ids_ok_def distinct_map dest: inj_onD)
  have keep: "(\<exists>d \<in> set ?C. dc_changeset d = Some h \<and> dc_open d) \<longleftrightarrow> (\<exists>d \<in> set C. dc_changeset d = Some h \<and> dc_open d \<and> d \<noteq> c)" for h
    using only c(2) by auto
  have keep_final: "\<exists>d \<in> set ?C. dc_changeset d = Some h \<and> dc_open d \<and> final_kind (dc_kind d)"
    if f: "\<exists>d \<in> set C. dc_changeset d = Some h \<and> dc_open d \<and> final_kind (dc_kind d)" for h
  proof -
    from f obtain d where d: "d \<in> set C" "dc_changeset d = Some h" "dc_open d" "final_kind (dc_kind d)" by blast
    then have "dc_id d \<noteq> ident" using only c(4) by blast
    then show ?thesis using d by (intro bexI [of _ "settle ident q d"]) auto
  qed
  have over_iff: "over h \<longleftrightarrow> dc_changeset c = Some h \<and> \<not> (\<exists>d \<in> set ?C. dc_changeset d = Some h \<and> dc_open d)" for h
    by (auto simp: over_def filter_empty_conv)
  have w: "(waits x \<longleftrightarrow> (\<exists>d \<in> set ?C. dc_changeset d = Some (ch_id x) \<and> dc_open d))
       \<and> (ch_status x = Blocked_changes \<longrightarrow> (\<exists>d \<in> set ?C. dc_changeset d = Some (ch_id x) \<and> dc_open d \<and> final_kind (dc_kind d)))"
    if x: "x \<in> set ?H" for x
  proof -
    from x obtain y where y: "y \<in> set H" "x = (if over (ch_id y) then reopen y else y)" by auto
    have id: "ch_id x = ch_id y" using y(2) by (simp add: reopen_def)
    have old: "waits y \<longleftrightarrow> (\<exists>d \<in> set C. dc_changeset d = Some (ch_id y) \<and> dc_open d)"
      "ch_status y = Blocked_changes \<Longrightarrow> \<exists>d \<in> set C. dc_changeset d = Some (ch_id y) \<and> dc_open d \<and> final_kind (dc_kind d)"
      using wait y(1) unfolding waiting_ok_def by blast+
    show ?thesis
    proof (cases "over (ch_id y)")
      case True
      then have "\<not> waits x" using y(2) by (auto simp: reopen_def waits_def)
      moreover have "ch_status x \<noteq> Blocked_changes" using calculation by (simp add: waits_def)
      ultimately show ?thesis using True unfolding over_iff id by blast
    next
      case False
      then have xy: "x = y" using y(2) by simp
      have "(\<exists>d \<in> set C. dc_changeset d = Some (ch_id y) \<and> dc_open d)
          \<longleftrightarrow> (\<exists>d \<in> set ?C. dc_changeset d = Some (ch_id y) \<and> dc_open d)"
      proof (cases "dc_changeset c = Some (ch_id y)")
        case True
        then show ?thesis using False c(1,3) unfolding over_iff by blast
      next
        case other: False
        then show ?thesis unfolding keep by blast
      qed
      then show ?thesis using old keep_final unfolding xy by blast
    qed
  qed
  have "waiting_ok ?H ?C" unfolding waiting_ok_def using w by blast
  moreover have "applied_ok ?H K"
    using app unfolding applied_ok_def by (auto simp: reopen_def)
  moreover have "ids_ok pf ?H ?C n"
    by (rule ids_ok_same [OF ids]) (simp_all add: comp_def reopen_def cong: map_cong if_cong)
  moreover have "(case dc_changeset c of None \<Rightarrow> H
             | Some h \<Rightarrow> if filter (\<lambda>d. dc_changeset d = Some h \<and> dc_open d) ?C = []
                         then map (\<lambda>x. if ch_id x = h then reopen x else x) H else H) = ?H"
  proof (cases "dc_changeset c")
    case (Some h)
    show ?thesis
    proof (cases "over h")
      case True
      then have "over k \<longleftrightarrow> k = h" for k using Some by (auto simp: over_def)
      then show ?thesis using True Some by (simp add: over_def)
    next
      case False
      then have "\<not> over k" for k using Some by (auto simp: over_def)
      then have "?H = H" by simp
      then show ?thesis using False Some by (simp add: over_def)
    qed
  qed (simp add: over_def)
  ultimately show ?thesis using cks by (simp only: tables_ok_def prod.case simp_thms)
qed


section \<open>What a merge that does not succeed reports\<close>

lemma length_bounds_fold:
  assumes "\<And>k m. f (step k m) \<le> f m + (length (g (step k m)) - length (g m)) \<and> length (g m) \<le> length (g (step k m))"
    and "f m \<le> length (g m)"
  shows "f (fold step ks m) \<le> length (g (fold step ks m))"
  using assms(2)
proof (induction ks arbitrary: m)
  case (Cons k ks)
  have "f (step k m) \<le> length (g (step k m))" using assms(1) [of k m] Cons.prems by linarith
  then show ?case using Cons.IH by simp
qed simp

lemma merge_row_counts:
  "rm_unresolved (merge_row ck policy res t b h s k m)
     \<le> rm_unresolved m + (length (rm_conflicts (merge_row ck policy res t b h s k m)) - length (rm_conflicts m))
   \<and> length (rm_conflicts m) \<le> length (rm_conflicts (merge_row ck policy res t b h s k m))"
  by (simp add: merge_row_def Let_def)

lemma merge_path_counts:
  "fg_unresolved (merge_path ck site policy res b h s k m)
     \<le> fg_unresolved m + (length (fg_conflicts (merge_path ck site policy res b h s k m)) - length (fg_conflicts m))
   \<and> length (fg_conflicts m) \<le> length (fg_conflicts (merge_path ck site policy res b h s k m))"
  by (simp add: merge_path_def Let_def)

lemma merge_entries_counts:
  "fg_unresolved (merge_entries ck site policy res b h s) \<le> length (fg_conflicts (merge_entries ck site policy res b h s))"
  unfolding merge_entries_def
  by (rule length_bounds_fold [where step = "merge_path ck site policy res b h s", OF merge_path_counts]) simp

lemma unmerged_files_conflict:
  assumes "\<not> fr_merged (reconcile_file_manifests sha ck b h s site policy res)"
  shows "fr_conflicts (reconcile_file_manifests sha ck b h s site policy res) \<noteq> []"
proof -
  define m where "m = merge_entries ck site (case policy of Some p \<Rightarrow> p | None \<Rightarrow> Collect) res
    (manifest_entries (case b of Some b \<Rightarrow> b | None \<Rightarrow> empty_file_manifest sha ck)) (manifest_entries h) (manifest_entries s)"
  have r: "fr_merged (reconcile_file_manifests sha ck b h s site policy res) \<longleftrightarrow> fg_unresolved m = 0"
    "fr_conflicts (reconcile_file_manifests sha ck b h s site policy res) = fg_conflicts m"
    by (simp_all add: reconcile_file_manifests_def Let_def m_def)
  have "fg_unresolved m \<le> length (fg_conflicts m)" unfolding m_def by (rule merge_entries_counts)
  then show ?thesis using assms unfolding r by auto
qed

lemma merge_table_counts: "rm_unresolved (merge_table ck policy res t b h s) \<le> length (rm_conflicts (merge_table ck policy res t b h s))"
  unfolding merge_table_def by (rule length_bounds_fold [where step = "merge_row ck policy res t b h s", OF merge_row_counts]) simp

lemma stage_merge_shape:
  "sq_status (stage_merge sha ck sg session base home merged cs) \<noteq> Conflicted
   \<and> (sq_status (stage_merge sha ck sg session base home merged cs) = Blocked
      \<longrightarrow> (\<exists>c \<in> set (sq_conflicts (stage_merge sha ck sg session base home merged cs)). final_kind (cf_kind c)))"
  by (auto simp: stage_merge_def Let_def final_kind_def validation_def split: sum.splits prod.splits if_splits)

lemma reconcile_sqlite_shape:
  assumes "r = reconcile_sqlite_databases sha ck sg session policy res bf hf sf"
  shows "(sq_status r = Blocked \<longrightarrow> (\<exists>c \<in> set (sq_conflicts r). final_kind (cf_kind c)))
    \<and> (sq_status r = Conflicted \<longrightarrow> sq_conflicts r \<noteq> [])"
proof -
  have sum: "0 < sum_list (map (\<lambda>(t, m). rm_unresolved m) ms) \<Longrightarrow> concat (map (\<lambda>(t, m). rm_conflicts m) ms) \<noteq> []"
    if "\<forall>(t, m) \<in> set ms. rm_unresolved m \<le> length (rm_conflicts m)" for ms :: "(string \<times> row_merge) list"
    using that by (induction ms) auto
  have tables: "\<forall>(t, m) \<in> set (merge_tables ck p res base home suitcase). rm_unresolved m \<le> length (rm_conflicts m)" for p base home suitcase
    using merge_table_counts by (auto simp: merge_tables_def)
  let ?read = "case read_sqlite_state sha ck bf of Inl e \<Rightarrow> Inl e | Inr base \<Rightarrow>
            (case read_sqlite_state sha ck hf of Inl e \<Rightarrow> Inl e | Inr home \<Rightarrow>
             (case read_sqlite_state sha ck sf of Inl e \<Rightarrow> Inl e | Inr suitcase \<Rightarrow> Inr (base, home, suitcase)))"
  show ?thesis
  proof (cases ?read)
    case (Inl e)
    then have "r = \<lparr>sq_status = Blocked, sq_fingerprint = None, sq_conflicts = [validation ''database'' Null Null Null e]\<rparr>"
      unfolding assms reconcile_sqlite_databases_def by simp
    then show ?thesis by (simp add: validation_def final_kind_def)
  next
    case (Inr p)
    obtain base home suitcase where p: "p = (base, home, suitcase)" by (cases p) auto
    define ms where "ms = merge_tables ck (case policy of Some p \<Rightarrow> p | None \<Rightarrow> Collect) res base home suitcase"
    show ?thesis
    proof (cases "ss_fingerprint base \<noteq> ss_fingerprint home \<or> ss_fingerprint base \<noteq> ss_fingerprint suitcase")
      case True
      then show ?thesis using Inr p unfolding assms reconcile_sqlite_databases_def by (simp add: final_kind_def)
    next
      case same: False
      have r: "r = (if 0 < sum_list (map (\<lambda>(t, m). rm_unresolved m) ms) then
               \<lparr>sq_status = Conflicted, sq_fingerprint = Some (ss_fingerprint base), sq_conflicts = concat (map (\<lambda>(t, m). rm_conflicts m) ms)\<rparr>
             else stage_merge sha ck sg session base home (map (\<lambda>(t, m). (t, rm_rows m)) ms) (concat (map (\<lambda>(t, m). rm_conflicts m) ms)))"
        unfolding assms reconcile_sqlite_databases_def Inr p sum.case prod.case Let_def ms_def using same by (simp only: if_False)
      show ?thesis
      proof (cases "0 < sum_list (map (\<lambda>(t, m). rm_unresolved m) ms)")
        case True
        then have "concat (map (\<lambda>(t, m). rm_conflicts m) ms) \<noteq> []" using sum tables unfolding ms_def by blast
        then show ?thesis unfolding r if_P [OF True] by simp
      next
        case False
        show ?thesis unfolding r if_not_P [OF False] using stage_merge_shape by blast
      qed
    qed
  qed
qed

lemma merge_database_shape:
  assumes "merge_database pf run i policy res ch base current s = Inr (Some r)"
  shows "(sq_status r = Blocked \<longrightarrow> (\<exists>c \<in> set (sq_conflicts r). final_kind (cf_kind c)))
    \<and> (sq_status r = Conflicted \<longrightarrow> sq_conflicts r \<noteq> [])"
proof -
  have "(\<exists>e. r = \<lparr>sq_status = Blocked, sq_fingerprint = None, sq_conflicts = [validation ''sqlite-changeset'' Null Null Null e]\<rparr>)
    \<or> (\<exists>sg session p bf hf sf. r = reconcile_sqlite_databases (pf_sha pf) (pf_ck pf) sg session p res bf hf sf)"
    using assms unfolding merge_database_def
    by (simp split: sum.split_asm option.split_asm prod.split_asm bool.split_asm) blast+
  then show ?thesis using reconcile_sqlite_shape by (auto simp: validation_def final_kind_def)
qed

lemma merge_files_shape:
  assumes "merge_files pf d i policy res ch base current s = Inr (Some (cs, None))"
  shows "cs \<noteq> []"
  using assms unmerged_files_conflict unfolding merge_files_def Let_def
  by (auto split: sum.split_asm option.split_asm prod.split_asm if_split_asm)


section \<open>The steps of an application\<close>

text \<open>A merge either leaves the tables alone, holds the changeset with conflicts of the right kind, or publishes what
  both parts merged into.\<close>

lemma merge_branch_cases:
  assumes "merge_branch pf run d i ch base current s = (t, a)"
  obtains (failed) e where "t = s" "a = Answer (Inl e)"
  | (held) st cs m where "t = fst (hold_changeset pf ch st cs s)"
      "a = Answer (Inr (Waiting m (snd (hold_changeset pf ch st cs s))))" "m \<noteq> Merged" "cs \<noteq> []"
      "st = Conflicted_changes \<or> (st = Blocked_changes \<and> (\<exists>c \<in> set cs. final_kind (cf_kind c)))"
  | (published) policy db files where "t = s"
      "policy = (case ai_policy i of Some p \<Rightarrow> p | None \<Rightarrow> snd (get_data_sync_policy (ch_app ch) (Some (ch_origin ch)) s))"
      "merge_database pf run i policy (stored_resolutions (ch_id ch) s) ch base current s = Inr db"
      "merge_files pf d i policy (stored_resolutions (ch_id ch) s) ch base current s = Inr files"
      "case db of None \<Rightarrow> True | Some r \<Rightarrow> sq_status r = Merged"
      "case files of None \<Rightarrow> True | Some (cs, tree) \<Rightarrow> tree \<noteq> None"
      "a = Publish ch \<lparr>ki_app = ch_app ch, ki_origin = ai_coordinator i, ki_parent = Some (ai_current i),
         ki_database = (if db \<noteq> None then Some (dr_output run) else None),
         ki_files = (case files of None \<Rightarrow> None | Some (_, tree) \<Rightarrow> tree),
         ki_schema = (case or_none (ch_schema ch) of Some f \<Rightarrow> Some f | None \<Rightarrow> ck_schema current),
         ki_profile = ck_profile current, ki_allow_empty = False\<rparr>
        ((case db of None \<Rightarrow> [] | Some r \<Rightarrow> sq_conflicts r) @ (case files of None \<Rightarrow> [] | Some (cs, _) \<Rightarrow> cs))"
proof -
  define policy where "policy = (case ai_policy i of Some p \<Rightarrow> p | None \<Rightarrow> snd (get_data_sync_policy (ch_app ch) (Some (ch_origin ch)) s))"
  define res where "res = stored_resolutions (ch_id ch) s"
  note def = merge_branch_def [of pf run d i ch base current s, folded policy_def res_def, unfolded Let_def]
  show thesis
  proof (cases "merge_database pf run i policy res ch base current s")
    case (Inl e)
    then show thesis using assms failed unfolding def by auto
  next
    case db: (Inr db)
    show thesis
    proof (cases "map_option sq_status db = Some Blocked")
      case True
      then obtain r where r: "db = Some r" "sq_status r = Blocked" by auto
      from merge_database_shape [OF db [unfolded r(1)]] r(2) obtain c where "c \<in> set (sq_conflicts r)" "final_kind (cf_kind c)" by blast
      moreover have "t = fst (hold_changeset pf ch Blocked_changes (sq_conflicts r) s)"
        "a = Answer (Inr (Waiting Blocked (snd (hold_changeset pf ch Blocked_changes (sq_conflicts r) s))))"
        using assms r unfolding def db by simp_all
      ultimately show thesis by (intro held [of Blocked_changes "sq_conflicts r" Blocked]) auto
    next
      case open_db: False
      show thesis
      proof (cases "merge_files pf d i policy res ch base current s")
        case (Inl e)
        show thesis using assms failed unfolding def db sum.case if_not_P [OF open_db] Inl by auto
      next
        case files: (Inr files)
        let ?cs = "(case db of None \<Rightarrow> [] | Some r \<Rightarrow> sq_conflicts r) @ (case files of None \<Rightarrow> [] | Some (cs, _) \<Rightarrow> cs)"
        let ?tree = "case files of None \<Rightarrow> None | Some (_, t) \<Rightarrow> t"
        show thesis
        proof (cases "map_option sq_status db = Some Conflicted \<or> (files \<noteq> None \<and> ?tree = None)")
          case True
          have "?cs \<noteq> []"
          proof (cases "map_option sq_status db = Some Conflicted")
            case True
            then obtain r where r: "db = Some r" "sq_status r = Conflicted" by auto
            then show ?thesis using merge_database_shape [OF db [unfolded r(1)]] by simp
          next
            case False
            then obtain cs where "files = Some (cs, None)" using True by (cases files) auto
            then show ?thesis using merge_files_shape files by fastforce
          qed
          moreover have "t = fst (hold_changeset pf ch Conflicted_changes ?cs s)"
            "a = Answer (Inr (Waiting Conflicted (snd (hold_changeset pf ch Conflicted_changes ?cs s))))"
            using assms unfolding def db files sum.case if_not_P [OF open_db] if_P [OF True] by simp_all
          ultimately show thesis by (intro held [of Conflicted_changes ?cs Conflicted]) auto
        next
          case False
          have st: "case db of None \<Rightarrow> True | Some r \<Rightarrow> sq_status r = Merged"
            using open_db False by (cases db) (auto intro: merge_status.exhaust)
          then have m: "map_option sq_status db = Some Merged \<longleftrightarrow> db \<noteq> None" by (cases db) auto
          have "t = s" and a: "a = Publish ch \<lparr>ki_app = ch_app ch, ki_origin = ai_coordinator i, ki_parent = Some (ai_current i),
             ki_database = (if map_option sq_status db = Some Merged then Some (dr_output run) else None), ki_files = ?tree,
             ki_schema = (case or_none (ch_schema ch) of Some f \<Rightarrow> Some f | None \<Rightarrow> ck_schema current),
             ki_profile = ck_profile current, ki_allow_empty = False\<rparr> ?cs"
            using assms unfolding def db files sum.case if_not_P [OF open_db] if_not_P [OF False] by simp_all
          then show thesis
            using published [OF \<open>t = s\<close> policy_def db [unfolded res_def] files [unfolded res_def] st] False a [unfolded m]
            by (auto split: option.splits prod.splits)
        qed
      qed
    qed
  qed
qed

lemma hold_core:
  "core (fst (hold_changeset pf ch st cs s)) =
     (map (\<lambda>c. if ch_id c = ch_id ch then c\<lparr>ch_status := st, ch_report := Some cs\<rparr> else c) (ln_changesets s),
      ln_conflicts s @ conflict_rows pf (ch_app ch) (Some (ch_id ch)) cs (ln_tokens s), ln_checkpoints s, ln_tokens s + length cs)"
  using record_conflicts_core [of pf "ch_app ch" "Some (ch_id ch)" cs s]
  by (simp add: hold_changeset_def Let_def update_changeset_def core_def)

lemma decide_cases:
  assumes "decide_changeset pf run d i s = (t, a)"
  obtains (answered) r where "t = s" "a = Answer r"
  | (merging) ch base current where "changeset_row (ai_changeset i) s = Some ch"
      "ch_status ch = Pending_changes \<or> ch_status ch = Applied_changes \<and> or_none (ch_result ch) = None"
      "assert_sync_allowed (ch_app ch) (ch_origin ch) True s = None"
      "checkpoint_record (ch_base ch) (ch_app ch) s = Inr base" "checkpoint_record (ai_current i) (ch_app ch) s = Inr current"
      "merge_branch pf run d i ch base current s = (t, a)"
proof (cases "changeset_row (ai_changeset i) s")
  case None
  then show thesis using assms answered by (auto simp: decide_changeset_def)
next
  case (Some ch)
  show thesis
  proof (cases "ch_status ch = Applied_changes \<and> or_none (ch_result ch) \<noteq> None \<or> ch_status ch = Conflicted_changes \<or> ch_status ch = Blocked_changes")
    case True
    then show thesis using assms answered Some by (auto simp: decide_changeset_def split: if_splits)
  next
    case False
    then have st: "ch_status ch = Pending_changes \<or> ch_status ch = Applied_changes \<and> or_none (ch_result ch) = None"
      by (cases "ch_status ch") auto
    have eq: "decide_changeset pf run d i s = (case assert_sync_allowed (ch_app ch) (ch_origin ch) True s of
              Some e \<Rightarrow> (s, Answer (Inl e))
            | None \<Rightarrow>
          (case checkpoint_record (ch_base ch) (ch_app ch) s of
              Inl e \<Rightarrow> (s, Answer (Inl e))
            | Inr base \<Rightarrow>
          (case checkpoint_record (ai_current i) (ch_app ch) s of
              Inl e \<Rightarrow> (s, Answer (Inl e))
            | Inr current \<Rightarrow> merge_branch pf run d i ch base current s)))"
      unfolding decide_changeset_def Some option.case
      using False by (subst if_not_P, blast)+ (rule refl)
    show thesis
      using assms merging [OF Some st] answered unfolding eq
      by (simp split: option.split_asm sum.split_asm) blast+
  qed
qed


section \<open>Histories\<close>

text \<open>\<open>Decide\<close> and \<open>Finish\<close> are the two halves of \<open>applyDataChangeset\<close> around its await, so that histories contain every
  interleaving of calls; \<open>Finish\<close> carries what the first half decided.\<close>

datatype lineage_op =
    Set_policy string "string option" sync_policy "conflict_policy option" "string list" string
  | Create_checkpoint checkpoint_input
  | Create_changeset session_run changeset_input
  | Decide db_run disk apply_input
  | Finish changeset checkpoint_input string "conflict list"
  | Resolve string requested_resolution
  | Acknowledge string string string

fun lineage_step :: "platform \<Rightarrow> lineage_op \<Rightarrow> lineage \<Rightarrow> lineage \<times> unit" where
  "lineage_step pf (Set_policy app site p c risks by) s = (set_data_sync_policy app site p c risks by s, ())"
| "lineage_step pf (Create_checkpoint i) s = (fst (create_data_checkpoint pf i s), ())"
| "lineage_step pf (Create_changeset run i) s = (fst (create_data_changeset pf run i s), ())"
| "lineage_step pf (Decide run d i) s = (fst (decide_changeset pf run d i s), ())"
| "lineage_step pf (Finish ch i coordinator conflicts) s =
     (case create_data_checkpoint pf i s of
        (s, Inl _) \<Rightarrow> (s, ())
      | (s, Inr checkpoint) \<Rightarrow> (commit_changeset ch coordinator conflicts checkpoint s, ()))"
| "lineage_step pf (Resolve ident request) s = (fst (resolve_data_conflict ident request s), ())"
| "lineage_step pf (Acknowledge app site checkpoint) s = (fst (acknowledge_checkpoint app site checkpoint s), ())"

lemma commit_core:
  "core (commit_changeset ch coordinator rep k s) =
     (map (\<lambda>c. if ch_id c = ch_id ch then if ch_status c = Pending_changes
            then c\<lparr>ch_status := Applied_changes, ch_report := Some rep, ch_result := Some k\<rparr> else c else c) (ln_changesets s),
      ln_conflicts s, ln_checkpoints s, ln_tokens s)"
  by (simp add: commit_changeset_def Let_def update_changeset_def core_def)

lemma lineage_step_ok:
  assumes ok: "tables_ok pf (core s)" and inj: "inj (pf_token pf)"
  shows "tables_ok pf (core (fst (lineage_step pf x s)))"
proof -
  have ok': "tables_ok pf (ln_changesets s, ln_conflicts s, ln_checkpoints s, ln_tokens s)" using ok by (simp add: core_def)
  show ?thesis
  proof (cases x)
    case (Create_checkpoint i)
    obtain t r where tr: "create_data_checkpoint pf i s = (t, r)" by fastforce
    show ?thesis using create_checkpoint_core [OF tr] tables_ok_checkpoint [OF ok' inj] ok Create_checkpoint tr by auto
  next
    case (Create_changeset run i)
    obtain t r where tr: "create_data_changeset pf run i s = (t, r)" by fastforce
    show ?thesis using create_changeset_core [OF tr] tables_ok_changeset [OF ok' inj] ok Create_changeset tr by auto
  next
    case (Decide run d i)
    obtain t a where ta: "decide_changeset pf run d i s = (t, a)" by fastforce
    have "tables_ok pf (core t)"
      using ta
    proof (cases rule: decide_cases)
      case (merging ch base current)
      have row: "ch \<in> set (ln_changesets s)" using merging(1) by (auto simp: changeset_row_def find_Some_iff)
      have "applied_ok (ln_changesets s) (ln_checkpoints s)" using ok' by (simp add: tables_ok_def)
      then have pending: "ch_status ch = Pending_changes"
        using merging(2) row by (auto simp: applied_ok_def or_none_def split: if_splits)
      show ?thesis
        using merging(6)
      proof (cases rule: merge_branch_cases)
        case (held st cs m)
        show ?thesis unfolding held(1) hold_core by (rule tables_ok_hold [OF ok' inj row pending held(4,5)])
      qed (use ok in simp_all)
    qed (use ok in simp)
    then show ?thesis using Decide ta by simp
  next
    case (Finish ch i coordinator rep)
    obtain t r where tr: "create_data_checkpoint pf i s = (t, r)" by fastforce
    show ?thesis
    proof (cases r)
      case (Inl e)
      then show ?thesis using create_checkpoint_core [OF tr] ok Finish tr by auto
    next
      case (Inr k)
      with create_checkpoint_core [OF tr] obtain row where row: "k = ck_id row" "ck_id row = sortable_id pf ''checkpoint'' (ln_tokens s)"
        "ck_verified row" and t: "core t = (ln_changesets s, ln_conflicts s, ln_checkpoints s @ [row], ln_tokens s + 1)" by auto
      have "tables_ok pf (core t)" unfolding t by (rule tables_ok_checkpoint [OF ok' inj row(2)])
      then have "tables_ok pf (ln_changesets t, ln_conflicts t, ln_checkpoints t, ln_tokens t)" by (simp add: core_def)
      moreover have "row \<in> set (ln_checkpoints t)" using t by (simp add: core_def)
      ultimately have "tables_ok pf (core (commit_changeset ch coordinator rep k t))"
        unfolding commit_core row(1) using row(2,3) by (intro tables_ok_commit) (auto simp: sortable_id_def)
      then show ?thesis using Finish tr Inr by simp
    qed
  next
    case (Resolve ident request)
    obtain t r where tr: "resolve_data_conflict ident request s = (t, r)" by fastforce
    from resolve_core [OF tr] have "tables_ok pf (core t)"
    proof
      assume "\<exists>c q. c \<in> set (ln_conflicts s) \<and> dc_id c = ident \<and> dc_open c \<and> \<not> final_kind (dc_kind c)
        \<and> (let C = map (settle ident q) (ln_conflicts s) in
           core t = ((case dc_changeset c of None \<Rightarrow> ln_changesets s
             | Some h \<Rightarrow> if filter (\<lambda>d. dc_changeset d = Some h \<and> dc_open d) C = []
                         then map (\<lambda>x. if ch_id x = h then reopen x else x) (ln_changesets s) else ln_changesets s),
             C, ln_checkpoints s, ln_tokens s))"
      then obtain c q where c: "c \<in> set (ln_conflicts s)" "dc_id c = ident" "dc_open c" "\<not> final_kind (dc_kind c)"
        and t: "core t = ((case dc_changeset c of None \<Rightarrow> ln_changesets s
             | Some h \<Rightarrow> if filter (\<lambda>d. dc_changeset d = Some h \<and> dc_open d) (map (settle ident q) (ln_conflicts s)) = []
                         then map (\<lambda>x. if ch_id x = h then reopen x else x) (ln_changesets s) else ln_changesets s),
             map (settle ident q) (ln_conflicts s), ln_checkpoints s, ln_tokens s)" by (auto simp: Let_def)
      show ?thesis unfolding t by (rule tables_ok_resolve [OF ok' c])
    qed (use ok in auto)
    then show ?thesis using Resolve tr by simp
  qed (use ok in \<open>simp_all add: core_policy core_acknowledge\<close>)
qed

text \<open>The locale asks for a step that keeps the invariant for every admissible operation; here all are.\<close>

definition coherent :: "platform \<Rightarrow> lineage \<Rightarrow> bool" where
  "coherent pf s \<longleftrightarrow> tables_ok pf (core s) \<and> inj (pf_token pf)"

interpretation lineage_invariant: invariant "coherent pf" "\<lambda>_. True" "lineage_step pf" for pf
  by unfold_locales (simp add: coherent_def lineage_step_ok)

lemma coherent_start:
  "inj (pf_token pf) \<Longrightarrow> ln_changesets s = [] \<Longrightarrow> ln_conflicts s = [] \<Longrightarrow> ln_checkpoints s = [] \<Longrightarrow> coherent pf s"
  by (simp add: coherent_def core_def tables_ok_def ids_ok_def waiting_ok_def applied_ok_def checkpoints_ok_def)


lemma coherent_run: "coherent pf s \<Longrightarrow> coherent pf (fst (run_ops (lineage_step pf) xs s))"
  by (rule lineage_invariant.preserved) (simp_all add: list_all_iff)

lemma coherent_parts:
  assumes "coherent pf s"
  shows "tables_ok pf (core s)" "inj (pf_token pf)" "ids_ok pf (ln_changesets s) (ln_conflicts s) (ln_tokens s)"
    "waiting_ok (ln_changesets s) (ln_conflicts s)" "applied_ok (ln_changesets s) (ln_checkpoints s)"
    "checkpoints_ok pf (ln_checkpoints s) (ln_tokens s)"
  using assms by (auto simp: coherent_def tables_ok_def core_def)

section \<open>What no operation takes back\<close>

text \<open>A property of states kept by every step from coherent states is kept by every history.\<close>

lemma run_keeps:
  assumes "coherent pf s" "P s" and step: "\<And>x s. coherent pf s \<Longrightarrow> P s \<Longrightarrow> P (fst (lineage_step pf x s))"
  shows "P (fst (run_ops (lineage_step pf) xs s))"
  using assms(1,2)
proof (induction xs arbitrary: s)
  case (Cons x xs)
  have "coherent pf (fst (lineage_step pf x s))" using Cons.prems(1) lineage_step_ok by (simp add: coherent_def)
  then show ?case using Cons.IH [OF _ step [OF Cons.prems]] by (simp add: Let_def)
qed simp

text \<open>How one step changes the four tables, as seen by a changeset that has been applied and by an open conflict
  that cannot be resolved.\<close>

lemma step_core:
  assumes "coherent pf s"
  obtains (same) "core (fst (lineage_step pf x s)) = core s"
  | (checkpoint) row where "core (fst (lineage_step pf x s)) = (ln_changesets s, ln_conflicts s, ln_checkpoints s @ [row], ln_tokens s + 1)"
  | (changeset) row where "core (fst (lineage_step pf x s)) = (ln_changesets s @ [row], ln_conflicts s, ln_checkpoints s, ln_tokens s + 1)"
  | (hold) ch st cs where "ch \<in> set (ln_changesets s)" "ch_status ch = Pending_changes"
      "core (fst (lineage_step pf x s)) =
        (map (\<lambda>c. if ch_id c = ch_id ch then c\<lparr>ch_status := st, ch_report := Some cs\<rparr> else c) (ln_changesets s),
         ln_conflicts s @ conflict_rows pf (ch_app ch) (Some (ch_id ch)) cs (ln_tokens s), ln_checkpoints s, ln_tokens s + length cs)"
  | (commit) h rep k row where "core (fst (lineage_step pf x s)) =
        (map (\<lambda>c. if ch_id c = h then if ch_status c = Pending_changes
            then c\<lparr>ch_status := Applied_changes, ch_report := Some rep, ch_result := Some k\<rparr> else c else c) (ln_changesets s),
         ln_conflicts s, ln_checkpoints s @ [row], ln_tokens s + 1)"
  | (resolve) f c q where "core (fst (lineage_step pf x s)) = (map f (ln_changesets s), map (settle (dc_id c) q) (ln_conflicts s), ln_checkpoints s, ln_tokens s)"
      "\<And>c. f c = c \<or> f c = reopen c" "c \<in> set (ln_conflicts s)" "\<not> final_kind (dc_kind c)"
proof (cases x)
  case (Create_checkpoint i)
  obtain t r where tr: "create_data_checkpoint pf i s = (t, r)" by fastforce
  show thesis using create_checkpoint_core [OF tr] same checkpoint Create_checkpoint tr by auto
next
  case (Create_changeset run i)
  obtain t r where tr: "create_data_changeset pf run i s = (t, r)" by fastforce
  show thesis using create_changeset_core [OF tr] same changeset Create_changeset tr by auto
next
  case (Decide run d i)
  obtain t a where ta: "decide_changeset pf run d i s = (t, a)" by fastforce
  have x: "fst (lineage_step pf x s) = t" using Decide ta by simp
  from ta show thesis
  proof (cases rule: decide_cases)
    case (merging ch base current)
    have row: "ch \<in> set (ln_changesets s)" using merging(1) by (auto simp: changeset_row_def find_Some_iff)
    have pending: "ch_status ch = Pending_changes"
      using merging(2) row coherent_parts(5) [OF assms] by (auto simp: applied_ok_def or_none_def split: if_splits)
    show thesis
      using merging(6)
    proof (cases rule: merge_branch_cases)
      case (held st cs m)
      show thesis by (rule hold [OF row pending]) (unfold x held(1), rule hold_core)
    qed (use same x in simp_all)
  qed (use same x in simp)
next
  case (Finish ch i coordinator rep)
  obtain t r where tr: "create_data_checkpoint pf i s = (t, r)" by fastforce
  show thesis
  proof (cases r)
    case (Inl e)
    then show thesis using create_checkpoint_core [OF tr] same Finish tr by auto
  next
    case (Inr k)
    with create_checkpoint_core [OF tr] obtain row
      where t: "core t = (ln_changesets s, ln_conflicts s, ln_checkpoints s @ [row], ln_tokens s + 1)" by auto
    show thesis using commit [of "ch_id ch" k rep row] commit_core [of ch coordinator rep k t] t Finish tr Inr by (simp add: core_def)
  qed
next
  case (Resolve ident request)
  obtain t r where tr: "resolve_data_conflict ident request s = (t, r)" by fastforce
  from resolve_core [OF tr] show thesis
  proof
    assume "\<exists>e. r = Inl e \<and> t = s"
    then show thesis using same Resolve tr by simp
  next
    assume "\<exists>c q. c \<in> set (ln_conflicts s) \<and> dc_id c = ident \<and> dc_open c \<and> \<not> final_kind (dc_kind c)
        \<and> (let C = map (settle ident q) (ln_conflicts s) in
           core t = ((case dc_changeset c of None \<Rightarrow> ln_changesets s
             | Some h \<Rightarrow> if filter (\<lambda>d. dc_changeset d = Some h \<and> dc_open d) C = []
                         then map (\<lambda>x. if ch_id x = h then reopen x else x) (ln_changesets s) else ln_changesets s),
             C, ln_checkpoints s, ln_tokens s))"
    then obtain c q where c: "c \<in> set (ln_conflicts s)" "dc_id c = ident" "\<not> final_kind (dc_kind c)"
        and t: "core t = ((case dc_changeset c of None \<Rightarrow> ln_changesets s
             | Some h \<Rightarrow> if filter (\<lambda>d. dc_changeset d = Some h \<and> dc_open d) (map (settle ident q) (ln_conflicts s)) = []
                         then map (\<lambda>x. if ch_id x = h then reopen x else x) (ln_changesets s) else ln_changesets s),
             map (settle ident q) (ln_conflicts s), ln_checkpoints s, ln_tokens s)" by (auto simp: Let_def)
    define f where "f = (\<lambda>x. case dc_changeset c of None \<Rightarrow> x
      | Some h \<Rightarrow> if filter (\<lambda>d. dc_changeset d = Some h \<and> dc_open d) (map (settle ident q) (ln_conflicts s)) = [] \<and> ch_id x = h then reopen x else x)"
    have "core t = (map f (ln_changesets s), map (settle (dc_id c) q) (ln_conflicts s), ln_checkpoints s, ln_tokens s)"
      unfolding t c(2) by (cases "dc_changeset c") (simp_all add: f_def)
    then show thesis using resolve [of f c q] c Resolve tr by (auto simp: f_def split: option.splits)
  qed
next
  case (Set_policy app site p k risks user)
  show thesis by (rule same) (simp add: Set_policy core_policy)
next
  case (Acknowledge app site k)
  show thesis by (rule same) (simp add: Acknowledge core_acknowledge)
qed

lemma core_fieldsD:
  assumes "core t = (H, C, K, n)"
  shows "ln_changesets t = H" "ln_conflicts t = C" "ln_checkpoints t = K" "ln_tokens t = n"
  using assms by (simp_all add: core_def)

lemma step_keeps_applied:
  assumes "coherent pf s" "c \<in> set (ln_changesets s)" "ch_status c = Applied_changes"
  shows "c \<in> set (ln_changesets (fst (lineage_step pf x s)))"
  using assms(1)
proof (cases rule: step_core [where x = x])
  case (hold ch st cs)
  have "ch_id c \<noteq> ch_id ch"
  proof
    assume "ch_id c = ch_id ch"
    then have "c = ch" using coherent_parts(3) [OF assms(1)] hold(1) assms(2) by (auto simp: ids_ok_def distinct_map dest: inj_onD)
    then show False using hold(2) assms(3) by simp
  qed
  then show ?thesis using assms(2) unfolding core_fieldsD(1) [OF hold(3)] by force
next
  case (commit h rep k row)
  show ?thesis using assms(2,3) unfolding core_fieldsD(1) [OF commit] by force
next
  case (resolve f d q)
  have "f c = c" using resolve(2) [of c] assms(3) by (auto simp: reopen_def)
  then show ?thesis using assms(2) unfolding core_fieldsD(1) [OF resolve(1)] by force
qed (use assms(2) in \<open>auto dest: core_fields(1) core_fieldsD(1)\<close>)

lemma step_keeps_final_conflict:
  assumes "coherent pf s" "d \<in> set (ln_conflicts s)" "final_kind (dc_kind d)" "dc_open d"
  shows "d \<in> set (ln_conflicts (fst (lineage_step pf x s)))"
  using assms(1)
proof (cases rule: step_core [where x = x])
  case (resolve f c q)
  have "dc_id d \<noteq> dc_id c"
  proof
    assume "dc_id d = dc_id c"
    then have "d = c" using coherent_parts(3) [OF assms(1)] resolve(3) assms(2) by (auto simp: ids_ok_def distinct_map dest: inj_onD)
    then show False using resolve(4) assms(3) by simp
  qed
  then have "settle (dc_id c) q d = d" by (simp add: settle_def)
  then show ?thesis using assms(2) unfolding core_fieldsD(2) [OF resolve(1)] by force
qed (use assms(2) in \<open>auto dest: core_fields(2) core_fieldsD(2)\<close>)

lemma changeset_row_in: "changeset_row h s = Some c \<Longrightarrow> c \<in> set (ln_changesets s) \<and> ch_id c = h"
  by (auto simp: changeset_row_def find_Some_iff)

lemma changeset_row_unique:
  assumes "coherent pf s" "c \<in> set (ln_changesets s)"
  shows "changeset_row (ch_id c) s = Some c"
proof -
  have "distinct (map ch_id (ln_changesets s))" using coherent_parts(3) [OF assms(1)] by (simp add: ids_ok_def)
  then have "find (\<lambda>x. ch_id x = ch_id c) H = Some c" if "c \<in> set H" "distinct (map ch_id H)" for H
    using that by (induction H) (auto simp: image_iff)
  then show ?thesis using assms \<open>distinct _\<close> by (simp add: changeset_row_def)
qed

end
