(* ===== verification/DataLineageProperties.thy ===== *)
theory DataLineageProperties
  imports DataLineageFacts
begin

text \<open>
  What holds along every history of the data lineage: when a changeset waits, that an applied one is settled for good,
  that a branch with a schema or validation conflict is never merged, when a checkpoint is published, and which
  checkpoints have to be retained.
\<close>

text \<open>A state a history reaches from empty tables of changesets, conflicts and checkpoints.\<close>

definition reachable_lineage :: "platform \<Rightarrow> lineage \<Rightarrow> bool" where
  "reachable_lineage pf s \<longleftrightarrow> (\<exists>s0 xs. ln_changesets s0 = [] \<and> ln_conflicts s0 = [] \<and> ln_checkpoints s0 = []
     \<and> s = fst (run_ops (lineage_step pf) xs s0))"

lemma reachable_coherent: "inj (pf_token pf) \<Longrightarrow> reachable_lineage pf s \<Longrightarrow> coherent pf s"
  by (auto simp: reachable_lineage_def intro: coherent_run coherent_start)

lemma reachable_run: "reachable_lineage pf s \<Longrightarrow> reachable_lineage pf (fst (run_ops (lineage_step pf) xs s))"
  unfolding reachable_lineage_def using run_ops_append [of "lineage_step pf"] by (auto simp: Let_def) (metis fst_conv)

lemma open_conflicts_iff: "open_conflicts h s \<noteq> [] \<longleftrightarrow> (\<exists>d \<in> set (ln_conflicts s). dc_changeset d = Some h \<and> dc_open d)"
  by (auto simp: open_conflicts_def filter_empty_conv)

section \<open>When a changeset waits\<close>

text \<open>C10. In every reachable state a changeset is conflicted or blocked exactly while a conflict of it is open, and applied
  exactly when it names a verified checkpoint as its result: no sequence of captures, applications (also interleaved),
  resolutions and acknowledgements leaves a changeset pending over an open conflict or waiting for nothing.\<close>
theorem changeset_waits_iff_conflict_open:
  assumes "inj (pf_token pf)" "reachable_lineage pf s" "c \<in> set (ln_changesets s)"
  shows "(ch_status c \<in> {Conflicted_changes, Blocked_changes} \<longleftrightarrow> open_conflicts (ch_id c) s \<noteq> [])
    \<and> (ch_status c = Applied_changes \<longleftrightarrow> (\<exists>k \<in> set (ln_checkpoints s). ck_verified k \<and> ch_result c = Some (ck_id k)))"
proof -
  note ok = coherent_parts [OF reachable_coherent [OF assms(1,2)]]
  have "waits c \<longleftrightarrow> open_conflicts (ch_id c) s \<noteq> []"
    using ok(4) assms(3) unfolding waiting_ok_def open_conflicts_iff by blast
  moreover have "(ch_status c = Applied_changes \<longleftrightarrow> ch_result c \<noteq> None)
      \<and> (\<forall>r. ch_result c = Some r \<longrightarrow> r \<noteq> [] \<and> (\<exists>k \<in> set (ln_checkpoints s). ck_id k = r \<and> ck_verified k))"
    using ok(5) assms(3) unfolding applied_ok_def by blast
  ultimately show ?thesis by (auto simp: waits_def)
qed

text \<open>C11. A branch whose reconciliation was blocked is never merged: whatever happens afterwards (its other conflicts
  resolved, new checkpoints, further attempts), every application of it answers that it waits, names at least one open
  conflict and changes nothing.\<close>
theorem blocked_branch_never_merges:
  assumes "inj (pf_token pf)" "reachable_lineage pf s" "c \<in> set (ln_changesets s)" "ch_status c = Blocked_changes"
    and "u = fst (run_ops (lineage_step pf) ys s)" "ai_changeset i = ch_id c"
  shows "\<exists>m ids. apply_data_changeset pf run d i u = (u, Inr (Waiting m ids)) \<and> m \<noteq> Merged \<and> ids \<noteq> []"
proof -
  have coh: "coherent pf s" using reachable_coherent assms(1,2) .
  obtain x where x: "x \<in> set (ln_conflicts s)" "dc_changeset x = Some (ch_id c)" "dc_open x" "final_kind (dc_kind x)"
    using coherent_parts(4) [OF coh] assms(3,4) unfolding waiting_ok_def by blast
  have "x \<in> set (ln_conflicts u) \<and> ch_id c \<in> ch_id ` set (ln_changesets u)"
    unfolding assms(5)
  proof (rule run_keeps [OF coh, where P = "\<lambda>s. x \<in> set (ln_conflicts s) \<and> ch_id c \<in> ch_id ` set (ln_changesets s)"])
    show "x \<in> set (ln_conflicts s) \<and> ch_id c \<in> ch_id ` set (ln_changesets s)" using x(1) assms(3) by simp
  next
    fix o1 s1 assume c1: "coherent pf s1" "x \<in> set (ln_conflicts s1) \<and> ch_id c \<in> ch_id ` set (ln_changesets s1)"
    let ?t = "fst (lineage_step pf o1 s1)"
    have "x \<in> set (ln_conflicts ?t)" using step_keeps_final_conflict [OF c1(1) _ x(4,3)] c1(2) by blast
    moreover have "coherent pf ?t" using c1(1) lineage_step_ok by (simp add: coherent_def)
    ultimately show "x \<in> set (ln_conflicts ?t) \<and> ch_id c \<in> ch_id ` set (ln_changesets ?t)"
      using coherent_parts(3) x(2) by (auto simp: ids_ok_def)
  qed
  then obtain c' where c': "c' \<in> set (ln_changesets u)" "ch_id c' = ch_id c" and xu: "x \<in> set (ln_conflicts u)" by auto
  have cu: "coherent pf u" unfolding assms(5) by (rule coherent_run [OF coh])
  have ne: "open_conflicts (ch_id c') u \<noteq> []" using xu x(2,3) c'(2) by (auto simp: open_conflicts_iff)
  then have "waits c'" using coherent_parts(4) [OF cu] c'(1) unfolding waiting_ok_def open_conflicts_iff by blast
  moreover have "changeset_row (ai_changeset i) u = Some c'" using changeset_row_unique [OF cu c'(1)] c'(2) assms(6) by simp
  ultimately have "decide_changeset pf run d i u = (u, Answer (Inr (Waiting (if ch_status c' = Conflicted_changes then Conflicted else Blocked)
      (map dc_id (open_conflicts (ch_id c') u)))))"
    by (auto simp: decide_changeset_def waits_def)
  then have "apply_data_changeset pf run d i u = (u, Inr (Waiting (if ch_status c' = Conflicted_changes then Conflicted else Blocked)
      (map dc_id (open_conflicts (ch_id c') u))))" by (simp add: apply_data_changeset_def)
  then show ?thesis using ne by (intro exI conjI) (assumption | simp split: if_split)+
qed

section \<open>Applying a changeset\<close>

lemma apply_is_steps:
  assumes "apply_data_changeset pf run d i s = (t, r)"
  shows "\<exists>xs. t = fst (run_ops (lineage_step pf) xs s)"
proof -
  obtain s1 a where a: "decide_changeset pf run d i s = (s1, a)" by fastforce
  show ?thesis
  proof (cases a)
    case (Answer r')
    then have "t = fst (run_ops (lineage_step pf) [Decide run d i] s)" using assms a by (simp add: apply_data_changeset_def)
    then show ?thesis by blast
  next
    case (Publish ch ci cs)
    then have "t = fst (run_ops (lineage_step pf) [Decide run d i, Finish ch ci (ai_coordinator i) cs] s)"
      using assms a by (auto simp: apply_data_changeset_def Let_def split: prod.splits sum.splits)
    then show ?thesis by blast
  qed
qed

text \<open>What an application that merges has done; the cases are a changeset applied before and one applied now.\<close>

lemma apply_merged_cases:
  assumes coh: "coherent pf s" and ap: "apply_data_changeset pf run d i s = (t, Inr (Merged_into k))"
  obtains (before) ch where "t = s" "changeset_row (ai_changeset i) s = Some ch" "ch_status ch = Applied_changes" "ch_result ch = Some k"
  | (now) ch base current policy db files row where
      "changeset_row (ai_changeset i) s = Some ch" "ch_status ch = Pending_changes"
      "checkpoint_record (ch_base ch) (ch_app ch) s = Inr base" "checkpoint_record (ai_current i) (ch_app ch) s = Inr current"
      "merge_database pf run i policy (stored_resolutions (ch_id ch) s) ch base current s = Inr db"
      "merge_files pf d i policy (stored_resolutions (ch_id ch) s) ch base current s = Inr files"
      "case db of None \<Rightarrow> True | Some r \<Rightarrow> sq_status r = Merged" "case files of None \<Rightarrow> True | Some (cs, tree) \<Rightarrow> tree \<noteq> None"
      "ln_checkpoints t = ln_checkpoints s @ [row]" "ck_id row = k" "ck_verified row" "ck_app row = ch_app ch"
      "ck_sequence row = next_sequence (ch_app ch) s" "ck_parent row = or_none (Some (ai_current i))"
      "ck_database row = (if db \<noteq> None then Some (bytes_digest pf (dr_output run)) else None)" "ck_files row = None \<longleftrightarrow> files = None"
      "\<exists>c \<in> set (ln_changesets t). ch_id c = ch_id ch \<and> ch_status c = Applied_changes \<and> ch_result c = Some k"
proof -
  obtain s1 a where a: "decide_changeset pf run d i s = (s1, a)" by fastforce
  from a show thesis
  proof (cases rule: decide_cases)
    case (answered r)
    then have r: "s1 = s" "t = s" "decide_changeset pf run d i s = (s, Answer (Inr (Merged_into k)))"
      using ap a by (auto simp: apply_data_changeset_def)
    show thesis
    proof (cases "changeset_row (ai_changeset i) s")
      case None
      then show thesis using r(3) by (simp add: decide_changeset_def)
    next
      case (Some ch)
      consider "ch_status ch = Applied_changes \<and> or_none (ch_result ch) \<noteq> None"
        | "\<not> (ch_status ch = Applied_changes \<and> or_none (ch_result ch) \<noteq> None)" by blast
      then show thesis
      proof cases
        case 1
        then have "ch_result ch = Some k" using r(3) Some by (auto simp: decide_changeset_def or_none_def split: if_splits)
        then show thesis using before [OF r(2) Some] 1 by blast
      next
        case 2
        have "\<exists>base current. merge_branch pf run d i ch base current s = (s, Answer (Inr (Merged_into k)))"
          using r(3) Some unfolding decide_changeset_def Some option.case if_not_P [OF 2]
          by (auto split: if_splits option.splits sum.splits)
        then obtain base current where "merge_branch pf run d i ch base current s = (s, Answer (Inr (Merged_into k)))" by blast
        then show thesis by (cases rule: merge_branch_cases) simp_all
      qed
    qed
  next
    case (merging ch base current)
    have row: "ch \<in> set (ln_changesets s)" "ch_id ch = ai_changeset i" using merging(1) by (auto simp: changeset_row_def find_Some_iff)
    have pending: "ch_status ch = Pending_changes"
      using merging(2) row coherent_parts(5) [OF coh] by (auto simp: applied_ok_def or_none_def split: if_splits)
    show thesis
      using merging(6)
    proof (cases rule: merge_branch_cases)
      case (published policy db files)
      define ci where "ci = \<lparr>ki_app = ch_app ch, ki_origin = ai_coordinator i, ki_parent = Some (ai_current i),
         ki_database = (if db \<noteq> None then Some (dr_output run) else None),
         ki_files = (case files of None \<Rightarrow> None | Some (_, tree) \<Rightarrow> tree),
         ki_schema = (case or_none (ch_schema ch) of Some f \<Rightarrow> Some f | None \<Rightarrow> ck_schema current),
         ki_profile = ck_profile current, ki_allow_empty = False\<rparr>"
      define cs where "cs = (case db of None \<Rightarrow> [] | Some r \<Rightarrow> sq_conflicts r) @ (case files of None \<Rightarrow> [] | Some (cs, _) \<Rightarrow> cs)"
      have pub: "a = Publish ch ci cs" using published(7) by (simp only: ci_def cs_def)
      obtain t1 q where tq: "create_data_checkpoint pf ci s = (t1, q)" by fastforce
      have q: "q = Inr k" and t: "t = commit_changeset ch (ai_coordinator i) cs k t1"
        using ap a published(1) tq unfolding pub by (auto simp: apply_data_changeset_def split: sum.splits)
      obtain row where row': "Inr k = (Inr (ck_id row) :: string + string)" "ck_verified row" "ck_app row = ki_app ci"
          "ck_sequence row = next_sequence (ki_app ci) s" "ck_database row = map_option (bytes_digest pf) (ki_database ci)"
          "ck_files row = None \<longleftrightarrow> ki_files ci = None" "ck_parent row = or_none (ki_parent ci)"
          and t1: "core t1 = (ln_changesets s, ln_conflicts s, ln_checkpoints s @ [row], ln_tokens s + 1)"
        using tq unfolding q by (cases rule: create_checkpoint_cases) (simp, rule that)
      note ct = commit_core [of ch "ai_coordinator i" cs k t1, folded t, unfolded core_fieldsD [OF t1]]
      have "ln_checkpoints t = ln_checkpoints s @ [row]" using core_fieldsD(3) [OF ct] .
      moreover have "\<exists>c \<in> set (ln_changesets t). ch_id c = ch_id ch \<and> ch_status c = Applied_changes \<and> ch_result c = Some k"
        unfolding core_fieldsD(1) [OF ct] using row(1) pending by (intro bexI [of _ "ch\<lparr>ch_status := Applied_changes, ch_report := Some cs, ch_result := Some k\<rparr>"]) force+
      moreover have "ki_files ci = None \<longleftrightarrow> files = None" using published(6) by (auto simp: ci_def split: option.splits)
      moreover have "ck_database row = (if db \<noteq> None then Some (bytes_digest pf (dr_output run)) else None)" using row'(5) by (simp add: ci_def)
      ultimately show thesis
        using now [OF merging(1) pending merging(4,5) published(3-6), of row] row' by (simp add: ci_def)
    qed (use ap a in \<open>auto simp: apply_data_changeset_def\<close>)
  qed
qed

text \<open>C12. A changeset is merged once: after an application answered with a checkpoint, every later application of the same
  changeset, after any history and with any staging, answers with the same checkpoint and changes nothing.\<close>
theorem changeset_is_applied_once:
  assumes "inj (pf_token pf)" "reachable_lineage pf s" "apply_data_changeset pf run d i s = (t, Inr (Merged_into k))"
    and "u = fst (run_ops (lineage_step pf) ys t)" "ai_changeset j = ai_changeset i"
  shows "apply_data_changeset pf run' d' j u = (u, Inr (Merged_into k))"
proof -
  have coh: "coherent pf s" using reachable_coherent assms(1,2) .
  obtain xs where "t = fst (run_ops (lineage_step pf) xs s)" using apply_is_steps [OF assms(3)] by blast
  then have ct: "coherent pf t" using coherent_run [OF coh] by simp
  obtain c where c: "c \<in> set (ln_changesets t)" "ch_id c = ai_changeset i" "ch_status c = Applied_changes" "ch_result c = Some k"
    using coh assms(3)
  proof (cases rule: apply_merged_cases)
    case (before ch)
    from changeset_row_in [OF before(2)] have "ch \<in> set (ln_changesets t)" "ch_id ch = ai_changeset i"
      unfolding before(1) by simp_all
    then show thesis using before(3,4) by (rule that)
  next
    case (now ch)
    from now(17) obtain c where "c \<in> set (ln_changesets t)" "ch_id c = ch_id ch" "ch_status c = Applied_changes" "ch_result c = Some k"
      by blast
    then show thesis using changeset_row_in [OF now(1)] by (intro that [of c]) simp_all
  qed
  have "c \<in> set (ln_changesets u)"
    unfolding assms(4) by (rule run_keeps [OF ct, where P = "\<lambda>s. c \<in> set (ln_changesets s)", OF c(1)]) (rule step_keeps_applied [OF _ _ c(3)])
  moreover have cu: "coherent pf u" unfolding assms(4) by (rule coherent_run [OF ct])
  ultimately have row: "changeset_row (ai_changeset j) u = Some c" using changeset_row_unique c(2) assms(5) by metis
  have "k \<noteq> []" using coherent_parts(5) [OF ct] c(1,4) by (auto simp: applied_ok_def)
  then show ?thesis using row c(3,4) by (simp add: apply_data_changeset_def decide_changeset_def or_none_def)
qed


lemma unmerged_keeps_checkpoints:
  assumes "apply_data_changeset pf run d i s = (t, r)" "\<nexists>k. r = Inr (Merged_into k)"
  shows "ln_checkpoints t = ln_checkpoints s"
proof -
  obtain s1 a where a: "decide_changeset pf run d i s = (s1, a)" by fastforce
  have s1: "ln_checkpoints s1 = ln_checkpoints s"
    using a
  proof (cases rule: decide_cases)
    case (merging ch base current)
    from merging(6) show ?thesis
    proof (cases rule: merge_branch_cases)
      case (held st cs m)
      then show ?thesis using core_fieldsD(3) [OF hold_core] by simp
    qed simp_all
  qed simp
  show ?thesis
  proof (cases a)
    case (Answer q)
    then show ?thesis using assms(1) a s1 by (simp add: apply_data_changeset_def)
  next
    case (Publish ch ci cs)
    obtain t1 q where tq: "create_data_checkpoint pf ci s1 = (t1, q)" by fastforce
    have "t = t1" "\<exists>e. q = Inl e"
      using assms a tq Publish by (auto simp: apply_data_changeset_def split: sum.splits)
    from tq have "ln_checkpoints t1 = ln_checkpoints s1"
    proof (cases rule: create_checkpoint_cases)
      case (failed e)
      from core_fields(3) [OF failed(2)] show ?thesis .
    next
      case (created row)
      with \<open>\<exists>e. q = Inl e\<close> show ?thesis by auto
    qed
    then show ?thesis using s1 \<open>t = t1\<close> by simp
  qed
qed


section \<open>Retention\<close>

lemma sequence_absent:
  "b \<notin> ck_id ` set cs \<Longrightarrow> jm_get (fold (\<lambda>c m. jm_set m (ck_id c) (ck_sequence c)) cs m0) b = jm_get m0 b"
  by (induction cs arbitrary: m0) auto

lemma sequence_present:
  "distinct (map ck_id cs) \<Longrightarrow> c \<in> set cs \<Longrightarrow>
     jm_get (fold (\<lambda>c m. jm_set m (ck_id c) (ck_sequence c)) cs m0) (ck_id c) = Some (ck_sequence c)"
  by (induction cs arbitrary: m0) (auto simp: sequence_absent)

text \<open>The replicas a checkpoint waits for are exactly the active replicas of the shared lineage, at sites that are not
  revoked, whose base is not a later checkpoint of the application: a checkpoint is free to be dropped when all of them
  have moved past it, and a replica without a base, or with a base the table does not know, holds every checkpoint.\<close>
lemma retention_waits_for_laggards:
  assumes "inj (pf_token pf)" "reachable_lineage pf s" "c \<in> set (ln_checkpoints s)" "ck_app c = app"
  shows "\<exists>waiting. (ck_id c, waiting) \<in> set (list_checkpoint_retention_blockers app s) \<and>
    (\<forall>site. site \<in> set waiting \<longleftrightarrow> (\<exists>r \<in> set (ln_replicas s). rl_site r = site \<and> rl_app r = app \<and> \<not> rl_removed r \<and> rl_shared r
        \<and> (\<exists>t. site_row site s = Some t \<and> \<not> si_revoked t)
        \<and> \<not> (\<exists>b \<in> set (ln_checkpoints s). ck_app b = app \<and> rl_base r = Some (ck_id b) \<and> ck_sequence c < ck_sequence b)))"
proof -
  define cs where "cs = sort_key ck_sequence (filter (\<lambda>c. ck_app c = app) (ln_checkpoints s))"
  define seqs where "seqs = fold (\<lambda>c m. jm_set m (ck_id c) (ck_sequence c)) cs []"
  define behind :: "checkpoint \<Rightarrow> replica \<Rightarrow> bool" where "behind = (\<lambda>c r. case or_none (rl_base r) of
                            None \<Rightarrow> True
                          | Some b \<Rightarrow> (case jm_get seqs b of Some n \<Rightarrow> n | None \<Rightarrow> 0) \<le> ck_sequence c)"
  have ids: "distinct (map ck_id (ln_checkpoints s))" "ck_id ` set (ln_checkpoints s) \<subseteq> sortable_id pf ''checkpoint'' ` {..<ln_tokens s}"
    using coherent_parts(6) [OF reachable_coherent [OF assms(1,2)]] by (simp_all add: checkpoints_ok_def)
  have cs: "set cs = {c \<in> set (ln_checkpoints s). ck_app c = app}" by (auto simp: cs_def)
  have "distinct (map ck_id (filter (\<lambda>c. ck_app c = app) (ln_checkpoints s)))" using ids(1) by (rule distinct_map_filter)
  then have d: "distinct (map ck_id cs)" by (simp add: cs_def distinct_map)
  have look: "(case jm_get seqs b of Some n \<Rightarrow> n | None \<Rightarrow> 0) \<le> ck_sequence c
      \<longleftrightarrow> \<not> (\<exists>k \<in> set (ln_checkpoints s). ck_app k = app \<and> b = ck_id k \<and> ck_sequence c < ck_sequence k)" for b
  proof (cases "b \<in> ck_id ` set cs")
    case True
    then obtain k where k: "k \<in> set cs" "b = ck_id k" by blast
    have one: "k' = k" if "k' \<in> set cs" "ck_id k' = ck_id k" for k' using d k(1) that by (auto simp: distinct_map dest: inj_onD)
    have seq: "jm_get seqs b = Some (ck_sequence k)" unfolding seqs_def k(2) by (rule sequence_present [OF d k(1)])
    have only: "x \<in> set (ln_checkpoints s) \<and> ck_app x = app \<and> b = ck_id x \<longleftrightarrow> x = k" for x
    proof
      assume "x \<in> set (ln_checkpoints s) \<and> ck_app x = app \<and> b = ck_id x"
      then have "x \<in> set cs" "ck_id x = ck_id k" using k(2) cs by simp_all
      then show "x = k" by (rule one)
    qed (use k cs in simp)
    have "(\<exists>x \<in> set (ln_checkpoints s). ck_app x = app \<and> b = ck_id x \<and> ck_sequence c < ck_sequence x) \<longleftrightarrow> ck_sequence c < ck_sequence k"
    proof
      assume "\<exists>x \<in> set (ln_checkpoints s). ck_app x = app \<and> b = ck_id x \<and> ck_sequence c < ck_sequence x"
      then obtain x where x: "x \<in> set (ln_checkpoints s) \<and> ck_app x = app \<and> b = ck_id x" "ck_sequence c < ck_sequence x" by blast
      from only [THEN iffD1, OF x(1)] x(2) show "ck_sequence c < ck_sequence k" by simp
    next
      assume "ck_sequence c < ck_sequence k"
      with only [THEN iffD2, OF refl] show "\<exists>x \<in> set (ln_checkpoints s). ck_app x = app \<and> b = ck_id x \<and> ck_sequence c < ck_sequence x"
        by (intro bexI [of _ k]) simp_all
    qed
    then show ?thesis unfolding seq by (simp add: not_less)
  next
    case False
    then show ?thesis using sequence_absent [OF False, of "[]"] cs by (auto simp: seqs_def)
  qed
  have laggard: "behind c r \<longleftrightarrow> \<not> (\<exists>b \<in> set (ln_checkpoints s). ck_app b = app \<and> rl_base r = Some (ck_id b) \<and> ck_sequence c < ck_sequence b)" for r
  proof (cases "or_none (rl_base r)")
    case None
    have "rl_base r \<noteq> Some (ck_id b)" if "b \<in> set (ln_checkpoints s)" for b
    proof
      assume r: "rl_base r = Some (ck_id b)"
      have "ck_id b \<noteq> []" using ids(2) that by (auto simp: sortable_id_def)
      then show False using None r by (simp add: or_none_def)
    qed
    then show ?thesis using None by (auto simp: behind_def)
  next
    case (Some b)
    then have "rl_base r = Some b" by (auto simp: or_none_def split: if_splits)
    then show ?thesis using Some look [of b] by (auto simp: behind_def)
  qed
  have l: "list_checkpoint_retention_blockers app s =
      map (\<lambda>c. (ck_id c, map rl_site (filter (behind c) (shared_replicas app s)))) cs"
    unfolding list_checkpoint_retention_blockers_def Let_def cs_def [symmetric] seqs_def [symmetric] behind_def by (rule refl)
  have "(ck_id c, map rl_site (filter (behind c) (shared_replicas app s))) \<in> set (list_checkpoint_retention_blockers app s)"
    unfolding l using cs assms(3,4) by auto
  moreover have "site \<in> set (map rl_site (filter (behind c) (shared_replicas app s))) \<longleftrightarrow>
      (\<exists>r \<in> set (ln_replicas s). rl_site r = site \<and> rl_app r = app \<and> \<not> rl_removed r \<and> rl_shared r
        \<and> (\<exists>t. site_row site s = Some t \<and> \<not> si_revoked t) \<and> behind c r)" for site
    by (auto simp: shared_replicas_def split: option.splits)
  ultimately show ?thesis unfolding laggard by (intro exI conjI allI) assumption+
qed


section \<open>The coordinator\<close>

lemma apply_keeps_policies:
  assumes "apply_data_changeset pf run d i s = (t, r)"
  shows "ln_policies t = ln_policies s"
proof -
  have rec: "ln_policies (fst (record_reconciliation_conflicts pf app h cs s)) = ln_policies s" for app h cs s
    by (induction cs arbitrary: s) (simp_all add: Let_def)
  have hold: "ln_policies (fst (hold_changeset pf ch st cs s)) = ln_policies s" for ch st cs
    by (simp add: hold_changeset_def Let_def update_changeset_def rec)
  have save: "ln_policies (fst (save_checkpoint pf ci n db m s)) = ln_policies s" for ci n db m s
    by (auto simp: save_checkpoint_def Let_def log_event_def put_bytes_def split: option.split)
  have create: "ln_policies (fst (create_data_checkpoint pf ci s)) = ln_policies s" for ci s
    by (auto simp: create_data_checkpoint_def Let_def save put_bytes_def split: option.split sum.split prod.split)
  obtain s1 a where a: "decide_changeset pf run d i s = (s1, a)" by fastforce
  have s1: "ln_policies s1 = ln_policies s"
    using a
  proof (cases rule: decide_cases)
    case (merging ch base current)
    from merging(6) show ?thesis by (cases rule: merge_branch_cases) (simp_all add: hold)
  qed simp
  show ?thesis
  proof (cases a)
    case (Answer q)
    then show ?thesis using assms a s1 by (simp add: apply_data_changeset_def)
  next
    case (Publish ch ci cs)
    obtain t1 q where tq: "create_data_checkpoint pf ci s1 = (t1, q)" by fastforce
    then have "ln_policies t = ln_policies t1"
      using assms a Publish
      by (auto simp: apply_data_changeset_def commit_changeset_def update_changeset_def Let_def split: sum.splits)
    then show ?thesis using create [of ci s1] tq s1 by simp
  qed
qed

lemma apply_pending_results:
  assumes "apply_pending pf runs d root manual chs rs0 s = (t, Inr rs)"
  shows "map cr_changeset rs = map cr_changeset rs0 @ map ch_id (filter (eligible manual s) chs)"
  using assms
proof (induction chs arbitrary: rs0 s)
  case (Cons ch chs)
  let ?p = "get_data_sync_policy (ch_app ch) (Some (ch_origin ch)) s"
  have same: "eligible manual s' = eligible manual s" if "ln_policies s' = ln_policies s" for s'
    using that by (simp add: eligible_def get_data_sync_policy_def fun_eq_iff)
  have skip: "(fst ?p = Sync_none \<or> (fst ?p = Sync_manual \<and> \<not> manual)) \<longleftrightarrow> \<not> eligible manual s ch"
    by (cases "fst ?p") (simp_all add: eligible_def)
  show ?case
  proof (cases "eligible manual s ch")
    case False
    then have "apply_pending pf runs d root manual chs rs0 s = (t, Inr rs)" using Cons.prems skip by (simp add: Let_def)
    then show ?thesis using Cons.IH False by simp
  next
    case go: True
    then have nskip: "\<not> (fst ?p = Sync_none \<or> (fst ?p = Sync_manual \<and> \<not> manual))" using skip by blast
    show ?thesis
    proof (cases "latest_verified_checkpoint (ch_app ch) s")
      case None
      then have "apply_pending pf runs d root manual chs
          (rs0 @ [\<lparr>cr_changeset = ch_id ch, cr_status = ''waiting-for-checkpoint'', cr_checkpoint = None\<rparr>]) s = (t, Inr rs)"
        using Cons.prems nskip by (simp add: Let_def)
      then show ?thesis using Cons.IH go by fastforce
    next
      case (Some current)
      then obtain home where home: "home_site s = Some home" using Cons.prems nskip by (auto simp: Let_def split: option.splits)
      obtain s1 q where q: "apply_data_changeset pf (runs (ch_id ch)) d
           \<lparr>ai_changeset = ch_id ch, ai_current = current, ai_coordinator = home,
            ai_database_path = (or_none (ch_database ch) \<noteq> None),
            ai_files_path = (if or_none (ch_files ch) \<noteq> None then Some (root @ [''files'']) else None),
            ai_policy = Some (snd ?p)\<rparr> s = (s1, q)" by fastforce
      have "apply_pending pf runs d root manual (ch # chs) rs0 s = (case q of Inl e \<Rightarrow> (s1, Inl e)
        | Inr r \<Rightarrow> apply_pending pf runs d root manual chs (rs0 @ [snd (report_apply ch r s1)]) (fst (report_apply ch r s1)))"
        unfolding apply_pending.simps Let_def if_not_P [OF nskip] Some option.case home q prod.case
        by (simp split: sum.split)
      then obtain r where r: "q = Inr r"
        "apply_pending pf runs d root manual chs (rs0 @ [snd (report_apply ch r s1)]) (fst (report_apply ch r s1)) = (t, Inr rs)"
        using Cons.prems by (cases q) simp_all
      have pol: "ln_policies (fst (report_apply ch r s1)) = ln_policies s"
        using apply_keeps_policies [OF q] by (simp add: report_apply_def update_materialization_def Let_def)
      moreover have "cr_changeset (snd (report_apply ch r s1)) = ch_id ch" by (simp add: report_apply_def Let_def)
      ultimately show ?thesis unfolding Cons.IH [OF r(2)] map_append filter.simps if_P [OF go] same [OF pol] by simp
    qed
  qed
qed simp

lemma apply_pending_truth:
  assumes "apply_pending pf runs d root manual chs rs0 s = (t, Inr rs)" "coherent pf s"
    and "\<forall>r \<in> set rs0. \<forall>k. cr_checkpoint r = Some k \<longrightarrow>
          (\<exists>c \<in> set (ln_changesets s). ch_id c = cr_changeset r \<and> ch_status c = Applied_changes \<and> ch_result c = Some k)"
  shows "\<forall>r \<in> set rs. \<forall>k. cr_checkpoint r = Some k \<longrightarrow>
          (\<exists>c \<in> set (ln_changesets t). ch_id c = cr_changeset r \<and> ch_status c = Applied_changes \<and> ch_result c = Some k)"
  using assms
proof (induction chs arbitrary: rs0 s)
  case (Cons ch chs)
  let ?p = "get_data_sync_policy (ch_app ch) (Some (ch_origin ch)) s"
  let ?true = "\<lambda>rs s. \<forall>r \<in> set rs. \<forall>k. cr_checkpoint r = Some k \<longrightarrow>
          (\<exists>c \<in> set (ln_changesets s). ch_id c = cr_changeset r \<and> ch_status c = Applied_changes \<and> ch_result c = Some k)"
  show ?case
  proof (cases "fst ?p = Sync_none \<or> (fst ?p = Sync_manual \<and> \<not> manual)")
    case True
    then have "apply_pending pf runs d root manual chs rs0 s = (t, Inr rs)" using Cons.prems(1) by (simp add: Let_def)
    then show ?thesis using Cons.IH Cons.prems(2,3) by blast
  next
    case nskip: False
    show ?thesis
    proof (cases "latest_verified_checkpoint (ch_app ch) s")
      case None
      let ?rs = "rs0 @ [\<lparr>cr_changeset = ch_id ch, cr_status = ''waiting-for-checkpoint'', cr_checkpoint = None\<rparr>]"
      have "apply_pending pf runs d root manual chs ?rs s = (t, Inr rs)"
        using Cons.prems(1) unfolding apply_pending.simps Let_def if_not_P [OF nskip] None option.case .
      then show ?thesis by (rule Cons.IH) (use Cons.prems(2,3) in auto)
    next
      case (Some current)
      then obtain home where home: "home_site s = Some home" using Cons.prems(1) nskip by (auto simp: Let_def split: option.splits)
      let ?i = "\<lparr>ai_changeset = ch_id ch, ai_current = current, ai_coordinator = home,
            ai_database_path = (or_none (ch_database ch) \<noteq> None),
            ai_files_path = (if or_none (ch_files ch) \<noteq> None then Some (root @ [''files'']) else None),
            ai_policy = Some (snd ?p)\<rparr>"
      obtain s1 q where q: "apply_data_changeset pf (runs (ch_id ch)) d ?i s = (s1, q)" by fastforce
      have "apply_pending pf runs d root manual (ch # chs) rs0 s = (case q of Inl e \<Rightarrow> (s1, Inl e)
        | Inr r \<Rightarrow> apply_pending pf runs d root manual chs (rs0 @ [snd (report_apply ch r s1)]) (fst (report_apply ch r s1)))"
        unfolding apply_pending.simps Let_def if_not_P [OF nskip] Some option.case home q prod.case
        by (simp split: sum.split)
      then obtain r where r: "q = Inr r"
        "apply_pending pf runs d root manual chs (rs0 @ [snd (report_apply ch r s1)]) (fst (report_apply ch r s1)) = (t, Inr rs)"
        using Cons.prems(1) by (cases q) simp_all
      let ?s2 = "fst (report_apply ch r s1)"
      have core2: "core ?s2 = core s1" by (simp add: report_apply_def update_materialization_def Let_def core_def)
      obtain xs where xs: "s1 = fst (run_ops (lineage_step pf) xs s)" using apply_is_steps [OF q] by blast
      have coh: "coherent pf ?s2" using coherent_run [OF Cons.prems(2), of xs] core2 by (simp add: xs coherent_def)
      have kept: "c \<in> set (ln_changesets ?s2)" if "c \<in> set (ln_changesets s)" "ch_status c = Applied_changes" for c
      proof -
        have "c \<in> set (ln_changesets s1)"
          unfolding xs by (rule run_keeps [OF Cons.prems(2), where P = "\<lambda>s. c \<in> set (ln_changesets s)", OF that(1)])
            (rule step_keeps_applied [OF _ _ that(2)])
        then show ?thesis using core_fields(1) [OF core2] by simp
      qed
      have old: "?true rs0 ?s2" using Cons.prems(3) kept by blast
      have new: "\<exists>c \<in> set (ln_changesets ?s2). ch_id c = ch_id ch \<and> ch_status c = Applied_changes \<and> ch_result c = Some k"
        if "r = Merged_into k" for k
        using Cons.prems(2) q [unfolded r(1) that]
      proof (cases rule: apply_merged_cases)
        case (before c)
        have "c \<in> set (ln_changesets s1)" "ch_id c = ch_id ch" using changeset_row_in [OF before(2)] unfolding before(1) by simp_all
        then show ?thesis unfolding core_fields(1) [OF core2] using before(3,4) by blast
      next
        case (now c)
        have "ch_id c = ch_id ch" using changeset_row_in [OF now(1)] by simp
        with now(17) show ?thesis unfolding core_fields(1) [OF core2] by simp
      qed
      have "?true [snd (report_apply ch r s1)] ?s2"
        using new by (cases r) (simp_all add: report_apply_def Let_def)
      then have "?true (rs0 @ [snd (report_apply ch r s1)]) ?s2" using old by auto
      then show ?thesis by (rule Cons.IH [OF r(2) coh])
    qed
  qed
qed simp


text \<open>An application that throws ends the pass, and every later pass from the same state, whatever comes after it.\<close>

lemma throwing_changeset_blocks_pass:
  assumes "eligible manual s ch" "latest_verified_checkpoint (ch_app ch) s = Some current" "home_site s = Some home"
    and "apply_data_changeset pf (runs (ch_id ch)) d
           \<lparr>ai_changeset = ch_id ch, ai_current = current, ai_coordinator = home,
            ai_database_path = (or_none (ch_database ch) \<noteq> None),
            ai_files_path = (if or_none (ch_files ch) \<noteq> None then Some (root @ [''files'']) else None),
            ai_policy = Some (snd (get_data_sync_policy (ch_app ch) (Some (ch_origin ch)) s))\<rparr> s = (s1, Inl e)"
  shows "apply_pending pf runs d root manual (ch # chs) rs s = (s1, Inl e)"
proof -
  have nskip: "\<not> (fst (get_data_sync_policy (ch_app ch) (Some (ch_origin ch)) s) = Sync_none
    \<or> (fst (get_data_sync_policy (ch_app ch) (Some (ch_origin ch)) s) = Sync_manual \<and> \<not> manual))"
    using assms(1) by (cases "fst (get_data_sync_policy (ch_app ch) (Some (ch_origin ch)) s)") (simp_all add: eligible_def)
  show ?thesis
    unfolding apply_pending.simps Let_def if_not_P [OF nskip] assms(2-) option.case prod.case sum.case by (rule refl)
qed


section \<open>Hazards\<close>

text \<open>A checkpoint published from a branch without files has none, and then a branch with files cannot be applied to it.\<close>

lemma files_need_both_manifests:
  assumes "or_none (ch_files ch) \<noteq> None" "ck_files current = None"
  shows "\<exists>e. merge_files pf d i policy res ch base current s = Inl e"
  using assms by (auto simp: merge_files_def or_none_def split: option.split if_split_asm)

text \<open>The sequence is read before the first await: two captures that overlap get the same one.\<close>

lemma overlapping_captures_share_sequence:
  assumes "n = next_sequence app s" "ki_app i = app" "ki_app j = app"
  shows "2 \<le> length (filter (\<lambda>c. ck_app c = app \<and> ck_sequence c = n)
    (ln_checkpoints (fst (save_checkpoint pf j n db' m' (fst (save_checkpoint pf i n db m s))))))"
proof -
  obtain r1 where r1: "ck_app r1 = app" "ck_sequence r1 = n"
    "ln_checkpoints (fst (save_checkpoint pf i n db m s)) = ln_checkpoints s @ [r1]"
    using save_checkpoint_core [of pf i n db m s] assms(2) by (auto dest: core_fieldsD(3))
  obtain r2 where r2: "ck_app r2 = app" "ck_sequence r2 = n"
    "ln_checkpoints (fst (save_checkpoint pf j n db' m' (fst (save_checkpoint pf i n db m s)))) = (ln_checkpoints s @ [r1]) @ [r2]"
    using save_checkpoint_core [of pf j n db' m' "fst (save_checkpoint pf i n db m s)"] assms(3) r1(3) by (auto dest: core_fieldsD(3))
  show ?thesis
    by (simp add: r1 r2)
qed

section \<open>Witnesses\<close>

text \<open>An application with a home and a travelling replica, a database without tables, one shared checkpoint and one
  changeset of the travelling site.\<close>

definition blank_db :: sqlite_file where
  "blank_db = \<lparr>sf_path = ''db'', sf_integrity = [''ok''], sf_violations = 0, sf_schema = [], sf_columns = [], sf_tables = [], sf_rows = []\<rparr>"

definition trip_platform :: platform where
  "trip_platform = \<lparr>pf_sha = (\<lambda>_. ''d''), pf_ck = (\<lambda>_. []), pf_token = (\<lambda>n. replicate n CHR ''x''), pf_parse = (\<lambda>_. None),
     pf_umask = (\<lambda>m. m), pf_open = (\<lambda>_. blank_db), pf_sign = (\<lambda>_ _. ''signature'')\<rparr>"

definition trip_replica :: "string \<Rightarrow> replica" where
  "trip_replica site = \<lparr>rl_app = ''app'', rl_site = site, rl_replicated = True, rl_policy = Sync_manual, rl_shared = True,
     rl_base = None, rl_branch = None, rl_pending = 0, rl_removed = False\<rparr>"

definition trip_start :: lineage where
  "trip_start = \<lparr>ln_local_site = ''home'', ln_sites = [\<lparr>si_id = ''home'', si_home = True, si_revoked = False\<rparr>, \<lparr>si_id = ''trip'', si_home = False, si_revoked = False\<rparr>],
     ln_materializations = [], ln_policies = [\<lparr>py_app = ''app'', py_site = [], py_policy = Sync_manual, py_conflict = Collect, py_risks = [], py_revision = 1, py_updated_by = ''op''\<rparr>],
     ln_replicas = [trip_replica ''home'', trip_replica ''trip''], ln_checkpoints = [], ln_changesets = [], ln_conflicts = [], ln_profiles = [],
     ln_blobs = [], ln_artifacts = [], ln_events = [], ln_tokens = 0\<rparr>"

definition trip_session :: session_run where
  "trip_session = \<lparr>sn_execute = (\<lambda>_. Inr blank_db), sn_changeset = ''bytes'', sn_replay = Inr True, sn_replayed = blank_db\<rparr>"

definition trip_run :: "string + bool \<Rightarrow> db_run" where
  "trip_run applied = \<lparr>dr_applied = applied, dr_branch = blank_db,
     dr_staging = \<lparr>sg_native = Inr True, sg_rewrite = (\<lambda>_. Inr ()), sg_checks = Inr ([''ok''], []), sg_staged = blank_db\<rparr>, dr_output = ''merged''\<rparr>"

definition trip_capture :: "lineage_op list" where
  "trip_capture = [Create_checkpoint \<lparr>ki_app = ''app'', ki_origin = ''home'', ki_parent = None, ki_database = Some ''base'', ki_files = None,
       ki_schema = None, ki_profile = None, ki_allow_empty = False\<rparr>,
     Create_changeset trip_session \<lparr>hi_app = ''app'', hi_origin = ''trip'', hi_base = ''checkpoint_'', hi_database = Some ''branch'',
       hi_logical_path = None, hi_files = None, hi_schema = None, hi_manual = True\<rparr>]"

definition trip_apply :: apply_input where
  "trip_apply = \<lparr>ai_changeset = ''changeset_x'', ai_current = ''checkpoint_'', ai_coordinator = ''home'', ai_database_path = True,
     ai_files_path = None, ai_policy = None\<rparr>"

definition trip_captured :: lineage where
  "trip_captured = fst (run_ops (lineage_step trip_platform) trip_capture trip_start)"

definition trip_blocked :: lineage where
  "trip_blocked = fst (run_ops (lineage_step trip_platform) [Decide (trip_run (Inl ''aborted'')) [] trip_apply] trip_captured)"

lemma trip_tokens: "inj (pf_token trip_platform)"
  by (rule injI) (simp add: trip_platform_def replicate_eq_replicate)

lemma trip_reachable: "reachable_lineage trip_platform trip_captured" "reachable_lineage trip_platform trip_blocked"
proof -
  show "reachable_lineage trip_platform trip_captured"
    unfolding reachable_lineage_def trip_captured_def
    by (intro exI [of _ trip_start] exI [of _ trip_capture]) (simp add: trip_start_def)
  then show "reachable_lineage trip_platform trip_blocked" unfolding trip_blocked_def by (rule reachable_run)
qed


lemma trip_blocked_rows:
  "map (\<lambda>c. (ch_id c, ch_status c)) (ln_changesets trip_blocked) = [(''changeset_x'', Blocked_changes)]"
  by code_simp

lemma trip_blocked_changeset: "\<exists>c. c \<in> set (ln_changesets trip_blocked) \<and> ch_id c = ''changeset_x'' \<and> ch_status c = Blocked_changes"
  using trip_blocked_rows by (cases "ln_changesets trip_blocked") auto

lemma trip_merged:
  "snd (apply_data_changeset trip_platform (trip_run (Inr True)) [] trip_apply trip_captured) = Inr (Merged_into ''checkpoint_xx'')"
  by code_simp

lemma trip_pending: "map (\<lambda>c. (ch_id c, ch_status c)) (ln_changesets trip_captured) = [(''changeset_x'', Pending_changes)]"
  by code_simp

lemma trip_checkpoints: "map (\<lambda>c. (ck_id c, ck_app c)) (ln_checkpoints trip_captured) = [(''checkpoint_'', ''app'')]"
  by code_simp

lemma trip_pass:
  "case apply_pending trip_platform (\<lambda>_. trip_run (Inr True)) [] [] True (pending_for_origin ''trip'' None trip_captured) [] trip_captured of
     (t, Inr rs) \<Rightarrow> map cr_changeset rs = [''changeset_x''] | _ \<Rightarrow> False"
  by code_simp


lemma changeset_waits_iff_conflict_open_witness:
  "\<exists>c \<in> set (ln_changesets trip_blocked). open_conflicts (ch_id c) trip_blocked \<noteq> []"
proof -
  from trip_blocked_changeset obtain c where c: "c \<in> set (ln_changesets trip_blocked)" "ch_status c = Blocked_changes" by blast
  show ?thesis using changeset_waits_iff_conflict_open [OF trip_tokens trip_reachable(2) c(1)] c by (intro bexI [OF _ c(1)]) simp
qed

lemma blocked_branch_never_merges_witness:
  "\<exists>m ids. apply_data_changeset trip_platform (trip_run (Inr True)) [] trip_apply
       (fst (run_ops (lineage_step trip_platform) [Resolve ''conflict_xx'' (Choose Take_home)] trip_blocked))
     = (fst (run_ops (lineage_step trip_platform) [Resolve ''conflict_xx'' (Choose Take_home)] trip_blocked), Inr (Waiting m ids)) \<and> m \<noteq> Merged \<and> ids \<noteq> []"
proof -
  from trip_blocked_changeset obtain c where c: "c \<in> set (ln_changesets trip_blocked)" "ch_id c = ''changeset_x''" "ch_status c = Blocked_changes" by blast
  have i: "ai_changeset trip_apply = ch_id c" using c(2) by (simp add: trip_apply_def)
  show ?thesis by (rule blocked_branch_never_merges [OF trip_tokens trip_reachable(2) c(1,3) refl i])
qed

lemma changeset_is_applied_once_witness:
  "\<exists>t. apply_data_changeset trip_platform (trip_run (Inl ''aborted'')) [] trip_apply t = (t, Inr (Merged_into ''checkpoint_xx''))"
proof -
  obtain t where t: "apply_data_changeset trip_platform (trip_run (Inr True)) [] trip_apply trip_captured = (t, Inr (Merged_into ''checkpoint_xx''))"
    using trip_merged by (metis surjective_pairing)
  have "t = fst (run_ops (lineage_step trip_platform) [] t)" by simp
  from changeset_is_applied_once [OF trip_tokens trip_reachable(1) t this refl] show ?thesis by blast
qed


lemma retention_waits_for_laggards_witness:
  "\<exists>waiting. (''checkpoint_'', waiting) \<in> set (list_checkpoint_retention_blockers ''app'' trip_captured)"
proof -
  obtain c where c: "ln_checkpoints trip_captured = [c]" "ck_id c = ''checkpoint_''" "ck_app c = ''app''"
    using trip_checkpoints by (cases "ln_checkpoints trip_captured") auto
  have "c \<in> set (ln_checkpoints trip_captured)" using c(1) by simp
  from retention_waits_for_laggards [OF trip_tokens trip_reachable(1) this c(3)] c(2) show ?thesis by auto
qed


end
