(* ===== verification/FleetGuard.thy ===== *)
theory FleetGuard
  imports ChangePlan
begin

text \<open>
  \<open>fleet-mutation-guard.ts\<close>: before an application is deleted or changed destructively, every suitcase that holds a
  replica of it has to acknowledge a request. Requests and acknowledgements are events of the fleet log, kept in the
  order of insertion; a payload is kept as what \<open>JSON.parse\<close> makes of it (\<open>None\<close> when it throws). The random part of the
  n-th event id and its time are \<open>cl_token n\<close> and \<open>cl_now n\<close>; nothing is assumed of the clock. Signatures, the
  check of a suitcase's own membership file and the fixed texts of the instructions are not modelled.
\<close>

section \<open>Tables\<close>

record fleet_site =
  fs_id :: string
  fs_name :: string
  fs_suitcase :: bool
  fs_mode :: string
  fs_credential :: string
  fs_revoked :: "string option"
  fs_contact :: "int option"

record fleet_replica =
  fp_app :: string
  fp_site :: string
  fp_removed :: bool
  fp_contact :: "int option"
  fp_policy_event :: "string option"
  fp_created :: string

datatype fleet_operation = Mutation_requested | Mutation_acknowledged | Other_operation string

record fleet_event =
  fe_id :: string
  fe_origin :: string
  fe_sequence :: nat
  fe_app :: "string option"
  fe_actor :: string
  fe_operation :: fleet_operation
  fe_payload :: "jsv option"
  fe_parent :: "string option"
  fe_created :: string

record fleet =
  fl_home :: string
  fl_applications :: "(string \<times> string) list"
  fl_sites :: "fleet_site list"
  fl_replicas :: "fleet_replica list"
  fl_events :: "fleet_event list"
  fl_tokens :: nat

record event_clock =
  cl_token :: "nat \<Rightarrow> string"
  cl_now :: "nat \<Rightarrow> string"

definition append_event ::
    "event_clock \<Rightarrow> string \<Rightarrow> string \<Rightarrow> string \<Rightarrow> fleet_operation \<Rightarrow> jsv \<Rightarrow> string option \<Rightarrow> fleet \<Rightarrow> fleet" where
  "append_event cl origin app actor operation payload parent s =
     (let n = fl_tokens s; sequence = fold max (map fe_sequence (filter (\<lambda>e. fe_origin e = origin) (fl_events s))) 0 + 1 in
      s\<lparr>fl_events := fl_events s @ [\<lparr>fe_id = ''event_'' @ cl_token cl n, fe_origin = origin, fe_sequence = sequence,
          fe_app = (if app = [] then None else Some app),
          fe_actor = actor, fe_operation = operation, fe_payload = Some payload, fe_parent = parent, fe_created = cl_now cl n\<rparr>],
        fl_tokens := n + 1\<rparr>)"

section \<open>The gate\<close>

datatype mutation_kind = Application_delete | Destructive_graph_change

fun mutation_text :: "mutation_kind \<Rightarrow> string" where
  "mutation_text Application_delete = ''application-delete''"
| "mutation_text Destructive_graph_change = ''destructive-graph-change''"

definition parse_payload :: "jsv option \<Rightarrow> jsv" where
  "parse_payload p = (case p of Some v \<Rightarrow> if is_record v then v else Obj [] | None \<Rightarrow> Obj [])"

definition strings_of_array :: "jsv \<Rightarrow> string list" where
  "strings_of_array v = (case v of Arr xs \<Rightarrow> map str_of (filter is_str xs) | _ \<Rightarrow> [])"

record replica_row =
  rr_site :: string
  rr_name :: string
  rr_mode :: string
  rr_credential :: string
  rr_revoked :: "string option"
  rr_contact :: "int option"
  rr_token :: string

text \<open>The join of replicas and suitcases; the token of a selection is the last policy event, or else the creation.\<close>

definition replica_rows :: "string \<Rightarrow> fleet \<Rightarrow> replica_row list" where
  "replica_rows app s =
     List.map_filter (\<lambda>r. case find (\<lambda>t. fs_id t = fp_site r) (fl_sites s) of
         Some t \<Rightarrow>
           if fp_app r = app \<and> \<not> fp_removed r \<and> fs_suitcase t then
             Some \<lparr>rr_site = fp_site r, rr_name = fs_name t, rr_mode = fs_mode t, rr_credential = fs_credential t,
                   rr_revoked = fs_revoked t, rr_contact = (case fp_contact r of Some c \<Rightarrow> Some c | None \<Rightarrow> fs_contact t),
                   rr_token = (case fp_policy_event r of Some e \<Rightarrow> e | None \<Rightarrow> fp_created r)\<rparr>
           else None
       | None \<Rightarrow> None) (fl_replicas s)"

definition active_suitcase_replicas :: "string \<Rightarrow> fleet \<Rightarrow> replica_row list" where
  "active_suitcase_replicas app s = sort_key rr_name (sort_key rr_site (replica_rows app s))"

definition mutation_rows :: "fleet \<Rightarrow> fleet_event list" where
  "mutation_rows s = sort_key fe_created (sort_key fe_id
     (filter (\<lambda>e. fe_operation e = Mutation_requested \<or> fe_operation e = Mutation_acknowledged) (fl_events s)))"

definition request_matches ::
    "string \<Rightarrow> mutation_kind \<Rightarrow> string \<Rightarrow> (string \<times> string) list \<Rightarrow> string \<Rightarrow> fleet_event \<Rightarrow> bool" where
  "request_matches app kind fingerprint actives home row =
     (let payload = parse_payload (fe_payload row);
          targets = strings_of_array (fld payload ''targetSiteIds'');
          given = fld payload ''targetReplicaTokens'';
          tokens = (if is_record given then given else Obj []) in
      fe_operation row = Mutation_requested \<and> fe_origin row = home \<and> fe_app row = Some app
      \<and> fld payload ''kind'' = Str (mutation_text kind) \<and> fld payload ''mutationFingerprint'' = Str fingerprint
      \<and> list_all (\<lambda>(site, token). site \<in> set targets \<and> fld tokens site = Str token) actives)"

definition is_acknowledgement :: "string \<Rightarrow> string \<Rightarrow> string \<Rightarrow> fleet_event \<Rightarrow> bool" where
  "is_acknowledgement request site fingerprint row =
     (let payload = parse_payload (fe_payload row) in
      fe_operation row = Mutation_acknowledged \<and> fe_parent row = Some request \<and> fe_origin row = site
      \<and> fld payload ''requestId'' = Str request \<and> fld payload ''requestedSiteId'' = Str site
      \<and> fld payload ''mutationFingerprint'' = Str fingerprint)"

definition last_of :: "'a list \<Rightarrow> 'a option" where
  "last_of xs = (if xs = [] then None else Some (last xs))"

definition acknowledged_at :: "fleet_event list \<Rightarrow> string \<Rightarrow> string \<Rightarrow> string \<Rightarrow> string option" where
  "acknowledged_at rows request site fingerprint =
     map_option fe_created (last_of (filter (is_acknowledgement request site fingerprint) rows))"

record replica_status =
  rp_row :: replica_row
  rp_acknowledged_at :: "string option"

definition acknowledged :: "replica_status \<Rightarrow> bool" where
  "acknowledged r = (case rp_acknowledged_at r of Some t \<Rightarrow> t \<noteq> [] | None \<Rightarrow> False)"

record mutation_gate =
  ga_ready :: bool
  ga_request :: "string option"
  ga_app :: string
  ga_name :: string
  ga_kind :: mutation_kind
  ga_fingerprint :: string
  ga_consequence :: string
  ga_replicas :: "replica_status list"
  ga_blockers :: "replica_status list"

record mutation_input =
  mu_app :: string
  mu_name :: "string option"
  mu_kind :: mutation_kind
  mu_fingerprint :: string
  mu_consequence :: string
  mu_actor :: string

definition build_gate :: "mutation_input \<Rightarrow> string \<Rightarrow> fleet_event option \<Rightarrow> fleet_event list \<Rightarrow> replica_row list \<Rightarrow> mutation_gate" where
  "build_gate i name request rows replicas =
     (let statuses = map (\<lambda>r. \<lparr>rp_row = r, rp_acknowledged_at = (case request of
              None \<Rightarrow> None | Some q \<Rightarrow> acknowledged_at rows (fe_id q) (rr_site r) (mu_fingerprint i))\<rparr>) replicas;
          blockers = filter (\<lambda>r. \<not> acknowledged r) statuses in
      \<lparr>ga_ready = (blockers = []), ga_request = map_option fe_id request, ga_app = mu_app i, ga_name = name, ga_kind = mu_kind i,
       ga_fingerprint = mu_fingerprint i, ga_consequence = mu_consequence i, ga_replicas = statuses, ga_blockers = blockers\<rparr>)"

definition application_name :: "mutation_input \<Rightarrow> fleet \<Rightarrow> string option" where
  "application_name i s =
     (case mu_name i of
        Some n \<Rightarrow> if n \<noteq> [] then Some n else map_of (fl_applications s) (mu_app i)
      | None \<Rightarrow> map_of (fl_applications s) (mu_app i))"

definition matching_request :: "mutation_input \<Rightarrow> fleet \<Rightarrow> fleet_event option" where
  "matching_request i s =
     last_of (filter (request_matches (mu_app i) (mu_kind i) (mu_fingerprint i)
        (map (\<lambda>r. (rr_site r, rr_token r)) (active_suitcase_replicas (mu_app i) s)) (fl_home s)) (mutation_rows s))"

definition inspect_fleet_mutation :: "mutation_input \<Rightarrow> fleet \<Rightarrow> string + mutation_gate" where
  "inspect_fleet_mutation i s =
     (case application_name i s of
        None \<Rightarrow> Inl ''Application not found''
      | Some name \<Rightarrow> Inr (build_gate i name (matching_request i s) (mutation_rows s) (active_suitcase_replicas (mu_app i) s)))"

definition request_payload :: "mutation_input \<Rightarrow> mutation_gate \<Rightarrow> fleet \<Rightarrow> jsv" where
  "request_payload i g s =
     Obj [(''kind'', Str (mutation_text (mu_kind i))), (''mutationFingerprint'', Str (mu_fingerprint i)),
          (''applicationName'', Str (ga_name g)),
          (''targetSiteIds'', Arr (map (\<lambda>r. Str (rr_site (rp_row r))) (ga_replicas g))),
          (''targetReplicaTokens'', mk_obj (map (\<lambda>r. (rr_site r, Str (rr_token r))) (active_suitcase_replicas (mu_app i) s))),
          (''consequence'', Str (mu_consequence i))]"

definition prepare_fleet_mutation :: "event_clock \<Rightarrow> mutation_input \<Rightarrow> fleet \<Rightarrow> fleet \<times> (string + mutation_gate)" where
  "prepare_fleet_mutation cl i s =
     (case inspect_fleet_mutation i s of
        Inl e \<Rightarrow> (s, Inl e)
      | Inr g \<Rightarrow>
          if ga_ready g \<or> (ga_request g \<noteq> None \<and> ga_request g \<noteq> Some []) then (s, Inr g)
          else (let s' = append_event cl (fl_home s) (mu_app i) (mu_actor i) Mutation_requested (request_payload i g s) None s in
            case inspect_fleet_mutation i s' of
              Inl e \<Rightarrow> (s', Inl e)
            | Inr g' \<Rightarrow> if ga_request g' = None \<or> ga_request g' = Some [] then (s', Inl ''Fleet mutation request could not be persisted'')
                        else (s', Inr g')))"

datatype guard_error = Guard_failed string | Acknowledgement_required mutation_gate

definition assert_fleet_mutation_ready :: "event_clock \<Rightarrow> mutation_input \<Rightarrow> fleet \<Rightarrow> fleet \<times> (guard_error + mutation_gate)" where
  "assert_fleet_mutation_ready cl i s =
     (case prepare_fleet_mutation cl i s of
        (s, Inl e) \<Rightarrow> (s, Inl (Guard_failed e))
      | (s, Inr g) \<Rightarrow> (s, if ga_ready g then Inr g else Inl (Acknowledgement_required g)))"

section \<open>Acknowledging\<close>

record pending_request =
  pq_request :: string
  pq_app :: string
  pq_kind :: mutation_kind
  pq_fingerprint :: string
  pq_consequence :: string

text \<open>\<open>String(x || '')\<close> of a payload field; every field the code writes there is a string.\<close>

definition text_field :: "jsv \<Rightarrow> string \<Rightarrow> string" where
  "text_field payload k = (if is_str (fld payload k) then str_of (fld payload k) else [])"

definition kind_of_text :: "jsv \<Rightarrow> mutation_kind option" where
  "kind_of_text v =
     (if v = Str ''application-delete'' then Some Application_delete
      else if v = Str ''destructive-graph-change'' then Some Destructive_graph_change else None)"

definition has_replica :: "string \<Rightarrow> string \<Rightarrow> fleet \<Rightarrow> bool" where
  "has_replica app site s = list_ex (\<lambda>r. fp_app r = app \<and> fp_site r = site \<and> \<not> fp_removed r) (fl_replicas s)"

definition pending_request_of :: "string \<Rightarrow> fleet \<Rightarrow> fleet_event \<Rightarrow> pending_request option" where
  "pending_request_of site s row =
     (let payload = parse_payload (fe_payload row); fingerprint = text_field payload ''mutationFingerprint'' in
      case (fe_app row, kind_of_text (fld payload ''kind'')) of
        (Some app, Some kind) \<Rightarrow>
          if fe_operation row = Mutation_requested \<and> fe_origin row = fl_home s \<and> app \<noteq> []
             \<and> site \<in> set (strings_of_array (fld payload ''targetSiteIds''))
             \<and> (case acknowledged_at (mutation_rows s) (fe_id row) site fingerprint of Some t \<Rightarrow> t = [] | None \<Rightarrow> True)
             \<and> has_replica app site s \<and> fingerprint \<noteq> []
          then Some \<lparr>pq_request = fe_id row, pq_app = app, pq_kind = kind, pq_fingerprint = fingerprint,
                     pq_consequence = text_field payload ''consequence''\<rparr>
          else None
      | _ \<Rightarrow> None)"

definition pending_fleet_mutation_requests :: "string \<Rightarrow> fleet \<Rightarrow> pending_request list" where
  "pending_fleet_mutation_requests site s = List.map_filter (pending_request_of site s) (mutation_rows s)"

definition acknowledgement_payload :: "string \<Rightarrow> string \<Rightarrow> pending_request \<Rightarrow> jsv" where
  "acknowledgement_payload site home q =
     Obj [(''requestId'', Str (pq_request q)), (''requestedSiteId'', Str site), (''targetSiteId'', Str home),
          (''kind'', Str (mutation_text (pq_kind q))), (''mutationFingerprint'', Str (pq_fingerprint q)), (''consequenceAccepted'', Bool True)]"

definition acknowledge_request :: "event_clock \<Rightarrow> string \<Rightarrow> string \<Rightarrow> pending_request \<Rightarrow> fleet \<Rightarrow> fleet" where
  "acknowledge_request cl site home q s =
     append_event cl site (pq_app q) (''system@'' @ site) Mutation_acknowledged (acknowledgement_payload site home q) (Some (pq_request q)) s"

definition acknowledge_pending :: "event_clock \<Rightarrow> string \<Rightarrow> string \<Rightarrow> fleet \<Rightarrow> fleet \<times> string list" where
  "acknowledge_pending cl site home s =
     (let requests = pending_fleet_mutation_requests site s in
      (fold (acknowledge_request cl site home) requests s, map pq_request requests))"

section \<open>Routing of the control events\<close>

definition is_control_operation :: "fleet_operation \<Rightarrow> bool" where
  "is_control_operation operation \<longleftrightarrow> operation = Mutation_requested \<or> operation = Mutation_acknowledged"

definition control_targets :: "fleet_event \<Rightarrow> string list" where
  "control_targets e =
     (let payload = parse_payload (fe_payload e) in
      if \<not> is_control_operation (fe_operation e) then []
      else if fe_operation e = Mutation_requested then strings_of_array (fld payload ''targetSiteIds'')
      else if is_str (fld payload ''targetSiteId'') then [str_of (fld payload ''targetSiteId'')] else [])"

definition application_delete_fingerprint :: "string \<Rightarrow> string" where
  "application_delete_fingerprint app = ''application-delete:'' @ app @ '':v1''"

definition destructive_graph_fingerprint :: "string \<Rightarrow> string \<Rightarrow> string" where
  "destructive_graph_fingerprint app candidate = ''destructive-graph:'' @ app @ '':'' @ candidate"

section \<open>Which plans need it\<close>

text \<open>\<open>/^\/components\/([^/]+)$/\<close>, with the escapes of the pointer undone.\<close>

definition component_of_address :: "string \<Rightarrow> string option" where
  "component_of_address address =
     (let rest = drop 12 address in
      if starts_with address ''/components/'' \<and> rest \<noteq> [] \<and> CHR ''/'' \<notin> set rest then Some (unescape_part rest) else None)"

definition incompatible_rollout :: "jsv \<Rightarrow> action \<Rightarrow> bool" where
  "incompatible_rollout desired a =
     (list_ex (\<lambda>t. ends_with t ''/beforeTraffic'' \<or> ends_with t ''/rollout/schemaOverlap'') (act_changed a)
      \<or> ((act_class a = Component_recreate \<or> act_class a = Component_rolling_restart)
         \<and> (case component_of_address (act_address a) of
              None \<Rightarrow> False
            | Some c \<Rightarrow> fld (fld (fld (fld desired ''components'') c) ''rollout'') ''schemaOverlap'' = Str ''incompatible'')))"

definition requires_fleet_acknowledgement :: "change_plan option \<Rightarrow> jsv \<Rightarrow> bool" where
  "requires_fleet_acknowledgement plan desired =
     (case plan of
        None \<Rightarrow> False
      | Some p \<Rightarrow>
          plan_destructive p \<or> data_effect_of (plan_impacts p) = Data_destructive \<or> 0 < removed_instances (plan_impacts p)
          \<or> list_ex (\<lambda>a. act_class a = Component_remove \<or> act_effect a = Migration) (plan_actions p)
          \<or> list_ex (incompatible_rollout desired) (plan_actions p))"

definition blocked_message_head :: "mutation_gate \<Rightarrow> string" where
  "blocked_message_head g =
     (let n = length (ga_blockers g) in
      (case ga_kind g of Application_delete \<Rightarrow> ''Application deletion'' | Destructive_graph_change \<Rightarrow> ''Destructive graph change'')
      @ '' is waiting for '' @ nat_str n @ '' suitcase acknowledgement'' @ (if n = 1 then [] else ''s'') @ '': ''
      @ js_join '', '' (map (\<lambda>r. rr_name (rp_row r) @ '' ('' @ rr_site (rp_row r) @ '', '' @ rr_mode (rp_row r) @ '')'') (ga_blockers g)) @ ''.'')"

end
