(* ===== verification/FleetGuardProperties.thy ===== *)
theory FleetGuardProperties
  imports FleetGuard PlanProperties
begin

text \<open>
  The gate of a destructive operation: it opens only with an acknowledgement of every suitcase as it is selected now,
  and does open once all of them have synchronised; and which plans it guards.
\<close>

section \<open>The gate\<close>

definition acked :: "fleet \<Rightarrow> string \<Rightarrow> string \<Rightarrow> string \<Rightarrow> bool" where
  "acked s request site fingerprint \<longleftrightarrow> (\<exists>a \<in> set (mutation_rows s). is_acknowledgement request site fingerprint a)"

definition stamped :: "fleet \<Rightarrow> bool" where
  "stamped s \<longleftrightarrow> (\<forall>e \<in> set (fl_events s). fe_created e \<noteq> [])"

lemma last_of_in: "last_of xs = Some x \<Longrightarrow> x \<in> set xs"
  by (auto simp: last_of_def split: if_splits)

lemma acknowledged_at_Some: "acknowledged_at (mutation_rows s) q site fp = Some t \<Longrightarrow> acked s q site fp"
  by (auto simp: acknowledged_at_def acked_def dest!: last_of_in)

lemma acked_time:
  assumes "acked s q site fp" "stamped s"
  shows "\<exists>t. acknowledged_at (mutation_rows s) q site fp = Some t \<and> t \<noteq> []"
proof -
  let ?xs = "filter (is_acknowledgement q site fp) (mutation_rows s)"
  have ne: "?xs \<noteq> []" using assms(1) by (auto simp: acked_def filter_empty_conv)
  then have "last ?xs \<in> set ?xs" by (rule last_in_set)
  then have "last ?xs \<in> set (fl_events s)" by (simp add: mutation_rows_def)
  then have "fe_created (last ?xs) \<noteq> []" using assms(2) by (auto simp: stamped_def)
  then show ?thesis using ne by (simp add: acknowledged_at_def last_of_def)
qed

lemma gate_of:
  "inspect_fleet_mutation i s = Inr g \<Longrightarrow> \<exists>name. g = build_gate i name (matching_request i s) (mutation_rows s) (active_suitcase_replicas (mu_app i) s)"
  by (auto simp: inspect_fleet_mutation_def split: option.splits)

lemma gate_ready_iff:
  assumes "inspect_fleet_mutation i s = Inr g"
  shows "ga_ready g \<longleftrightarrow> (\<forall>r \<in> set (active_suitcase_replicas (mu_app i) s).
     \<exists>q t. matching_request i s = Some q \<and> acknowledged_at (mutation_rows s) (fe_id q) (rr_site r) (mu_fingerprint i) = Some t \<and> t \<noteq> [])"
proof -
  have ok: "(case x of Some t \<Rightarrow> t \<noteq> [] | None \<Rightarrow> False) \<longleftrightarrow> (\<exists>t. x = Some t \<and> t \<noteq> [])" for x :: "string option"
    by (cases x) auto
  obtain name where g: "g = build_gate i name (matching_request i s) (mutation_rows s) (active_suitcase_replicas (mu_app i) s)"
    using gate_of [OF assms] by blast
  show ?thesis
    by (cases "matching_request i s") (simp_all add: g build_gate_def Let_def acknowledged_def filter_empty_conv ok)
qed

lemma gate_request: "inspect_fleet_mutation i s = Inr g \<Longrightarrow> ga_request g = map_option fe_id (matching_request i s)"
  using gate_of by (fastforce simp: build_gate_def Let_def)

lemma matching_request_shape:
  assumes "matching_request i s = Some q"
  shows "q \<in> set (fl_events s)" "q \<in> set (mutation_rows s)" "fe_operation q = Mutation_requested" "fe_origin q = fl_home s" "fe_app q = Some (mu_app i)"
    "fld (parse_payload (fe_payload q)) ''kind'' = Str (mutation_text (mu_kind i))"
    "fld (parse_payload (fe_payload q)) ''mutationFingerprint'' = Str (mu_fingerprint i)"
    "r \<in> set (active_suitcase_replicas (mu_app i) s) \<Longrightarrow> rr_site r \<in> set (strings_of_array (fld (parse_payload (fe_payload q)) ''targetSiteIds''))
       \<and> fld (fld (parse_payload (fe_payload q)) ''targetReplicaTokens'') (rr_site r) = Str (rr_token r)"
proof -
  have q: "q \<in> set (mutation_rows s)" "request_matches (mu_app i) (mu_kind i) (mu_fingerprint i)
        (map (\<lambda>r. (rr_site r, rr_token r)) (active_suitcase_replicas (mu_app i) s)) (fl_home s) q"
    using assms by (auto simp: matching_request_def dest!: last_of_in)
  then show "q \<in> set (fl_events s)" "q \<in> set (mutation_rows s)" "fe_operation q = Mutation_requested" "fe_origin q = fl_home s" "fe_app q = Some (mu_app i)"
    "fld (parse_payload (fe_payload q)) ''kind'' = Str (mutation_text (mu_kind i))"
    "fld (parse_payload (fe_payload q)) ''mutationFingerprint'' = Str (mu_fingerprint i)"
    by (auto simp: request_matches_def Let_def mutation_rows_def)
  assume r: "r \<in> set (active_suitcase_replicas (mu_app i) s)"
  have no: "fld (Obj []) k \<noteq> Str t" for k t by (auto simp: fld_def)
  show "rr_site r \<in> set (strings_of_array (fld (parse_payload (fe_payload q)) ''targetSiteIds''))
       \<and> fld (fld (parse_payload (fe_payload q)) ''targetReplicaTokens'') (rr_site r) = Str (rr_token r)"
    using q(2) r no by (auto simp: request_matches_def Let_def list_all_iff split: if_splits)
qed

lemma append_fields [simp]:
  "fl_home (append_event cl origin app actor op payload parent s) = fl_home s"
  "fl_replicas (append_event cl origin app actor op payload parent s) = fl_replicas s"
  "fl_sites (append_event cl origin app actor op payload parent s) = fl_sites s"
  "fl_applications (append_event cl origin app actor op payload parent s) = fl_applications s"
  by (simp_all add: append_event_def Let_def)

lemma append_active [simp]:
  "active_suitcase_replicas a (append_event cl origin app actor op payload parent s) = active_suitcase_replicas a s"
  by (simp add: active_suitcase_replicas_def replica_rows_def)

lemma prepared_gate:
  assumes "prepare_fleet_mutation cl i s = (s', Inr g)"
  shows "inspect_fleet_mutation i s' = Inr g \<and> (ga_ready g \<or> ga_request g \<noteq> None)
    \<and> active_suitcase_replicas (mu_app i) s' = active_suitcase_replicas (mu_app i) s \<and> fl_home s' = fl_home s \<and> fl_replicas s' = fl_replicas s"
  using assms
  by (auto simp: prepare_fleet_mutation_def Let_def split: sum.splits if_splits)

text \<open>C15. The gate of a deletion or destructive change is ready only when, for every suitcase that holds an active replica of
  the application, the fleet log has a request of the home site for exactly this mutation that names the suitcase with the
  token of its present selection, and an acknowledgement of that very request by that suitcase. A suitcase selected again after
  the request therefore has to be asked again.\<close>
theorem gate_opens_only_acknowledged:
  assumes "assert_fleet_mutation_ready cl i s = (s', Inr g)"
  shows "\<forall>r \<in> set (active_suitcase_replicas (mu_app i) s). \<exists>q \<in> set (fl_events s'). \<exists>a \<in> set (fl_events s').
      fe_operation q = Mutation_requested \<and> fe_origin q = fl_home s \<and> fe_app q = Some (mu_app i)
      \<and> fld (parse_payload (fe_payload q)) ''kind'' = Str (mutation_text (mu_kind i))
      \<and> fld (parse_payload (fe_payload q)) ''mutationFingerprint'' = Str (mu_fingerprint i)
      \<and> rr_site r \<in> set (strings_of_array (fld (parse_payload (fe_payload q)) ''targetSiteIds''))
      \<and> fld (fld (parse_payload (fe_payload q)) ''targetReplicaTokens'') (rr_site r) = Str (rr_token r)
      \<and> is_acknowledgement (fe_id q) (rr_site r) (mu_fingerprint i) a"
proof
  fix r assume r: "r \<in> set (active_suitcase_replicas (mu_app i) s)"
  have p: "prepare_fleet_mutation cl i s = (s', Inr g)" "ga_ready g"
    using assms by (auto simp: assert_fleet_mutation_ready_def split: prod.splits sum.splits if_splits)
  note pg = prepared_gate [OF p(1)]
  have r': "r \<in> set (active_suitcase_replicas (mu_app i) s')" using r pg by simp
  with gate_ready_iff [of i s' g] pg p(2) obtain q t where q: "matching_request i s' = Some q"
    "acknowledged_at (mutation_rows s') (fe_id q) (rr_site r) (mu_fingerprint i) = Some t" by blast
  from acknowledged_at_Some [OF q(2)] obtain a where "a \<in> set (fl_events s')" "is_acknowledgement (fe_id q) (rr_site r) (mu_fingerprint i) a"
    by (auto simp: acked_def mutation_rows_def)
  then show "\<exists>q \<in> set (fl_events s'). \<exists>a \<in> set (fl_events s').
      fe_operation q = Mutation_requested \<and> fe_origin q = fl_home s \<and> fe_app q = Some (mu_app i)
      \<and> fld (parse_payload (fe_payload q)) ''kind'' = Str (mutation_text (mu_kind i))
      \<and> fld (parse_payload (fe_payload q)) ''mutationFingerprint'' = Str (mu_fingerprint i)
      \<and> rr_site r \<in> set (strings_of_array (fld (parse_payload (fe_payload q)) ''targetSiteIds''))
      \<and> fld (fld (parse_payload (fe_payload q)) ''targetReplicaTokens'') (rr_site r) = Str (rr_token r)
      \<and> is_acknowledgement (fe_id q) (rr_site r) (mu_fingerprint i) a"
    using matching_request_shape(1,3-7) [OF q(1)] matching_request_shape(8) [OF q(1) r'] pg
    by (intro bexI [of _ q] bexI [of _ a]) simp_all
qed

section \<open>Opening the gate\<close>

text \<open>Events that are not requests do not change which request counts, and acknowledgements are never lost.\<close>

lemma mutation_rows_append:
  "set (mutation_rows (append_event cl origin app actor Mutation_acknowledged payload parent s)) =
     insert (last (fl_events (append_event cl origin app actor Mutation_acknowledged payload parent s))) (set (mutation_rows s))"
  by (simp add: mutation_rows_def append_event_def Let_def)

lemma filter_requests:
  "filter (request_matches a k f as h) (mutation_rows s) =
     sort_key fe_created (sort_key fe_id (filter (request_matches a k f as h) (fl_events s)))"
proof -
  have "filter (request_matches a k f as h)
      (filter (\<lambda>e. fe_operation e = Mutation_requested \<or> fe_operation e = Mutation_acknowledged) (fl_events s))
    = filter (request_matches a k f as h) (fl_events s)"
    unfolding filter_filter by (rule filter_cong) (auto simp: request_matches_def Let_def)
  then show ?thesis by (simp add: mutation_rows_def filter_sort)
qed

lemma acknowledge_fields [simp]:
  "fl_home (acknowledge_request cl site home q s) = fl_home s"
  "fl_applications (acknowledge_request cl site home q s) = fl_applications s"
  "active_suitcase_replicas a (acknowledge_request cl site home q s) = active_suitcase_replicas a s"
  by (simp_all add: acknowledge_request_def)

lemma acknowledge_keeps_request:
  "matching_request i (acknowledge_request cl site home q s) = matching_request i s"
proof -
  have "filter (request_matches a k f as h) (fl_events (acknowledge_request cl site home q s)) = filter (request_matches a k f as h) (fl_events s)"
    for a k f as h
    by (simp add: acknowledge_request_def append_event_def request_matches_def Let_def)
  then show ?thesis
    by (simp add: matching_request_def filter_requests)
qed

lemma acknowledge_keeps_acked: "acked s r x f \<Longrightarrow> acked (acknowledge_request cl site home q s) r x f"
  by (auto simp: acked_def acknowledge_request_def mutation_rows_append)

lemma acknowledge_acks: "acked (acknowledge_request cl site home q s) (pq_request q) site (pq_fingerprint q)"
proof -
  have f: "fld (acknowledgement_payload site home q) ''requestId'' = Str (pq_request q)"
    "fld (acknowledgement_payload site home q) ''requestedSiteId'' = Str site"
    "fld (acknowledgement_payload site home q) ''mutationFingerprint'' = Str (pq_fingerprint q)"
    by (simp_all add: acknowledgement_payload_def fld_def)
  have rec: "is_record (acknowledgement_payload site home q)" by (simp add: acknowledgement_payload_def)
  show ?thesis
    unfolding acked_def acknowledge_request_def mutation_rows_append
    by (rule bexI [of _ "last (fl_events (acknowledge_request cl site home q s))"])
      (simp_all add: acknowledge_request_def append_event_def Let_def is_acknowledgement_def parse_payload_def f rec)
qed

lemma acknowledge_stamped: "stamped s \<Longrightarrow> (\<And>n. cl_now cl n \<noteq> []) \<Longrightarrow> stamped (acknowledge_request cl site home q s)"
  by (auto simp: stamped_def acknowledge_request_def append_event_def Let_def)

text \<open>What a list of acknowledgements keeps and adds.\<close>

lemma acknowledge_all:
  assumes "stamped s" "\<And>n. cl_now cl n \<noteq> []"
  shows "let t = fold (acknowledge_request cl site home) qs s in
    stamped t \<and> matching_request i t = matching_request i s \<and> fl_home t = fl_home s \<and> fl_applications t = fl_applications s
    \<and> (\<forall>a. active_suitcase_replicas a t = active_suitcase_replicas a s)
    \<and> (\<forall>r x f. acked s r x f \<longrightarrow> acked t r x f) \<and> (\<forall>q \<in> set qs. acked t (pq_request q) site (pq_fingerprint q))"
  using assms(1)
proof (induction qs arbitrary: s)
  case (Cons q qs)
  from Cons.IH [OF acknowledge_stamped [OF Cons.prems assms(2)], of site home q]
  show ?case
    using acknowledge_keeps_acked [of s _ _ _ cl site home q] acknowledge_acks [of cl site home q s] acknowledge_keeps_request [of i cl site home q s]
    by (simp add: Let_def)
qed simp

lemma in_map_filter: "x \<in> set (List.map_filter f xs) \<longleftrightarrow> (\<exists>y \<in> set xs. f y = Some x)"
  by (induction xs) (auto simp: List.map_filter_simps split: option.splits)

lemma active_replica_present:
  assumes "r \<in> set (active_suitcase_replicas app s)"
  shows "has_replica app (rr_site r) s"
proof -
  from assms obtain x where x: "x \<in> set (fl_replicas s)"
    "(case find (\<lambda>t. fs_id t = fp_site x) (fl_sites s) of
         Some t \<Rightarrow>
           if fp_app x = app \<and> \<not> fp_removed x \<and> fs_suitcase t then
             Some \<lparr>rr_site = fp_site x, rr_name = fs_name t, rr_mode = fs_mode t, rr_credential = fs_credential t,
                   rr_revoked = fs_revoked t, rr_contact = (case fp_contact x of Some c \<Rightarrow> Some c | None \<Rightarrow> fs_contact t),
                   rr_token = (case fp_policy_event x of Some e \<Rightarrow> e | None \<Rightarrow> fp_created x)\<rparr>
           else None
       | None \<Rightarrow> None) = Some r"
    by (auto simp: active_suitcase_replicas_def replica_rows_def in_map_filter)
  then have "fp_app x = app" "\<not> fp_removed x" "fp_site x = rr_site r"
    by (auto split: option.splits if_splits)
  then show ?thesis using x(1) by (auto simp: has_replica_def list_ex_iff)
qed

lemma pending_of_match:
  assumes q: "matching_request i s = Some q" and r: "r \<in> set (active_suitcase_replicas (mu_app i) s)"
    and ne: "mu_app i \<noteq> []" "mu_fingerprint i \<noteq> []" and new: "\<not> acked s (fe_id q) (rr_site r) (mu_fingerprint i)"
  shows "\<exists>p \<in> set (pending_fleet_mutation_requests (rr_site r) s). pq_request p = fe_id q \<and> pq_fingerprint p = mu_fingerprint i"
proof -
  note sh = matching_request_shape(2-7) [OF q] matching_request_shape(8) [OF q r]
  have k: "kind_of_text (Str (mutation_text (mu_kind i))) = Some (mu_kind i)" by (cases "mu_kind i") (simp_all add: kind_of_text_def)
  have "acknowledged_at (mutation_rows s) (fe_id q) (rr_site r) (mu_fingerprint i) = None"
    using new acknowledged_at_Some by (cases "acknowledged_at (mutation_rows s) (fe_id q) (rr_site r) (mu_fingerprint i)") auto
  then have "pending_request_of (rr_site r) s q = Some \<lparr>pq_request = fe_id q, pq_app = mu_app i, pq_kind = mu_kind i,
      pq_fingerprint = mu_fingerprint i, pq_consequence = text_field (parse_payload (fe_payload q)) ''consequence''\<rparr>"
    using sh k ne active_replica_present [OF r] by (simp add: pending_request_of_def Let_def text_field_def)
  then show ?thesis using sh(1)
    by (intro bexI [of _ "\<lparr>pq_request = fe_id q, pq_app = mu_app i, pq_kind = mu_kind i,
      pq_fingerprint = mu_fingerprint i, pq_consequence = text_field (parse_payload (fe_payload q)) ''consequence''\<rparr>"])
      (auto simp: pending_fleet_mutation_requests_def in_map_filter)
qed

lemma site_acknowledges:
  assumes st: "stamped s" "\<And>n. cl_now cl n \<noteq> []" and ne: "mu_app i \<noteq> []" "mu_fingerprint i \<noteq> []"
    and t: "t = fst (acknowledge_pending cl site home s)"
  shows "stamped t \<and> matching_request i t = matching_request i s \<and> fl_home t = fl_home s \<and> fl_applications t = fl_applications s
    \<and> active_suitcase_replicas (mu_app i) t = active_suitcase_replicas (mu_app i) s
    \<and> (\<forall>q x f. acked s q x f \<longrightarrow> acked t q x f)
    \<and> (\<forall>q. matching_request i s = Some q \<and> site \<in> rr_site ` set (active_suitcase_replicas (mu_app i) s) \<longrightarrow> acked t (fe_id q) site (mu_fingerprint i))"
proof -
  have t': "t = fold (acknowledge_request cl site home) (pending_fleet_mutation_requests site s) s"
    using t by (simp add: acknowledge_pending_def Let_def)
  note all = acknowledge_all [OF st, of site home "pending_fleet_mutation_requests site s" i, unfolded Let_def, folded t']
  have "acked t (fe_id q) site (mu_fingerprint i)"
    if q: "matching_request i s = Some q" and x: "site \<in> rr_site ` set (active_suitcase_replicas (mu_app i) s)" for q
  proof (cases "acked s (fe_id q) site (mu_fingerprint i)")
    case True
    then show ?thesis using all by blast
  next
    case False
    from x obtain r where r: "r \<in> set (active_suitcase_replicas (mu_app i) s)" "site = rr_site r" by blast
    from pending_of_match [OF q r(1) ne] False r(2) obtain p where
      "p \<in> set (pending_fleet_mutation_requests site s)" "pq_request p = fe_id q" "pq_fingerprint p = mu_fingerprint i" by auto
    then show ?thesis using all by metis
  qed
  then show ?thesis using all by blast
qed

lemma sites_acknowledge:
  assumes "stamped s" "\<And>n. cl_now cl n \<noteq> []" "mu_app i \<noteq> []" "mu_fingerprint i \<noteq> []"
  shows "let t = fold (\<lambda>site s. fst (acknowledge_pending cl site (fl_home s) s)) sites s in
    stamped t \<and> matching_request i t = matching_request i s \<and> fl_applications t = fl_applications s
    \<and> active_suitcase_replicas (mu_app i) t = active_suitcase_replicas (mu_app i) s
    \<and> (\<forall>q x f. acked s q x f \<longrightarrow> acked t q x f)
    \<and> (\<forall>q. matching_request i s = Some q \<longrightarrow> (\<forall>site \<in> set sites. site \<in> rr_site ` set (active_suitcase_replicas (mu_app i) s)
          \<longrightarrow> acked t (fe_id q) site (mu_fingerprint i)))"
  using assms(1)
proof (induction sites arbitrary: s)
  case (Cons x xs)
  let ?s = "fst (acknowledge_pending cl x (fl_home s) s)"
  note one = site_acknowledges [OF Cons.prems assms(2-4) refl, of x "fl_home s"]
  then have st: "stamped ?s" by blast
  note rest = Cons.IH [OF st, unfolded Let_def]
  show ?case unfolding fold.simps comp_def Let_def using one rest by simp
qed simp

lemma inspect_again:
  assumes "inspect_fleet_mutation i s = Inr g" "fl_applications t = fl_applications s"
  shows "\<exists>g'. inspect_fleet_mutation i t = Inr g'"
proof -
  have "application_name i t = application_name i s" using assms(2) by (simp add: application_name_def split: option.split)
  then show ?thesis using assms(1) by (auto simp: inspect_fleet_mutation_def split: option.splits)
qed

text \<open>C16. A prepared mutation goes through once every suitcase with an active replica has synchronised: after the request, and one
  acknowledgement pass by each of them in any order (others may join in), the assertion succeeds and changes nothing more.\<close>
theorem acknowledged_mutation_proceeds:
  assumes prep: "prepare_fleet_mutation cl i s = (s1, Inr g)" and st: "stamped s" "\<forall>n. cl_now cl n \<noteq> []"
    and ne: "mu_app i \<noteq> []" "mu_fingerprint i \<noteq> []"
    and all: "\<forall>r \<in> set (active_suitcase_replicas (mu_app i) s). rr_site r \<in> set sites"
    and s2: "s2 = fold (\<lambda>site s. fst (acknowledge_pending cl site (fl_home s) s)) sites s1"
  shows "\<exists>g'. assert_fleet_mutation_ready cl i s2 = (s2, Inr g')"
proof -
  note pg = prepared_gate [OF prep]
  have st1: "stamped s1"
    using prep st by (auto simp: prepare_fleet_mutation_def Let_def stamped_def append_event_def split: sum.splits if_splits)
  have now: "\<And>n. cl_now cl n \<noteq> []" using st(2) by blast
  note done2 = sites_acknowledge [OF st1 now ne, of sites, unfolded Let_def, folded s2]
  obtain g' where g': "inspect_fleet_mutation i s2 = Inr g'" using inspect_again [of i s1 g s2] pg done2 by blast
  have "ga_ready g'"
    unfolding gate_ready_iff [OF g']
  proof
    fix r assume "r \<in> set (active_suitcase_replicas (mu_app i) s2)"
    then have r: "r \<in> set (active_suitcase_replicas (mu_app i) s1)" "rr_site r \<in> set sites" using done2 pg all by auto
    have "matching_request i s1 \<noteq> None"
      using pg gate_ready_iff [of i s1 g] gate_request [of i s1 g] r(1) by auto
    then obtain q where q: "matching_request i s1 = Some q" by blast
    then have "acked s2 (fe_id q) (rr_site r) (mu_fingerprint i)" using done2 r by blast
    from acked_time [OF this] done2 q show "\<exists>q t. matching_request i s2 = Some q
        \<and> acknowledged_at (mutation_rows s2) (fe_id q) (rr_site r) (mu_fingerprint i) = Some t \<and> t \<noteq> []" by auto
  qed
  then show ?thesis using g' by (simp add: assert_fleet_mutation_ready_def prepare_fleet_mutation_def)
qed

text \<open>The same holds for ever: an acknowledgement is not bound to an attempt, so a mutation acknowledged once passes at any later
  time, as long as the replicas are selected as they were.\<close>

lemma acknowledgement_never_expires:
  assumes "assert_fleet_mutation_ready cl i s = (s, Inr g)" "stamped s"
    and "fl_events s' = fl_events s @ es" "\<forall>e \<in> set es. fe_operation e \<noteq> Mutation_requested \<and> fe_created e \<noteq> []"
    and "fl_home s' = fl_home s" "fl_replicas s' = fl_replicas s" "fl_sites s' = fl_sites s" "fl_applications s' = fl_applications s"
  shows "\<exists>g'. assert_fleet_mutation_ready cl i s' = (s', Inr g')"
proof -
  have p: "prepare_fleet_mutation cl i s = (s, Inr g)" "ga_ready g"
    using assms(1) by (auto simp: assert_fleet_mutation_ready_def split: prod.splits sum.splits if_splits)
  note pg = prepared_gate [OF p(1)]
  have act: "active_suitcase_replicas a s' = active_suitcase_replicas a s" for a
    using assms(6,7) by (simp add: active_suitcase_replicas_def replica_rows_def)
  have none: "filter (request_matches a k f as h) es = []" for a k f as h
    using assms(4) by (auto simp: filter_empty_conv request_matches_def Let_def)
  have rows: "set (mutation_rows s) \<subseteq> set (mutation_rows s')"
    using assms(3) by (auto simp: mutation_rows_def)
  have m: "matching_request i s' = matching_request i s"
    unfolding matching_request_def act assms(5) filter_requests assms(3) filter_append none by simp
  obtain g' where g': "inspect_fleet_mutation i s' = Inr g'" using inspect_again [of i s g s'] pg assms(8) by blast
  have st: "stamped s'" using assms(2-4) by (auto simp: stamped_def)
  have "ga_ready g'"
    unfolding gate_ready_iff [OF g'] act m
  proof
    fix r assume r: "r \<in> set (active_suitcase_replicas (mu_app i) s)"
    with gate_ready_iff [of i s g] pg p(2) obtain q t where q: "matching_request i s = Some q"
      "acknowledged_at (mutation_rows s) (fe_id q) (rr_site r) (mu_fingerprint i) = Some t" by blast
    from acknowledged_at_Some [OF q(2)] have "acked s' (fe_id q) (rr_site r) (mu_fingerprint i)" using rows by (auto simp: acked_def)
    from acked_time [OF this st] q show "\<exists>q t. matching_request i s = Some q
        \<and> acknowledged_at (mutation_rows s') (fe_id q) (rr_site r) (mu_fingerprint i) = Some t \<and> t \<noteq> []" by auto
  qed
  then show ?thesis using g' by (simp add: assert_fleet_mutation_ready_def prepare_fleet_mutation_def)
qed


section \<open>Guarded plans\<close>

lemma removed_component_in_plan:
  assumes s: "normalized_spec s" and t: "normalized_spec t"
    and c: "collect_unsupported_shape ck s = []" "collect_unsupported_shape ck t = []"
    and k: "has_own (fld s ''components'') k" "\<not> has_own (fld t ''components'') k"
  shows "\<exists>a \<in> set (plan_actions (plan_application_change ck s t ctx)). act_class a = Component_remove"
proof -
  have n: "node_section (fld s ''components'')" "node_section (fld t ''components'')"
    using s t by (simp_all add: normalized_spec_def)
  have "truthy (fld (fld s ''components'') k)" "\<not> truthy (fld (fld t ''components'') k)"
    using node_truthy [OF n(1) k(1) n(1)] node_truthy [OF n(2) k(1) n(1)] k by simp_all
  then obtain a where a: "a \<in> set (component_actions s t k)" "act_address a = pointer [''components'', k]" "act_class a = Component_remove"
    by (auto simp: component_actions_def Let_def)
  have "k \<in> set (union_keys (fld s ''components'') (fld t ''components''))" using k(1) by (simp add: has_own_def)
  then have "a \<in> set (each_key ''components'' component_actions s t)" using a(1) in_each_key by fast
  then have "a \<in> set (all_actions ck (removal_policy_of ctx) s t)" by (simp add: all_actions_def)
  with a(2,3) show ?thesis using plan_pairs [OF s t c, of Component_remove ctx "pointer [''components'', k]"] by auto
qed

text \<open>C17. A plan asks for the acknowledgement of the suitcases whenever it removes a component, lowers the number of instances
  of the application, or removes or changes a durable resource under the default removal policy.\<close>
theorem removals_need_acknowledgement:
  assumes s: "normalized_spec s" and t: "normalized_spec t"
    and c: "collect_unsupported_shape ck s = []" "collect_unsupported_shape ck t = []"
    and loss: "has_own (fld s ''components'') k \<and> \<not> has_own (fld t ''components'') k
      \<or> total_instances t < total_instances s
      \<or> removal_policy_of ctx = Delete \<and> has_own (fld s ''resources'') k \<and> is_durable s k
         \<and> \<not> semantic_equal (fld (fld s ''resources'') k) (fld (fld t ''resources'') k)"
  shows "requires_fleet_acknowledgement (Some (plan_application_change ck s t ctx)) t"
  using loss
proof (elim disjE conjE)
  assume "has_own (fld s ''components'') k" "\<not> has_own (fld t ''components'') k"
  from removed_component_in_plan [OF s t c this, of ctx] show ?thesis
    by (auto simp: requires_fleet_acknowledgement_def list_ex_iff)
next
  assume "total_instances t < total_instances s"
  then have "0 < removed_instances (plan_impacts (plan_application_change ck s t ctx))"
    by (simp add: plan_flags(4) application_change_impacts_def Let_def)
  then show ?thesis by (simp add: requires_fleet_acknowledgement_def)
next
  assume "removal_policy_of ctx = Delete" "has_own (fld s ''resources'') k" "is_durable s k"
    "\<not> semantic_equal (fld (fld s ''resources'') k) (fld (fld t ''resources'') k)"
  from durable_change_destructive [OF s t c this] show ?thesis by (simp add: requires_fleet_acknowledgement_def)
qed

text \<open>Two components trading instances: the total stays, so a component is scaled down without the acknowledgement that the
  comment on the function promises for a scale-down.\<close>

definition component_spec :: "fields \<Rightarrow> jsv" where
  "component_spec components = Obj [
     (''apiVersion'', Str ''deploy.local/v1''), (''kind'', Str ''Application''),
     (''metadata'', Obj []), (''configuration'', Obj []), (''components'', Obj components),
     (''resources'', Obj []), (''routes'', Obj []), (''jobs'', Obj [])]"

definition counts_spec :: "int \<Rightarrow> int \<Rightarrow> jsv" where
  "counts_spec m n = component_spec [(''a'', Obj [(''instances'', Num (JInt m))]), (''b'', Obj [(''instances'', Num (JInt n))])]"

lemma traded_scale_down_unguarded:
  "list_ex (\<lambda>a. act_class a = Component_scale \<and> act_address a = ''/components/a'')
     (plan_actions (plan_application_change (\<lambda>_. []) (counts_spec 3 1) (counts_spec 1 3) default_context))
   \<and> \<not> requires_fleet_acknowledgement (Some (plan_application_change (\<lambda>_. []) (counts_spec 3 1) (counts_spec 1 3) default_context)) (counts_spec 1 3)"
  by code_simp

section \<open>Witnesses\<close>

definition guarded_fleet :: fleet where
  "guarded_fleet = \<lparr>fl_home = ''home'', fl_applications = [(''shop'', ''Shop'')],
     fl_sites = [\<lparr>fs_id = ''case1'', fs_name = ''Bag'', fs_suitcase = True, fs_mode = ''docked'', fs_credential = ''active'',
        fs_revoked = None, fs_contact = None\<rparr>],
     fl_replicas = [\<lparr>fp_app = ''shop'', fp_site = ''case1'', fp_removed = False, fp_contact = None, fp_policy_event = None, fp_created = ''d0''\<rparr>],
     fl_events = [], fl_tokens = 0\<rparr>"

definition ticking :: event_clock where
  "ticking = \<lparr>cl_token = nat_str, cl_now = (\<lambda>n. ''d'' @ nat_str n)\<rparr>"

definition delete_shop :: mutation_input where
  "delete_shop = \<lparr>mu_app = ''shop'', mu_name = None, mu_kind = Application_delete, mu_fingerprint = application_delete_fingerprint ''shop'',
     mu_consequence = ''gone'', mu_actor = ''admin''\<rparr>"

definition requested_fleet :: fleet where
  "requested_fleet = fst (prepare_fleet_mutation ticking delete_shop guarded_fleet)"

definition acknowledged_fleet :: fleet where
  "acknowledged_fleet = fold (\<lambda>site s. fst (acknowledge_pending ticking site (fl_home s) s)) [''case1''] requested_fleet"

lemma prepared_ok: "prepare_fleet_mutation ticking delete_shop guarded_fleet =
    (requested_fleet, Inr (projr (snd (prepare_fleet_mutation ticking delete_shop guarded_fleet))))"
proof -
  have "\<not> isl (snd (prepare_fleet_mutation ticking delete_shop guarded_fleet))" by code_simp
  then show ?thesis by (simp add: requested_fleet_def prod_eq_iff)
qed

lemma delete_is_blocked: "case assert_fleet_mutation_ready ticking delete_shop guarded_fleet of
    (s, Inl (Acknowledgement_required g)) \<Rightarrow> ga_request g = Some ''event_0'' \<and> length (ga_blockers g) = 1
      \<and> blocked_message_head g = ''Application deletion is waiting for 1 suitcase acknowledgement: Bag (case1, docked).''
  | _ \<Rightarrow> False"
  by code_simp

lemma acknowledged_mutation_proceeds_witness:
  "\<exists>g'. assert_fleet_mutation_ready ticking delete_shop acknowledged_fleet = (acknowledged_fleet, Inr g')"
proof (rule acknowledged_mutation_proceeds [OF prepared_ok _ _ _ _ _ acknowledged_fleet_def])
  show "stamped guarded_fleet" by (simp add: stamped_def guarded_fleet_def)
  show "\<forall>n. cl_now ticking n \<noteq> []" by (simp add: ticking_def)
  show "mu_app delete_shop \<noteq> []" "mu_fingerprint delete_shop \<noteq> []" by (simp_all add: delete_shop_def application_delete_fingerprint_def)
  show "\<forall>r \<in> set (active_suitcase_replicas (mu_app delete_shop) guarded_fleet). rr_site r \<in> set [''case1'']" by code_simp
qed

lemma gate_opens_only_acknowledged_witness:
  "\<exists>q \<in> set (fl_events acknowledged_fleet). \<exists>a \<in> set (fl_events acknowledged_fleet).
     is_acknowledgement (fe_id q) ''case1'' (application_delete_fingerprint ''shop'') a"
proof -
  let ?r = "assert_fleet_mutation_ready ticking delete_shop acknowledged_fleet"
  have ok: "\<not> isl (snd ?r)" "fl_events (fst ?r) = fl_events acknowledged_fleet" by (code_simp+)
  then have "?r = (fst ?r, Inr (projr (snd ?r)))" by (simp add: prod_eq_iff)
  note all = gate_opens_only_acknowledged [OF this]
  have "hd (active_suitcase_replicas (mu_app delete_shop) acknowledged_fleet) \<in> set (active_suitcase_replicas (mu_app delete_shop) acknowledged_fleet)"
    "rr_site (hd (active_suitcase_replicas (mu_app delete_shop) acknowledged_fleet)) = ''case1''"
    "mu_fingerprint delete_shop = application_delete_fingerprint ''shop''" by (code_simp+)
  with bspec [OF all this(1)] ok(2) show ?thesis by auto
qed

lemma removals_need_acknowledgement_witness:
  "requires_fleet_acknowledgement (Some (plan_application_change (\<lambda>_. []) (component_spec [(''a'', Obj [(''instances'', Num (JInt 1))])])
     (component_spec []) default_context)) (component_spec [])"
  by (rule removals_need_acknowledgement [where k = "''a''"]; code_simp)

end
