(* ===== verification/RouteTable.thy ===== *)
theory RouteTable
  imports ServicePool EdgeCache Mdns
begin

text \<open>
  \<open>edge/routes.ts\<close>: the route table of the edge, a copy of the deployment rows of the database with what hangs off
  them: the membership of the endpoint pool, the purge of cached responses, the announced hosts and the TCP proxies. The
  database is the tables its queries read. What the table calls in other modules is their model; the parameters of
  \<open>edge_env\<close> are uninitialised memory and number parsing (see \<open>Dns\<close>), the local address, \<open>readDeployConfig\<close> (\<open>None\<close> when
  it throws) and \<open>JSON.parse\<close> of a port list (\<open>None\<close> when it throws). A listening TCP proxy is its port mapping. An
  operation returns whether it ended without an exception.
\<close>

section \<open>The database\<close>

record deployment =
  dp_name :: string
  dp_port :: "int option"
  dp_extra_ports :: "string option"
  dp_directory :: "string option"
  dp_app :: "string option"
  dp_node :: "string option"

record component_service =
  cs_id :: string
  cs_app :: string
  cs_published :: bool
  cs_generation :: int

record endpoint_row =
  en_id :: string
  en_service :: string
  en_instance :: string
  en_host :: string
  en_port :: int
  en_readiness :: string
  en_release :: string
  en_admitted :: int

record edge_db =
  db_deployments :: "deployment list"
  db_nodes :: "(string \<times> string option) list"
  db_services :: "component_service list"
  db_endpoints :: "endpoint_row list"

record deployment_row =
  dr_name :: string
  dr_port :: "int option"
  dr_extra_ports :: "string option"
  dr_directory :: "string option"
  dr_app :: "string option"
  dr_backend_host :: "string option"

text \<open>The \<open>LEFT JOIN\<close> with the node the deployment runs on.\<close>

definition row_of :: "edge_db \<Rightarrow> deployment \<Rightarrow> deployment_row" where
  "row_of db d =
     \<lparr>dr_name = dp_name d, dr_port = dp_port d, dr_extra_ports = dp_extra_ports d, dr_directory = dp_directory d,
      dr_app = dp_app d,
      dr_backend_host = (case dp_node d of None \<Rightarrow> None
        | Some n \<Rightarrow> (case map_of (db_nodes db) n of None \<Rightarrow> None | Some address \<Rightarrow> address))\<rparr>"

definition deployment_rows :: "edge_db \<Rightarrow> deployment_row list" where
  "deployment_rows db = map (row_of db) (db_deployments db)"

definition deployment_row_named :: "edge_db \<Rightarrow> string \<Rightarrow> deployment_row option" where
  "deployment_row_named db name = find (\<lambda>r. dr_name r = name) (deployment_rows db)"

definition truthy_text :: "string option \<Rightarrow> string option" where
  "truthy_text s = (case s of Some (c # cs) \<Rightarrow> Some (c # cs) | _ \<Rightarrow> None)"

section \<open>Published endpoints\<close>

text \<open>The join of services and endpoints; an endpoint has one service, whose identity is the primary key.\<close>

definition published_endpoint :: "string \<Rightarrow> endpoint_row \<Rightarrow> component_service \<Rightarrow> bool" where
  "published_endpoint app se cs \<longleftrightarrow>
     en_service se = cs_id cs \<and> en_admitted se = cs_generation cs
     \<and> cs_app cs = app \<and> cs_published cs \<and> en_readiness se = ''ready''"

definition graph_rows :: "edge_db \<Rightarrow> string \<Rightarrow> int \<Rightarrow> endpoint_row list" where
  "graph_rows db app port =
     sort_key (\<lambda>se. if en_port se = port then (0::nat) else 1) (sort_key en_service (sort_key en_id
       (filter (\<lambda>se. list_ex (published_endpoint app se) (db_services db)) (db_endpoints db))))"

definition endpoint_input_of :: "string \<Rightarrow> endpoint_row \<Rightarrow> endpoint_input" where
  "endpoint_input_of svc r =
     \<lparr>ei_id = en_id r, ei_service = svc, ei_instance = en_instance r, ei_host = en_host r, ei_port = en_port r,
      ei_release = en_release r, ei_readiness = Ready_endpoint\<rparr>"

definition load_published_graph_endpoints ::
    "edge_db \<Rightarrow> string option \<Rightarrow> int option \<Rightarrow> (string \<times> endpoint_input list) option" where
  "load_published_graph_endpoints db app primary_port =
     (case truthy_text app of
        None \<Rightarrow> None
      | Some a \<Rightarrow>
          (case graph_rows db a (case primary_port of Some p \<Rightarrow> p | None \<Rightarrow> - 1) of
             [] \<Rightarrow> None
           | r # rs \<Rightarrow>
               (let svc = en_service r in
                Some (svc, map (endpoint_input_of svc) (filter (\<lambda>x. en_service x = svc) (r # rs))))))"

section \<open>The table\<close>

record extra_port =
  tp_container :: int
  tp_host :: int
  tp_protocol :: string

record edge_route =
  ro_name :: string
  ro_port :: "int option"
  ro_backend_host :: string
  ro_extra_ports :: "string option"
  ro_cache :: "cache_config option"
  ro_service :: "string option"

record edge_env =
  ee_mem :: "nat \<Rightarrow> nat \<Rightarrow> 8 word"
  ee_num :: "string \<Rightarrow> int"
  ee_ip :: string
  ee_config :: "string \<Rightarrow> cache_config option option"
  ee_ports :: "string \<Rightarrow> extra_port list option"

record route_table =
  rt_cache :: "(string, edge_route) jmap"
  rt_pool :: pool
  rt_services :: "(string, string) jmap"
  rt_responses :: response_cache
  rt_hosts :: registry
  rt_proxies :: "(string, (extra_port \<times> string) list) jmap"

definition empty_table :: route_table where
  "empty_table = \<lparr>rt_cache = [], rt_pool = empty_pool, rt_services = [], rt_responses = [],
     rt_hosts = \<lparr>g_hosts = [], g_responder = \<lparr>r_answers = [], r_denials = []\<rparr>\<rparr>, rt_proxies = []\<rparr>"

definition get_route :: "string \<Rightarrow> route_table \<Rightarrow> edge_route option" where
  "get_route name t = jm_get (rt_cache t) name"

definition stop_proxies :: "string \<Rightarrow> route_table \<Rightarrow> route_table" where
  "stop_proxies name t = t\<lparr>rt_proxies := jm_delete (rt_proxies t) name\<rparr>"

definition start_proxies :: "string \<Rightarrow> extra_port list \<Rightarrow> string \<Rightarrow> route_table \<Rightarrow> route_table" where
  "start_proxies name ports host t =
     (let t = stop_proxies name t; servers = map (\<lambda>p. (p, host)) (filter (\<lambda>p. tp_protocol p = ''tcp'') ports) in
      if servers \<noteq> [] then t\<lparr>rt_proxies := jm_set (rt_proxies t) name servers\<rparr> else t)"

definition backend_host_of :: "deployment_row \<Rightarrow> string" where
  "backend_host_of row = (case truthy_text (dr_backend_host row) of Some h \<Rightarrow> h | None \<Rightarrow> ''127.0.0.1'')"

definition cache_config_of :: "edge_env \<Rightarrow> deployment_row \<Rightarrow> cache_config option" where
  "cache_config_of env row =
     (case truthy_text (dr_directory row) of
        None \<Rightarrow> None
      | Some dir \<Rightarrow> (case ee_config env dir of None \<Rightarrow> None | Some c \<Rightarrow> c))"

definition route_of :: "edge_env \<Rightarrow> edge_db \<Rightarrow> deployment_row \<Rightarrow> edge_route" where
  "route_of env db row =
     \<lparr>ro_name = dr_name row, ro_port = dr_port row, ro_backend_host = backend_host_of row, ro_extra_ports = dr_extra_ports row,
      ro_cache = cache_config_of env row,
      ro_service = map_option fst (load_published_graph_endpoints db (dr_app row) (dr_port row))\<rparr>"

definition purge_responses :: "string \<Rightarrow> route_table \<Rightarrow> route_table" where
  "purge_responses name t = t\<lparr>rt_responses := fst (purge_deployment_cache name (rt_responses t))\<rparr>"

text \<open>The service of the deployment: an abandoned one loses its members, the published one gets the loaded ones.\<close>

definition empty_service :: "string \<Rightarrow> route_table \<Rightarrow> route_table" where
  "empty_service svc t = t\<lparr>rt_pool := fst (replace svc [] (rt_pool t))\<rparr>"

definition leave_service :: "string \<Rightarrow> string option \<Rightarrow> route_table \<Rightarrow> route_table" where
  "leave_service name next t =
     (case truthy_text (jm_get (rt_services t) name) of
        None \<Rightarrow> t
      | Some previous \<Rightarrow>
          if Some previous = next then t
          else (empty_service previous t)\<lparr>rt_services := jm_delete (rt_services t) name\<rparr>)"

definition join_service :: "string \<Rightarrow> (string \<times> endpoint_input list) option \<Rightarrow> route_table \<Rightarrow> route_table \<times> bool" where
  "join_service name graph t =
     (case graph of
        None \<Rightarrow> (t, True)
      | Some (svc, es) \<Rightarrow>
          (case replace svc es (rt_pool t) of
             (p, Inl e) \<Rightarrow> (t\<lparr>rt_pool := p\<rparr>, False)
           | (p, Inr _) \<Rightarrow> (t\<lparr>rt_pool := p, rt_services := jm_set (rt_services t) name svc\<rparr>, True)))"

definition refresh_proxies :: "edge_env \<Rightarrow> deployment_row \<Rightarrow> edge_route option \<Rightarrow> route_table \<Rightarrow> route_table" where
  "refresh_proxies env row prev t =
     (if dr_extra_ports row \<noteq> (case prev of Some r \<Rightarrow> ro_extra_ports r | None \<Rightarrow> None)
         \<or> Some (backend_host_of row) \<noteq> map_option ro_backend_host prev
      then (case truthy_text (dr_extra_ports row) of
              None \<Rightarrow> stop_proxies (dr_name row) t
            | Some text \<Rightarrow>
                (case ee_ports env text of
                   None \<Rightarrow> t
                 | Some ports \<Rightarrow>
                     if ports \<noteq> [] then start_proxies (dr_name row) ports (backend_host_of row) t
                     else stop_proxies (dr_name row) t))
      else t)"

definition apply_row :: "edge_env \<Rightarrow> edge_db \<Rightarrow> deployment_row \<Rightarrow> route_table \<Rightarrow> route_table \<times> bool" where
  "apply_row env db row t =
     (let name = dr_name row;
          prev = jm_get (rt_cache t) name;
          t = (if prev \<noteq> None then purge_responses name t else t);
          graph = load_published_graph_endpoints db (dr_app row) (dr_port row);
          (t, joined) = join_service name graph (leave_service name (map_option fst graph) t) in
      if \<not> joined then (t, False)
      else
        (let t = t\<lparr>rt_cache := jm_set (rt_cache t) name (route_of env db row)\<rparr>;
             (hosts, announced) = register_host (ee_mem env) (ee_num env) (ee_ip env) name (rt_hosts t);
             t = t\<lparr>rt_hosts := hosts\<rparr> in
         if announced = None then (t, False) else (refresh_proxies env row prev t, True)))"

definition remove_route :: "string \<Rightarrow> route_table \<Rightarrow> route_table" where
  "remove_route name t =
     (let t = purge_responses name t;
          t = t\<lparr>rt_cache := jm_delete (rt_cache t) name\<rparr>;
          t = (case truthy_text (jm_get (rt_services t) name) of Some svc \<Rightarrow> empty_service svc t | None \<Rightarrow> t);
          t = t\<lparr>rt_services := jm_delete (rt_services t) name, rt_hosts := unregister_host name (rt_hosts t)\<rparr> in
      stop_proxies name t)"

fun apply_rows :: "edge_env \<Rightarrow> edge_db \<Rightarrow> deployment_row list \<Rightarrow> route_table \<Rightarrow> route_table \<times> bool" where
  "apply_rows env db [] t = (t, True)"
| "apply_rows env db (r # rs) t =
     (case apply_row env db r t of
        (t, False) \<Rightarrow> (t, False)
      | (t, True) \<Rightarrow> apply_rows env db rs t)"

definition reload_all :: "edge_env \<Rightarrow> edge_db \<Rightarrow> route_table \<Rightarrow> route_table \<times> bool" where
  "reload_all env db t =
     (let rows = deployment_rows db; seen = map dr_name rows in
      case apply_rows env db rows t of
        (t, False) \<Rightarrow> (t, False)
      | (t, True) \<Rightarrow> (fold remove_route (filter (\<lambda>name. name \<notin> set seen) (jm_keys (rt_cache t))) t, True))"

definition reconcile :: "edge_env \<Rightarrow> edge_db \<Rightarrow> string \<Rightarrow> route_table \<Rightarrow> route_table \<times> bool" where
  "reconcile env db name t =
     (case deployment_row_named db name of
        None \<Rightarrow> (remove_route name t, True)
      | Some row \<Rightarrow> apply_row env db row t)"

text \<open>The selector of a route leases an endpoint of the service it was built with; without a service there is none.\<close>

definition select_backend :: "(string \<Rightarrow> 'c::linorder) \<Rightarrow> edge_route \<Rightarrow> route_table \<Rightarrow> route_table \<times> backend_lease option" where
  "select_backend ck route t =
     (case ro_service route of
        None \<Rightarrow> (t, None)
      | Some svc \<Rightarrow> (let (p, lease) = select_service_backend ck svc None (rt_pool t) in (t\<lparr>rt_pool := p\<rparr>, lease)))"

section \<open>Histories\<close>

text \<open>What happens to the table in the edge: a resync, a hint, a request that leases and one that gives back, and a
  response stored in the cache.\<close>

datatype route_event =
    Reload_all edge_db
  | Route_changed edge_db string
  | Backend_selected string
  | Backend_released nat
  | Response_stored string cached_response

fun route_step :: "(string \<Rightarrow> 'c::linorder) \<Rightarrow> edge_env \<Rightarrow> route_event \<Rightarrow> route_table \<Rightarrow> route_table" where
  "route_step ck env (Reload_all db) t = fst (reload_all env db t)"
| "route_step ck env (Route_changed db name) t = fst (reconcile env db name t)"
| "route_step ck env (Backend_selected name) t =
     (case get_route name t of None \<Rightarrow> t | Some r \<Rightarrow> fst (select_backend ck r t))"
| "route_step ck env (Backend_released l) t = t\<lparr>rt_pool := release_lease l (rt_pool t)\<rparr>"
| "route_step ck env (Response_stored k r) t = t\<lparr>rt_responses := put_cached_response k r (rt_responses t)\<rparr>"

end
