(* ===== verification/RouteTableProperties.thy ===== *)
theory RouteTableProperties
  imports RouteTable ServicePoolProperties MdnsProperties
begin

text \<open>
  The route table mirrors the database: after a resync every deployment has its route, the endpoint pool has
  exactly the admitted endpoints of its service, and a request is sent to one of them; a hint does so for one
  deployment and drops the responses cached for it.
\<close>

section \<open>The pool of the table\<close>

text \<open>The table only uses operations of the pool, so the lemmas about its histories apply.\<close>

definition pool_history :: "(string \<Rightarrow> 'c::linorder) \<Rightarrow> pool \<Rightarrow> bool" where
  "pool_history ck p \<longleftrightarrow> (\<exists>hist. p = fold (pool_step ck) hist empty_pool)"

lemma history_empty: "pool_history ck empty_pool"
  unfolding pool_history_def by (rule exI [of _ "[]"]) simp

lemma history_step: "pool_history ck p \<Longrightarrow> pool_history ck (pool_step ck e p)"
proof -
  assume "pool_history ck p"
  then obtain hist where "p = fold (pool_step ck) hist empty_pool" by (auto simp: pool_history_def)
  then have "pool_step ck e p = fold (pool_step ck) (hist @ [e]) empty_pool" by simp
  then show ?thesis unfolding pool_history_def by blast
qed

lemmas history_replace = history_step [where e = "Replace svc es" for svc es, simplified]
lemmas history_select = history_step [where e = "Select svc affinity" for svc affinity, simplified]
lemmas history_release = history_step [where e = "Release l" for l, simplified]

text \<open>The members of a service, with their data, are a given list of endpoints.\<close>

definition serves :: "pool \<Rightarrow> string \<Rightarrow> endpoint_input list \<Rightarrow> bool" where
  "serves p svc es \<longleftrightarrow> map (\<lambda>(k, a). (k, se_input (p_store p ! a))) (members_of p svc) = map (\<lambda>e. (ei_id e, e)) es"

lemma serves_intro:
  assumes "jm_keys m = map ei_id es" "distinct (map ei_id es)" "\<forall>e \<in> set es. \<exists>a. jm_get m (ei_id e) = Some a \<and> f a = e"
  shows "map (\<lambda>(k, a). (k, f a)) m = map (\<lambda>e. (ei_id e, e)) es"
proof (rule nth_equalityI)
  have len: "length m = length es" using assms(1) by (metis length_map)
  then show "length (map (\<lambda>(k, a). (k, f a)) m) = length (map (\<lambda>e. (ei_id e, e)) es)" by simp
  fix i assume "i < length (map (\<lambda>(k, a). (k, f a)) m)"
  then have i: "i < length m" "i < length es" using len by simp_all
  have k: "fst (m ! i) = ei_id (es ! i)" using assms(1) i by (metis nth_map)
  from assms(3) i obtain a where a: "jm_get m (ei_id (es ! i)) = Some a" "f a = es ! i" by (meson nth_mem)
  have "jm_get m (fst (m ! i)) = Some (snd (m ! i))"
    using i assms(1,2) by (intro map_of_is_SomeI) simp_all
  then have "snd (m ! i) = a" using a k by simp
  then show "map (\<lambda>(k, a). (k, f a)) m ! i = map (\<lambda>e. (ei_id e, e)) es ! i"
    using i k a by (simp add: case_prod_beta)
qed

lemma replace_serves:
  assumes p: "pool_history ck p" and es: "\<forall>e \<in> set es. ei_service e = svc" "distinct (map ei_id es)"
  shows "\<exists>q. replace svc es p = (q, Inr ()) \<and> pool_history ck q \<and> serves q svc es
    \<and> (\<forall>svc' es'. svc' \<noteq> svc \<and> serves p svc' es' \<longrightarrow> serves q svc' es')"
proof -
  obtain hist where h: "p = fold (pool_step ck) hist empty_pool" using p by (auto simp: pool_history_def)
  obtain q where q: "replace svc es p = (q, Inr ())" "jm_keys (members_of q svc) = map ei_id es"
    "\<forall>e \<in> set es. \<exists>a. jm_get (members_of q svc) (ei_id e) = Some a \<and> se_input (p_store q ! a) = e"
    and o: "\<And>svc' k a. svc' \<noteq> svc \<Longrightarrow> jm_get (members_of p svc') k = Some a \<Longrightarrow> p_store q ! a = p_store p ! a"
    using replace_installs_membership [OF h es] by blast
  have "pool_history ck q" using history_replace [OF p, of svc es] q(1) by simp
  moreover have "serves q svc es" unfolding serves_def using serves_intro [OF q(2) es(2) q(3)] .
  moreover have "serves q svc' es'" if s: "svc' \<noteq> svc" "serves p svc' es'" for svc' es'
  proof -
    have m: "members_of q svc' = members_of p svc'"
      using q(1) s(1) by (auto simp: replace_def Let_def members_of_def split: sum.splits prod.splits)
    have ok: "members_ok (p_store p) svc' (members_of p svc')" unfolding h by (rule pool_okD(2) [OF reachable_pool_ok])
    have "map (\<lambda>(k, a). (k, se_input (p_store q ! a))) (members_of p svc') = map (\<lambda>(k, a). (k, se_input (p_store p ! a))) (members_of p svc')"
    proof (rule map_cong [OF refl])
      fix x assume x: "x \<in> set (members_of p svc')"
      have "jm_get (members_of p svc') (fst x) = Some (snd x)" using ok x by (simp add: members_ok_def)
      then show "(case x of (k, a) \<Rightarrow> (k, se_input (p_store q ! a))) = (case x of (k, a) \<Rightarrow> (k, se_input (p_store p ! a)))"
        using o [OF s(1)] by (simp add: case_prod_beta)
    qed
    from this s(2) [unfolded serves_def] show ?thesis unfolding serves_def m by (rule trans)
  qed
  ultimately show ?thesis using q(1) by blast
qed

lemma serves_keys: "serves p svc es \<Longrightarrow> jm_keys (members_of p svc) = map ei_id es"
proof -
  assume "serves p svc es"
  then have "map fst (map (\<lambda>(k, a). (k, se_input (p_store p ! a))) (members_of p svc)) = map fst (map (\<lambda>e. (ei_id e, e)) es)"
    by (simp only: serves_def)
  then show ?thesis by (simp add: comp_def case_prod_beta)
qed

lemma serves_selects:
  assumes p: "pool_history ck p" and s: "serves p svc es" "es \<noteq> []" "\<forall>e \<in> set es. ei_readiness e = Ready_endpoint"
  shows "\<exists>q b. select_service_backend ck svc affinity p = (q, Some b)
    \<and> (\<exists>e \<in> set es. bl_endpoint b = ei_id e \<and> bl_host b = ei_host e \<and> bl_port b = ei_port e)"
proof -
  obtain hist where h: "p = fold (pool_step ck) hist empty_pool" using p by (auto simp: pool_history_def)
  have ok: "members_ok (p_store p) svc (members_of p svc)" unfolding h by (rule pool_okD(2) [OF reachable_pool_ok])
  have mem: "\<exists>e \<in> set es. k = ei_id e \<and> se_input (p_store p ! a) = e" if "(k, a) \<in> set (members_of p svc)" for k a
  proof -
    have "(k, se_input (p_store p ! a)) \<in> set (map (\<lambda>(k, a). (k, se_input (p_store p ! a))) (members_of p svc))" using that by force
    then show ?thesis unfolding s(1) [unfolded serves_def] by auto
  qed
  note sel = selection_leases_ready_member [OF h, of svc affinity]
  obtain q r where qr: "select_service_backend ck svc affinity p = (q, r)" by fastforce
  show ?thesis
  proof (cases r)
    case None
    then have no: "\<And>i a. jm_get (members_of p svc) i = Some a \<Longrightarrow> se_readiness (p_store p ! a) \<noteq> Ready_endpoint"
      using sel by (simp add: qr)
    have "members_of p svc \<noteq> []" using s(1,2) by (auto simp: serves_def)
    then obtain k a where ka: "(k, a) \<in> set (members_of p svc)" by (cases "members_of p svc") auto
    then have "jm_get (members_of p svc) k = Some a" using ok by (simp add: members_ok_def)
    from no [OF this] mem [OF ka] s(3) show ?thesis by auto
  next
    case (Some b)
    then obtain a where a: "jm_get (members_of p svc) (bl_endpoint b) = Some a"
      "ei_host (se_input (p_store p ! a)) = bl_host b" "ei_port (se_input (p_store p ! a)) = bl_port b"
      using sel by (auto simp: qr)
    from mem [OF map_of_SomeD [OF a(1)]] a(2,3) show ?thesis using qr Some by auto
  qed
qed

section \<open>What is loaded\<close>

definition graph_of :: "edge_db \<Rightarrow> deployment_row \<Rightarrow> (string \<times> endpoint_input list) option" where
  "graph_of db row = load_published_graph_endpoints db (dr_app row) (dr_port row)"

definition db_ok :: "edge_db \<Rightarrow> bool" where
  "db_ok db \<longleftrightarrow> distinct (map dp_name (db_deployments db)) \<and> distinct (map en_id (db_endpoints db))"

lemma distinct_map_sort_key [simp]: "distinct (map f (sort_key g xs)) \<longleftrightarrow> distinct (map f xs)"
  by (simp add: distinct_map)

lemma graph_facts:
  assumes "graph_of db row = Some (svc, es)" "db_ok db"
  shows "\<forall>e \<in> set es. ei_service e = svc \<and> ei_readiness e = Ready_endpoint" "distinct (map ei_id es)" "es \<noteq> []"
proof -
  let ?rows = "\<lambda>a. graph_rows db a (case dr_port row of Some p \<Rightarrow> p | None \<Rightarrow> - 1)"
  obtain a r rs where r: "?rows a = r # rs" "svc = en_service r" "es = map (endpoint_input_of svc) (filter (\<lambda>x. en_service x = svc) (r # rs))"
  proof (cases "truthy_text (dr_app row)")
    case None
    then show ?thesis using assms(1) by (simp add: graph_of_def load_published_graph_endpoints_def)
  next
    case (Some a)
    show ?thesis
    proof (cases "?rows a")
      case Nil
      then show ?thesis using assms(1) Some by (simp add: graph_of_def load_published_graph_endpoints_def)
    next
      case (Cons r rs)
      have "svc = en_service r \<and> es = map (endpoint_input_of svc) (filter (\<lambda>x. en_service x = svc) (r # rs))"
        using assms(1) Some Cons by (auto simp: graph_of_def load_published_graph_endpoints_def Let_def)
      then show ?thesis using that [OF Cons] by blast
    qed
  qed
  then have a: "es = map (endpoint_input_of svc) (filter (\<lambda>x. en_service x = svc) (?rows a))" by simp
  show "\<forall>e \<in> set es. ei_service e = svc \<and> ei_readiness e = Ready_endpoint" using a by (auto simp: endpoint_input_of_def)
  have "distinct (map en_id (?rows a))" using assms(2) by (simp add: graph_rows_def db_ok_def distinct_map_filter)
  moreover have "ei_id \<circ> endpoint_input_of svc = en_id" by (auto simp: endpoint_input_of_def)
  ultimately show "distinct (map ei_id es)" using a by (simp add: distinct_map_filter)
  show "es \<noteq> []" using r(2,3) by simp
qed

text \<open>What the query means: the ready endpoints of the current generation of a published service of the application.\<close>

definition admitted :: "edge_db \<Rightarrow> deployment_row \<Rightarrow> string \<Rightarrow> endpoint_row \<Rightarrow> bool" where
  "admitted db row svc se \<longleftrightarrow>
     se \<in> set (db_endpoints db) \<and> en_service se = svc \<and> en_readiness se = ''ready''
     \<and> (\<exists>cs \<in> set (db_services db). cs_id cs = svc \<and> cs_published cs \<and> cs_generation cs = en_admitted se
          \<and> dr_app row = Some (cs_app cs) \<and> cs_app cs \<noteq> [])"

lemma truthy_Some: "truthy_text x = Some a \<longleftrightarrow> x = Some a \<and> a \<noteq> []"
  by (auto simp: truthy_text_def split: option.splits list.splits)

lemma set_graph_rows:
  "truthy_text (dr_app row) = Some a \<Longrightarrow> se \<in> set (graph_rows db a port) \<longleftrightarrow> (\<exists>svc. admitted db row svc se)"
  unfolding graph_rows_def admitted_def published_endpoint_def list_ex_iff truthy_Some by (simp add: truthy_Some) metis

lemma admitted_truthy: "admitted db row svc se \<Longrightarrow> \<exists>a. truthy_text (dr_app row) = Some a"
  by (auto simp: admitted_def truthy_Some)

lemma graph_admitted:
  "graph_of db row = None \<Longrightarrow> \<not> admitted db row svc se"
  "graph_of db row = Some (svc, es) \<Longrightarrow> e \<in> set es \<longleftrightarrow> (\<exists>se. admitted db row svc se \<and> e = endpoint_input_of svc se)"
proof -
  let ?rows = "\<lambda>a. graph_rows db a (case dr_port row of Some p \<Rightarrow> p | None \<Rightarrow> - 1)"
  show "\<not> admitted db row svc se" if "graph_of db row = None"
  proof
    assume a: "admitted db row svc se"
    then obtain app where app: "truthy_text (dr_app row) = Some app" using admitted_truthy by blast
    then have "se \<in> set (?rows app)" using a set_graph_rows by blast
    then show False using that app by (auto simp: graph_of_def load_published_graph_endpoints_def Let_def split: list.splits)
  qed
  assume g: "graph_of db row = Some (svc, es)"
  then obtain app where app: "truthy_text (dr_app row) = Some app"
    by (auto simp: graph_of_def load_published_graph_endpoints_def split: option.splits)
  have "es = map (endpoint_input_of svc) (filter (\<lambda>x. en_service x = svc) (?rows app))"
    using g app by (auto simp: graph_of_def load_published_graph_endpoints_def Let_def split: list.splits)
  moreover have "se \<in> set (?rows app) \<and> en_service se = svc \<longleftrightarrow> admitted db row svc se" for se
    using set_graph_rows [OF app, of se] by (auto simp: admitted_def)
  ultimately show "e \<in> set es \<longleftrightarrow> (\<exists>se. admitted db row svc se \<and> e = endpoint_input_of svc se)" by auto
qed

lemma rows_distinct: "db_ok db \<Longrightarrow> distinct (map dr_name (deployment_rows db))"
  by (simp add: db_ok_def deployment_rows_def comp_def row_of_def)

section \<open>One row\<close>

text \<open>A host whose name fits a packet is announced without an exception.\<close>

definition announceable :: "string \<Rightarrow> bool" where
  "announceable name \<longleftrightarrow> length (name_bytes (host_of name)) + 3 < 2 ^ 16"

lemma announcement_bytes:
  "encode_response mem num None [\<lparr>da_name = host, da_data = ip, da_ttl = Some 120\<rparr>]
     = Some (header_bytes 0 0x8400 0 1 0 0 @ name_bytes host @ record_bytes type_a class_in 120 4 @ octet_bytes num ip)"
proof -
  let ?n = "name_bytes host" and ?h = "header_bytes 0 0x8400 0 1 0 0"
  let ?a = "record_bytes type_a class_in 120 4" and ?o = "octet_bytes num ip"
  let ?r = "drop 4 (drop 10 (drop (length ?n) (drop 12 (alloc_unsafe mem (12 + (length ?n + 2 + 2 + 4 + 2 + 4))))))"
  have v: "u16 0" "u16 0x8400" "u16 1" "u16 4" "u32 120" "u16 (int type_a)" "u16 (int class_in)"
    by (simp_all add: u16_def u32_def flag_values)
  have "encode_response mem num None [\<lparr>da_name = host, da_data = ip, da_ttl = Some 120\<rparr>] = Some (written (((?h @ ?n) @ ?a) @ ?o) ?r)"
    unfolding encode_response_def encode_name_bytes flag_values(1) Let_def
    using v by (simp add: encode_name_bytes write_header_written copy_written write_record_written put_octets_written
        del: append_assoc drop_drop append_Cons append_Nil)
  then show ?thesis by (simp add: written_done)
qed

lemma announced: "announceable name \<Longrightarrow> snd (register_host mem num ip name g) \<noteq> None"
  by (simp add: announceable_def register_host_def register_response_def Let_def a_record_bytes nsec_bytes u32_def announcement_bytes)

lemma proxies_fields [simp]:
  "rt_cache (refresh_proxies env row prev t) = rt_cache t" "rt_pool (refresh_proxies env row prev t) = rt_pool t"
  "rt_services (refresh_proxies env row prev t) = rt_services t" "rt_responses (refresh_proxies env row prev t) = rt_responses t"
  by (auto simp: refresh_proxies_def start_proxies_def stop_proxies_def Let_def split: option.splits)

lemma leave_fields [simp]:
  "rt_cache (leave_service name svc t) = rt_cache t" "rt_responses (leave_service name svc t) = rt_responses t"
  "n \<noteq> name \<Longrightarrow> jm_get (rt_services (leave_service name svc t)) n = jm_get (rt_services t) n"
  by (auto simp: leave_service_def empty_service_def split: option.splits)

lemma leave_services_sub:
  "jm_get (rt_services (leave_service name next t)) name = Some svc \<Longrightarrow> jm_get (rt_services t) name = Some svc"
  by (auto simp: leave_service_def empty_service_def split: option.splits if_splits)

lemma empty_service_pool:
  assumes "pool_history ck (rt_pool t)"
  shows "pool_history ck (rt_pool (empty_service svc t))
    \<and> (\<forall>s es. s \<noteq> svc \<and> serves (rt_pool t) s es \<longrightarrow> serves (rt_pool (empty_service svc t)) s es)"
  using replace_serves [OF assms, of "[]" svc] by (auto simp: empty_service_def)

lemma leave_pool:
  assumes "pool_history ck (rt_pool t)"
  shows "pool_history ck (rt_pool (leave_service name next t))
    \<and> (\<forall>s es. (jm_get (rt_services t) name = Some s \<longrightarrow> Some s = next) \<and> serves (rt_pool t) s es
        \<longrightarrow> serves (rt_pool (leave_service name next t)) s es)"
proof (cases "truthy_text (jm_get (rt_services t) name)")
  case (Some previous)
  then have "jm_get (rt_services t) name = Some previous" by (auto simp: truthy_text_def split: option.splits list.splits)
  with empty_service_pool [OF assms, of previous] Some assms show ?thesis by (auto simp: leave_service_def)
qed (use assms in \<open>simp add: leave_service_def\<close>)

lemma join_effect:
  assumes p: "pool_history ck (rt_pool t)" and ok: "db_ok db"
  shows "\<exists>t2. join_service n (graph_of db row) t = (t2, True) \<and> pool_history ck (rt_pool t2) \<and> rt_cache t2 = rt_cache t
      \<and> rt_responses t2 = rt_responses t \<and> (\<forall>n'. n' \<noteq> n \<longrightarrow> jm_get (rt_services t2) n' = jm_get (rt_services t) n')
      \<and> (\<forall>svc. jm_get (rt_services t2) n = Some svc \<longrightarrow> map_option fst (graph_of db row) = Some svc \<or> jm_get (rt_services t) n = Some svc)
      \<and> (\<forall>svc es. graph_of db row = Some (svc, es) \<longrightarrow> serves (rt_pool t2) svc es)
      \<and> (\<forall>svc es. map_option fst (graph_of db row) \<noteq> Some svc \<and> serves (rt_pool t) svc es \<longrightarrow> serves (rt_pool t2) svc es)"
proof (cases "graph_of db row")
  case None
  then show ?thesis using p by (simp add: join_service_def)
next
  case (Some x)
  obtain svc es where x: "x = (svc, es)" by (cases x)
  note gf = graph_facts [OF Some [unfolded x] ok]
  have own: "\<forall>e \<in> set es. ei_service e = svc" using gf(1) by blast
  obtain q where "replace svc es (rt_pool t) = (q, Inr ())" "pool_history ck q" "serves q svc es"
    "\<forall>svc' es'. svc' \<noteq> svc \<and> serves (rt_pool t) svc' es' \<longrightarrow> serves q svc' es'"
    using replace_serves [OF p own gf(2)] by blast
  then show ?thesis unfolding Some x by (auto simp: join_service_def)
qed

text \<open>Applying a row succeeds, and sets the route and the members of the service of its deployment alone.\<close>

lemma apply_row_effect:
  assumes p: "pool_history ck (rt_pool t)" and ok: "db_ok db" and an: "announceable (dr_name row)"
    and r: "apply_row env db row t = (t', b)"
  shows "b" "rt_cache t' = jm_set (rt_cache t) (dr_name row) (route_of env db row)" "pool_history ck (rt_pool t')"
    "rt_responses t' = (if jm_get (rt_cache t) (dr_name row) \<noteq> None then fst (purge_deployment_cache (dr_name row) (rt_responses t)) else rt_responses t)"
    "\<And>n. n \<noteq> dr_name row \<Longrightarrow> jm_get (rt_services t') n = jm_get (rt_services t) n"
    "\<And>svc. jm_get (rt_services t') (dr_name row) = Some svc \<Longrightarrow> map_option fst (graph_of db row) = Some svc \<or> jm_get (rt_services t) (dr_name row) = Some svc"
    "\<And>svc es. graph_of db row = Some (svc, es) \<Longrightarrow> serves (rt_pool t') svc es"
    "\<And>svc es. serves (rt_pool t) svc es \<Longrightarrow> jm_get (rt_services t) (dr_name row) \<noteq> Some svc
       \<Longrightarrow> map_option fst (graph_of db row) \<noteq> Some svc \<Longrightarrow> serves (rt_pool t') svc es"
proof -
  let ?n = "dr_name row" and ?g = "graph_of db row"
  let ?t0 = "if jm_get (rt_cache t) ?n \<noteq> None then purge_responses ?n t else t"
  let ?t1 = "leave_service ?n (map_option fst ?g) ?t0"
  have f0: "rt_pool ?t0 = rt_pool t" "rt_services ?t0 = rt_services t" "rt_cache ?t0 = rt_cache t" by (simp_all add: purge_responses_def)
  note lp = leave_pool [of ck ?t0 ?n "map_option fst ?g", unfolded f0, OF p]
  obtain t2 where t2: "join_service ?n ?g ?t1 = (t2, True)" "pool_history ck (rt_pool t2)" "rt_cache t2 = rt_cache ?t1"
      "rt_responses t2 = rt_responses ?t1" "\<forall>n. n \<noteq> ?n \<longrightarrow> jm_get (rt_services t2) n = jm_get (rt_services ?t1) n"
      "\<forall>svc. jm_get (rt_services t2) ?n = Some svc \<longrightarrow> map_option fst ?g = Some svc \<or> jm_get (rt_services ?t1) ?n = Some svc"
      "\<forall>svc es. ?g = Some (svc, es) \<longrightarrow> serves (rt_pool t2) svc es"
      "\<forall>svc es. map_option fst ?g \<noteq> Some svc \<and> serves (rt_pool ?t1) svc es \<longrightarrow> serves (rt_pool t2) svc es"
    using join_effect [OF conjunct1 [OF lp] ok, of ?n row] by blast
  have res: "b \<and> t' = refresh_proxies env row (jm_get (rt_cache t) ?n)
      (t2\<lparr>rt_cache := jm_set (rt_cache t2) ?n (route_of env db row),
          rt_hosts := fst (register_host (ee_mem env) (ee_num env) (ee_ip env) ?n (rt_hosts t2))\<rparr>)"
    using r t2(1) announced [OF an, of "ee_mem env" "ee_num env" "ee_ip env" "rt_hosts t2"]
    by (auto simp: apply_row_def Let_def graph_of_def split_beta)
  then show "b" by simp
  show "rt_cache t' = jm_set (rt_cache t) ?n (route_of env db row)" "pool_history ck (rt_pool t')"
    "rt_responses t' = (if jm_get (rt_cache t) ?n \<noteq> None then fst (purge_deployment_cache ?n (rt_responses t)) else rt_responses t)"
    "\<And>n. n \<noteq> ?n \<Longrightarrow> jm_get (rt_services t') n = jm_get (rt_services t) n"
    "\<And>svc es. ?g = Some (svc, es) \<Longrightarrow> serves (rt_pool t') svc es"
    using res t2(2-5,7) f0 by (simp_all add: purge_responses_def)
  show "map_option fst ?g = Some svc \<or> jm_get (rt_services t) ?n = Some svc" if "jm_get (rt_services t') ?n = Some svc" for svc
    using t2(6) that res leave_services_sub [of ?n "map_option fst ?g" ?t0 svc] f0 by auto
  show "serves (rt_pool t') svc es" if "serves (rt_pool t) svc es" "jm_get (rt_services t) ?n \<noteq> Some svc" "map_option fst ?g \<noteq> Some svc" for svc es
  proof -
    have "serves (rt_pool ?t1) svc es" using lp that(1,2) by blast
    then show ?thesis using t2(8) that(3) res by simp
  qed
qed


section \<open>All rows\<close>

text \<open>A service belongs to one deployment: two rows do not share it, and the table has it under the name it has now.\<close>

definition service_of :: "edge_db \<Rightarrow> deployment_row \<Rightarrow> string option" where
  "service_of db row = map_option fst (graph_of db row)"

definition names_settled :: "edge_db \<Rightarrow> (string, string) jmap \<Rightarrow> bool" where
  "names_settled db known \<longleftrightarrow>
     (\<forall>r \<in> set (deployment_rows db). \<forall>svc. service_of db r = Some svc \<longrightarrow>
        (\<forall>r' \<in> set (deployment_rows db). service_of db r' = Some svc \<longrightarrow> dr_name r' = dr_name r)
        \<and> (\<forall>n. jm_get known n = Some svc \<longrightarrow> n = dr_name r))"

lemma settled_sub:
  assumes "names_settled db known" "row \<in> set (deployment_rows db)"
    and "\<And>n svc. jm_get known' n = Some svc \<Longrightarrow> jm_get known n = Some svc \<or> n = dr_name row \<and> service_of db row = Some svc"
  shows "names_settled db known'"
  using assms unfolding names_settled_def by metis

lemma settled_fewer:
  "names_settled db known \<Longrightarrow> (\<And>n svc. jm_get known' n = Some svc \<Longrightarrow> jm_get known n = Some svc) \<Longrightarrow> names_settled db known'"
  unfolding names_settled_def by metis

lemma apply_rows_effect:
  assumes ok: "db_ok db" and an: "\<forall>r \<in> set (deployment_rows db). announceable (dr_name r)"
    and "set rows \<subseteq> set (deployment_rows db)" "distinct (map dr_name rows)"
    and "pool_history ck (rt_pool t)" "names_settled db (rt_services t)" "apply_rows env db rows t = (t', b)"
  shows "b \<and> pool_history ck (rt_pool t') \<and> names_settled db (rt_services t')
    \<and> (\<forall>r \<in> set rows. jm_get (rt_cache t') (dr_name r) = Some (route_of env db r)
         \<and> (\<forall>svc es. graph_of db r = Some (svc, es) \<longrightarrow> serves (rt_pool t') svc es))
    \<and> (\<forall>n. n \<notin> dr_name ` set rows \<longrightarrow> jm_get (rt_cache t') n = jm_get (rt_cache t) n)
    \<and> (\<forall>r \<in> set (deployment_rows db). dr_name r \<notin> dr_name ` set rows \<longrightarrow>
         (\<forall>svc es. graph_of db r = Some (svc, es) \<and> serves (rt_pool t) svc es \<longrightarrow> serves (rt_pool t') svc es))"
  using assms(3-7)
proof (induction rows arbitrary: t)
  case (Cons r rs)
  have r: "r \<in> set (deployment_rows db)" "announceable (dr_name r)" using Cons.prems(1) an by auto
  obtain t1 b1 where t1: "apply_row env db r t = (t1, b1)" by fastforce
  note eff = apply_row_effect [OF Cons.prems(3) ok r(2) t1]
  have rest: "apply_rows env db rs t1 = (t', b)" using Cons.prems(5) t1 eff(1) by simp
  have set1: "names_settled db (rt_services t1)"
  proof (rule settled_sub [OF Cons.prems(4) r(1)])
    fix n svc assume "jm_get (rt_services t1) n = Some svc"
    then show "jm_get (rt_services t) n = Some svc \<or> n = dr_name r \<and> service_of db r = Some svc"
      using eff(5) [of n] eff(6) [of svc] by (cases "n = dr_name r") (auto simp: service_of_def)
  qed
  have sub: "set rs \<subseteq> set (deployment_rows db)" "distinct (map dr_name rs)" "dr_name r \<notin> dr_name ` set rs"
    using Cons.prems(1,2) by auto
  note ih = Cons.IH [OF sub(1,2) eff(3) set1 rest]
  have mine: "jm_get (rt_cache t') (dr_name r) = Some (route_of env db r)
      \<and> (\<forall>svc es. graph_of db r = Some (svc, es) \<longrightarrow> serves (rt_pool t') svc es)"
    using ih sub(3) r(1) eff(2,7) by auto
  have keep: "serves (rt_pool t1) svc es"
    if x: "x \<in> set (deployment_rows db)" "dr_name x \<noteq> dr_name r" "graph_of db x = Some (svc, es)" "serves (rt_pool t) svc es" for x svc es
  proof -
    have "service_of db x = Some svc" using x(3) by (simp add: service_of_def)
    then have "jm_get (rt_services t) (dr_name r) \<noteq> Some svc" "map_option fst (graph_of db r) \<noteq> Some svc"
      using Cons.prems(4) x(1,2) r(1) unfolding names_settled_def service_of_def by metis+
    with eff(8) x(4) show ?thesis by blast
  qed
  have "jm_get (rt_cache t') n = jm_get (rt_cache t) n" if "n \<notin> dr_name ` set (r # rs)" for n
    using ih eff(2) that by simp
  then show ?case using ih mine keep by auto
qed simp

lemma remove_effect:
  assumes "pool_history ck (rt_pool t)"
  shows "rt_cache (remove_route name t) = jm_delete (rt_cache t) name"
    "rt_services (remove_route name t) = jm_delete (rt_services t) name"
    "rt_responses (remove_route name t) = fst (purge_deployment_cache name (rt_responses t))"
    "pool_history ck (rt_pool (remove_route name t))"
    "\<And>svc es. jm_get (rt_services t) name \<noteq> Some svc \<Longrightarrow> serves (rt_pool t) svc es \<Longrightarrow> serves (rt_pool (remove_route name t)) svc es"
proof -
  let ?t = "(purge_responses name t)\<lparr>rt_cache := jm_delete (rt_cache t) name\<rparr>"
  have p: "pool_history ck (rt_pool ?t)" "rt_services ?t = rt_services t" "rt_pool ?t = rt_pool t"
    using assms by (simp_all add: purge_responses_def)
  have pool: "rt_pool (remove_route name t) = rt_pool (case truthy_text (jm_get (rt_services t) name) of Some svc \<Rightarrow> empty_service svc ?t | None \<Rightarrow> ?t)"
    by (simp add: remove_route_def stop_proxies_def purge_responses_def Let_def split: option.split)
  show "rt_cache (remove_route name t) = jm_delete (rt_cache t) name"
    "rt_services (remove_route name t) = jm_delete (rt_services t) name"
    "rt_responses (remove_route name t) = fst (purge_deployment_cache name (rt_responses t))"
    by (simp_all add: remove_route_def stop_proxies_def purge_responses_def empty_service_def Let_def split: option.split)
  show "pool_history ck (rt_pool (remove_route name t))"
    unfolding pool using empty_service_pool [OF p(1)] p(1) by (simp split: option.split)
  show "serves (rt_pool (remove_route name t)) svc es" if "jm_get (rt_services t) name \<noteq> Some svc" "serves (rt_pool t) svc es" for svc es
  proof (cases "truthy_text (jm_get (rt_services t) name)")
    case (Some s)
    then have "s \<noteq> svc" using that(1) by (auto simp: truthy_text_def split: option.splits list.splits)
    with Some empty_service_pool [OF p(1), of s] that(2) p(3) show ?thesis unfolding pool by simp
  qed (use that p in \<open>simp add: pool\<close>)
qed

lemma remove_all_effect:
  assumes "pool_history ck (rt_pool t)" "names_settled db (rt_services t)" "\<forall>n \<in> set ns. n \<notin> dr_name ` set (deployment_rows db)"
  shows "let t' = fold remove_route ns t in pool_history ck (rt_pool t')
    \<and> (\<forall>n. jm_get (rt_cache t') n = (if n \<in> set ns then None else jm_get (rt_cache t) n))
    \<and> (\<forall>r \<in> set (deployment_rows db). \<forall>svc es. graph_of db r = Some (svc, es) \<and> serves (rt_pool t) svc es \<longrightarrow> serves (rt_pool t') svc es)"
  using assms
proof (induction ns arbitrary: t)
  case (Cons n ns)
  note eff = remove_effect [OF Cons.prems(1), of n]
  have s: "names_settled db (rt_services (remove_route n t))"
    by (rule settled_fewer [OF Cons.prems(2)]) (simp add: eff(2) split: if_splits)
  have keep: "serves (rt_pool (remove_route n t)) svc es"
    if r: "r \<in> set (deployment_rows db)" "graph_of db r = Some (svc, es)" "serves (rt_pool t) svc es" for r svc es
  proof (rule eff(5) [OF _ r(3)])
    have "service_of db r = Some svc" using r(2) by (simp add: service_of_def)
    with Cons.prems(2) r(1) have "jm_get (rt_services t) n = Some svc \<Longrightarrow> n = dr_name r" unfolding names_settled_def by blast
    moreover have "n \<noteq> dr_name r" using Cons.prems(3) r(1) by (metis imageI list.set_intros(1))
    ultimately show "jm_get (rt_services t) n \<noteq> Some svc" by blast
  qed
  have "\<forall>n \<in> set ns. n \<notin> dr_name ` set (deployment_rows db)" using Cons.prems(3) by simp
  note ih = Cons.IH [OF eff(4) s this, unfolded Let_def]
  show ?case unfolding Let_def fold.simps comp_def
  proof (intro conjI allI ballI impI)
    show "pool_history ck (rt_pool (fold remove_route ns (remove_route n t)))" using ih by blast
    show "jm_get (rt_cache (fold remove_route ns (remove_route n t))) m = (if m \<in> set (n # ns) then None else jm_get (rt_cache t) m)" for m
      using ih by (simp add: eff(1))
    show "serves (rt_pool (fold remove_route ns (remove_route n t))) svc es"
      if "r \<in> set (deployment_rows db)" "graph_of db r = Some (svc, es) \<and> serves (rt_pool t) svc es" for r svc es
      using ih keep that by blast
  qed
qed simp

section \<open>Every history\<close>

lemma select_history: "pool_history ck p \<Longrightarrow> pool_history ck (fst (select_service_backend ck svc affinity p))"
  using history_select [of ck p svc affinity] by (auto simp: select_service_backend_def Let_def split: prod.splits option.splits)

lemma leave_history: "pool_history ck (rt_pool t) \<Longrightarrow> pool_history ck (rt_pool (leave_service name next t))"
  using leave_pool by blast

lemma join_history: "pool_history ck (rt_pool t) \<Longrightarrow> pool_history ck (rt_pool (fst (join_service name graph t)))"
  using history_replace [of ck "rt_pool t"]
  by (auto simp: join_service_def split: option.splits prod.splits sum.splits) (metis fst_conv)+

lemma apply_history: "pool_history ck (rt_pool t) \<Longrightarrow> pool_history ck (rt_pool (fst (apply_row env db row t)))"
proof -
  assume p: "pool_history ck (rt_pool t)"
  let ?g = "load_published_graph_endpoints db (dr_app row) (dr_port row)"
  let ?t0 = "if jm_get (rt_cache t) (dr_name row) \<noteq> None then purge_responses (dr_name row) t else t"
  have "pool_history ck (rt_pool ?t0)" using p by (simp add: purge_responses_def)
  then have "pool_history ck (rt_pool (fst (join_service (dr_name row) ?g (leave_service (dr_name row) (map_option fst ?g) ?t0))))"
    by (intro join_history leave_history)
  then show ?thesis by (auto simp: apply_row_def Let_def split_beta)
qed

lemma apply_rows_history: "pool_history ck (rt_pool t) \<Longrightarrow> pool_history ck (rt_pool (fst (apply_rows env db rows t)))"
proof (induction rows arbitrary: t)
  case (Cons r rs)
  from Cons.IH [OF apply_history [OF Cons.prems]] apply_history [OF Cons.prems, of env db r] show ?case
    by (auto split: prod.splits bool.splits) (metis fst_conv)+
qed simp

lemma remove_all_history: "pool_history ck (rt_pool t) \<Longrightarrow> pool_history ck (rt_pool (fold remove_route ns t))"
  by (induction ns arbitrary: t) (simp_all add: remove_effect)

lemma reload_history: "pool_history ck (rt_pool t) \<Longrightarrow> pool_history ck (rt_pool (fst (reload_all env db t)))"
  using apply_rows_history [of ck t env db "deployment_rows db"]
  by (auto simp: reload_all_def Let_def intro: remove_all_history split: prod.splits bool.splits)

lemma reconcile_history: "pool_history ck (rt_pool t) \<Longrightarrow> pool_history ck (rt_pool (fst (reconcile env db name t)))"
  by (auto simp: reconcile_def apply_history remove_effect split: option.split)

lemma route_step_history: "pool_history ck (rt_pool t) \<Longrightarrow> pool_history ck (rt_pool (route_step ck env e t))"
proof (induction ck env e t rule: route_step.induct)
  case (3 ck env name t)
  then show ?case
    by (simp add: select_backend_def split_beta Let_def select_history split: option.split)
qed (simp_all add: reload_history reconcile_history history_release)

interpretation route_machine: event_machine "route_step ck env" "\<lambda>t. pool_history ck (rt_pool t)"
  for ck :: "string \<Rightarrow> 'c::linorder" and env
  by unfold_locales (rule route_step_history)

lemma table_history: "pool_history ck (rt_pool (fold (route_step ck env) es empty_table))"
  by (rule route_machine.inv_fold) (simp add: empty_table_def history_empty)

section \<open>The table mirrors the database\<close>

lemma find_row:
  assumes "distinct (map dr_name rows)" "r \<in> set rows"
  shows "find (\<lambda>x. dr_name x = dr_name r) rows = Some r"
  using assms by (induction rows) auto

lemma find_none: "n \<notin> dr_name ` set rows \<Longrightarrow> find (\<lambda>x. dr_name x = n) rows = None"
  by (auto simp: find_None_iff)

text \<open>C29. A resync of the route table, after any history of the edge, succeeds and leaves exactly the routes of the deployments in the
  database, each with its own port, host and cache rules. A deployment whose application has ready endpoints in the current generation
  of a published service is routed to such a service, whose members in the pool are exactly those endpoints, and the next request
  leases one of them; a deployment without any has no service. This needs that no service has moved to another deployment name.\<close>
theorem reload_mirrors_database:
  fixes ck :: "string \<Rightarrow> 'c::linorder"
  assumes t: "t = fold (route_step ck env) es empty_table"
    and db: "db_ok db" "names_settled db (rt_services t)"
    and an: "\<forall>r \<in> set (deployment_rows db). announceable (dr_name r)"
    and r: "reload_all env db t = (t', b)"
  shows "b \<and> (\<forall>name. get_route name t' = map_option (route_of env db) (deployment_row_named db name))
    \<and> (\<forall>row \<in> set (deployment_rows db). case ro_service (route_of env db row) of
         None \<Rightarrow> \<forall>svc se. \<not> admitted db row svc se
       | Some svc \<Rightarrow>
           (\<forall>i. i \<in> set (jm_keys (members_of (rt_pool t') svc)) \<longleftrightarrow> (\<exists>se. admitted db row svc se \<and> en_id se = i))
           \<and> (\<exists>t'' l se. select_backend ck (route_of env db row) t' = (t'', Some l) \<and> admitted db row svc se
                \<and> bl_endpoint l = en_id se \<and> bl_host l = en_host se \<and> bl_port l = en_port se))"
proof -
  let ?rows = "deployment_rows db"
  obtain t1 b1 where t1: "apply_rows env db ?rows t = (t1, b1)" by fastforce
  have "pool_history ck (rt_pool t)" unfolding t by (rule table_history)
  note eff = apply_rows_effect [OF db(1) an subset_refl rows_distinct [OF db(1)] this db(2) t1]
  let ?gone = "filter (\<lambda>name. name \<notin> set (map dr_name ?rows)) (jm_keys (rt_cache t1))"
  have b: "b" and t': "t' = fold remove_route ?gone t1" using r t1 eff by (auto simp: reload_all_def Let_def)
  have "\<forall>n \<in> set ?gone. n \<notin> dr_name ` set ?rows" by simp
  note rem = remove_all_effect [OF _ _ this, of ck t1, unfolded Let_def, folded t']
  have rem': "pool_history ck (rt_pool t')" "\<forall>n. jm_get (rt_cache t') n = (if n \<in> set ?gone then None else jm_get (rt_cache t1) n)"
    "\<forall>r \<in> set ?rows. \<forall>svc es. graph_of db r = Some (svc, es) \<and> serves (rt_pool t1) svc es \<longrightarrow> serves (rt_pool t') svc es"
    using rem eff by blast+
  have "get_route name t' = map_option (route_of env db) (deployment_row_named db name)" for name
  proof (cases "name \<in> dr_name ` set ?rows")
    case True
    then obtain r where "r \<in> set ?rows" "name = dr_name r" by blast
    then show ?thesis using eff rem'(2) find_row [OF rows_distinct [OF db(1)]] by (simp add: get_route_def deployment_row_named_def)
  next
    case False
    then have "jm_get (rt_cache t1) name = None \<or> name \<in> set ?gone" by (auto simp: map_of_eq_None_iff)
    then show ?thesis using rem'(2) find_none [OF False] by (auto simp: get_route_def deployment_row_named_def)
  qed
  moreover have "case ro_service (route_of env db row) of
         None \<Rightarrow> \<forall>svc se. \<not> admitted db row svc se
       | Some svc \<Rightarrow>
           (\<forall>i. i \<in> set (jm_keys (members_of (rt_pool t') svc)) \<longleftrightarrow> (\<exists>se. admitted db row svc se \<and> en_id se = i))
           \<and> (\<exists>t'' l se. select_backend ck (route_of env db row) t' = (t'', Some l) \<and> admitted db row svc se
                \<and> bl_endpoint l = en_id se \<and> bl_host l = en_host se \<and> bl_port l = en_port se)"
    if row: "row \<in> set ?rows" for row
  proof (cases "graph_of db row")
    case None
    then show ?thesis using graph_admitted(1) by (simp add: route_of_def graph_of_def)
  next
    case (Some x)
    obtain svc es where g: "graph_of db row = Some (svc, es)" using Some by (cases x) simp
    then have s: "serves (rt_pool t') svc es" using eff rem'(3) row by blast
    have svc: "ro_service (route_of env db row) = Some svc" using g by (simp add: route_of_def graph_of_def)
    note gf = graph_facts [OF g db(1)]
    from serves_selects [OF rem'(1) s gf(3), of None] gf(1) obtain q l e where
      sel: "select_service_backend ck svc None (rt_pool t') = (q, Some l)"
      and e: "e \<in> set es" "bl_endpoint l = ei_id e \<and> bl_host l = ei_host e \<and> bl_port l = ei_port e" by blast
    then obtain se where "admitted db row svc se" "e = endpoint_input_of svc se" using graph_admitted(2) [OF g] by blast
    then have "\<exists>t'' l se. select_backend ck (route_of env db row) t' = (t'', Some l) \<and> admitted db row svc se
                \<and> bl_endpoint l = en_id se \<and> bl_host l = en_host se \<and> bl_port l = en_port se"
      using sel e(2) svc by (auto simp: select_backend_def endpoint_input_of_def)
    moreover have "i \<in> set (jm_keys (members_of (rt_pool t') svc)) \<longleftrightarrow> (\<exists>se. admitted db row svc se \<and> en_id se = i)" for i
    proof -
      have "set (jm_keys (members_of (rt_pool t') svc)) = ei_id ` set es"
        using serves_keys [OF s] by (metis list.set_map)
      moreover have "i \<in> ei_id ` set es \<longleftrightarrow> (\<exists>se. admitted db row svc se \<and> en_id se = i)"
      proof
        assume "i \<in> ei_id ` set es"
        then obtain x where "x \<in> set es" "i = ei_id x" by blast
        then show "\<exists>se. admitted db row svc se \<and> en_id se = i" using graph_admitted(2) [OF g] by (auto simp: endpoint_input_of_def)
      next
        assume "\<exists>se. admitted db row svc se \<and> en_id se = i"
        then obtain se where se: "admitted db row svc se" "en_id se = i" by blast
        then have "endpoint_input_of svc se \<in> set es" using graph_admitted(2) [OF g] by blast
        then show "i \<in> ei_id ` set es" by (rule rev_image_eqI) (simp add: endpoint_input_of_def se(2))
      qed
      ultimately show ?thesis by simp
    qed
    ultimately show ?thesis using svc by simp
  qed
  ultimately show ?thesis using b by blast
qed



section \<open>Concrete tables\<close>

definition shop_db :: "string \<Rightarrow> edge_db" where
  "shop_db name = \<lparr>
     db_deployments = [\<lparr>dp_name = name, dp_port = Some 8001, dp_extra_ports = None, dp_directory = None, dp_app = Some ''a1'', dp_node = Some ''n1''\<rparr>],
     db_nodes = [(''n1'', Some ''10.0.0.7'')],
     db_services = [\<lparr>cs_id = ''web'', cs_app = ''a1'', cs_published = True, cs_generation = 2\<rparr>],
     db_endpoints = [
       \<lparr>en_id = ''e1'', en_service = ''web'', en_instance = ''i1'', en_host = ''10.0.0.7'', en_port = 8001, en_readiness = ''ready'', en_release = ''r2'', en_admitted = 2\<rparr>,
       \<lparr>en_id = ''e0'', en_service = ''web'', en_instance = ''i0'', en_host = ''10.0.0.7'', en_port = 8000, en_readiness = ''ready'', en_release = ''r1'', en_admitted = 1\<rparr>]\<rparr>"

definition quiet_edge :: edge_env where
  "quiet_edge = \<lparr>ee_mem = (\<lambda>_ _. 0), ee_num = (\<lambda>_. 1), ee_ip = ''1.1.1.1'', ee_config = (\<lambda>_. None), ee_ports = (\<lambda>_. None)\<rparr>"

definition shop_endpoint :: endpoint_input where
  "shop_endpoint = \<lparr>ei_id = ''e1'', ei_service = ''web'', ei_instance = ''i1'', ei_host = ''10.0.0.7'', ei_port = 8001, ei_release = ''r2'',
     ei_readiness = Ready_endpoint\<rparr>"

lemma shop_facts:
  "db_ok (shop_db n)" "names_settled (shop_db n) []" "map dr_name (deployment_rows (shop_db n)) = [n]"
  "r \<in> set (deployment_rows (shop_db n)) \<Longrightarrow> load_published_graph_endpoints (shop_db n) (dr_app r) (dr_port r) = Some (''web'', [shop_endpoint])"
proof -
  show "db_ok (shop_db n)" by (simp add: db_ok_def shop_db_def)
  show "names_settled (shop_db n) []" by (simp add: names_settled_def deployment_rows_def shop_db_def)
  show "map dr_name (deployment_rows (shop_db n)) = [n]" by (simp add: deployment_rows_def row_of_def shop_db_def)
  have "load_published_graph_endpoints (shop_db m) (Some ''a1'') (Some 8001) = Some (''web'', [shop_endpoint])" for m
    by code_simp
  then show "r \<in> set (deployment_rows (shop_db n)) \<Longrightarrow> load_published_graph_endpoints (shop_db n) (dr_app r) (dr_port r) = Some (''web'', [shop_endpoint])"
    by (auto simp: deployment_rows_def row_of_def) (simp_all add: shop_db_def)
qed

lemma shop_announced: "announceable ''shop''"
proof -
  have "length (name_bytes (host_of ''shop'')) = 12" by code_simp
  then show ?thesis by (simp add: announceable_def)
qed

lemma reload_mirrors_database_witness:
  "\<exists>t l. select_backend same_place (route_of quiet_edge (shop_db ''shop'') (hd (deployment_rows (shop_db ''shop''))))
     (fst (reload_all quiet_edge (shop_db ''shop'') empty_table)) = (t, Some l) \<and> bl_host l = ''10.0.0.7'' \<and> bl_port l = 8001"
proof -
  let ?row = "hd (deployment_rows (shop_db ''shop''))"
  have empty: "empty_table = fold (route_step same_place quiet_edge) [] empty_table" by simp
  have none: "rt_services empty_table = []" by (simp add: empty_table_def)
  have an: "\<forall>r \<in> set (deployment_rows (shop_db ''shop'')). announceable (dr_name r)"
    using shop_facts(3) [of "''shop''"] shop_announced by auto
  have row: "?row \<in> set (deployment_rows (shop_db ''shop''))" by (simp add: deployment_rows_def shop_db_def)
  note all = reload_mirrors_database [OF empty shop_facts(1) _ an, unfolded none, OF shop_facts(2) prod.collapse [symmetric]]
  have "ro_service (route_of quiet_edge (shop_db ''shop'') ?row) = Some ''web''" using shop_facts(4) [OF row] by (simp add: route_of_def)
  moreover have "admitted (shop_db ''shop'') ?row ''web'' se \<Longrightarrow> en_host se = ''10.0.0.7'' \<and> en_port se = 8001" for se
    by (auto simp: admitted_def shop_db_def)
  ultimately show ?thesis using bspec [OF conjunct2 [OF conjunct2 [OF all]] row] by fastforce
qed


end
