(* ===== verification/Spec2Isabelle.thy ===== *)
theory Spec2Isabelle
  imports SpecCycles ExecutionFacts PlanProperties ReconcilerProperties JobsProperties
    ServicePoolProperties MdnsProperties AdmissionProperties DataMergeProperties SqliteMergeProperties EdgeProxyProperties
    DataLineageProperties FleetGuardProperties RouteTableProperties
begin

text \<open>
  A verification library for the server of deploy.local, a self-hosted deployment platform written in
  TypeScript. A manifest (\<open>deploy.yaml\<close>) is validated and compiled into an application graph; a change
  plan compares it with the running graph, an execution plan turns it into components, slots, services and
  routes, and a reconciler converges the instances of a node towards it. Around that core are the jobs of a
  release, the pool of endpoints traffic is sent to, the edge proxy with its response cache, the mDNS
  responder that announces applications, the queue that bounds builds, and the reconciliation of data
  between a home server and a travelling \<open>suitcase\<close>.

  \<^bold>\<open>Theories and sources.\<close> Every component has a theory with its state and operations, named after the
  functions of the source, and one or two theories of lemmas (\<open>Facts\<close>) and properties (\<open>Properties\<close>).

  \<^item> \<open>Prelude\<close>, \<open>JsValue\<close>, \<open>Simulation\<close>: strings, \<open>Map\<close> and \<open>Set\<close>, numerals; JavaScript values (\<open>jsv\<close>) with
    property reads, \<open>JSON.stringify\<close> and number formatting; the interfaces the components share. \<open>dictionary\<close>
    and \<open>codec\<close> are interpreted on the association lists and on numerals and JSON pointers,
    \<open>guarded_machine\<close> and \<open>event_machine\<close> (invariants of event histories) on the responder, the endpoint pool
    and the build queue, \<open>simulation\<close> and \<open>invariant\<close> on the response cache, the edge and the data lineage.
  \<^item> \<open>SpecValidate\<close>, \<open>SpecCycles\<close>, \<open>SpecCompile\<close> (\<open>server/application-spec.ts\<close>): the validator, check by
    check with its messages, the cycle search and the compiler. \<open>SpecNormal\<close> shows that an accepted manifest
    compiles to a normalized document, \<open>SpecIdentity\<close> that equal digests are no-op changes; \<open>Samples\<close> is
    the manifest the witnesses use.
  \<^item> \<open>ChangePlan\<close> (\<open>application-plan.ts\<close>): \<open>planApplicationChange\<close>; \<open>PlanFacts\<close> accounts for every changed
    address, \<open>PlanProperties\<close> for the guards on durable data.
  \<^item> \<open>Placement\<close> (\<open>application-placement.ts\<close>, \<open>volume-attachments.ts\<close>) and \<open>Execution\<close>
    (\<open>application-execution.ts\<close>): admission onto a node and the execution plan.
  \<^item> \<open>Reconciler\<close> (\<open>application-reconciler.ts\<close>): one pass, as actions and statuses; \<open>Jobs\<close>
    (\<open>application-jobs.ts\<close>): which jobs of a release are due and which traffic they gate.
  \<^item> \<open>ServicePool\<close> (\<open>service-routing.ts\<close>): endpoint objects live in an explicit store, because leases and maps
    share them and \<open>upsert\<close> replaces them.
  \<^item> \<open>EdgeCache\<close>, \<open>EdgeProxy\<close> (\<open>edge/response-cache.ts\<close>, \<open>edge/proxy.ts\<close>): the cache with its order of use; the
    callbacks of a proxied request as steps on a record that return their effects.
  \<^item> \<open>RouteTable\<close> (\<open>edge/routes.ts\<close>): the copy of the deployment rows that ties \<open>ServicePool\<close>, \<open>EdgeCache\<close> and \<open>Mdns\<close>
    together; the database is the tables its queries join. \<open>RouteTableProperties\<close>: the table mirrors the database.
  \<^item> \<open>Dns\<close>, \<open>Mdns\<close> (\<open>packages/mdns\<close>, \<open>server/mdns.ts\<close>, \<open>server/crash-guard.ts\<close>): the wire codec over byte
    lists, the responder, the host registry and the exception guard.
  \<^item> \<open>Admission\<close> (\<open>deploy-admission.ts\<close>): the build queue; promises are tickets.
  \<^item> \<open>DataMerge\<close>, \<open>FileTree\<close>, \<open>SqliteMerge\<close> (\<open>data-reconciliation.ts\<close>, parts of \<open>content-store.ts\<close>): the
    three-way merge of values, file manifests and database rows; capturing a directory and writing it back.
  \<^item> \<open>DataLineage\<close>, \<open>DataApply\<close> (the rest of \<open>data-reconciliation.ts\<close>, \<open>reconciliation-coordinator.ts\<close>): the tables
    of policies, checkpoints, changesets, conflicts and replicas as one state, with every exported operation on
    it. \<open>applyDataChangeset\<close> is two definitions, before and after its \<open>await\<close>, and the histories of
    \<open>DataLineageFacts\<close> interleave them freely; the coordinator is a function of the outcomes of its captures and
    restores. \<open>DataLineageProperties\<close>: a changeset waits exactly while a conflict is open, is applied once, and is
    never merged when it was blocked; what is published and what must be retained.
  \<^item> \<open>FleetGuard\<close> (\<open>fleet-mutation-guard.ts\<close>): the requests and acknowledgements that a deletion or a destructive plan
    waits for, as events of the fleet log; \<open>FleetGuardProperties\<close>: the gate opens exactly for acknowledged mutations, and
    the plans of \<open>ChangePlan\<close> that lose state are guarded.

  This root theory holds the properties that span components: an accepted manifest, planned and reconciled,
  converges.

  \<^bold>\<open>State and errors.\<close> A class or module-level state is a record, a \<open>Map\<close> an association list in insertion
  order, and an operation returns the new state. A throw is \<open>None\<close> or \<open>Inl\<close>, with the writes made
  before it kept where the source keeps them. Numbers are \<open>int\<close> or \<open>nat\<close> where the source only stores
  integers, \<open>jsnum\<close> where doubles show (their text is ECMAScript's), bytes \<open>8 word\<close> or integers with the
  masks written out. Strings are code units below 256.

  \<^bold>\<open>Parameters.\<close> Code that is not in the repository is an argument: SHA-256 (\<open>sha\<close>), the collation of
  \<open>localeCompare\<close> as a sort key (\<open>ck\<close>), the URL parser, \<open>JSON.parse\<close>, the UTF-8 decoder, uninitialised memory,
  SQLite (the answers of its queries and the outcome of its writes), the umask and the clock. A hypothesis about one
  of them is stated in the theorem and met by a concrete function in its witness.

  \<^bold>\<open>Bounds and termination.\<close> No model has an unbounded loop. The name decoder follows at most 256
  compression jumps and its measure is jumps times buffer length; the dispatch loop of the build queue is bounded by the
  queue; the directory walk counts to 100,000 nodes, as the source does; the depth-first searches recurse on
  the list of names not yet visited, which is as long as the graph is deep.

  \<^bold>\<open>What the properties show.\<close> Liveness and safety of a rollout (convergence, routable instances only, the serving
  instance kept, dependencies and jobs first), of the pool and the edge (leases counted, given back once, never cut; a
  cache hit replays what a backend sent, the route table mirrors the database), of builds (bounded, fair) and of data (one-sided changes survive, a database
  reported as merged is verified, nothing is written outside its destination); round trips of the DNS codec, of
  captured directories and of database cells; destructive operations wait for the suitcases; exactness of the volume admission, of job planning and of the
  dependency order. Where a theorem shows that the code does not do what it means to do, the manifest lists it as a finding.

  \<^bold>\<open>Not modelled.\<close> The HTTP interface, the command line and the dashboard format what the components compute. The
  graph executor, Docker, the agents, the transport and materialization of a suitcase, volume copies, archives and
  certificates drive external processes and sockets step by step: their state is outside the repository, and a model
  of them would be a model of Docker, SSH and the file system. The SQLite tables of other components are not modelled
  beyond the rows the modelled operations read and write. Of the modelled files, the YAML parser and renderer, listeners and
  timers, log lines, the fields of the request log, the payloads and signatures of fleet events and readiness certificates are left out. The manifest names
  every part.
\<close>

section \<open>From a manifest to a reconciler pass\<close>

lemma reconcile_all_total:
  assumes "\<And>c. c \<in> set cs \<Longrightarrow> \<exists>p. jm_get (xp_components desired) c = Some p
      \<and> (\<forall>d \<in> set (cp_dependencies p). jm_get (xp_components desired) d \<noteq> None)"
  shows "reconcile_all desired actual opts cs st \<noteq> None"
  using assms
proof (induction cs arbitrary: st)
  case (Cons c cs)
  have dr: "\<forall>d \<in> set ds. jm_get comps d \<noteq> None \<Longrightarrow> dependencies_ready statuses comps ds \<noteq> None"
    for statuses and comps :: "(string, 'a component_plan) jmap" and ds
    by (induction ds) auto
  from Cons.prems [of c] obtain p where p: "jm_get (xp_components desired) c = Some p"
    "\<forall>d \<in> set (cp_dependencies p). jm_get (xp_components desired) d \<noteq> None" by auto
  then obtain b where "dependencies_ready (snd st) (xp_components desired) (cp_dependencies p) = Some b" using dr by blast
  then have "reconcile_component desired actual opts (snd st) c \<noteq> None" by (simp add: reconcile_component_def p(1) Let_def)
  then show ?case using Cons by auto
qed simp

lemma planned_components:
  fixes registry :: "'p profile_registry"
  assumes "plan = plan_application_execution ck digest registry app spec opts spec_digest shared target"
  shows "jm_get (xp_components plan) n = (if n \<in> set (obj_keys (fld spec ''components''))
      then Some (snd (plan_component ck registry app spec opts (snd (resolve_site_instance_counts spec opts))
        (snd (infer_dependencies spec)) (fst (plan_volume_attachments ck spec shared (snd (resolve_site_instance_counts spec opts))))
        (graph_findings ck spec opts shared target) n)) else None)"
proof -
  have m: "map_of (map (\<lambda>n. (n, f n)) xs) n = (if n \<in> set xs then Some (f n) else None)" for f :: "string \<Rightarrow> 'p component_plan" and xs
    by (induction xs) auto
  have name: "cp_name (snd (plan_component ck registry app spec opts counts deps ats g n)) = n" for counts deps ats g n
    by (simp add: plan_component_def Let_def split_beta)
  show ?thesis
    unfolding assms plan_application_execution_def Let_def
    by (simp add: comp_def split_beta name m)
qed

lemma planned_component_shape:
  fixes registry :: "'p profile_registry"
  assumes "p = snd (plan_component ck registry app spec opts counts deps ats g n)"
  shows "cp_dependencies p = dependencies_of deps n" "distinct (cp_slots p)"
    "0 \<le> cp_desired p \<Longrightarrow> cp_desired p = int (length (cp_slots p))"
    "cp_blocked p \<longleftrightarrow> list_ex is_error (component_graph_findings n g ats @ fst (plan_component ck registry app spec opts counts deps ats g n))"
proof -
  have "distinct (component_slots app n k)" for k
    by (auto simp: component_slots_def distinct_map inj_on_def dest: iffD1 [OF numeral_text.enc_eq_iff])
  then show "cp_dependencies p = dependencies_of deps n" "distinct (cp_slots p)"
    "0 \<le> cp_desired p \<Longrightarrow> cp_desired p = int (length (cp_slots p))"
    "cp_blocked p \<longleftrightarrow> list_ex is_error (component_graph_findings n g ats @ fst (plan_component ck registry app spec opts counts deps ats g n))"
    unfolding assms plan_component_def Let_def by (simp_all add: split_beta component_slots_def)
qed

text \<open>A plan without an error blocks no component and has an acyclic order.\<close>

lemma unblocked_plan:
  fixes registry :: "'p profile_registry"
  assumes "plan = plan_application_execution ck digest registry app spec opts spec_digest shared target" "\<not> xp_blocked plan"
  shows "fst (topological_order spec (snd (infer_dependencies spec))) = []"
    and "jm_get (xp_components plan) n = Some p \<Longrightarrow> \<not> cp_blocked p"
proof -
  let ?g = "graph_findings ck spec opts shared target"
  let ?ats = "fst (plan_volume_attachments ck spec shared (snd (resolve_site_instance_counts spec opts)))"
  let ?pc = "plan_component ck registry app spec opts (snd (resolve_site_instance_counts spec opts)) (snd (infer_dependencies spec)) ?ats ?g"
  have x: "xp_blocked plan \<longleftrightarrow> list_ex is_error (xp_findings plan)"
    and f: "set ?g \<subseteq> set (xp_findings plan)"
    "n \<in> set (obj_keys (fld spec ''components'')) \<Longrightarrow> set (fst (?pc n)) \<subseteq> set (xp_findings plan)" for n
    unfolding assms(1) plan_application_execution_def Let_def by auto
  have "set (fst (topological_order spec (snd (infer_dependencies spec)))) \<subseteq> set ?g"
    unfolding graph_findings_def Let_def by (auto simp: split_beta)
  moreover have "\<forall>e \<in> set ?g. \<not> is_error e" using x f(1) assms(2) by (auto simp: list_ex_iff)
  moreover have "\<forall>e \<in> set (fst (topological_order spec (snd (infer_dependencies spec)))). is_error e"
    using topological_findings_are_errors by blast
  ultimately have "e \<notin> set (fst (topological_order spec (snd (infer_dependencies spec))))" for e by blast
  then show "fst (topological_order spec (snd (infer_dependencies spec))) = []" by (cases "fst (topological_order spec (snd (infer_dependencies spec)))") auto
  assume "jm_get (xp_components plan) n = Some p"
  then have n: "n \<in> set (obj_keys (fld spec ''components''))" "p = snd (?pc n)"
    unfolding planned_components [OF assms(1)] by (auto split: if_splits)
  have "set (component_graph_findings n ?g ?ats) \<subseteq> set ?g" by (auto simp: component_graph_findings_def Let_def)
  with x f n(1) assms(2) show "\<not> cp_blocked p"
    unfolding planned_component_shape(4) [OF n(2)] by (auto simp: list_ex_iff)
qed

text \<open>The execution plan of every compiled manifest can be reconciled against any observed instances:
  a pass never refers to a component the plan does not have.\<close>

lemma compiled_plan_reconciles:
  assumes "doc m" "compile_application_manifest url sha256 m = Inr c"
    and "plan = plan_application_execution ck digest registry app (spec_of c) opts spec_digest shared target"
  shows "reconcile_application plan actual ropts \<noteq> None"
proof -
  note s = compiled_graph [OF assms(1,2)]
  let ?deps = "snd (infer_dependencies (spec_of c))"
  have o: "xp_order plan = snd (topological_order (spec_of c) ?deps)"
    unfolding assms(3) plan_application_execution_def by (simp add: Let_def split_beta)
  have known: "d \<in> set (obj_keys (fld (spec_of c) ''components''))" if "d \<in> set (dependencies_of ?deps n)" for d n
    using admitted.dependency_known [of d url m n] admitted.spec_has_component [of url m d] that
    unfolding s by (simp add: has_own_def)
  have "reconcile_all plan actual ropts (xp_order plan) ([], []) \<noteq> None"
  proof (rule reconcile_all_total)
    fix n assume "n \<in> set (xp_order plan)"
    then have "n \<in> set (obj_keys (fld (spec_of c) ''components''))"
      using admitted.execution_order_facts(2) [of url m] unfolding o s by simp
    then show "\<exists>p. jm_get (xp_components plan) n = Some p \<and> (\<forall>d \<in> set (cp_dependencies p). jm_get (xp_components plan) d \<noteq> None)"
      unfolding planned_components [OF assms(3)] using known by (auto simp: planned_component_shape(1) [OF refl])
  qed
  then show ?thesis by (auto simp: reconcile_application_def split: option.splits)
qed

lemma compiled_plan_reconciles_witness:
  "reconcile_application (plan_application_execution (\<lambda>_. []) (\<lambda>_. None) ([] :: unit profile_registry) ''shop'' (spec_of sample_compiled)
     \<lparr>unresolved_configuration = None, exec_target_site = None, instance_overrides = None\<rparr> None None None) [] (pass_options []) \<noteq> None"
  by (rule compiled_plan_reconciles [OF sample_doc sample_compiles refl])

text \<open>C1. A compiled application converges: when its execution plan has no error and every component has
  one ready instance of the release in each planned slot, admitted and ungated, the reconciler has nothing
  left to do and reports the application ready.\<close>

theorem compiled_application_converges:
  assumes m: "doc m" "compile_application_manifest url sha256 m = Inr c"
    and p: "plan = plan_application_execution ck digest registry app (spec_of c) opts spec_digest shared target"
    and nb: "\<not> xp_blocked plan" and d: "distinct (map in_id actual)"
    and s: "\<And>n p. jm_get (xp_components plan) n = Some p \<Longrightarrow>
       0 \<le> cp_desired p \<and> settled ropts n p (spec_digest_of plan) (live_instances n actual)"
  shows "\<exists>r. reconcile_application plan actual ropts = Some r \<and> rp_actions r = [] \<and> rp_state r = Ready_state"
proof (rule converged_quiet)
  note g = compiled_graph [OF m]
  let ?deps = "snd (infer_dependencies (spec_of c))" and ?names = "obj_keys (fld (spec_of c) ''components'')"
  have o: "xp_order plan = snd (topological_order (spec_of c) ?deps)"
    unfolding p plan_application_execution_def by (simp add: Let_def split_beta)
  note f = admitted.execution_order_facts [of url m, folded g, folded o]
  show "distinct (xp_order plan)" by (rule f(1))
  have keys: "jm_get (xp_components plan) n \<noteq> None \<longleftrightarrow> n \<in> set (xp_order plan)" for n
    unfolding planned_components [OF p] f(2) by simp
  have "fst (topological_order (spec_of c) ?deps) = []" by (rule unblocked_plan(1) [OF p nb])
  then have t: "post_ordered (edges (dependencies_of ?deps) ?names) (rev (xp_order plan))" using f(3,4) by blast
  show "set (cp_dependencies q) \<subseteq> set before"
    if "xp_order plan = before @ n # after" "jm_get (xp_components plan) n = Some q" for before n after q
  proof -
    have "cp_dependencies q = dependencies_of ?deps n"
      using that(2) unfolding planned_components [OF p] by (auto simp: planned_component_shape(1) [OF refl] split: if_splits)
    moreover have "n \<in> set ?names" using that(1) f(2) by auto
    ultimately show ?thesis using post_ordered_before [of _ before n after] t unfolding that(1) by (auto simp: edges_def)
  qed
  show "component_settled plan actual ropts n" if "n \<in> set (xp_order plan)" for n
  proof -
    from that keys obtain q where q: "jm_get (xp_components plan) n = Some q" by blast
    then obtain counts deps ats g' where "q = snd (plan_component ck registry app (spec_of c) opts counts deps ats g' n)"
      unfolding planned_components [OF p] by (auto split: if_splits)
    from planned_component_shape(2,3) [OF this] s [OF q] q unblocked_plan(2) [OF p nb q] show ?thesis
      by (auto simp: component_settled_def)
  qed
qed (use d nb in auto)

lemma sample_spec: "spec_of sample_compiled = compile_spec (snd (validate_application_manifest no_url sample_manifest ''application manifest''))"
proof -
  have "accepted_manifest no_url sample_manifest ''application manifest''
      = Inr (snd (validate_application_manifest no_url sample_manifest ''application manifest''))"
    using sample_valid by (simp add: accepted_manifest_def split_beta)
  then show ?thesis
    using sample_compiles by (auto simp: compile_application_manifest_def Let_def split: option.splits dest: arg_cong [where f = spec_of])
qed

definition sample_plan :: "unit execution_plan" where
  "sample_plan = plan_application_execution (\<lambda>_. []) (\<lambda>_. None) [] ''shop'' (spec_of sample_compiled)
     \<lparr>unresolved_configuration = None, exec_target_site = None, instance_overrides = None\<rparr> (Some ''new'') None None"

definition sample_node :: "node_instance list" where
  "sample_node = [\<lparr>in_id = ''a'', in_component = ''db'', in_slot = ''shop/db/1'', in_release = ''new'', in_configuration = ''c'',
     in_status = Ready, in_endpoints = [], in_drain_deadline = None, in_flight = None\<rparr>]"

lemma compiled_application_converges_witness:
  "\<exists>r. reconcile_application sample_plan sample_node (pass_options []) = Some r \<and> rp_actions r = []"
proof -
  let ?s = "compile_spec (snd (validate_application_manifest no_url sample_manifest ''application manifest''))"
  let ?p = "plan_application_execution (\<lambda>_. []) (\<lambda>_. None) ([] :: unit profile_registry) ''shop'' ?s
     \<lparr>unresolved_configuration = None, exec_target_site = None, instance_overrides = None\<rparr> (Some ''new'') None None"
  have p: "sample_plan = ?p" by (simp add: sample_plan_def sample_spec)
  have nb: "\<not> xp_blocked ?p" by code_simp
  have s: "list_all (\<lambda>(n, q). 0 \<le> cp_desired q \<and> cp_slots q = [''shop/db/1''] \<and> n = ''db'') (xp_components ?p)" by code_simp
  have d: "spec_digest_of ?p = ''new''" by (simp add: plan_application_execution_def Let_def split_beta spec_digest_of_def)
  have "\<exists>r. reconcile_application sample_plan sample_node (pass_options []) = Some r \<and> rp_actions r = [] \<and> rp_state r = Ready_state"
  proof (rule compiled_application_converges [OF sample_doc sample_compiles sample_plan_def])
    show "\<not> xp_blocked sample_plan" using nb p by simp
    show "distinct (map in_id sample_node)" by (simp add: sample_node_def)
    fix n q assume "jm_get (xp_components sample_plan) n = Some q"
    then have "0 \<le> cp_desired q \<and> cp_slots q = [''shop/db/1''] \<and> n = ''db''"
      using s p by (auto simp: list_all_iff dest!: map_of_SomeD)
    then show "0 \<le> cp_desired q \<and> settled (pass_options []) n q (spec_digest_of sample_plan) (live_instances n sample_node)"
      by (simp add: settled_def sample_node_def live_instances_def is_desired_def p d pass_options_def traffic_gate_def)
  qed
  then show ?thesis by blast
qed

end
